(* ===== verification/Prelude.thy ===== *)
theory Prelude
  imports Complex_Main "HOL-Library.AList" "HOL-Library.Char_ord" "HOL-Library.List_Lexorder"
    "HOL-Library.Sublist" "HOL-Library.Word"
begin

text \<open>
  What every component of the development shares: the Rust standard library operations the sources
  use (strings, numbers, durations, results), the association lists that stand for
  \<^verbatim>\<open>HashMap\<close> and \<^verbatim>\<open>DashMap\<close>, and two interfaces stated as locales: the contract of a
  keyed store (with the capacity lemmas its clients need) and the contract of an edge-triggered
  alert machine (with the alternation of its notifications).

  Conventions. A Rust string is the list of its UTF-8 bytes, so \<open>length\<close> is
  \<^verbatim>\<open>str::len\<close>. A \<^verbatim>\<open>Duration\<close> or an \<^verbatim>\<open>Instant\<close> is a natural number
  of nanoseconds, and subtraction on \<open>nat\<close> is the saturating one. A
  \<^verbatim>\<open>DateTime<Utc>\<close> is an integer number of nanoseconds since the epoch. An
  \<^verbatim>\<open>f64\<close> is a real number (no rounding, no NaN, no infinity). A
  \<^verbatim>\<open>Result<T, E>\<close> is \<open>'e + 'a\<close> with the error on the left.
\<close>

named_theorems rust_defs "definitions of the standard library operations"
named_theorems store_simps "look-ups and sizes of association lists after an update"

type_synonym nanos = nat
type_synonym datetime = int
type_synonym 'v alist = "(string \<times> 'v) list"

subsection \<open>Results\<close>

definition and_then :: "'e + 'a \<Rightarrow> ('a \<Rightarrow> 'e + 'b) \<Rightarrow> 'e + 'b" where
  "and_then r f = (case r of Inl e \<Rightarrow> Inl e | Inr a \<Rightarrow> f a)"

definition ok_or :: "'e \<Rightarrow> 'a option \<Rightarrow> 'e + 'a" where
  "ok_or e x = (case x of None \<Rightarrow> Inl e | Some a \<Rightarrow> Inr a)"

definition map_err :: "('e \<Rightarrow> 'f) \<Rightarrow> 'e + 'a \<Rightarrow> 'f + 'a" where
  "map_err f r = (case r of Inl e \<Rightarrow> Inl (f e) | Inr a \<Rightarrow> Inr a)"

definition is_ok :: "'e + 'a \<Rightarrow> bool" where
  "is_ok r = (case r of Inl _ \<Rightarrow> False | Inr _ \<Rightarrow> True)"

definition opt_or :: "'a option \<Rightarrow> 'a option \<Rightarrow> 'a option" where
  "opt_or x y = (case x of None \<Rightarrow> y | Some _ \<Rightarrow> x)"

definition opt_filter :: "('a \<Rightarrow> bool) \<Rightarrow> 'a option \<Rightarrow> 'a option" where
  "opt_filter P x = (case x of None \<Rightarrow> None | Some a \<Rightarrow> if P a then Some a else None)"

definition unwrap_or :: "'a \<Rightarrow> 'a option \<Rightarrow> 'a" where
  "unwrap_or d x = (case x of None \<Rightarrow> d | Some a \<Rightarrow> a)"

text \<open>\<^verbatim>\<open>iter().map(f).collect::<Result<Vec<_>>>()\<close>: the first error wins.\<close>

fun try_map :: "('a \<Rightarrow> 'e + 'b) \<Rightarrow> 'a list \<Rightarrow> 'e + 'b list" where
  "try_map f [] = Inr []"
| "try_map f (x # xs) =
     (case f x of
        Inl e \<Rightarrow> Inl e
      | Inr y \<Rightarrow> (case try_map f xs of Inl e \<Rightarrow> Inl e | Inr ys \<Rightarrow> Inr (y # ys)))"

lemma and_then_simps [simp]:
  "and_then (Inl e) f = Inl e"
  "and_then (Inr a) f = f a"
  by (simp_all add: and_then_def)

lemma and_then_Inr_iff [simp]:
  "and_then r f = Inr b \<longleftrightarrow> (\<exists>a. r = Inr a \<and> f a = Inr b)"
  by (auto simp: and_then_def split: sum.splits)

lemma ok_or_simps [simp]:
  "ok_or e None = Inl e"
  "ok_or e (Some a) = Inr a"
  "ok_or e x = Inr a \<longleftrightarrow> x = Some a"
  by (auto simp: ok_or_def split: option.splits)

lemma map_err_simps [simp]:
  "map_err f (Inl e) = Inl (f e)"
  "map_err f (Inr a) = Inr a"
  "map_err f r = Inr a \<longleftrightarrow> r = Inr a"
  by (auto simp: map_err_def split: sum.splits)

lemma is_ok_simps [simp]: "is_ok (Inl e) \<longleftrightarrow> False" "is_ok (Inr a) \<longleftrightarrow> True"
  by (simp_all add: is_ok_def)

lemma is_ok_iff: "is_ok r \<longleftrightarrow> (\<exists>a. r = Inr a)"
  by (cases r) auto

lemma opt_or_simps [simp]: "opt_or None y = y" "opt_or (Some a) y = Some a"
  by (simp_all add: opt_or_def)

lemma opt_filter_simps [simp]:
  "opt_filter P None = None"
  "opt_filter P (Some a) = (if P a then Some a else None)"
  by (simp_all add: opt_filter_def)

lemma opt_filter_eq_Some [simp]: "opt_filter P x = Some a \<longleftrightarrow> x = Some a \<and> P a"
  by (cases x) auto

lemma unwrap_or_simps [simp]: "unwrap_or d None = d" "unwrap_or d (Some a) = a"
  by (simp_all add: unwrap_or_def)

lemma try_map_Inr_iff: "try_map f xs = Inr ys \<longleftrightarrow> list_all2 (\<lambda>x y. f x = Inr y) xs ys"
proof (induction xs arbitrary: ys)
  case Nil
  then show ?case by auto
next
  case (Cons x xs)
  show ?case
    by (auto simp: list_all2_Cons1 simp flip: Cons.IH split: sum.splits)
qed

subsection \<open>Strings\<close>

text \<open>The UTF-8 encodings of the characters with the Unicode property White\_Space.\<close>

definition ws_encodings :: "string list" where
  "ws_encodings =
     [[CHR 0x09], [CHR 0x0A], [CHR 0x0B], [CHR 0x0C], [CHR 0x0D], [CHR 0x20],
      [CHR 0xC2, CHR 0x85], [CHR 0xC2, CHR 0xA0], [CHR 0xE1, CHR 0x9A, CHR 0x80],
      [CHR 0xE2, CHR 0x80, CHR 0x80], [CHR 0xE2, CHR 0x80, CHR 0x81],
      [CHR 0xE2, CHR 0x80, CHR 0x82], [CHR 0xE2, CHR 0x80, CHR 0x83],
      [CHR 0xE2, CHR 0x80, CHR 0x84], [CHR 0xE2, CHR 0x80, CHR 0x85],
      [CHR 0xE2, CHR 0x80, CHR 0x86], [CHR 0xE2, CHR 0x80, CHR 0x87],
      [CHR 0xE2, CHR 0x80, CHR 0x88], [CHR 0xE2, CHR 0x80, CHR 0x89],
      [CHR 0xE2, CHR 0x80, CHR 0x8A], [CHR 0xE2, CHR 0x80, CHR 0xA8],
      [CHR 0xE2, CHR 0x80, CHR 0xA9], [CHR 0xE2, CHR 0x80, CHR 0xAF],
      [CHR 0xE2, CHR 0x81, CHR 0x9F], [CHR 0xE3, CHR 0x80, CHR 0x80]]"

function strip_all :: "string list \<Rightarrow> string \<Rightarrow> string" where
  "strip_all ws s =
     (case find (\<lambda>w. w \<noteq> [] \<and> prefix w s) ws of
        None \<Rightarrow> s
      | Some w \<Rightarrow> strip_all ws (drop (length w) s))"
  by pat_completeness auto
termination
  by (relation "measure (\<lambda>(ws, s). length s)")
    (auto simp: find_Some_iff prefix_def)

declare strip_all.simps [simp del]

definition str_trim :: "string \<Rightarrow> string" where
  "str_trim s =
     rev (strip_all (map rev ws_encodings) (rev (strip_all ws_encodings s)))"

definition strip_prefix :: "string \<Rightarrow> string \<Rightarrow> string option" where
  "strip_prefix p s = (if prefix p s then Some (drop (length p) s) else None)"

primrec str_find :: "string \<Rightarrow> string \<Rightarrow> nat option" where
  "str_find p [] = (if p = [] then Some 0 else None)"
| "str_find p (c # t) =
     (if prefix p (c # t) then Some 0 else map_option Suc (str_find p t))"

definition split_once :: "string \<Rightarrow> string \<Rightarrow> (string \<times> string) option" where
  "split_once d s =
     (case str_find d s of
        None \<Rightarrow> None
      | Some i \<Rightarrow> Some (take i s, drop (i + length d) s))"

fun split_on :: "char \<Rightarrow> string \<Rightarrow> string list" where
  "split_on c [] = [[]]"
| "split_on c (x # xs) =
     (if x = c then [] # split_on c xs
      else (case split_on c xs of [] \<Rightarrow> [[x]] | y # ys \<Rightarrow> (x # y) # ys))"

text \<open>Number of Unicode characters: the bytes that are not UTF-8 continuation bytes.\<close>

definition chars_count :: "string \<Rightarrow> nat" where
  "chars_count s = length (filter (\<lambda>c. (of_char c :: nat) div 64 \<noteq> 2) s)"

definition ascii_lower_char :: "char \<Rightarrow> char" where
  "ascii_lower_char c =
     (if 65 \<le> (of_char c :: nat) \<and> (of_char c :: nat) \<le> 90 then char_of ((of_char c :: nat) + 32) else c)"

definition ascii_lower :: "string \<Rightarrow> string" where
  "ascii_lower s = map ascii_lower_char s"

definition is_ascii_alphabetic :: "char \<Rightarrow> bool" where
  "is_ascii_alphabetic c =
     (let n = (of_char c :: nat) in (65 \<le> n \<and> n \<le> 90) \<or> (97 \<le> n \<and> n \<le> 122))"

lemma split_on_nonempty [simp]: "split_on c s \<noteq> []"
  by (induction s) (auto split: list.splits)

lemma split_on_free: "c \<notin> set s \<Longrightarrow> split_on c s = [s]"
  by (induction s) auto

lemma split_on_sep: "split_on c (a @ c # b) = split_on c a @ split_on c b"
  by (induction a) (auto split: list.split)

lemma strip_all_none: "find (\<lambda>w. w \<noteq> [] \<and> prefix w s) ws = None \<Longrightarrow> strip_all ws s = s"
  by (simp add: strip_all.simps)

lemma strip_all_Nil [simp]: "strip_all ws [] = []"
proof -
  have "find (\<lambda>w. w \<noteq> [] \<and> prefix w []) ws = None"
    by (simp add: find_None_iff)
  then show ?thesis by (rule strip_all_none)
qed

lemma str_trim_Nil [simp]: "str_trim [] = []"
  by (simp add: str_trim_def)

lemma length_strip_all: "length (strip_all ws s) \<le> length s"
proof (induction ws s rule: strip_all.induct)
  case (1 ws s)
  show ?case
  proof (cases "find (\<lambda>w. w \<noteq> [] \<and> prefix w s) ws")
    case None
    then show ?thesis by (simp add: strip_all_none)
  next
    case (Some w)
    with "1.IH" [OF Some] show ?thesis by (simp add: strip_all.simps [of ws s])
  qed
qed

lemma length_str_trim: "length (str_trim s) \<le> length s"
proof -
  have "length (str_trim s) \<le> length (rev (strip_all ws_encodings s))"
    by (simp add: str_trim_def length_strip_all del: length_rev)
      (simp add: order_trans [OF length_strip_all])
  also have "\<dots> \<le> length s" by (simp add: length_strip_all)
  finally show ?thesis .
qed

lemma str_find_Some_bound: "str_find p s = Some i \<Longrightarrow> i + length p \<le> length s"
proof (induction s arbitrary: i)
  case Nil
  then show ?case by (auto split: if_splits)
next
  case (Cons c t)
  then show ?case by (auto split: if_splits dest: prefix_length_le)
qed

lemma str_find_prefix: "str_find p s = Some i \<Longrightarrow> prefix p (drop i s)"
  by (induction s arbitrary: i) (auto split: if_splits)

lemma str_find_decomp:
  assumes "str_find p s = Some i"
  shows "s = take i s @ p @ drop (i + length p) s"
proof -
  from str_find_prefix [OF assms] obtain r where r: "drop i s = p @ r"
    by (auto elim: prefixE)
  have "drop (length p) (drop i s) = r" by (simp add: r)
  then have "drop (i + length p) s = r" by (simp add: add.commute)
  with r show ?thesis by (metis append_take_drop_id)
qed

subsection \<open>Numbers\<close>

definition u64_max :: nat where
  "u64_max = 2 ^ 64 - 1"

definition u32_max :: nat where
  "u32_max = 2 ^ 32 - 1"

definition digit_val :: "char \<Rightarrow> nat option" where
  "digit_val c =
     (let n = (of_char c :: nat) in if 48 \<le> n \<and> n \<le> 57 then Some (n - 48) else None)"

fun digits_val :: "nat \<Rightarrow> string \<Rightarrow> nat option" where
  "digits_val acc [] = Some acc"
| "digits_val acc (c # cs) =
     (case digit_val c of None \<Rightarrow> None | Some d \<Rightarrow> digits_val (10 * acc + d) cs)"

text \<open>\<^verbatim>\<open>str::parse::<uN>()\<close>: an optional sign \<open>+\<close>, at least one digit, no overflow.\<close>

definition parse_uint :: "nat \<Rightarrow> string \<Rightarrow> nat option" where
  "parse_uint mx s =
     (let ds = (case s of [] \<Rightarrow> [] | c # cs \<Rightarrow> if c = CHR ''+'' then cs else s)
      in if ds = [] then None
         else (case digits_val 0 ds of
                 None \<Rightarrow> None
               | Some n \<Rightarrow> if n \<le> mx then Some n else None))"

definition digit_char :: "nat \<Rightarrow> char" where
  "digit_char d = char_of (48 + d)"

fun show_nat :: "nat \<Rightarrow> string" where
  "show_nat n = (if n < 10 then [digit_char n] else show_nat (n div 10) @ [digit_char (n mod 10)])"

declare show_nat.simps [simp del]

definition show_int :: "int \<Rightarrow> string" where
  "show_int i = (if i < 0 then CHR ''-'' # show_nat (nat (- i)) else show_nat (nat i))"

definition clamp_int :: "int \<Rightarrow> int \<Rightarrow> int \<Rightarrow> int" where
  "clamp_int lo hi x = (if x < lo then lo else if x > hi then hi else x)"

lemma clamp_int_bounds: "lo \<le> hi \<Longrightarrow> lo \<le> clamp_int lo hi x \<and> clamp_int lo hi x \<le> hi"
  by (simp add: clamp_int_def)

lemma clamp_int_id [simp]: "lo \<le> x \<Longrightarrow> x \<le> hi \<Longrightarrow> clamp_int lo hi x = x"
  by (simp add: clamp_int_def)

lemma digits_val_append:
  "digits_val acc (xs @ ys) =
     (case digits_val acc xs of None \<Rightarrow> None | Some a \<Rightarrow> digits_val a ys)"
  by (induction xs arbitrary: acc) (auto split: option.splits)

lemma digit_val_char: "d < 10 \<Longrightarrow> digit_val (digit_char d) = Some d"
  by (simp add: digit_val_def digit_char_def)

lemma digits_val_show_nat: "digits_val 0 (show_nat n) = Some n"
proof (induction n rule: show_nat.induct)
  case (1 n)
  show ?case
  proof (cases "n < 10")
    case True
    then show ?thesis by (simp add: show_nat.simps [of n] digit_val_char)
  next
    case False
    with "1.IH" show ?thesis
      by (simp add: show_nat.simps [of n] digits_val_append digit_val_char)
  qed
qed

lemma show_nat_nonempty [simp]: "show_nat n \<noteq> []"
  by (subst show_nat.simps) simp

lemma show_nat_digits: "c \<in> set (show_nat n) \<Longrightarrow> 48 \<le> (of_char c :: nat) \<and> (of_char c :: nat) \<le> 57"
proof (induction n rule: show_nat.induct)
  case (1 n)
  have dig: "48 \<le> (of_char (digit_char d) :: nat) \<and> (of_char (digit_char d) :: nat) \<le> 57"
    if "d < 10" for d
    using that by (simp add: digit_char_def)
  show ?case
  proof (cases "n < 10")
    case True
    with "1.prems" dig show ?thesis by (simp add: show_nat.simps [of n])
  next
    case False
    with "1.prems" "1.IH" dig [of "n mod 10"] show ?thesis
      by (auto simp: show_nat.simps [of n])
  qed
qed

lemma parse_uint_show_nat: "n \<le> mx \<Longrightarrow> parse_uint mx (show_nat n) = Some n"
proof -
  assume n: "n \<le> mx"
  obtain c cs where s: "show_nat n = c # cs"
    using show_nat_nonempty by (cases "show_nat n") blast+
  have "c \<noteq> CHR ''+''"
    using show_nat_digits [of c n] s by auto
  with s n digits_val_show_nat [of n] show ?thesis
    by (simp add: parse_uint_def)
qed

subsection \<open>Durations\<close>

definition secs :: "nat \<Rightarrow> nanos" where
  "secs n = n * 1000000000"

definition millis :: "nat \<Rightarrow> nanos" where
  "millis n = n * 1000000"

definition as_secs :: "nanos \<Rightarrow> nat" where
  "as_secs d = d div 1000000000"

definition as_secs_f64 :: "nanos \<Rightarrow> real" where
  "as_secs_f64 d = real d / 1000000000"

text \<open>\<^verbatim>\<open>(a - b).to_std().unwrap_or(Duration::ZERO)\<close> on two dates.\<close>

definition since :: "datetime \<Rightarrow> datetime \<Rightarrow> nanos" where
  "since a b = nat (a - b)"

lemma as_secs_f64_nonneg [simp]: "0 \<le> as_secs_f64 d"
  by (simp add: as_secs_f64_def)

lemma as_secs_f64_mono: "d \<le> e \<Longrightarrow> as_secs_f64 d \<le> as_secs_f64 e"
  by (simp add: as_secs_f64_def divide_right_mono)

lemma as_secs_f64_diff: "b \<le> a \<Longrightarrow> as_secs_f64 (a - b) = as_secs_f64 a - as_secs_f64 b"
  by (simp add: as_secs_f64_def of_nat_diff diff_divide_distrib)

subsection \<open>Maps as association lists\<close>

text \<open>
  A \<^verbatim>\<open>HashMap\<close>, \<^verbatim>\<open>DashMap\<close> or \<^verbatim>\<open>BTreeMap\<close> is an association
  list with distinct keys, in the iteration order of the map. The order is unspecified in Rust;
  nothing below depends on it beyond the choice among equal minima.
\<close>

definition al_get :: "('k \<times> 'v) list \<Rightarrow> 'k \<Rightarrow> 'v option" where
  "al_get m k = map_of m k"

definition al_put :: "'k \<Rightarrow> 'v \<Rightarrow> ('k \<times> 'v) list \<Rightarrow> ('k \<times> 'v) list" where
  "al_put k v m = AList.update k v m"

definition al_del :: "'k \<Rightarrow> ('k \<times> 'v) list \<Rightarrow> ('k \<times> 'v) list" where
  "al_del k m = AList.delete k m"

definition al_retain :: "('k \<Rightarrow> 'v \<Rightarrow> bool) \<Rightarrow> ('k \<times> 'v) list \<Rightarrow> ('k \<times> 'v) list" where
  "al_retain P m = filter (\<lambda>(k, v). P k v) m"

definition al_ok :: "('k \<times> 'v) list \<Rightarrow> bool" where
  "al_ok m = distinct (map fst m)"

text \<open>\<^verbatim>\<open>iter().min_by_key(f)\<close>: the first entry with the least key.\<close>

fun min_by_key :: "('a \<Rightarrow> 'b::linorder) \<Rightarrow> 'a list \<Rightarrow> 'a option" where
  "min_by_key f [] = None"
| "min_by_key f (x # xs) =
     (case min_by_key f xs of
        None \<Rightarrow> Some x
      | Some y \<Rightarrow> if f y < f x then Some y else Some x)"

lemma al_get_Nil [simp, store_simps]: "al_get [] k = None"
  by (simp add: al_get_def)

lemma al_get_put [store_simps]: "al_get (al_put k v m) k' = (if k' = k then Some v else al_get m k')"
  by (simp add: al_get_def al_put_def update_conv')

lemma al_get_del [store_simps]: "al_get (al_del k m) k' = (if k' = k then None else al_get m k')"
  by (simp add: al_get_def al_del_def AList.delete_conv')

lemma al_ok_Nil [simp]: "al_ok []"
  by (simp add: al_ok_def)

lemma al_ok_put [simp]: "al_ok m \<Longrightarrow> al_ok (al_put k v m)"
  by (simp add: al_ok_def al_put_def distinct_update)

lemma al_ok_del [simp]: "al_ok m \<Longrightarrow> al_ok (al_del k m)"
  by (simp add: al_ok_def al_del_def distinct_delete)

lemma al_ok_retain [simp]: "al_ok m \<Longrightarrow> al_ok (al_retain P m)"
  by (induction m) (auto simp: al_ok_def al_retain_def)

lemma al_get_retain [store_simps]:
  "al_ok m \<Longrightarrow> al_get (al_retain P m) k = opt_filter (P k) (al_get m k)"
proof (induction m)
  case Nil
  then show ?case by (simp add: al_retain_def)
next
  case (Cons kv m)
  obtain k' v where kv: "kv = (k', v)" by (cases kv)
  have "k' \<notin> fst ` set m" using Cons.prems by (simp add: al_ok_def kv)
  then have none: "map_of m k' = None" by (simp add: map_of_eq_None_iff)
  have "map_of (al_retain P m) k' = None"
    using \<open>k' \<notin> fst ` set m\<close> by (auto simp: al_retain_def map_of_eq_None_iff)
  with none Cons show ?case
    by (auto simp: al_get_def al_retain_def kv al_ok_def)
qed

lemma al_get_None_iff: "al_get m k = None \<longleftrightarrow> k \<notin> fst ` set m"
  by (simp add: al_get_def map_of_eq_None_iff)

lemma length_al_put:
  "length (al_put k v m) = (if al_get m k = None then Suc (length m) else length m)"
  by (induction m) (auto simp: al_put_def al_get_def)

lemma length_al_del:
  "al_ok m \<Longrightarrow> length (al_del k m) = (if al_get m k = None then length m else length m - 1)"
proof (induction m)
  case Nil
  then show ?case by (simp add: al_del_def)
next
  case (Cons kv m)
  obtain k' v where kv: "kv = (k', v)" by (cases kv)
  have "al_get m k' = None" if "k' = k"
    using Cons.prems by (simp add: al_ok_def kv al_get_None_iff)
  moreover have "al_get m k \<noteq> None \<Longrightarrow> m \<noteq> []" by auto
  ultimately show ?case
    using Cons by (auto simp: al_del_def al_get_def kv al_ok_def AList.delete_eq neq_Nil_conv)
qed

lemma length_al_retain: "length (al_retain P m) \<le> length m"
  by (simp add: al_retain_def)

lemma al_get_in_set: "al_get m k = Some v \<Longrightarrow> (k, v) \<in> set m"
  by (simp add: al_get_def map_of_SomeD)

lemma al_get_eq_SomeI: "al_ok m \<Longrightarrow> (k, v) \<in> set m \<Longrightarrow> al_get m k = Some v"
  by (simp add: al_get_def al_ok_def)

lemma min_by_key_None [simp]: "min_by_key f xs = None \<longleftrightarrow> xs = []"
  by (cases xs) (auto split: option.splits)

lemma min_by_key_in: "min_by_key f xs = Some x \<Longrightarrow> x \<in> set xs"
  by (induction xs arbitrary: x) (auto split: option.splits if_splits)

lemma min_by_key_least: "min_by_key f xs = Some x \<Longrightarrow> y \<in> set xs \<Longrightarrow> f x \<le> f y"
proof (induction xs arbitrary: x)
  case Nil
  then show ?case by simp
next
  case (Cons z zs)
  then show ?case
    by (cases "min_by_key f zs") (force split: if_splits)+
qed

subsection \<open>Interface: a keyed store\<close>

text \<open>
  What the rate limiter, the anomaly guard, the registries and the alert states use of a
  concurrent map: look-up, insertion, removal, \<^verbatim>\<open>retain\<close> and \<^verbatim>\<open>len\<close>.
\<close>

locale keyed_store =
  fixes get :: "'m \<Rightarrow> 'k \<Rightarrow> 'v option"
    and put :: "'k \<Rightarrow> 'v \<Rightarrow> 'm \<Rightarrow> 'm"
    and del :: "'k \<Rightarrow> 'm \<Rightarrow> 'm"
    and retain :: "('k \<Rightarrow> 'v \<Rightarrow> bool) \<Rightarrow> 'm \<Rightarrow> 'm"
    and len :: "'m \<Rightarrow> nat"
    and invar :: "'m \<Rightarrow> bool"
  assumes get_put: "get (put k v m) k' = (if k' = k then Some v else get m k')"
    and get_del: "get (del k m) k' = (if k' = k then None else get m k')"
    and get_retain: "invar m \<Longrightarrow> get (retain P m) k = opt_filter (P k) (get m k)"
    and len_put: "len (put k v m) = (if get m k = None then Suc (len m) else len m)"
    and len_del: "invar m \<Longrightarrow> len (del k m) = (if get m k = None then len m else len m - 1)"
    and len_retain: "len (retain P m) \<le> len m"
    and invar_put: "invar m \<Longrightarrow> invar (put k v m)"
    and invar_del: "invar m \<Longrightarrow> invar (del k m)"
    and invar_retain: "invar m \<Longrightarrow> invar (retain P m)"
begin

lemma put_within:
  assumes "len m \<le> cap" and "get m k \<noteq> None \<or> len m < cap"
  shows "len (put k v m) \<le> cap"
  using assms by (auto simp: len_put)

lemma put_known_len: "get m k \<noteq> None \<Longrightarrow> len (put k v m) = len m"
  by (simp add: len_put)

lemma del_makes_room:
  assumes "invar m" and "get m k \<noteq> None" and "len m \<le> cap" and "0 < cap"
  shows "len (del k m) < cap"
  using assms by (auto simp: len_del)

lemma get_put_same: "get (put k v m) k = Some v"
  by (simp add: get_put)

lemma get_put_other: "k' \<noteq> k \<Longrightarrow> get (put k v m) k' = get m k'"
  by (simp add: get_put)

end

interpretation al: keyed_store al_get al_put al_del al_retain length al_ok
  by unfold_locales
    (simp_all add: store_simps length_al_put length_al_del length_al_retain)

subsection \<open>Interface: an edge-triggered alert machine\<close>

text \<open>
  Three components raise alerts the same way: they keep a flag \<open>firing\<close> and emit a
  notification exactly when an input flips it. The client lemma is that, over any run, the
  emitted notifications alternate, starting with \<open>Firing\<close> from a quiet state, and the last
  one tells the final value of the flag.
\<close>

datatype alert_state = Firing | Resolved

definition edge :: "bool \<Rightarrow> bool \<Rightarrow> alert_state option" where
  "edge was now_firing =
     (if \<not> was \<and> now_firing then Some Firing
      else if was \<and> \<not> now_firing then Some Resolved else None)"

fun alternates :: "bool \<Rightarrow> alert_state list \<Rightarrow> bool" where
  "alternates f [] = True"
| "alternates f (Firing # xs) = (\<not> f \<and> alternates True xs)"
| "alternates f (Resolved # xs) = (f \<and> alternates False xs)"

fun final_flag :: "bool \<Rightarrow> alert_state list \<Rightarrow> bool" where
  "final_flag f [] = f"
| "final_flag f (x # xs) = final_flag (x = Firing) xs"

locale edge_machine =
  fixes step :: "'s \<Rightarrow> 'i \<Rightarrow> 's \<times> alert_state option"
    and firing :: "'s \<Rightarrow> bool"
  assumes step_edge: "step s i = (t, out) \<Longrightarrow> out = edge (firing s) (firing t)"
begin

fun run :: "'s \<Rightarrow> 'i list \<Rightarrow> 's \<times> alert_state list" where
  "run s [] = (s, [])"
| "run s (i # is) =
     (let (t, out) = step s i; (u, outs) = run t is
      in (u, (case out of None \<Rightarrow> outs | Some x \<Rightarrow> x # outs)))"

lemma run_alternates:
  "run s is = (t, outs) \<Longrightarrow> alternates (firing s) outs \<and> final_flag (firing s) outs = firing t"
proof (induction "is" arbitrary: s t outs)
  case Nil
  then show ?case by simp
next
  case (Cons i "is")
  obtain s' out where s': "step s i = (s', out)" by (cases "step s i")
  obtain outs' where r: "run s' is = (t, outs')"
    using Cons.prems s' by (cases "run s' is") (auto simp: Let_def)
  from Cons.IH [OF r] have "alternates (firing s') outs' \<and> final_flag (firing s') outs' = firing t" .
  with Cons.prems s' r step_edge [OF s'] show ?case
    by (auto simp: edge_def split: if_splits option.splits)
qed

end

end
