(* ===== verification/Config.thy ===== *)
theory Config
  imports Prelude
begin

text \<open>
  \<^verbatim>\<open>backend/src/config.rs\<close>: the configuration records every component reads, and their
  construction from environment variables. The environment is a function from names to values
  (\<open>None\<close> for an unset variable); reading a PEM file, parsing a socket address and parsing a
  decimal \<^verbatim>\<open>f64\<close> are arguments of the definitions that use them. The error messages are
  a datatype that keeps their variable parts. Arithmetic on \<^verbatim>\<open>u64\<close> wraps, as in the
  release profile of the workspace (no \<^verbatim>\<open>overflow-checks\<close>).
\<close>

subsection \<open>Configuration records\<close>

datatype ip_addr = V4 "32 word" | V6 "128 word"

definition is_unspecified :: "ip_addr \<Rightarrow> bool" where
  "is_unspecified ip = (case ip of V4 w \<Rightarrow> w = 0 | V6 w \<Rightarrow> w = 0)"

record validation_limits =
  max_batch_events :: nat
  max_payload_bytes :: nat
  max_properties_bytes :: nat
  max_string_len :: nat
  max_json_depth :: nat
  max_past_skew :: nanos
  max_future_skew :: nanos
  max_otlp_record_bytes :: nat

record rate_limit_config =
  global_per_sec :: real
  global_burst :: real
  session_per_sec :: real
  session_burst :: real
  ip_session_cap :: nat
  ip_session_window :: nanos
  max_tracked_sessions :: nat
  max_tracked_ips :: nat

record anomaly_config =
  bad_requests_threshold :: nat
  bad_window :: nanos
  ban_duration :: nanos
  anomaly_max_tracked_ips :: nat

datatype algorithm = HS256 | HS384 | HS512 | ES256 | ES384 | RS256 | RS384 | RS512
  | PS256 | PS384 | PS512 | EdDSA

datatype key_source =
    Pem string algorithm "string option"
  | Jwks string

record token_config =
  token_enabled :: bool
  key_source :: "key_source option"
  algorithms :: "algorithm list"
  issuer :: "string option"
  audience :: "string option"
  leeway_secs :: nat
  jwks_refresh :: nanos

datatype cors_origins = CorsList "string list" | CorsAny

datatype logs_auth = Static string | Jwt | NoAuth

record alerting_config =
  rules_file :: "string option"
  eval_interval :: nanos
  slack_bot_token :: "string option"
  slack_channel :: "string option"
  smtp_host :: "string option"
  smtp_port :: nat
  smtp_username :: "string option"
  smtp_password :: "string option"
  email_from :: "string option"
  email_to :: "string list"

record config =
  bind_addr :: string
  grpc_enabled :: bool
  grpc_bind_addr :: string
  database_url :: string
  db_max_connections :: nat
  flush_interval :: nanos
  flush_batch_size :: nat
  channel_capacity :: nat
  retention_days :: int
  partition_future_days :: int
  max_logs_records :: nat
  max_logs_payload_bytes :: nat
  request_timeout :: nanos
  trust_forwarded_for :: bool
  cfg_limits :: validation_limits
  cfg_rate_limit :: rate_limit_config
  cfg_anomaly :: anomaly_config
  cfg_token :: token_config
  cfg_logs_auth :: logs_auth
  cfg_query_auth :: logs_auth
  mcp_enabled :: bool
  cfg_cors :: cors_origins
  cfg_alerting :: alerting_config

datatype config_error =
    DurationEmpty
  | DurationNoUnit
  | DurationBadValue
  | DurationUnknownUnit string
  | BadVariable string
  | BadVariableCause string config_error
  | MissingVariable string
  | BadAlgorithm string
  | EmptyAlgorithms
  | NoTokenKey
  | UnreadableFile string
  | StaticWithoutToken
  | BadAuthMode string
  | WildcardCors
  | TokenDisabled
  | AlgNotAccepted algorithm
  | InField string config_error
  | MissingField string
  | UnterminatedPlaceholder
  | EmptyPlaceholder
  | UnsetVariable string
  | UnknownTable string
  | EmptyTables
  | InvalidToml
  | InvalidStructure
  | InvalidRule
  | TwoAlertChannels
  | NoAlertChannel

type_synonym env = "string \<Rightarrow> string option"

subsection \<open>Durations\<close>

definition mul_u64 :: "nat \<Rightarrow> nat \<Rightarrow> nat" where
  "mul_u64 a b = (a * b) mod 2 ^ 64"

text \<open>Byte index of the first ASCII letter (\<^verbatim>\<open>s.find(|c| c.is_ascii_alphabetic())\<close>).\<close>

fun find_alpha :: "string \<Rightarrow> nat option" where
  "find_alpha [] = None"
| "find_alpha (c # cs) =
     (if is_ascii_alphabetic c then Some 0 else map_option Suc (find_alpha cs))"

definition parse_duration :: "string \<Rightarrow> config_error + nanos" where
  "parse_duration s0 =
     (let s = str_trim s0 in
      if s = [] then Inl DurationEmpty
      else (case find_alpha s of
              None \<Rightarrow> Inl DurationNoUnit
            | Some i \<Rightarrow>
                (let num = take i s; unit = drop i s in
                 case parse_uint u64_max (str_trim num) of
                   None \<Rightarrow> Inl DurationBadValue
                 | Some value \<Rightarrow>
                     if unit = ''ms'' then Inr (millis value)
                     else if unit = ''s'' then Inr (secs value)
                     else if unit = ''m'' then Inr (secs (mul_u64 value 60))
                     else if unit = ''h'' then Inr (secs (mul_u64 value 3600))
                     else if unit = ''d'' then Inr (secs (mul_u64 value 86400))
                     else Inl (DurationUnknownUnit unit))))"

subsection \<open>Reading the environment\<close>

definition env_str :: "env \<Rightarrow> string \<Rightarrow> string \<Rightarrow> string" where
  "env_str env key d = unwrap_or d (env key)"

definition env_parse :: "env \<Rightarrow> (string \<Rightarrow> 'a option) \<Rightarrow> string \<Rightarrow> 'a \<Rightarrow> config_error + 'a" where
  "env_parse env parse key d =
     (case env key of
        Some v \<Rightarrow> ok_or (BadVariable key) (parse (str_trim v))
      | None \<Rightarrow> Inr d)"

definition env_bool :: "env \<Rightarrow> string \<Rightarrow> bool \<Rightarrow> config_error + bool" where
  "env_bool env key d =
     (case env key of
        Some v \<Rightarrow>
          (let t = ascii_lower (str_trim v) in
           if t \<in> set [''1'', ''true'', ''yes'', ''on''] then Inr True
           else if t \<in> set [''0'', ''false'', ''no'', ''off''] then Inr False
           else Inl (BadVariable key))
      | None \<Rightarrow> Inr d)"

definition env_duration :: "env \<Rightarrow> string \<Rightarrow> nanos \<Rightarrow> config_error + nanos" where
  "env_duration env key d =
     (case env key of
        Some v \<Rightarrow> map_err (BadVariableCause key) (parse_duration (str_trim v))
      | None \<Rightarrow> Inr d)"

definition env_nonempty :: "env \<Rightarrow> string \<Rightarrow> string option" where
  "env_nonempty env key = opt_filter (\<lambda>s. s \<noteq> []) (env key)"

text \<open>\<^verbatim>\<open>usize\<close>, \<^verbatim>\<open>u64\<close>, \<^verbatim>\<open>u32\<close>, \<^verbatim>\<open>u16\<close> and \<^verbatim>\<open>i64\<close> parsers of the standard library.\<close>

definition parse_i64 :: "string \<Rightarrow> int option" where
  "parse_i64 s =
     (case s of
        CHR ''-'' # ds \<Rightarrow>
          (if ds = [] then None
           else (case digits_val 0 ds of
                   None \<Rightarrow> None
                 | Some n \<Rightarrow> if n \<le> 2 ^ 63 then Some (- int n) else None))
      | _ \<Rightarrow> map_option int (parse_uint (2 ^ 63 - 1) s))"

subsection \<open>Authentication modes and algorithms\<close>

definition resolve :: "string \<Rightarrow> string option \<Rightarrow> bool \<Rightarrow> config_error + logs_auth" where
  "resolve mode static_token0 enabled =
     (let static_token = opt_filter (\<lambda>s. s \<noteq> []) static_token0;
          m = ascii_lower (str_trim mode)
      in if m = ''static'' then ok_or StaticWithoutToken (map_option Static static_token)
         else if m = ''jwt'' then Inr Jwt
         else if m = ''none'' then Inr NoAuth
         else if m = ''auto'' then
           Inr (case static_token of
                  Some t \<Rightarrow> Static t
                | None \<Rightarrow> if enabled then Jwt else NoAuth)
         else Inl (BadAuthMode m))"

definition from_env_vars :: "env \<Rightarrow> string \<Rightarrow> string \<Rightarrow> bool \<Rightarrow> config_error + logs_auth" where
  "from_env_vars env auth_var token_var enabled =
     resolve (env_str env auth_var ''auto'') (env token_var) enabled"

definition parse_alg :: "string \<Rightarrow> config_error + algorithm" where
  "parse_alg s =
     (if s \<in> set [''EdDSA'', ''eddsa'', ''Ed25519''] then Inr EdDSA
      else if s \<in> set [''RS256'', ''rs256''] then Inr RS256
      else Inl (BadAlgorithm s))"

subsection \<open>Token configuration\<close>

definition read_pem_from_env ::
    "(string \<Rightarrow> string option) \<Rightarrow> env \<Rightarrow> config_error + string option" where
  "read_pem_from_env read_file env =
     (case env ''TOKEN_PUBLIC_KEY_PEM'' of
        Some p \<Rightarrow> Inr (Some p)
      | None \<Rightarrow>
          (case env ''TOKEN_PUBLIC_KEY_FILE'' of
             Some path \<Rightarrow>
               (case read_file path of
                  None \<Rightarrow> Inl (UnreadableFile path)
                | Some p \<Rightarrow> Inr (Some p))
           | None \<Rightarrow> Inr None))"

definition key_source_from_env ::
    "(string \<Rightarrow> string option) \<Rightarrow> env \<Rightarrow> config_error + key_source option" where
  "key_source_from_env read_file env =
     (case env ''TOKEN_JWKS_URL'' of
        Some u \<Rightarrow> Inr (Some (Jwks u))
      | None \<Rightarrow>
          and_then (read_pem_from_env read_file env) (\<lambda>p.
            case p of
              Some pm \<Rightarrow>
                and_then (parse_alg (env_str env ''TOKEN_ALG'' ''EdDSA'')) (\<lambda>a.
                  Inr (Some (Pem pm a (env ''TOKEN_KID''))))
            | None \<Rightarrow> Inr None))"

definition token_from_env ::
    "(string \<Rightarrow> string option) \<Rightarrow> env \<Rightarrow> config_error + token_config" where
  "token_from_env read_file env =
     and_then (env_bool env ''TOKEN_ENABLED'' True) (\<lambda>en.
     and_then (try_map (\<lambda>s. parse_alg (str_trim s))
                 (split_on (CHR '','') (env_str env ''TOKEN_ALGORITHMS'' ''EdDSA,RS256''))) (\<lambda>algs.
     if algs = [] then Inl EmptyAlgorithms
     else
     and_then (key_source_from_env read_file env) (\<lambda>ks.
     if en \<and> ks = None then Inl NoTokenKey
     else
     and_then (env_parse env (parse_uint u64_max) ''TOKEN_LEEWAY'' 60) (\<lambda>lw.
     and_then (env_duration env ''TOKEN_JWKS_REFRESH'' (secs 3600)) (\<lambda>rf.
     Inr \<lparr>token_enabled = en, key_source = ks, algorithms = algs,
          issuer = env ''TOKEN_ISSUER'', audience = env ''TOKEN_AUDIENCE'',
          leeway_secs = lw, jwks_refresh = rf\<rparr>)))))"

subsection \<open>CORS and alerting\<close>

definition cors_from_env :: "env \<Rightarrow> cors_origins" where
  "cors_from_env env =
     (let raw = env_str env ''CORS_ALLOWED_ORIGINS'' '''' in
      if str_trim raw = ''*'' then CorsAny
      else CorsList (filter (\<lambda>s. s \<noteq> []) (map str_trim (split_on (CHR '','') raw))))"

definition alerting_from_env :: "env \<Rightarrow> config_error + alerting_config" where
  "alerting_from_env env =
     (let to = filter (\<lambda>s. s \<noteq> []) (map str_trim (split_on (CHR '','') (env_str env ''ALERT_EMAIL_TO'' '''')))
      in and_then (env_duration env ''ALERT_EVAL_INTERVAL'' (secs 60)) (\<lambda>ei.
         and_then (env_parse env (parse_uint 65535) ''SMTP_PORT'' 587) (\<lambda>port.
         Inr \<lparr>rules_file = env_nonempty env ''ALERT_RULES_FILE'', eval_interval = ei,
              slack_bot_token = env_nonempty env ''SLACK_BOT_TOKEN'',
              slack_channel = env_nonempty env ''SLACK_CHANNEL'',
              smtp_host = env_nonempty env ''SMTP_HOST'', smtp_port = port,
              smtp_username = env_nonempty env ''SMTP_USERNAME'',
              smtp_password = env_nonempty env ''SMTP_PASSWORD'',
              email_from = env_nonempty env ''ALERT_EMAIL_FROM'', email_to = to\<rparr>)))"

definition has_notifier :: "alerting_config \<Rightarrow> bool" where
  "has_notifier a =
     ((slack_bot_token a \<noteq> None \<and> slack_channel a \<noteq> None)
      \<or> (smtp_host a \<noteq> None \<and> email_from a \<noteq> None \<and> email_to a \<noteq> []))"

subsection \<open>The whole configuration\<close>

abbreviation env_usize :: "env \<Rightarrow> string \<Rightarrow> nat \<Rightarrow> config_error + nat" where
  "env_usize env \<equiv> env_parse env (parse_uint u64_max)"

definition limits_from_env :: "env \<Rightarrow> config_error + validation_limits" where
  "limits_from_env env =
     and_then (env_usize env ''MAX_BATCH_EVENTS'' 500) (\<lambda>a.
     and_then (env_usize env ''MAX_PAYLOAD_BYTES'' 1048576) (\<lambda>b.
     and_then (env_usize env ''MAX_PROPERTIES_BYTES'' 16384) (\<lambda>c.
     and_then (env_usize env ''MAX_STRING_LEN'' 200) (\<lambda>d.
     and_then (env_usize env ''MAX_JSON_DEPTH'' 16) (\<lambda>e.
     and_then (env_duration env ''MAX_PAST_SKEW'' (secs (31 * 86400))) (\<lambda>f.
     and_then (env_duration env ''MAX_FUTURE_SKEW'' (secs 86400)) (\<lambda>g.
     and_then (env_usize env ''MAX_OTLP_RECORD_BYTES'' 65536) (\<lambda>h.
     Inr \<lparr>max_batch_events = a, max_payload_bytes = b, max_properties_bytes = c,
          max_string_len = d, max_json_depth = e, max_past_skew = f, max_future_skew = g,
          max_otlp_record_bytes = h\<rparr>))))))))"

definition rate_limit_from_env ::
    "(string \<Rightarrow> real option) \<Rightarrow> env \<Rightarrow> config_error + rate_limit_config" where
  "rate_limit_from_env parse_f64 env =
     and_then (env_parse env parse_f64 ''RL_GLOBAL_PER_SEC'' 50000) (\<lambda>a.
     and_then (env_parse env parse_f64 ''RL_GLOBAL_BURST'' 100000) (\<lambda>b.
     and_then (env_parse env parse_f64 ''RL_SESSION_PER_SEC'' 100) (\<lambda>c.
     and_then (env_parse env parse_f64 ''RL_SESSION_BURST'' 1000) (\<lambda>d.
     and_then (env_usize env ''RL_IP_SESSION_CAP'' 200) (\<lambda>e.
     and_then (env_duration env ''RL_IP_SESSION_WINDOW'' (secs 1800)) (\<lambda>f.
     and_then (env_usize env ''RL_MAX_TRACKED_SESSIONS'' 500000) (\<lambda>g.
     and_then (env_usize env ''RL_MAX_TRACKED_IPS'' 200000) (\<lambda>h.
     Inr \<lparr>global_per_sec = a, global_burst = b, session_per_sec = c, session_burst = d,
          ip_session_cap = e, ip_session_window = f, max_tracked_sessions = g,
          max_tracked_ips = h\<rparr>))))))))"

definition anomaly_from_env :: "env \<Rightarrow> config_error + anomaly_config" where
  "anomaly_from_env env =
     and_then (env_parse env (parse_uint u32_max) ''ANOMALY_BAD_THRESHOLD'' 100) (\<lambda>a.
     and_then (env_duration env ''ANOMALY_WINDOW'' (secs 60)) (\<lambda>b.
     and_then (env_duration env ''ANOMALY_BAN_DURATION'' (secs 300)) (\<lambda>c.
     and_then (env_usize env ''ANOMALY_MAX_TRACKED_IPS'' 200000) (\<lambda>d.
     Inr \<lparr>bad_requests_threshold = a, bad_window = b, ban_duration = c,
          anomaly_max_tracked_ips = d\<rparr>))))"

definition from_env ::
    "(string \<Rightarrow> string option) \<Rightarrow> (string \<Rightarrow> string option) \<Rightarrow> (string \<Rightarrow> real option) \<Rightarrow> env
       \<Rightarrow> config_error + config" where
  "from_env read_file parse_addr parse_f64 env =
     and_then (limits_from_env env) (\<lambda>lim.
     and_then (rate_limit_from_env parse_f64 env) (\<lambda>rl.
     and_then (anomaly_from_env env) (\<lambda>an.
     and_then (token_from_env read_file env) (\<lambda>tok.
     and_then (from_env_vars env ''LOGS_AUTH'' ''LOGS_STATIC_TOKEN'' (token_enabled tok)) (\<lambda>la.
     and_then (from_env_vars env ''QUERY_AUTH'' ''QUERY_TOKEN'' (token_enabled tok)) (\<lambda>qa.
     and_then (ok_or (BadVariable ''BIND_ADDR'') (parse_addr (env_str env ''BIND_ADDR'' ''0.0.0.0:8080''))) (\<lambda>ba.
     and_then (ok_or (MissingVariable ''DATABASE_URL'') (env ''DATABASE_URL'')) (\<lambda>db.
     and_then (env_bool env ''GRPC_ENABLED'' False) (\<lambda>ge.
     and_then (ok_or (BadVariable ''GRPC_BIND_ADDR'') (parse_addr (env_str env ''GRPC_BIND_ADDR'' ''0.0.0.0:4317''))) (\<lambda>ga.
     and_then (env_parse env (parse_uint u32_max) ''DB_MAX_CONNECTIONS'' 10) (\<lambda>mc.
     and_then (env_duration env ''FLUSH_INTERVAL'' (millis 200)) (\<lambda>fi.
     and_then (env_usize env ''FLUSH_BATCH_SIZE'' 5000) (\<lambda>fb.
     and_then (env_usize env ''CHANNEL_CAPACITY'' 100000) (\<lambda>cc.
     and_then (env_parse env parse_i64 ''RETENTION_DAYS'' 90) (\<lambda>rd.
     and_then (env_parse env parse_i64 ''PARTITION_FUTURE_DAYS'' 2) (\<lambda>pf.
     and_then (env_usize env ''MAX_LOGS_RECORDS'' 2048) (\<lambda>ml.
     and_then (env_usize env ''MAX_LOGS_PAYLOAD_BYTES'' 4194304) (\<lambda>mp.
     and_then (env_duration env ''REQUEST_TIMEOUT'' (secs 15)) (\<lambda>rt.
     and_then (env_bool env ''TRUST_FORWARDED_FOR'' False) (\<lambda>tf.
     and_then (env_bool env ''MCP_ENABLED'' True) (\<lambda>mcp.
     and_then (alerting_from_env env) (\<lambda>al.
     Inr \<lparr>bind_addr = ba, grpc_enabled = ge, grpc_bind_addr = ga, database_url = db,
          db_max_connections = mc, flush_interval = fi, flush_batch_size = fb,
          channel_capacity = cc, retention_days = rd, partition_future_days = pf,
          max_logs_records = ml, max_logs_payload_bytes = mp, request_timeout = rt,
          trust_forwarded_for = tf, cfg_limits = lim, cfg_rate_limit = rl, cfg_anomaly = an,
          cfg_token = tok, cfg_logs_auth = la, cfg_query_auth = qa, mcp_enabled = mcp,
          cfg_cors = cors_from_env env, cfg_alerting = al\<rparr>))))))))))))))))))))))"

text \<open>\<open>dev\<close> is the Cargo feature of the same name.\<close>

definition enforce_runtime_guards :: "bool \<Rightarrow> config \<Rightarrow> config_error + unit" where
  "enforce_runtime_guards dev c =
     (if dev then Inr ()
      else if cfg_cors c = CorsAny then Inl WildcardCors
      else if \<not> token_enabled (cfg_token c) then Inl TokenDisabled
      else Inr ())"

subsection \<open>Durations: round trip and wrap-around\<close>

lemma find_alpha_digits:
  "\<forall>c \<in> set ds. (of_char c :: nat) \<le> 57 \<Longrightarrow> u \<noteq> [] \<Longrightarrow> is_ascii_alphabetic (hd u) \<Longrightarrow>
   find_alpha (ds @ u) = Some (length ds)"
proof (induction ds)
  case Nil
  then show ?case by (cases u) auto
next
  case (Cons c ds)
  then have "\<not> is_ascii_alphabetic c"
    by (auto simp: is_ascii_alphabetic_def Let_def)
  with Cons show ?case by simp
qed

text \<open>A string that starts and ends with visible ASCII characters is its own trim.\<close>

definition ascii_visible :: "char \<Rightarrow> bool" where
  "ascii_visible c = (33 \<le> (of_char c :: nat) \<and> (of_char c :: nat) < 128)"

lemma no_ws_prefix:
  assumes "ascii_visible c" and "w \<in> set ws_encodings"
  shows "\<not> prefix w (c # s)"
  using assms by (auto simp: ws_encodings_def ascii_visible_def)

lemma no_ws_suffix:
  assumes "ascii_visible c" and "w \<in> set (map rev ws_encodings)"
  shows "\<not> prefix w (c # s)"
  using assms by (auto simp: ws_encodings_def ascii_visible_def)

lemma strip_all_visible:
  assumes "\<And>w. w \<in> set ws \<Longrightarrow> \<not> prefix w (c # s)"
  shows "strip_all ws (c # s) = c # s"
proof -
  have "find (\<lambda>w. w \<noteq> [] \<and> prefix w (c # s)) ws = None"
    using assms by (auto simp: find_None_iff)
  then show ?thesis by (rule strip_all_none)
qed

lemma str_trim_visible:
  assumes "s \<noteq> []" and "ascii_visible (hd s)" and "ascii_visible (last s)"
  shows "str_trim s = s"
proof -
  obtain c t where s: "s = c # t" using assms(1) by (cases s) auto
  have front: "strip_all ws_encodings s = s"
    unfolding s using assms(2) s by (intro strip_all_visible no_ws_prefix) auto
  obtain d u where r: "rev s = d # u" using assms(1) by (cases "rev s") auto
  then have "d = last s" by (metis hd_rev list.sel(1))
  then have "strip_all (map rev ws_encodings) (rev s) = rev s"
    unfolding r using assms(3) by (intro strip_all_visible no_ws_suffix) auto
  then show ?thesis by (simp add: str_trim_def front)
qed

lemma show_nat_visible: "c \<in> set (show_nat n) \<Longrightarrow> ascii_visible c"
  using show_nat_digits [of c n] by (simp add: ascii_visible_def)

lemma show_nat_hd_last [simp]: "ascii_visible (hd (show_nat n))" "ascii_visible (last (show_nat n))"
  using show_nat_visible [of "hd (show_nat n)" n] show_nat_visible [of "last (show_nat n)" n]
  by simp_all

text \<open>The units \<^verbatim>\<open>parse_duration\<close> accepts, with their length in nanoseconds.\<close>

definition duration_units :: "(string \<times> nat) list" where
  "duration_units =
     [(''ms'', 1000000), (''s'', 1000000000), (''m'', 60000000000), (''h'', 3600000000000),
      (''d'', 86400000000000)]"

lemma parse_duration_shape:
  assumes "u \<noteq> []" and "is_ascii_alphabetic (hd u)" and "ascii_visible (last u)" and "n \<le> u64_max"
  shows "parse_duration (show_nat n @ u) =
    (if u = ''ms'' then Inr (millis n)
     else if u = ''s'' then Inr (secs n)
     else if u = ''m'' then Inr (secs (mul_u64 n 60))
     else if u = ''h'' then Inr (secs (mul_u64 n 3600))
     else if u = ''d'' then Inr (secs (mul_u64 n 86400))
     else Inl (DurationUnknownUnit u))"
proof -
  have t: "str_trim (show_nat n @ u) = show_nat n @ u"
    using assms by (intro str_trim_visible) auto
  have f: "find_alpha (show_nat n @ u) = Some (length (show_nat n))"
    using assms show_nat_digits by (intro find_alpha_digits) auto
  have "str_trim (show_nat n) = show_nat n"
    by (intro str_trim_visible) auto
  then have p: "parse_uint u64_max (str_trim (show_nat n)) = Some n"
    using assms(4) by (simp add: parse_uint_show_nat)
  show ?thesis by (simp add: parse_duration_def Let_def t f p)
qed

subsection \<open>What a configuration from the environment guarantees\<close>

lemma parse_alg_asymmetric: "parse_alg s = Inr a \<Longrightarrow> a = EdDSA \<or> a = RS256"
  by (auto simp: parse_alg_def split: if_splits)

lemma parse_algs_asymmetric:
  "try_map (\<lambda>s. parse_alg (str_trim s)) xs = Inr algs \<Longrightarrow> set algs \<subseteq> {EdDSA, RS256}"
proof (induction xs arbitrary: algs)
  case Nil
  then show ?case by simp
next
  case (Cons x xs)
  then show ?case by (auto split: sum.splits dest: parse_alg_asymmetric)
qed

definition key_is_asymmetric :: "key_source option \<Rightarrow> bool" where
  "key_is_asymmetric ks = (case ks of Some (Pem _ a _) \<Rightarrow> a = EdDSA \<or> a = RS256 | _ \<Rightarrow> True)"

lemma key_source_asymmetric:
  "key_source_from_env read_file env = Inr ks \<Longrightarrow> key_is_asymmetric ks"
  by (auto simp: key_source_from_env_def key_is_asymmetric_def and_then_def
      split: option.splits sum.splits dest: parse_alg_asymmetric)

lemma token_from_env_sound:
  assumes "token_from_env read_file env = Inr t"
  shows "set (algorithms t) \<subseteq> {EdDSA, RS256} \<and> algorithms t \<noteq> []
    \<and> key_is_asymmetric (key_source t) \<and> (token_enabled t \<longrightarrow> key_source t \<noteq> None)"
  using assms
  by (auto simp: token_from_env_def split: if_splits dest!: parse_algs_asymmetric key_source_asymmetric)

lemma resolve_no_empty_secret: "resolve mode tok en \<noteq> Inr (Static [])"
  by (auto simp: resolve_def Let_def split: option.splits if_splits)

lemma resolve_open_only_on_demand:
  "resolve mode tok True = Inr NoAuth \<Longrightarrow> ascii_lower (str_trim mode) = ''none''"
  by (auto simp: resolve_def Let_def split: option.splits if_splits)

lemma from_env_parts:
  assumes "from_env read_file parse_addr parse_f64 env = Inr c"
  shows "token_from_env read_file env = Inr (cfg_token c)"
    and "resolve (env_str env ''LOGS_AUTH'' ''auto'') (env ''LOGS_STATIC_TOKEN'')
           (token_enabled (cfg_token c)) = Inr (cfg_logs_auth c)"
    and "resolve (env_str env ''QUERY_AUTH'' ''auto'') (env ''QUERY_TOKEN'')
           (token_enabled (cfg_token c)) = Inr (cfg_query_auth c)"
    and "cfg_cors c = cors_from_env env"
  using assms unfolding from_env_def from_env_vars_def by auto

subsection \<open>Properties\<close>

text \<open>Durations: a number followed by a unit is read as the number times the unit, as long as
  the number of seconds fits in 64 bits.\<close>

theorem parse_duration_units:
  assumes "(u, ns) \<in> set duration_units" and "n \<le> u64_max" and "n * ns \<le> u64_max * 1000000000"
  shows "parse_duration (show_nat n @ u) = Inr (n * ns)"
  using assms parse_duration_shape [of u n]
  by (auto simp: duration_units_def is_ascii_alphabetic_def ascii_visible_def millis_def secs_def
      mul_u64_def u64_max_def Let_def)

lemma parse_duration_units_witness: "parse_duration (show_nat 31 @ ''d'') = Inr (31 * 86400000000000)"
  by (rule parse_duration_units) (simp_all add: duration_units_def u64_max_def)

text \<open>Beyond that the release build wraps: this many days are read as about half an hour.\<close>

lemma parse_duration_wraps: "parse_duration (show_nat 213503982334602 @ ''d'') = Inr (secs 61184)"
  using parse_duration_shape [of "''d''" 213503982334602]
  by (simp add: is_ascii_alphabetic_def ascii_visible_def mul_u64_def u64_max_def)

text \<open>C38. A configuration that passes the guards of a production build is closed: no wildcard CORS,
  tokens verified with a key and with asymmetric algorithms only, and no endpoint without
  authentication or with an empty shared secret unless its mode is the explicit word none.\<close>

theorem production_config_closed:
  assumes "from_env read_file parse_addr parse_f64 env = Inr c"
    and "enforce_runtime_guards False c = Inr ()"
  shows "cfg_cors c \<noteq> CorsAny
    \<and> key_source (cfg_token c) \<noteq> None \<and> key_is_asymmetric (key_source (cfg_token c))
    \<and> set (algorithms (cfg_token c)) \<subseteq> {EdDSA, RS256}
    \<and> cfg_logs_auth c \<noteq> Static [] \<and> cfg_query_auth c \<noteq> Static []
    \<and> (cfg_logs_auth c = NoAuth \<longrightarrow>
         ascii_lower (str_trim (env_str env ''LOGS_AUTH'' ''auto'')) = ''none'')
    \<and> (cfg_query_auth c = NoAuth \<longrightarrow>
         ascii_lower (str_trim (env_str env ''QUERY_AUTH'' ''auto'')) = ''none'')"
proof -
  note p = from_env_parts [OF assms(1)]
  from assms(2) have g: "cfg_cors c \<noteq> CorsAny" "token_enabled (cfg_token c)"
    by (auto simp: enforce_runtime_guards_def split: if_splits)
  with token_from_env_sound [OF p(1)] p(2,3) show ?thesis
    using resolve_no_empty_secret [of _ _ True] resolve_open_only_on_demand by metis
qed

definition env_minimal :: env where
  "env_minimal k = (if k = ''DATABASE_URL'' then Some ''postgres://db'' else
     if k = ''TOKEN_PUBLIC_KEY_PEM'' then Some ''pem'' else None)"

lemma trim_examples:
  "str_trim ''auto'' = ''auto''" "str_trim ''EdDSA'' = ''EdDSA''" "str_trim ''RS256'' = ''RS256''"
  by (rule str_trim_visible; simp add: ascii_visible_def)+

lemma token_minimal:
  "token_from_env (\<lambda>_. None) env_minimal = Inr \<lparr>token_enabled = True,
     key_source = Some (Pem ''pem'' EdDSA None), algorithms = [EdDSA, RS256], issuer = None,
     audience = None, leeway_secs = 60, jwks_refresh = secs 3600\<rparr>"
  by (simp add: token_from_env_def env_bool_def env_str_def env_parse_def env_duration_def
      env_minimal_def trim_examples parse_alg_def key_source_from_env_def read_pem_from_env_def)

lemma env_minimal_stages:
  "is_ok (limits_from_env env_minimal)"
  "is_ok (anomaly_from_env env_minimal)"
  "is_ok (alerting_from_env env_minimal)"
  "from_env_vars env_minimal ''LOGS_AUTH'' ''LOGS_STATIC_TOKEN'' True = Inr Jwt"
  "from_env_vars env_minimal ''QUERY_AUTH'' ''QUERY_TOKEN'' True = Inr Jwt"
  "cors_from_env env_minimal = CorsList []"
  by (simp_all add: limits_from_env_def anomaly_from_env_def alerting_from_env_def env_parse_def
      env_duration_def env_minimal_def from_env_vars_def resolve_def env_str_def trim_examples
      ascii_lower_def ascii_lower_char_def cors_from_env_def)

lemma rate_limit_minimal: "is_ok (rate_limit_from_env (\<lambda>_. None) env_minimal)"
  by (simp add: rate_limit_from_env_def env_parse_def env_duration_def env_minimal_def)

lemma env_minimal_rest:
  "env_str env_minimal ''BIND_ADDR'' ''0.0.0.0:8080'' = ''0.0.0.0:8080''"
  "env_str env_minimal ''GRPC_BIND_ADDR'' ''0.0.0.0:4317'' = ''0.0.0.0:4317''"
  "env_minimal ''DATABASE_URL'' = Some ''postgres://db''"
  "env_bool env_minimal ''GRPC_ENABLED'' False = Inr False"
  "env_parse env_minimal (parse_uint u32_max) ''DB_MAX_CONNECTIONS'' 10 = Inr 10"
  "env_duration env_minimal ''FLUSH_INTERVAL'' (millis 200) = Inr (millis 200)"
  "env_usize env_minimal ''FLUSH_BATCH_SIZE'' 5000 = Inr 5000"
  "env_usize env_minimal ''CHANNEL_CAPACITY'' 100000 = Inr 100000"
  "env_parse env_minimal parse_i64 ''RETENTION_DAYS'' 90 = Inr 90"
  "env_parse env_minimal parse_i64 ''PARTITION_FUTURE_DAYS'' 2 = Inr 2"
  "env_usize env_minimal ''MAX_LOGS_RECORDS'' 2048 = Inr 2048"
  "env_usize env_minimal ''MAX_LOGS_PAYLOAD_BYTES'' 4194304 = Inr 4194304"
  "env_duration env_minimal ''REQUEST_TIMEOUT'' (secs 15) = Inr (secs 15)"
  "env_bool env_minimal ''TRUST_FORWARDED_FOR'' False = Inr False"
  "env_bool env_minimal ''MCP_ENABLED'' True = Inr True"
  by (simp_all add: env_str_def env_bool_def env_parse_def env_duration_def env_minimal_def)

lemma minimal_config:
  "\<exists>c. from_env (\<lambda>_. None) Some (\<lambda>_. None) env_minimal = Inr c \<and> enforce_runtime_guards False c = Inr ()"
proof -
  obtain l a n r where st: "limits_from_env env_minimal = Inr l" "anomaly_from_env env_minimal = Inr a"
    "alerting_from_env env_minimal = Inr n" "rate_limit_from_env (\<lambda>_. None) env_minimal = Inr r"
    using env_minimal_stages(1-3) rate_limit_minimal by (auto simp: is_ok_iff)
  show ?thesis
    by (simp add: from_env_def st token_minimal env_minimal_stages(4-6) env_minimal_rest
        enforce_runtime_guards_def)
qed

lemma production_config_closed_witness:
  "\<exists>c. from_env (\<lambda>_. None) Some (\<lambda>_. None) env_minimal = Inr c \<and> cfg_cors c \<noteq> CorsAny
     \<and> set (algorithms (cfg_token c)) \<subseteq> {EdDSA, RS256}"
  using minimal_config production_config_closed by blast

end
