(* ===== verification/RateLimit.thy ===== *)
theory RateLimit
  imports Config
begin

text \<open>
  \<^verbatim>\<open>backend/src/security/ratelimit.rs\<close>: the token buckets, the sliding window of sessions
  per IP, and the limiter that checks session, IP and global bucket in this order. Instants are
  arguments, as in the source. A concurrent map is an association list; one call of \<open>check\<close> is
  one step (\<open>Concurrent\<close> takes it apart). Rates, bursts and token counts are exact reals.
\<close>

subsection \<open>Token buckets\<close>

datatype decision = Allow | Deny string nat

record bucket =
  bk_tokens :: real
  bk_last :: nanos
  bk_rate :: real
  bk_burst :: real

definition bucket_new :: "real \<Rightarrow> real \<Rightarrow> nanos \<Rightarrow> bucket" where
  "bucket_new r b now = \<lparr>bk_tokens = b, bk_last = now, bk_rate = r, bk_burst = b\<rparr>"

definition try_take :: "real \<Rightarrow> nanos \<Rightarrow> bucket \<Rightarrow> (real + unit) \<times> bucket" where
  "try_take n now b =
     (let elapsed = as_secs_f64 (now - bk_last b);
          t = min (bk_tokens b + elapsed * bk_rate b) (bk_burst b);
          b' = b\<lparr>bk_tokens := t, bk_last := now\<rparr>
      in if t \<ge> n then (Inr (), b'\<lparr>bk_tokens := t - n\<rparr>)
         else (let deficit = n - t in
               (Inl (if bk_rate b > 0 then deficit / bk_rate b else real u32_max), b')))"

record session_state =
  ss_bucket :: bucket
  ss_last_seen :: nanos

subsection \<open>The window of sessions of an IP\<close>

record ip_window =
  iw_sessions :: "(string \<times> nanos) list"
  iw_last_seen :: nanos

definition ip_record ::
    "string \<Rightarrow> nanos \<Rightarrow> nat \<Rightarrow> nanos \<Rightarrow> ip_window \<Rightarrow> (real + unit) \<times> ip_window" where
  "ip_record session now cap window w =
     (let kept = al_retain (\<lambda>_ seen. now - seen < window) (iw_sessions w);
          w' = w\<lparr>iw_last_seen := now, iw_sessions := kept\<rparr>
      in if al_get kept session \<noteq> None
         then (Inr (), w'\<lparr>iw_sessions := al_put session now kept\<rparr>)
         else if length kept \<ge> cap
         then (let oldest = (if kept = [] then window
                             else Max (set (map (\<lambda>(_, seen). now - seen) kept)));
                   wait = as_secs_f64 (window - oldest)
               in (Inl (max wait 1), w'))
         else (Inr (), w'\<lparr>iw_sessions := al_put session now kept\<rparr>))"

subsection \<open>The limiter\<close>

record rate_limiter =
  rl_cfg :: rate_limit_config
  rl_global :: bucket
  rl_sessions :: "(string \<times> session_state) list"
  rl_ips :: "(ip_addr \<times> ip_window) list"

definition rate_limiter_new :: "rate_limit_config \<Rightarrow> nanos \<Rightarrow> rate_limiter" where
  "rate_limiter_new cfg now =
     \<lparr>rl_cfg = cfg, rl_global = bucket_new (global_per_sec cfg) (global_burst cfg) now,
      rl_sessions = [], rl_ips = []\<rparr>"

text \<open>The cast \<^verbatim>\<open>as u64\<close> of a float saturates.\<close>

definition deny :: "string \<Rightarrow> real \<Rightarrow> decision" where
  "deny scope wait = Deny scope (min (nat \<lceil>max (real_of_int \<lceil>wait\<rceil>) 1\<rceil>) u64_max)"

definition session_entry :: "rate_limit_config \<Rightarrow> nanos \<Rightarrow> session_state" where
  "session_entry cfg now =
     \<lparr>ss_bucket = bucket_new (session_per_sec cfg) (session_burst cfg) now, ss_last_seen = now\<rparr>"

definition check_session ::
    "nanos \<Rightarrow> string \<Rightarrow> real \<Rightarrow> rate_limiter \<Rightarrow> decision option \<times> rate_limiter" where
  "check_session now sid n rl =
     (if al_get (rl_sessions rl) sid = None
         \<and> length (rl_sessions rl) \<ge> max_tracked_sessions (rl_cfg rl)
      then (Some (deny ''session'' 1), rl)
      else (let s = unwrap_or (session_entry (rl_cfg rl) now) (al_get (rl_sessions rl) sid);
                (r, b) = try_take n now (ss_bucket s);
                rl' = rl\<lparr>rl_sessions :=
                       al_put sid \<lparr>ss_bucket = b, ss_last_seen = now\<rparr> (rl_sessions rl)\<rparr>
            in case r of Inl wait \<Rightarrow> (Some (deny ''session'' wait), rl') | Inr _ \<Rightarrow> (None, rl')))"

definition check_ip ::
    "nanos \<Rightarrow> ip_addr \<Rightarrow> string \<Rightarrow> rate_limiter \<Rightarrow> decision option \<times> rate_limiter" where
  "check_ip now ip sid rl =
     (if is_unspecified ip then (None, rl)
      else if al_get (rl_ips rl) ip = None \<and> length (rl_ips rl) \<ge> max_tracked_ips (rl_cfg rl)
      then (Some (deny ''ip_sessions'' 1), rl)
      else (let w = unwrap_or \<lparr>iw_sessions = [], iw_last_seen = now\<rparr> (al_get (rl_ips rl) ip);
                (r, w') = ip_record sid now (ip_session_cap (rl_cfg rl))
                            (ip_session_window (rl_cfg rl)) w;
                rl' = rl\<lparr>rl_ips := al_put ip w' (rl_ips rl)\<rparr>
            in case r of Inl wait \<Rightarrow> (Some (deny ''ip_sessions'' wait), rl') | Inr _ \<Rightarrow> (None, rl')))"

definition check_global :: "nanos \<Rightarrow> real \<Rightarrow> rate_limiter \<Rightarrow> decision \<times> rate_limiter" where
  "check_global now n rl =
     (let (r, b) = try_take n now (rl_global rl); rl' = rl\<lparr>rl_global := b\<rparr>
      in case r of Inl wait \<Rightarrow> (deny ''global'' wait, rl') | Inr _ \<Rightarrow> (Allow, rl'))"

definition check :: "nanos \<Rightarrow> ip_addr \<Rightarrow> string \<Rightarrow> nat \<Rightarrow> rate_limiter \<Rightarrow> decision \<times> rate_limiter" where
  "check now ip sid k rl =
     (let n = real (max k 1) in
      case check_session now sid n rl of
        (Some d, rl1) \<Rightarrow> (d, rl1)
      | (None, rl1) \<Rightarrow>
          (case check_ip now ip sid rl1 of
             (Some d, rl2) \<Rightarrow> (d, rl2)
           | (None, rl2) \<Rightarrow> check_global now n rl2))"

definition limiter_prune :: "nanos \<Rightarrow> rate_limiter \<Rightarrow> rate_limiter" where
  "limiter_prune now rl =
     (let session_ttl = max (ip_session_window (rl_cfg rl)) (secs 300) * 2;
          window = ip_session_window (rl_cfg rl);
          purge = (\<lambda>w. w\<lparr>iw_sessions := al_retain (\<lambda>_ seen. now - seen < window) (iw_sessions w)\<rparr>)
      in rl\<lparr>rl_sessions := al_retain (\<lambda>_ s. now - ss_last_seen s < session_ttl) (rl_sessions rl),
            rl_ips := al_retain (\<lambda>_ w. iw_sessions w \<noteq> [])
                        (map (\<lambda>(ip, w). (ip, purge w)) (rl_ips rl))\<rparr>)"

definition tracked_sessions :: "rate_limiter \<Rightarrow> nat" where
  "tracked_sessions rl = length (rl_sessions rl)"

definition tracked_ips :: "rate_limiter \<Rightarrow> nat" where
  "tracked_ips rl = length (rl_ips rl)"

text \<open>A history of the limiter: requests and the periodic purge, with their instants.\<close>

datatype rl_op = Check nanos ip_addr string nat | PruneLimiter nanos

fun rl_time :: "rl_op \<Rightarrow> nanos" where
  "rl_time (Check now _ _ _) = now"
| "rl_time (PruneLimiter now) = now"

fun rl_step :: "rl_op \<Rightarrow> rate_limiter \<Rightarrow> decision option \<times> rate_limiter" where
  "rl_step (Check now ip sid k) rl = (let (d, rl') = check now ip sid k rl in (Some d, rl'))"
| "rl_step (PruneLimiter now) rl = (None, limiter_prune now rl)"

fun rl_run :: "rl_op list \<Rightarrow> rate_limiter \<Rightarrow> decision option list \<times> rate_limiter" where
  "rl_run [] rl = ([], rl)"
| "rl_run (x # xs) rl =
     (let (d, rl') = rl_step x rl; (ds, rl'') = rl_run xs rl' in (d # ds, rl''))"

subsection \<open>Laws of one bucket\<close>

definition bucket_ok :: "bucket \<Rightarrow> bool" where
  "bucket_ok b \<longleftrightarrow> 0 \<le> bk_tokens b \<and> bk_tokens b \<le> bk_burst b \<and> 0 \<le> bk_rate b"

definition refilled :: "nanos \<Rightarrow> bucket \<Rightarrow> real" where
  "refilled now b = min (bk_tokens b + as_secs_f64 (now - bk_last b) * bk_rate b) (bk_burst b)"

lemma try_take_eq:
  "try_take n now b =
     (if n \<le> refilled now b
      then (Inr (), b\<lparr>bk_tokens := refilled now b - n, bk_last := now\<rparr>)
      else (Inl (if bk_rate b > 0 then (n - refilled now b) / bk_rate b else real u32_max),
            b\<lparr>bk_tokens := refilled now b, bk_last := now\<rparr>))"
  by (simp add: try_take_def refilled_def Let_def)

lemma bucket_ok_new: "0 \<le> r \<Longrightarrow> 0 \<le> b \<Longrightarrow> bucket_ok (bucket_new r b now)"
  by (simp add: bucket_ok_def bucket_new_def)

lemma refilled_bounds: "bucket_ok b \<Longrightarrow> 0 \<le> refilled now b \<and> refilled now b \<le> bk_burst b"
  by (simp add: bucket_ok_def refilled_def)

lemma try_take_ok: "bucket_ok b \<Longrightarrow> 0 \<le> n \<Longrightarrow> bucket_ok (snd (try_take n now b))"
  using refilled_bounds [of b now] by (auto simp: try_take_eq bucket_ok_def)

lemma try_take_frame [simp]:
  "bk_rate (snd (try_take n now b)) = bk_rate b"
  "bk_burst (snd (try_take n now b)) = bk_burst b"
  "bk_last (snd (try_take n now b)) = now"
  by (auto simp: try_take_eq)

lemma refilled_after:
  assumes "bucket_ok b" and "0 \<le> n"
  shows "refilled now (snd (try_take n now b))
           = refilled now b - (if is_ok (fst (try_take n now b)) then n else 0)"
  using assms refilled_bounds [OF assms(1), of now]
  by (auto simp: try_take_eq refilled_def as_secs_f64_def)

lemma refilled_growth:
  assumes "bucket_ok b" and "t \<le> t'"
  shows "refilled t' b \<le> refilled t b + (as_secs_f64 t' - as_secs_f64 t) * bk_rate b"
proof -
  have "as_secs_f64 (t' - bk_last b) \<le> as_secs_f64 (t - bk_last b) + (as_secs_f64 t' - as_secs_f64 t)"
    using assms(2) by (simp add: as_secs_f64_def diff_divide_distrib [symmetric] add_divide_distrib [symmetric]
        divide_right_mono)
  then have "as_secs_f64 (t' - bk_last b) * bk_rate b
      \<le> (as_secs_f64 (t - bk_last b) + (as_secs_f64 t' - as_secs_f64 t)) * bk_rate b"
    using assms(1) by (intro mult_right_mono) (auto simp: bucket_ok_def)
  moreover have "0 \<le> (as_secs_f64 t' - as_secs_f64 t) * bk_rate b"
    using assms by (intro mult_nonneg_nonneg) (auto simp: bucket_ok_def as_secs_f64_mono)
  ultimately show ?thesis by (auto simp: refilled_def algebra_simps min_def)
qed

lemma refilled_full:
  assumes "bucket_ok b" and "bk_burst b \<le> as_secs_f64 (t - bk_last b) * bk_rate b"
  shows "refilled t b = bk_burst b"
  using assms by (simp add: refilled_def bucket_ok_def)

subsection \<open>Interface: a meter\<close>

text \<open>
  A meter is a level read off the state of a machine at an instant. Time raises it at most at its
  rate, and a step pays from it for everything it grants. The client lemma is the token bucket
  bound over a whole history with non-decreasing instants.
\<close>

locale metered =
  fixes step :: "'op \<Rightarrow> 's \<Rightarrow> 's"
    and optime :: "'op \<Rightarrow> nanos"
    and grant :: "'op \<Rightarrow> 's \<Rightarrow> real"
    and level :: "nanos \<Rightarrow> 's \<Rightarrow> real"
    and rate :: "'s \<Rightarrow> real"
    and inv :: "'s \<Rightarrow> bool"
  assumes step_inv: "inv s \<Longrightarrow> inv (step x s)"
    and step_rate: "rate (step x s) = rate s"
    and step_pays: "inv s \<Longrightarrow> grant x s + level (optime x) (step x s) \<le> level (optime x) s"
    and level_growth: "inv s \<Longrightarrow> t \<le> t' \<Longrightarrow>
      level t' s \<le> level t s + (as_secs_f64 t' - as_secs_f64 t) * rate s"
    and level_nonneg: "inv s \<Longrightarrow> 0 \<le> level t s"
begin

fun total :: "'op list \<Rightarrow> 's \<Rightarrow> real" where
  "total [] s = 0"
| "total (x # xs) s = grant x s + total xs (step x s)"

lemma flood_bound:
  assumes "inv s" and "sorted (map optime xs)" and "\<forall>x \<in> set xs. t0 \<le> optime x \<and> optime x \<le> t"
    and "t0 \<le> t"
  shows "total xs s \<le> level t0 s + (as_secs_f64 t - as_secs_f64 t0) * rate s"
  using assms
proof (induction xs arbitrary: s t0)
  case Nil
  then show ?case using level_growth [of s t0 t] level_nonneg [of s t] by simp
next
  case (Cons x xs)
  have "total xs (step x s)
      \<le> level (optime x) (step x s) + (as_secs_f64 t - as_secs_f64 (optime x)) * rate s"
    using Cons.prems Cons.IH [of "step x s" "optime x"] by (simp add: step_inv step_rate)
  moreover have "grant x s + level (optime x) (step x s) \<le> level (optime x) s"
    using Cons.prems by (simp add: step_pays)
  moreover have "level (optime x) s \<le> level t0 s + (as_secs_f64 (optime x) - as_secs_f64 t0) * rate s"
    using Cons.prems by (intro level_growth) auto
  ultimately show ?case by (simp add: algebra_simps)
qed

end

subsection \<open>What one check changes\<close>

lemma check_session_frame:
  "check_session now sid n rl = (d, rl') \<Longrightarrow>
     rl_cfg rl' = rl_cfg rl \<and> rl_global rl' = rl_global rl \<and> rl_ips rl' = rl_ips rl"
  by (auto simp: check_session_def Let_def split: if_splits prod.splits sum.splits)

lemma check_ip_frame:
  "check_ip now ip sid rl = (d, rl') \<Longrightarrow>
     rl_cfg rl' = rl_cfg rl \<and> rl_global rl' = rl_global rl \<and> rl_sessions rl' = rl_sessions rl"
  by (auto simp: check_ip_def Let_def split: if_splits prod.splits sum.splits)

lemma check_global_frame:
  "check_global now n rl = (d, rl') \<Longrightarrow>
     rl_cfg rl' = rl_cfg rl \<and> rl_sessions rl' = rl_sessions rl \<and> rl_ips rl' = rl_ips rl
     \<and> rl_global rl' = snd (try_take n now (rl_global rl))
     \<and> (d = Allow \<longleftrightarrow> is_ok (fst (try_take n now (rl_global rl))))"
  by (auto simp: check_global_def Let_def deny_def split: prod.splits sum.splits)

lemma check_session_deny: "check_session now sid n rl = (Some d, rl') \<Longrightarrow> d \<noteq> Allow"
  by (auto simp: check_session_def Let_def deny_def split: if_splits prod.splits sum.splits)

lemma check_ip_deny: "check_ip now ip sid rl = (Some d, rl') \<Longrightarrow> d \<noteq> Allow"
  by (auto simp: check_ip_def Let_def deny_def split: if_splits prod.splits sum.splits)

text \<open>The three ways a check ends: refused by the session, by the IP, or decided by the global bucket.\<close>

lemma check_cases [consumes 1, case_names session ip global]:
  assumes "check now ip sid k rl = (d, rl')"
  obtains
    "check_session now sid (real (max k 1)) rl = (Some d, rl')" "d \<noteq> Allow"
  | rl1 where "check_session now sid (real (max k 1)) rl = (None, rl1)"
      "check_ip now ip sid rl1 = (Some d, rl')" "d \<noteq> Allow"
  | rl1 rl2 where "check_session now sid (real (max k 1)) rl = (None, rl1)"
      "check_ip now ip sid rl1 = (None, rl2)" "check_global now (real (max k 1)) rl2 = (d, rl')"
  using assms
  by (auto simp: check_def Let_def split: prod.splits option.splits
        dest: check_session_deny check_ip_deny)

lemma check_cfg [simp]: "rl_cfg (snd (check now ip sid k rl)) = rl_cfg rl"
proof -
  obtain d rl' where c: "check now ip sid k rl = (d, rl')" by (cases "check now ip sid k rl")
  then have "rl_cfg rl' = rl_cfg rl"
  proof (cases rule: check_cases)
    case session
    then show ?thesis using check_session_frame by blast
  next
    case (ip rl1)
    then show ?thesis using check_session_frame [OF ip(1)] check_ip_frame [OF ip(2)] by simp
  next
    case (global rl1 rl2)
    then show ?thesis
      using check_session_frame [OF global(1)] check_ip_frame [OF global(2)]
        check_global_frame [OF global(3)] by simp
  qed
  with c show ?thesis by simp
qed

lemma limiter_prune_frame [simp]:
  "rl_cfg (limiter_prune now rl) = rl_cfg rl"
  "rl_global (limiter_prune now rl) = rl_global rl"
  by (simp_all add: limiter_prune_def Let_def)

lemma check_global_effect:
  assumes "check now ip sid k rl = (d, rl')"
  shows "(d \<noteq> Allow \<and> rl_global rl' = rl_global rl)
    \<or> (rl_global rl' = snd (try_take (real (max k 1)) now (rl_global rl))
        \<and> (d = Allow \<longleftrightarrow> is_ok (fst (try_take (real (max k 1)) now (rl_global rl)))))"
  using assms
proof (cases rule: check_cases)
  case session
  then show ?thesis by (auto dest: check_session_frame)
next
  case (ip rl1)
  then show ?thesis using check_session_frame [OF ip(1)] check_ip_frame [OF ip(2)] by simp
next
  case (global rl1 rl2)
  then show ?thesis
    using check_session_frame [OF global(1)] check_ip_frame [OF global(2)]
      check_global_frame [OF global(3)] by simp
qed

subsection \<open>The invariant of the limiter\<close>

definition session_ok :: "rate_limit_config \<Rightarrow> session_state \<Rightarrow> bool" where
  "session_ok cfg s \<longleftrightarrow> bucket_ok (ss_bucket s) \<and> bk_rate (ss_bucket s) = session_per_sec cfg
     \<and> bk_burst (ss_bucket s) = session_burst cfg \<and> bk_last (ss_bucket s) = ss_last_seen s"

definition cfg_ok :: "rate_limit_config \<Rightarrow> bool" where
  "cfg_ok cfg \<longleftrightarrow> 0 \<le> global_per_sec cfg \<and> 0 \<le> global_burst cfg
     \<and> 0 \<le> session_per_sec cfg \<and> 0 \<le> session_burst cfg"

definition global_ok :: "rate_limiter \<Rightarrow> bool" where
  "global_ok rl \<longleftrightarrow> bucket_ok (rl_global rl) \<and> bk_rate (rl_global rl) = global_per_sec (rl_cfg rl)
     \<and> bk_burst (rl_global rl) = global_burst (rl_cfg rl)"

definition sessions_ok :: "rate_limiter \<Rightarrow> bool" where
  "sessions_ok rl \<longleftrightarrow> al_ok (rl_sessions rl)
     \<and> length (rl_sessions rl) \<le> max_tracked_sessions (rl_cfg rl)
     \<and> (\<forall>sid s. al_get (rl_sessions rl) sid = Some s \<longrightarrow> session_ok (rl_cfg rl) s)"

definition ips_ok :: "rate_limiter \<Rightarrow> bool" where
  "ips_ok rl \<longleftrightarrow> al_ok (rl_ips rl) \<and> length (rl_ips rl) \<le> max_tracked_ips (rl_cfg rl)"

definition rl_ok :: "rate_limiter \<Rightarrow> bool" where
  "rl_ok rl \<longleftrightarrow> cfg_ok (rl_cfg rl) \<and> global_ok rl \<and> sessions_ok rl \<and> ips_ok rl"

lemma rl_ok_new: "cfg_ok cfg \<Longrightarrow> rl_ok (rate_limiter_new cfg t0)"
  by (simp add: rl_ok_def rate_limiter_new_def global_ok_def sessions_ok_def ips_ok_def cfg_ok_def
      bucket_ok_new) (simp add: bucket_new_def)

lemma session_ok_entry: "cfg_ok cfg \<Longrightarrow> session_ok cfg (session_entry cfg now)"
  by (simp add: session_ok_def session_entry_def cfg_ok_def bucket_ok_new) (simp add: bucket_new_def)

lemma session_ok_take:
  "session_ok cfg s \<Longrightarrow> 0 \<le> n \<Longrightarrow>
     session_ok cfg \<lparr>ss_bucket = snd (try_take n now (ss_bucket s)), ss_last_seen = now\<rparr>"
  by (simp add: session_ok_def try_take_ok)

text \<open>A session check either refuses an unknown session, or takes from its (maybe new) bucket.\<close>

lemma check_session_shape:
  assumes "check_session now sid n rl = (d, rl')"
  defines "s \<equiv> unwrap_or (session_entry (rl_cfg rl) now) (al_get (rl_sessions rl) sid)"
  shows "(rl' = rl \<and> d \<noteq> None)
    \<or> ((al_get (rl_sessions rl) sid \<noteq> None \<or> length (rl_sessions rl) < max_tracked_sessions (rl_cfg rl))
       \<and> rl' = rl\<lparr>rl_sessions := al_put sid
             \<lparr>ss_bucket = snd (try_take n now (ss_bucket s)), ss_last_seen = now\<rparr> (rl_sessions rl)\<rparr>
       \<and> (d = None \<longleftrightarrow> is_ok (fst (try_take n now (ss_bucket s)))))"
  using assms(1) unfolding s_def
  by (auto simp: check_session_def Let_def split: if_splits prod.splits sum.splits)

lemma check_session_ok:
  assumes "rl_ok rl" and "0 \<le> n" and "check_session now sid n rl = (d, rl')"
  shows "rl_ok rl'"
proof -
  let ?s = "unwrap_or (session_entry (rl_cfg rl) now) (al_get (rl_sessions rl) sid)"
  have s: "session_ok (rl_cfg rl) ?s"
    using assms(1) session_ok_entry
    by (cases "al_get (rl_sessions rl) sid") (auto simp: rl_ok_def sessions_ok_def)
  from check_session_shape [OF assms(3)] consider (same) "rl' = rl"
    | (take) "al_get (rl_sessions rl) sid \<noteq> None
        \<or> length (rl_sessions rl) < max_tracked_sessions (rl_cfg rl)"
      "rl' = rl\<lparr>rl_sessions := al_put sid \<lparr>ss_bucket = snd (try_take n now (ss_bucket ?s)),
          ss_last_seen = now\<rparr> (rl_sessions rl)\<rparr>"
    by blast
  then show ?thesis
  proof cases
    case take
    note room = take(1) and rl' = take(2)
    have "sessions_ok rl'"
      using assms(1) al.put_within [OF _ room] session_ok_take [OF s assms(2), of now]
      by (simp add: rl' rl_ok_def sessions_ok_def al_get_put)
    then show ?thesis using assms(1)
      by (simp add: rl' rl_ok_def global_ok_def ips_ok_def)
  qed (use assms(1) in simp)
qed

lemma check_ip_shape:
  assumes "check_ip now ip sid rl = (d, rl')"
  defines "w \<equiv> unwrap_or \<lparr>iw_sessions = [], iw_last_seen = now\<rparr> (al_get (rl_ips rl) ip)"
  defines "r \<equiv> ip_record sid now (ip_session_cap (rl_cfg rl)) (ip_session_window (rl_cfg rl)) w"
  shows "(rl' = rl \<and> (d = None \<longrightarrow> is_unspecified ip))
    \<or> (\<not> is_unspecified ip
       \<and> (al_get (rl_ips rl) ip \<noteq> None \<or> length (rl_ips rl) < max_tracked_ips (rl_cfg rl))
       \<and> rl' = rl\<lparr>rl_ips := al_put ip (snd r) (rl_ips rl)\<rparr> \<and> (d = None \<longleftrightarrow> is_ok (fst r)))"
  using assms(1) unfolding w_def r_def
  by (auto simp: check_ip_def Let_def split: if_splits prod.splits sum.splits)

lemma check_ip_ok:
  assumes "rl_ok rl" and "check_ip now ip sid rl = (d, rl')"
  shows "rl_ok rl'"
proof -
  from check_ip_shape [OF assms(2)] consider (same) "rl' = rl"
    | (put) w where "al_get (rl_ips rl) ip \<noteq> None \<or> length (rl_ips rl) < max_tracked_ips (rl_cfg rl)"
      "rl' = rl\<lparr>rl_ips := al_put ip w (rl_ips rl)\<rparr>"
    by blast
  then show ?thesis
  proof cases
    case put
    then show ?thesis using assms(1) al.put_within [OF _ put(1)]
      by (simp add: rl_ok_def ips_ok_def sessions_ok_def global_ok_def)
  qed (use assms(1) in simp)
qed

lemma check_global_ok:
  assumes "rl_ok rl" and "0 \<le> n" and "check_global now n rl = (d, rl')"
  shows "rl_ok rl'"
  using assms(1) check_global_frame [OF assms(3)] try_take_ok [of "rl_global rl" n now] assms(2)
  by (simp add: rl_ok_def global_ok_def sessions_ok_def ips_ok_def)

lemma check_ok:
  assumes "rl_ok rl"
  shows "rl_ok (snd (check now ip sid k rl))"
proof -
  obtain d rl' where c: "check now ip sid k rl = (d, rl')" by (cases "check now ip sid k rl")
  have n: "0 \<le> real (max k 1)" by simp
  from c have "rl_ok rl'"
    by (cases rule: check_cases)
      (meson assms n check_session_ok check_ip_ok check_global_ok)+
  with c show ?thesis by simp
qed

lemma limiter_prune_ok: "rl_ok rl \<Longrightarrow> rl_ok (limiter_prune now rl)"
proof -
  assume ok: "rl_ok rl"
  have "map fst (map (\<lambda>(ip, w). (ip, f w)) m) = map fst m" for f :: "ip_window \<Rightarrow> ip_window" and m :: "(ip_addr \<times> ip_window) list"
    by (induction m) auto
  then have "al_ok (map (\<lambda>(ip, w). (ip, f w)) (rl_ips rl))" for f :: "ip_window \<Rightarrow> ip_window"
    using ok by (simp add: al_ok_def rl_ok_def ips_ok_def del: map_map)
  with ok show ?thesis
    by (auto simp: rl_ok_def limiter_prune_def Let_def sessions_ok_def ips_ok_def global_ok_def
        al_get_retain intro: order_trans [OF length_al_retain])
qed

lemma rl_step_ok: "rl_ok rl \<Longrightarrow> rl_ok (snd (rl_step x rl))"
  using check_ok limiter_prune_ok by (cases x) (auto simp: split_beta)

lemma rl_step_cfg [simp]: "rl_cfg (snd (rl_step x rl)) = rl_cfg rl"
  by (cases x) (auto simp: split_beta)

lemma rl_run_Cons:
  "rl_run (x # xs) rl =
     (fst (rl_step x rl) # fst (rl_run xs (snd (rl_step x rl))), snd (rl_run xs (snd (rl_step x rl))))"
  by (simp add: split_beta)

lemma rl_run_ok: "rl_ok rl \<Longrightarrow> rl_ok (snd (rl_run xs rl)) \<and> rl_cfg (snd (rl_run xs rl)) = rl_cfg rl"
  by (induction xs arbitrary: rl) (simp_all add: rl_run_Cons rl_step_ok del: rl_run.simps(2))

subsection \<open>The two meters of the limiter\<close>

definition allowed_of :: "rl_op \<Rightarrow> decision option \<Rightarrow> real" where
  "allowed_of x d =
     (case x of Check _ _ _ k \<Rightarrow> if d = Some Allow then real (max k 1) else 0 | PruneLimiter _ \<Rightarrow> 0)"

definition of_session :: "string \<Rightarrow> rl_op \<Rightarrow> bool" where
  "of_session sid x = (case x of Check _ _ s _ \<Rightarrow> s = sid | PruneLimiter _ \<Rightarrow> False)"

definition admitted :: "(rl_op \<Rightarrow> bool) \<Rightarrow> rl_op list \<Rightarrow> decision option list \<Rightarrow> real" where
  "admitted P xs ds = (\<Sum>(x, d) \<leftarrow> zip xs ds. if P x then allowed_of x d else 0)"

definition session_tokens :: "nanos \<Rightarrow> string \<Rightarrow> rate_limiter \<Rightarrow> real" where
  "session_tokens now sid rl =
     (case al_get (rl_sessions rl) sid of
        Some s \<Rightarrow> refilled now (ss_bucket s)
      | None \<Rightarrow> session_burst (rl_cfg rl))"

text \<open>A session forgotten by the purge has had the time to refill its bucket.\<close>

definition session_ttl :: "rate_limit_config \<Rightarrow> nanos" where
  "session_ttl cfg = max (ip_session_window cfg) (secs 300) * 2"

definition ttl_refills :: "rate_limit_config \<Rightarrow> bool" where
  "ttl_refills cfg \<longleftrightarrow> session_burst cfg \<le> as_secs_f64 (session_ttl cfg) * session_per_sec cfg"

lemma check_sessions:
  assumes "check now ip sid k rl = (d, rl')"
  obtains d1 rl1 where "check_session now sid (real (max k 1)) rl = (d1, rl1)"
    and "rl_sessions rl' = rl_sessions rl1" and "d = Allow \<Longrightarrow> d1 = None"
proof (rule check_cases [OF assms])
  assume "check_session now sid (real (max k 1)) rl = (Some d, rl')" "d \<noteq> Allow"
  then show thesis using that [of "Some d" rl'] by blast
next
  fix rl1
  assume s: "check_session now sid (real (max k 1)) rl = (None, rl1)"
    and i: "check_ip now ip sid rl1 = (Some d, rl')"
  from check_ip_frame [OF i] show thesis using that [OF s] by simp
next
  fix rl1 rl2
  assume s: "check_session now sid (real (max k 1)) rl = (None, rl1)"
    and i: "check_ip now ip sid rl1 = (None, rl2)"
    and g: "check_global now (real (max k 1)) rl2 = (d, rl')"
  from check_ip_frame [OF i] check_global_frame [OF g] show thesis using that [OF s] by simp
qed

lemma check_session_other:
  "check_session now sid n rl = (d, rl') \<Longrightarrow> s \<noteq> sid \<Longrightarrow>
     al_get (rl_sessions rl') s = al_get (rl_sessions rl) s"
  by (auto simp: check_session_def Let_def al_get_put split: if_splits prod.splits sum.splits)

lemma check_other_session:
  assumes "s \<noteq> sid"
  shows "al_get (rl_sessions (snd (check now ip sid k rl))) s = al_get (rl_sessions rl) s"
proof -
  obtain d rl' where c: "check now ip sid k rl = (d, rl')" by (cases "check now ip sid k rl")
  from check_sessions [OF c] obtain d1 rl1 where
    "check_session now sid (real (max k 1)) rl = (d1, rl1)" "rl_sessions rl' = rl_sessions rl1"
    by metis
  with check_session_other [OF this(1) assms] c show ?thesis by simp
qed

lemma session_entry_tokens:
  "cfg_ok cfg \<Longrightarrow> refilled now (ss_bucket (session_entry cfg now)) = session_burst cfg"
  by (simp add: session_entry_def refilled_def bucket_new_def as_secs_f64_def)

text \<open>A check of a session pays from its tokens what it admits.\<close>

lemma check_session_pays:
  assumes "rl_ok rl" and "0 \<le> n" and "check_session now sid n rl = (d, rl')"
  shows "(if d = None then n else 0) + session_tokens now sid rl' \<le> session_tokens now sid rl"
proof -
  let ?s = "unwrap_or (session_entry (rl_cfg rl) now) (al_get (rl_sessions rl) sid)"
  have ok: "bucket_ok (ss_bucket ?s)"
    using assms(1) session_ok_entry [of "rl_cfg rl" now]
    by (cases "al_get (rl_sessions rl) sid") (auto simp: rl_ok_def sessions_ok_def session_ok_def)
  have lev: "session_tokens now sid rl = refilled now (ss_bucket ?s)"
    using assms(1) session_entry_tokens
    by (cases "al_get (rl_sessions rl) sid") (auto simp: session_tokens_def rl_ok_def)
  from check_session_shape [OF assms(3)] consider (same) "rl' = rl" "d \<noteq> None"
    | (take) "rl_sessions rl' = al_put sid \<lparr>ss_bucket = snd (try_take n now (ss_bucket ?s)),
          ss_last_seen = now\<rparr> (rl_sessions rl)"
      "d = None \<longleftrightarrow> is_ok (fst (try_take n now (ss_bucket ?s)))"
    by fastforce
  then show ?thesis
  proof cases
    case take
    have "session_tokens now sid rl' = refilled now (snd (try_take n now (ss_bucket ?s)))"
      using take(1) by (simp add: session_tokens_def al_get_put)
    then show ?thesis using refilled_after [OF ok assms(2), of now] take(2) lev by simp
  qed auto
qed

lemma session_tokens_cong:
  "rl_cfg rl' = rl_cfg rl \<Longrightarrow> al_get (rl_sessions rl') sid = al_get (rl_sessions rl) sid \<Longrightarrow>
     session_tokens t sid rl' = session_tokens t sid rl"
  by (simp add: session_tokens_def split: option.split)

lemma prune_keeps_tokens:
  assumes "rl_ok rl" and "ttl_refills (rl_cfg rl)"
  shows "session_tokens now sid (limiter_prune now rl) = session_tokens now sid rl"
proof (cases "al_get (rl_sessions rl) sid")
  case None
  then show ?thesis using assms(1)
    by (simp add: limiter_prune_def Let_def session_tokens_def al_get_retain rl_ok_def sessions_ok_def)
next
  case (Some s)
  have s: "session_ok (rl_cfg rl) s" and al: "al_ok (rl_sessions rl)"
    using assms(1) Some by (auto simp: rl_ok_def sessions_ok_def)
  have "refilled now (ss_bucket s) = session_burst (rl_cfg rl)"
    if "session_ttl (rl_cfg rl) \<le> now - ss_last_seen s"
  proof -
    have "as_secs_f64 (session_ttl (rl_cfg rl)) * session_per_sec (rl_cfg rl)
        \<le> as_secs_f64 (now - ss_last_seen s) * session_per_sec (rl_cfg rl)"
      using that assms(1) by (intro mult_right_mono as_secs_f64_mono) (auto simp: rl_ok_def cfg_ok_def)
    with assms(2) s show ?thesis
      using refilled_full [of "ss_bucket s" now] by (simp add: session_ok_def ttl_refills_def)
  qed
  then show ?thesis using Some al
    by (auto simp: limiter_prune_def Let_def session_tokens_def al_get_retain session_ttl_def not_less)
qed

interpretation gm: metered "\<lambda>x rl. snd (rl_step x rl)" rl_time
    "\<lambda>x rl. allowed_of x (fst (rl_step x rl))" "\<lambda>t rl. refilled t (rl_global rl)"
    "\<lambda>rl. global_per_sec (rl_cfg rl)" rl_ok
proof
  fix rl :: rate_limiter and x :: rl_op and t t' :: nanos
  assume ok: "rl_ok rl"
  then have b: "bucket_ok (rl_global rl)" "bk_rate (rl_global rl) = global_per_sec (rl_cfg rl)"
    by (simp_all add: rl_ok_def global_ok_def)
  show "rl_ok (snd (rl_step x rl))" using ok by (rule rl_step_ok)
  show "0 \<le> refilled t (rl_global rl)" using refilled_bounds [OF b(1)] by simp
  show "refilled t' (rl_global rl)
      \<le> refilled t (rl_global rl) + (as_secs_f64 t' - as_secs_f64 t) * global_per_sec (rl_cfg rl)"
    if "t \<le> t'" using refilled_growth [OF b(1) that] b(2) by simp
  show "allowed_of x (fst (rl_step x rl)) + refilled (rl_time x) (rl_global (snd (rl_step x rl)))
      \<le> refilled (rl_time x) (rl_global rl)"
  proof (cases x)
    case (Check now ip sid k)
    obtain d rl' where c: "check now ip sid k rl = (d, rl')" by (cases "check now ip sid k rl")
    have n: "0 \<le> real (max k 1)" by simp
    from check_global_effect [OF c] refilled_after [OF b(1) n, of now] show ?thesis
      by (auto simp: Check c allowed_of_def)
  next
    case (PruneLimiter now)
    then show ?thesis by (simp add: allowed_of_def)
  qed
qed simp

interpretation sm: metered "\<lambda>x rl. snd (rl_step x rl)" rl_time
    "\<lambda>x rl. if of_session sid x then allowed_of x (fst (rl_step x rl)) else 0"
    "\<lambda>t rl. session_tokens t sid rl" "\<lambda>rl. session_per_sec (rl_cfg rl)"
    "\<lambda>rl. rl_ok rl \<and> ttl_refills (rl_cfg rl)" for sid
proof
  fix rl :: rate_limiter and x :: rl_op and t t' :: nanos
  assume inv: "rl_ok rl \<and> ttl_refills (rl_cfg rl)"
  then have ok: "rl_ok rl" and cfg: "cfg_ok (rl_cfg rl)" by (simp_all add: rl_ok_def)
  have s: "session_ok (rl_cfg rl) s" if "al_get (rl_sessions rl) sid = Some s" for s
    using ok that by (simp add: rl_ok_def sessions_ok_def)
  show "rl_ok (snd (rl_step x rl)) \<and> ttl_refills (rl_cfg (snd (rl_step x rl)))"
    using inv rl_step_ok by simp
  show "0 \<le> session_tokens t sid rl"
    using s refilled_bounds cfg
    by (auto simp: session_tokens_def cfg_ok_def session_ok_def split: option.split)
  show "session_tokens t' sid rl
      \<le> session_tokens t sid rl + (as_secs_f64 t' - as_secs_f64 t) * session_per_sec (rl_cfg rl)"
    if "t \<le> t'"
  proof (cases "al_get (rl_sessions rl) sid")
    case None
    have "0 \<le> (as_secs_f64 t' - as_secs_f64 t) * session_per_sec (rl_cfg rl)"
      using that cfg by (intro mult_nonneg_nonneg) (auto simp: cfg_ok_def as_secs_f64_mono)
    with None show ?thesis by (simp add: session_tokens_def)
  next
    case (Some st)
    with s [OF Some] refilled_growth [of "ss_bucket st", OF _ that] show ?thesis
      by (simp add: session_tokens_def session_ok_def)
  qed
  show "(if of_session sid x then allowed_of x (fst (rl_step x rl)) else 0)
      + session_tokens (rl_time x) sid (snd (rl_step x rl)) \<le> session_tokens (rl_time x) sid rl"
  proof (cases x)
    case (Check now ip s k)
    obtain d rl' where c: "check now ip s k rl = (d, rl')" by (cases "check now ip s k rl")
    have cfg': "rl_cfg rl' = rl_cfg rl" using check_cfg [of now ip s k rl] c by simp
    have st: "fst (rl_step x rl) = Some d" "snd (rl_step x rl) = rl'" "rl_time x = now"
      using Check c by simp_all
    show ?thesis
    proof (cases "s = sid")
      case True
      from check_sessions [OF c] obtain d1 rl1 where
        cs: "check_session now s (real (max k 1)) rl = (d1, rl1)"
        and e: "rl_sessions rl' = rl_sessions rl1" and a: "d = Allow \<Longrightarrow> d1 = None" by metis
      have "session_tokens now sid rl' = session_tokens now sid rl1"
        using e cfg' check_session_frame [OF cs] by (intro session_tokens_cong) auto
      moreover have "of_session sid x"
        and "allowed_of x (Some d) \<le> (if d1 = None then real (max k 1) else 0)"
        using a True by (auto simp: Check of_session_def allowed_of_def)
      ultimately show ?thesis
        unfolding st using check_session_pays [OF ok _ cs] True by simp
    next
      case False
      then show ?thesis
        using check_other_session [of sid s now ip k rl] c cfg' session_tokens_cong [of rl' rl sid now]
        by (simp add: Check of_session_def)
    qed
  next
    case (PruneLimiter now)
    then show ?thesis using prune_keeps_tokens [OF ok] inv by (simp add: of_session_def)
  qed
qed simp

lemma admitted_Cons:
  "admitted P (x # xs) (d # ds) = (if P x then allowed_of x d else 0) + admitted P xs ds"
  by (simp add: admitted_def)

lemma gm_total: "admitted (\<lambda>_. True) xs (fst (rl_run xs rl)) = gm.total xs rl"
  by (induction xs arbitrary: rl)
    (simp_all add: rl_run_Cons admitted_Cons del: rl_run.simps(2), simp add: admitted_def)

lemma sm_total: "admitted (of_session sid) xs (fst (rl_run xs rl)) = sm.total sid xs rl"
  by (induction xs arbitrary: rl)
    (simp_all add: rl_run_Cons admitted_Cons del: rl_run.simps(2), simp add: admitted_def)

subsection \<open>The sliding window of an IP\<close>

definition seen_at :: "rate_limiter \<Rightarrow> ip_addr \<Rightarrow> string \<Rightarrow> nanos option" where
  "seen_at rl ip sid =
     (case al_get (rl_ips rl) ip of None \<Rightarrow> None | Some w \<Rightarrow> al_get (iw_sessions w) sid)"

definition window_ok :: "nat \<Rightarrow> ip_window \<Rightarrow> bool" where
  "window_ok cap w \<longleftrightarrow> al_ok (iw_sessions w) \<and> length (iw_sessions w) \<le> cap"

definition windows_ok :: "rate_limiter \<Rightarrow> bool" where
  "windows_ok rl \<longleftrightarrow>
     (\<forall>ip w. al_get (rl_ips rl) ip = Some w \<longrightarrow> window_ok (ip_session_cap (rl_cfg rl)) w)"

lemma ip_record_window_ok:
  assumes "window_ok cap w"
  shows "window_ok cap (snd (ip_record sid now cap window w))"
proof -
  let ?kept = "al_retain (\<lambda>_ seen. now - seen < window) (iw_sessions w)"
  have "al_ok ?kept" "length ?kept \<le> cap"
    using assms length_al_retain [of "\<lambda>_ seen. now - seen < window" "iw_sessions w"]
    by (auto simp: window_ok_def)
  then show ?thesis
    by (auto simp: ip_record_def Let_def window_ok_def length_al_put split: option.splits)
qed

lemma ip_record_keeps:
  assumes "al_ok (iw_sessions w)" and "al_get (iw_sessions w) s = Some seen" and "now - seen < window"
  shows "\<exists>seen'. al_get (iw_sessions (snd (ip_record sid now cap window w))) s = Some seen'
    \<and> (seen' = seen \<or> seen' = now)"
  using assms by (auto simp: ip_record_def Let_def al_get_retain al_get_put)

lemma ip_record_seen:
  "is_ok (fst (ip_record sid now cap window w)) \<Longrightarrow>
     al_get (iw_sessions (snd (ip_record sid now cap window w))) sid = Some now"
  by (auto simp: ip_record_def Let_def al_get_put split: if_splits)

lemma window_ok_empty: "window_ok cap \<lparr>iw_sessions = [], iw_last_seen = now\<rparr>"
  by (simp add: window_ok_def)

lemma check_ip_windows:
  assumes "windows_ok rl" and "check_ip now ip sid rl = (d, rl')"
  shows "windows_ok rl'"
    and "seen_at rl i s = Some seen \<Longrightarrow> now - seen < ip_session_window (rl_cfg rl) \<Longrightarrow>
       \<exists>seen'. seen_at rl' i s = Some seen' \<and> (seen' = seen \<or> seen' = now)"
    and "d = None \<Longrightarrow> \<not> is_unspecified ip \<Longrightarrow> seen_at rl' ip sid = Some now"
proof -
  let ?w = "unwrap_or \<lparr>iw_sessions = [], iw_last_seen = now\<rparr> (al_get (rl_ips rl) ip)"
  let ?r = "ip_record sid now (ip_session_cap (rl_cfg rl)) (ip_session_window (rl_cfg rl)) ?w"
  have w: "window_ok (ip_session_cap (rl_cfg rl)) ?w"
    using assms(1) window_ok_empty by (cases "al_get (rl_ips rl) ip") (auto simp: windows_ok_def)
  consider (same) "rl' = rl" "d = None \<longrightarrow> is_unspecified ip"
    | (put) "rl' = rl\<lparr>rl_ips := al_put ip (snd ?r) (rl_ips rl)\<rparr>" "d = None \<longleftrightarrow> is_ok (fst ?r)"
    using check_ip_shape [OF assms(2)] by blast
  note cs = this
  from cs show "windows_ok rl'"
  proof cases
    case put
    with assms(1) ip_record_window_ok [OF w] show ?thesis
      by (auto simp: windows_ok_def al_get_put split: if_splits)
  qed (use assms(1) in simp)
  from cs show "\<exists>seen'. seen_at rl' i s = Some seen' \<and> (seen' = seen \<or> seen' = now)"
    if seen: "seen_at rl i s = Some seen" "now - seen < ip_session_window (rl_cfg rl)"
  proof cases
    case put
    show ?thesis
    proof (cases "i = ip")
      case True
      then have "al_get (iw_sessions ?w) s = Some seen"
        using seen(1) by (auto simp: seen_at_def split: option.splits)
      with w seen(2) show ?thesis
        using ip_record_keeps [of ?w s seen now] put(1) True
        by (simp add: window_ok_def seen_at_def al_get_put)
    next
      case False
      with put(1) seen show ?thesis by (simp add: seen_at_def al_get_put)
    qed
  qed (use seen in simp)
  from cs show "seen_at rl' ip sid = Some now" if "d = None" "\<not> is_unspecified ip"
  proof cases
    case put
    with that ip_record_seen show ?thesis by (simp add: seen_at_def al_get_put)
  qed (use that in simp)
qed

lemma windows_cong:
  assumes "rl_ips rl' = rl_ips rl" and "rl_cfg rl' = rl_cfg rl"
  shows "windows_ok rl' = windows_ok rl" and "seen_at rl' i s = seen_at rl i s"
  using assms by (simp_all add: windows_ok_def seen_at_def)

lemma check_windows:
  assumes "windows_ok rl" and "check now ip sid k rl = (d, rl')"
  shows "windows_ok rl'
    \<and> (\<forall>i s seen. seen_at rl i s = Some seen \<longrightarrow> now - seen < ip_session_window (rl_cfg rl) \<longrightarrow>
         (\<exists>seen'. seen_at rl' i s = Some seen' \<and> (seen' = seen \<or> seen' = now)))
    \<and> (d = Allow \<longrightarrow> \<not> is_unspecified ip \<longrightarrow> seen_at rl' ip sid = Some now)"
  using assms(2)
proof (cases rule: check_cases)
  case session
  with windows_cong [of rl' rl] check_session_frame [OF session(1)] assms(1) show ?thesis by auto
next
  case (ip rl1)
  note f = check_session_frame [OF ip(1)]
  with windows_cong [of rl1 rl] assms(1) have "windows_ok rl1" by simp
  from check_ip_windows [OF this ip(2)] windows_cong [of rl1 rl] f ip(3) show ?thesis by auto
next
  case (global rl1 rl2)
  note f = check_session_frame [OF global(1)] and g = check_global_frame [OF global(3)]
  from f windows_cong [of rl1 rl] assms(1) have "windows_ok rl1" by simp
  from check_ip_windows [OF this global(2)] windows_cong [of rl1 rl] windows_cong [of rl' rl2] f g
  show ?thesis by auto
qed

lemma al_get_map: "al_get (map (\<lambda>(k, v). (k, f v)) m) k = map_option f (al_get m k)"
  by (simp add: al_get_def map_of_map)

lemma prune_windows:
  assumes "windows_ok rl" and "rl_ok rl"
  shows "windows_ok (limiter_prune now rl)"
    and "seen_at rl i s = Some seen \<Longrightarrow> now - seen < ip_session_window (rl_cfg rl) \<Longrightarrow>
       seen_at (limiter_prune now rl) i s = Some seen"
proof -
  let ?purge = "\<lambda>w. w\<lparr>iw_sessions := al_retain
    (\<lambda>_ seen. now - seen < ip_session_window (rl_cfg rl)) (iw_sessions w)\<rparr>"
  have "map fst (map (\<lambda>(ip, w). (ip, f w)) m) = map fst m"
    for f :: "ip_window \<Rightarrow> ip_window" and m :: "(ip_addr \<times> ip_window) list"
    by (induction m) auto
  then have "al_ok (map (\<lambda>(ip, w). (ip, ?purge w)) (rl_ips rl))"
    using assms(2) by (simp add: al_ok_def rl_ok_def ips_ok_def del: map_map)
  then have ips: "al_get (rl_ips (limiter_prune now rl)) ip
      = opt_filter (\<lambda>w. iw_sessions w \<noteq> []) (map_option ?purge (al_get (rl_ips rl) ip))" for ip
    by (simp add: limiter_prune_def Let_def al_get_retain al_get_map)
  have w: "window_ok (ip_session_cap (rl_cfg rl)) w" if "al_get (rl_ips rl) ip = Some w" for ip w
    using assms(1) that by (simp add: windows_ok_def)
  then show "windows_ok (limiter_prune now rl)"
    unfolding windows_ok_def ips
    by (fastforce simp: window_ok_def intro: order_trans [OF length_al_retain])
  show "seen_at (limiter_prune now rl) i s = Some seen"
    if seen: "seen_at rl i s = Some seen" "now - seen < ip_session_window (rl_cfg rl)"
  proof -
    from seen(1) obtain win where win: "al_get (rl_ips rl) i = Some win" "al_get (iw_sessions win) s = Some seen"
      by (auto simp: seen_at_def split: option.splits)
    have "al_get (iw_sessions (?purge win)) s = Some seen"
      using w [OF win(1)] win(2) seen(2) by (simp add: window_ok_def al_get_retain)
    moreover from this have "iw_sessions (?purge win) \<noteq> []" by auto
    ultimately show ?thesis by (simp add: seen_at_def ips win(1))
  qed
qed

definition allowed_from :: "ip_addr \<Rightarrow> rl_op list \<Rightarrow> decision option list \<Rightarrow> (nanos \<times> string) list" where
  "allowed_from ip xs ds =
     concat (map (\<lambda>(x, d). case x of
         Check u i sid _ \<Rightarrow> if i = ip \<and> d = Some Allow then [(u, sid)] else []
       | PruneLimiter _ \<Rightarrow> []) (zip xs ds))"

definition remembered :: "ip_addr \<Rightarrow> (nanos \<times> string) set \<Rightarrow> nanos \<Rightarrow> rate_limiter \<Rightarrow> bool" where
  "remembered ip H t rl \<longleftrightarrow>
     (\<forall>(u, sid) \<in> H. u \<le> t \<and> (t - u < ip_session_window (rl_cfg rl) \<longrightarrow>
        (\<exists>seen. seen_at rl ip sid = Some seen \<and> u \<le> seen)))"

lemma remembered_later: "remembered ip H t rl \<Longrightarrow> t \<le> t' \<Longrightarrow> remembered ip H t' rl"
  by (fastforce simp: remembered_def)

lemma rl_step_windows:
  assumes "windows_ok rl" and "rl_ok rl"
  shows "windows_ok (snd (rl_step x rl))"
    and "seen_at rl i s = Some seen \<Longrightarrow> rl_time x - seen < ip_session_window (rl_cfg rl) \<Longrightarrow>
      \<exists>seen'. seen_at (snd (rl_step x rl)) i s = Some seen' \<and> (seen' = seen \<or> seen' = rl_time x)"
    and "(u, s) \<in> set (allowed_from i [x] [fst (rl_step x rl)]) \<Longrightarrow> \<not> is_unspecified i \<Longrightarrow>
      u = rl_time x \<and> seen_at (snd (rl_step x rl)) i s = Some (rl_time x)"
proof -
  have "windows_ok (snd (rl_step x rl))
    \<and> (\<forall>i s seen. seen_at rl i s = Some seen \<longrightarrow> rl_time x - seen < ip_session_window (rl_cfg rl) \<longrightarrow>
         (\<exists>seen'. seen_at (snd (rl_step x rl)) i s = Some seen' \<and> (seen' = seen \<or> seen' = rl_time x)))"
  proof (cases x)
    case (Check now ip sid k)
    obtain d rl' where c: "check now ip sid k rl = (d, rl')" by (cases "check now ip sid k rl")
    from check_windows [OF assms(1) c] show ?thesis by (simp add: Check c)
  next
    case (PruneLimiter now)
    from prune_windows [OF assms] show ?thesis by (auto simp: PruneLimiter)
  qed
  then show "windows_ok (snd (rl_step x rl))"
    and "seen_at rl i s = Some seen \<Longrightarrow> rl_time x - seen < ip_session_window (rl_cfg rl) \<Longrightarrow>
      \<exists>seen'. seen_at (snd (rl_step x rl)) i s = Some seen' \<and> (seen' = seen \<or> seen' = rl_time x)"
    by blast+
  show "u = rl_time x \<and> seen_at (snd (rl_step x rl)) i s = Some (rl_time x)"
    if a: "(u, s) \<in> set (allowed_from i [x] [fst (rl_step x rl)])" "\<not> is_unspecified i"
  proof -
    from a(1) obtain now k where x: "x = Check now i s k" and al: "fst (rl_step x rl) = Some Allow"
      and u: "u = now"
      by (cases x) (auto simp: allowed_from_def split: if_splits)
    obtain d rl' where c: "check now i s k rl = (d, rl')" by (cases "check now i s k rl")
    from check_windows [OF assms(1) c] al a(2) show ?thesis by (simp add: x c u)
  qed
qed

lemma remembered_step:
  assumes "remembered ip H t rl" and "windows_ok rl" and "rl_ok rl" and "t \<le> rl_time x"
    and "\<not> is_unspecified ip"
  shows "remembered ip (H \<union> set (allowed_from ip [x] [fst (rl_step x rl)])) (rl_time x)
           (snd (rl_step x rl))"
proof -
  have H: "u \<le> rl_time x" "rl_time x - u < ip_session_window (rl_cfg rl) \<Longrightarrow>
      \<exists>seen. seen_at rl ip sid = Some seen \<and> u \<le> seen" if "(u, sid) \<in> H" for u sid
    using remembered_later [OF assms(1,4)] that by (auto simp: remembered_def)
  have "\<exists>seen'. seen_at (snd (rl_step x rl)) ip sid = Some seen' \<and> u \<le> seen'"
    if uh: "(u, sid) \<in> H" and r: "rl_time x - u < ip_session_window (rl_cfg rl)" for u sid
  proof -
    from H(2) [OF uh r] obtain seen where seen: "seen_at rl ip sid = Some seen" "u \<le> seen" by blast
    have "rl_time x - seen < ip_session_window (rl_cfg rl)" using seen(2) r by simp
    from rl_step_windows(2) [OF assms(2,3) seen(1) this] seen(2) H(1) [OF uh] show ?thesis by auto
  qed
  with H(1) rl_step_windows(3) [OF assms(2,3) _ assms(5)] show ?thesis
    unfolding remembered_def rl_step_cfg by fastforce
qed

lemma allowed_from_Cons:
  "allowed_from ip (x # xs) (d # ds) = allowed_from ip [x] [d] @ allowed_from ip xs ds"
  by (simp add: allowed_from_def)

lemma remembered_run:
  assumes "remembered ip H t rl" and "windows_ok rl" and "rl_ok rl" and "\<not> is_unspecified ip"
    and "sorted (map rl_time xs)" and "\<forall>x \<in> set xs. t \<le> rl_time x \<and> rl_time x \<le> t'" and "t \<le> t'"
  shows "remembered ip (H \<union> set (allowed_from ip xs (fst (rl_run xs rl)))) t' (snd (rl_run xs rl))
    \<and> windows_ok (snd (rl_run xs rl))"
  using assms
proof (induction xs arbitrary: H t rl)
  case Nil
  then show ?case using remembered_later by (simp add: allowed_from_def)
next
  case (Cons x xs)
  have "t \<le> rl_time x" using Cons.prems by simp
  from remembered_step [OF Cons.prems(1-3) this Cons.prems(4)]
  have s: "remembered ip (H \<union> set (allowed_from ip [x] [fst (rl_step x rl)])) (rl_time x)
      (snd (rl_step x rl))" "windows_ok (snd (rl_step x rl))"
    using rl_step_windows(1) [OF Cons.prems(2,3)] by auto
  let ?rl = "snd (rl_step x rl)"
  have r: "rl_run (x # xs) rl = (fst (rl_step x rl) # fst (rl_run xs ?rl), snd (rl_run xs ?rl))"
    by (rule rl_run_Cons)
  have "sorted (map rl_time xs)" "\<forall>y \<in> set xs. rl_time x \<le> rl_time y \<and> rl_time y \<le> t'"
    "rl_time x \<le> t'"
    using Cons.prems(5,6) by simp_all
  from Cons.IH [OF s rl_step_ok [OF Cons.prems(3)] Cons.prems(4) this]
  show ?case
    unfolding r fst_conv snd_conv allowed_from_Cons [of ip x xs] set_append Un_assoc .
qed

lemma remembered_card:
  assumes "remembered ip H t rl" and "windows_ok rl"
  shows "card {sid. \<exists>u. (u, sid) \<in> H \<and> t - u < ip_session_window (rl_cfg rl)}
           \<le> ip_session_cap (rl_cfg rl)" (is "card ?S \<le> _")
proof (cases "al_get (rl_ips rl) ip")
  case None
  have "sid \<notin> ?S" for sid using assms(1) None by (fastforce simp: remembered_def seen_at_def)
  then have "?S = {}" by blast
  then show ?thesis by (metis card.empty le0)
next
  case (Some w)
  have "?S \<subseteq> fst ` set (iw_sessions w)"
  proof
    fix sid
    assume "sid \<in> ?S"
    with assms(1) obtain seen where "seen_at rl ip sid = Some seen"
      by (fastforce simp: remembered_def)
    then show "sid \<in> fst ` set (iw_sessions w)"
      using Some al_get_in_set by (force simp: seen_at_def)
  qed
  then have "card ?S \<le> card (fst ` set (iw_sessions w))" by (simp add: card_mono)
  also have "\<dots> \<le> length (iw_sessions w)"
    using card_image_le [of "set (iw_sessions w)" fst] card_length [of "iw_sessions w"] by simp
  also have "\<dots> \<le> ip_session_cap (rl_cfg rl)"
    using assms(2) Some by (simp add: windows_ok_def window_ok_def)
  finally show ?thesis .
qed

lemma ip_cap_run:
  assumes "cfg_ok cfg" and "\<not> is_unspecified ip" and "sorted (map rl_time xs)"
    and "\<forall>x \<in> set xs. rl_time x \<le> t"
  shows "card {sid. \<exists>u. (u, sid) \<in> set (allowed_from ip xs (fst (rl_run xs (rate_limiter_new cfg t0))))
            \<and> t - u < ip_session_window cfg} \<le> ip_session_cap cfg"
proof -
  let ?rl = "rate_limiter_new cfg t0"
  have "remembered ip {} 0 ?rl" by (simp add: remembered_def)
  moreover have "windows_ok ?rl" by (simp add: windows_ok_def rate_limiter_new_def)
  ultimately have "remembered ip (set (allowed_from ip xs (fst (rl_run xs ?rl)))) t (snd (rl_run xs ?rl))"
    and "windows_ok (snd (rl_run xs ?rl))"
    using remembered_run [of ip "{}" 0 ?rl xs t] rl_ok_new [OF assms(1)] assms(2-4) by simp_all
  from remembered_card [OF this] rl_run_ok [OF rl_ok_new [OF assms(1)], of xs t0] show ?thesis
    by (simp add: rate_limiter_new_def)
qed

subsection \<open>The delay announced to a refused session\<close>

lemma deny_wait:
  assumes "deny scope wait = Deny sc w" and "w < u64_max"
  shows "sc = scope \<and> wait \<le> real w"
proof -
  from assms have "sc = scope" and w: "w = nat \<lceil>max (real_of_int \<lceil>wait\<rceil>) 1\<rceil>"
    by (auto simp: deny_def min_def split: if_splits)
  have "wait \<le> real_of_int \<lceil>wait\<rceil>" by simp
  also have "\<dots> \<le> real w" unfolding w by linarith
  finally show ?thesis using \<open>sc = scope\<close> by simp
qed

lemma try_take_retry:
  assumes "bucket_ok b" and "0 < bk_rate b" and "n \<le> bk_burst b"
    and "fst (try_take n now b) = Inl wait" and "wait \<le> as_secs_f64 (later - now)"
  shows "fst (try_take n later (snd (try_take n now b))) = Inr ()"
proof -
  from assms(2,4) have w: "wait = (n - refilled now b) / bk_rate b" and short: "\<not> n \<le> refilled now b"
    by (auto simp: try_take_eq split: if_splits)
  have "n - refilled now b \<le> as_secs_f64 (later - now) * bk_rate b"
    using assms(2,5) by (simp add: w pos_divide_le_eq)
  then show ?thesis
    using short assms(3) by (simp add: try_take_eq refilled_def)
qed

lemma check_session_retry:
  assumes "rl_ok rl" and "0 < session_per_sec (rl_cfg rl)" and "n \<le> session_burst (rl_cfg rl)"
    and "al_get (rl_sessions rl) sid \<noteq> None"
    and "check_session now sid n rl = (Some (Deny sc w), rl')" and "w < u64_max" and "now + secs w \<le> later"
  shows "fst (check_session later sid n rl') = None"
proof -
  obtain s where s: "al_get (rl_sessions rl) sid = Some s" using assms(4) by auto
  then have ok: "session_ok (rl_cfg rl) s" using assms(1) by (simp add: rl_ok_def sessions_ok_def)
  obtain r b where tt: "try_take n now (ss_bucket s) = (r, b)" by (cases "try_take n now (ss_bucket s)")
  from assms(5) s tt obtain wait where r: "r = Inl wait" and d: "deny ''session'' wait = Deny sc w"
    and rl': "rl' = rl\<lparr>rl_sessions := al_put sid \<lparr>ss_bucket = b, ss_last_seen = now\<rparr> (rl_sessions rl)\<rparr>"
    by (cases r) (auto simp: check_session_def Let_def split: if_splits)
  have "real w \<le> as_secs_f64 (later - now)"
    using assms(7) by (simp add: as_secs_f64_def secs_def pos_le_divide_eq)
  with deny_wait [OF d assms(6)] have "wait \<le> as_secs_f64 (later - now)" by linarith
  then have "fst (try_take n later b) = Inr ()"
    using try_take_retry [of "ss_bucket s" n now wait later] ok assms(2,3) tt r
    by (simp add: session_ok_def)
  then show ?thesis
    by (auto simp: check_session_def rl' al_get_put Let_def split: prod.split sum.split)
qed

lemma check_session_over_burst:
  assumes "rl_ok rl" and "session_burst (rl_cfg rl) < n" and "check_session now sid n rl = (d, rl')"
  shows "d \<noteq> None"
proof -
  let ?s = "unwrap_or (session_entry (rl_cfg rl) now) (al_get (rl_sessions rl) sid)"
  have ok: "session_ok (rl_cfg rl) ?s"
    using assms(1) session_ok_entry [of "rl_cfg rl" now]
    by (cases "al_get (rl_sessions rl) sid") (auto simp: rl_ok_def sessions_ok_def)
  then have "refilled now (ss_bucket ?s) < n"
    using refilled_bounds [of "ss_bucket ?s" now] assms(2) by (simp add: session_ok_def)
  then show ?thesis using check_session_shape [OF assms(3)] by (auto simp: try_take_eq)
qed

subsection \<open>Properties\<close>

text \<open>The default limits of the service, for the examples.\<close>

definition rl_default :: rate_limit_config where
  "rl_default = \<lparr>global_per_sec = 50000, global_burst = 100000, session_per_sec = 100,
     session_burst = 1000, ip_session_cap = 200, ip_session_window = secs 1800,
     max_tracked_sessions = 500000, max_tracked_ips = 200000\<rparr>"

lemma rl_default_ok: "cfg_ok rl_default" "ttl_refills rl_default"
  by (simp_all add: cfg_ok_def ttl_refills_def rl_default_def session_ttl_def as_secs_f64_def secs_def)

text \<open>Global flood bound: whatever the sessions, the addresses and the purges, the events
  admitted up to an instant never exceed the global burst plus the global rate times the elapsed
  time.\<close>

theorem global_flood_bound:
  assumes "cfg_ok cfg" and "sorted (map rl_time xs)"
    and "\<forall>x \<in> set xs. t0 \<le> rl_time x \<and> rl_time x \<le> t" and "t0 \<le> t"
  shows "admitted (\<lambda>_. True) xs (fst (rl_run xs (rate_limiter_new cfg t0)))
           \<le> global_burst cfg + (as_secs_f64 t - as_secs_f64 t0) * global_per_sec cfg"
proof -
  have "refilled t0 (rl_global (rate_limiter_new cfg t0)) = global_burst cfg"
    by (simp add: rate_limiter_new_def bucket_new_def refilled_def as_secs_f64_def)
  moreover have "rl_cfg (rate_limiter_new cfg t0) = cfg" by (simp add: rate_limiter_new_def)
  ultimately show ?thesis
    using gm.flood_bound [OF rl_ok_new [OF assms(1)] assms(2-4), of t0] by (simp add: gm_total)
qed

lemma global_flood_bound_witness:
  "admitted (\<lambda>_. True) [Check 5 (V4 16909060) ''a'' 7, PruneLimiter 6]
     (fst (rl_run [Check 5 (V4 16909060) ''a'' 7, PruneLimiter 6] (rate_limiter_new rl_default 5)))
     \<le> global_burst rl_default + (as_secs_f64 9 - as_secs_f64 5) * global_per_sec rl_default"
  by (rule global_flood_bound) (simp_all add: rl_default_ok)



text \<open>C32. Cap of sessions per address: within any window that ends now, the number of distinct
  sessions that got a request through from one (known) address is at most the cap.\<close>

theorem ip_session_cap_holds:
  assumes "cfg_ok cfg" and "\<not> is_unspecified ip" and "sorted (map rl_time xs)"
    and "\<forall>x \<in> set xs. rl_time x \<le> t"
  shows "card {sid. \<exists>u. (u, sid) \<in> set (allowed_from ip xs (fst (rl_run xs (rate_limiter_new cfg t0))))
            \<and> t - u < ip_session_window cfg} \<le> ip_session_cap cfg"
  using assms by (rule ip_cap_run)

lemma ip_session_cap_holds_witness:
  "card {sid. \<exists>u. (u, sid) \<in> set (allowed_from (V4 16909060) [Check 5 (V4 16909060) ''a'' 7]
        (fst (rl_run [Check 5 (V4 16909060) ''a'' 7] (rate_limiter_new rl_default 5))))
      \<and> 9 - u < ip_session_window rl_default} \<le> ip_session_cap rl_default"
  by (rule ip_session_cap_holds) (simp_all add: rl_default_ok is_unspecified_def)

text \<open>Memory bounds: after any history, the limiter tracks at most the configured numbers of
  sessions and of addresses.\<close>

theorem limiter_memory_bounds:
  assumes "cfg_ok cfg"
  shows "tracked_sessions (snd (rl_run xs (rate_limiter_new cfg t0))) \<le> max_tracked_sessions cfg
    \<and> tracked_ips (snd (rl_run xs (rate_limiter_new cfg t0))) \<le> max_tracked_ips cfg"
proof -
  have "rl_cfg (rate_limiter_new cfg t0) = cfg" by (simp add: rate_limiter_new_def)
  with rl_run_ok [OF rl_ok_new [OF assms], of xs t0] show ?thesis
    by (auto simp: rl_ok_def sessions_ok_def ips_ok_def tracked_sessions_def tracked_ips_def)
qed

lemma limiter_memory_bounds_witness:
  "tracked_sessions (snd (rl_run [Check 5 (V4 16909060) ''a'' 7] (rate_limiter_new rl_default 5)))
     \<le> max_tracked_sessions rl_default
   \<and> tracked_ips (snd (rl_run [Check 5 (V4 16909060) ''a'' 7] (rate_limiter_new rl_default 5)))
     \<le> max_tracked_ips rl_default"
  by (rule limiter_memory_bounds) (rule rl_default_ok)

text \<open>Honest delay: a known session refused by its own bucket, that comes back with the same
  number of events after the announced delay (and was not served in between), is not refused by
  its bucket again. The hypothesis that the request fits in the burst is needed (next property).\<close>

theorem session_retry_honest:
  assumes "rl_ok rl" and "0 < session_per_sec (rl_cfg rl)"
    and "real (max k 1) \<le> session_burst (rl_cfg rl)" and "al_get (rl_sessions rl) sid \<noteq> None"
    and "check now ip sid k rl = (Deny ''session'' w, rl')" and "w < u64_max"
    and "now + secs w \<le> later"
  shows "fst (check later ip' sid k rl') \<noteq> Deny ''session'' w'"
proof -
  have "check_session now sid (real (max k 1)) rl = (Some (Deny ''session'' w), rl')"
    using assms(5)
  proof (cases rule: check_cases)
    case (ip rl1)
    then show ?thesis
      by (auto simp: check_ip_def deny_def Let_def split: if_splits prod.splits sum.splits)
  next
    case (global rl1 rl2)
    then show ?thesis
      by (auto simp: check_global_def deny_def Let_def split: if_splits prod.splits sum.splits)
  qed
  from check_session_retry [OF assms(1-4) this assms(6,7)]
  obtain rl1 where "check_session later sid (real (max k 1)) rl' = (None, rl1)"
    by (metis prod.collapse)
  then show ?thesis
    by (auto simp: check_def check_ip_def check_global_def deny_def Let_def
        split: prod.splits option.splits sum.splits if_splits)
qed

definition rl_spent :: rate_limiter where
  "rl_spent = (rate_limiter_new rl_default 5)\<lparr>rl_sessions := [(''s'',
     \<lparr>ss_bucket = \<lparr>bk_tokens = 0, bk_last = 5, bk_rate = 100, bk_burst = 1000\<rparr>,
      ss_last_seen = 5\<rparr>)]\<rparr>"

lemma rl_spent_ok: "rl_ok rl_spent"
  using rl_ok_new [OF rl_default_ok(1), of 5]
  by (simp add: rl_spent_def rl_ok_def sessions_ok_def global_ok_def ips_ok_def al_ok_def)
    (simp add: al_get_def session_ok_def bucket_ok_def rate_limiter_new_def rl_default_def)

lemma check_rl_spent:
  "check 5 (V4 16909060) ''s'' 100 rl_spent = (Deny ''session'' 1, rl_spent)"
  by (simp add: check_def check_session_def rl_spent_def al_get_def al_put_def Let_def
      try_take_def as_secs_f64_def deny_def u64_max_def)

lemma session_retry_honest_witness:
  "fst (check 1000000005 (V4 16909060) ''s'' 100 rl_spent) \<noteq> Deny ''session'' 1"
  by (rule session_retry_honest [OF rl_spent_ok _ _ _ check_rl_spent])
    (simp_all add: rl_spent_def rate_limiter_new_def rl_default_def al_get_def u64_max_def secs_def)

text \<open>A request of more events than the session burst can never pass, whatever the state: the
  delay announced with its refusal does not help.\<close>

theorem over_burst_never_allowed:
  assumes "rl_ok rl" and "session_burst (rl_cfg rl) < real (max k 1)"
  shows "fst (check now ip sid k rl) \<noteq> Allow"
proof -
  obtain d rl' where c: "check now ip sid k rl = (d, rl')" by (cases "check now ip sid k rl")
  from check_sessions [OF c] check_session_over_burst [OF assms] show ?thesis
    by (metis c fst_conv)
qed

lemma over_burst_never_allowed_witness:
  "fst (check 7 (V4 16909060) ''s'' 1001 (rate_limiter_new rl_default 5)) \<noteq> Allow"
  by (rule over_burst_never_allowed)
    (simp_all add: rl_ok_new rl_default_ok, simp add: rate_limiter_new_def rl_default_def)

text \<open>A refusal is local: when a session or an address is refused at its own level, the global
  bucket is untouched, and no request touches the bucket of another session.\<close>

theorem refusal_spares_others:
  assumes "check now ip sid k rl = (d, rl')"
  shows "(\<forall>scope w. d = Deny scope w \<and> scope \<noteq> ''global'' \<longrightarrow> rl_global rl' = rl_global rl)
    \<and> (\<forall>s. s \<noteq> sid \<longrightarrow> al_get (rl_sessions rl') s = al_get (rl_sessions rl) s)"
proof -
  have "rl_global rl' = rl_global rl" if "d = Deny scope w" "scope \<noteq> ''global''" for scope w
    using assms
  proof (cases rule: check_cases)
    case session
    then show ?thesis using check_session_frame [OF session(1)] by simp
  next
    case (ip rl1)
    then show ?thesis using check_session_frame [OF ip(1)] check_ip_frame [OF ip(2)] by simp
  next
    case (global rl1 rl2)
    with that have False
      by (auto simp: check_global_def deny_def Let_def split: prod.splits sum.splits)
    then show ?thesis ..
  qed
  with check_other_session [of _ sid now ip k rl] assms show ?thesis by auto
qed

lemma refusal_spares_others_witness:
  "rl_global (snd (check 5 (V4 16909060) ''s'' 100 rl_spent)) = rl_global rl_spent"
  using refusal_spares_others [OF check_rl_spent] by (simp add: check_rl_spent)

end
