(* ===== verification/Anomaly.thy ===== *)
theory Anomaly
  imports Config
begin

text \<open>
  \<^verbatim>\<open>backend/src/security/anomaly.rs\<close>: the address of a client behind a trusted proxy, and the
  guard that counts bad requests per address and bans an address for a while. The two concurrent
  maps are association lists bounded by \<open>anomaly_max_tracked_ips\<close>; instants are arguments.
\<close>

subsection \<open>The address of the client\<close>

text \<open>
  \<open>headers\<close> gives the first value of a header by its lower-case name; \<open>header_str\<close> is
  \<^verbatim>\<open>HeaderValue::to_str\<close>, which refuses what is not visible ASCII; \<open>parse_ip\<close> reads an address.
\<close>

type_synonym header_map = "string \<Rightarrow> string option"

definition header_str :: "string \<Rightarrow> string option" where
  "header_str v =
     (if list_all (\<lambda>c. let n = (of_char c :: nat) in n = 9 \<or> (32 \<le> n \<and> n < 127)) v
      then Some v else None)"

definition client_ip ::
    "(string \<Rightarrow> ip_addr option) \<Rightarrow> header_map \<Rightarrow> ip_addr \<Rightarrow> bool \<Rightarrow> ip_addr" where
  "client_ip parse_ip headers peer trust =
     (if \<not> trust then peer
      else (let forwarded =
              (case Option.bind (headers ''x-forwarded-for'') header_str of
                 Some xff \<Rightarrow> parse_ip (str_trim (last (split_on (CHR '','') xff)))
               | None \<Rightarrow> None)
            in case forwarded of
                 Some ip \<Rightarrow> ip
               | None \<Rightarrow>
                   (case Option.bind (Option.bind (headers ''x-real-ip'') header_str)
                           (\<lambda>s. parse_ip (str_trim s)) of
                      Some rip \<Rightarrow> rip
                    | None \<Rightarrow> peer)))"

subsection \<open>The guard\<close>

record bad_entry =
  bw_count :: nat
  bw_start :: nanos

record anomaly_guard =
  ag_cfg :: anomaly_config
  ag_bad :: "(ip_addr \<times> bad_entry) list"
  ag_banned :: "(ip_addr \<times> nanos) list"

definition anomaly_guard_new :: "anomaly_config \<Rightarrow> anomaly_guard" where
  "anomaly_guard_new cfg = \<lparr>ag_cfg = cfg, ag_bad = [], ag_banned = []\<rparr>"

definition is_banned :: "ip_addr \<Rightarrow> nanos \<Rightarrow> anomaly_guard \<Rightarrow> bool \<times> anomaly_guard" where
  "is_banned ip now g =
     (if is_unspecified ip then (False, g)
      else (case al_get (ag_banned g) ip of
              Some until \<Rightarrow>
                if until > now then (True, g)
                else (False, g\<lparr>ag_banned := al_del ip (ag_banned g)\<rparr>)
            | None \<Rightarrow> (False, g)))"

definition ensure_bad_headroom :: "ip_addr \<Rightarrow> nanos \<Rightarrow> anomaly_guard \<Rightarrow> anomaly_guard" where
  "ensure_bad_headroom ip now g =
     (if al_get (ag_bad g) ip \<noteq> None \<or> length (ag_bad g) < anomaly_max_tracked_ips (ag_cfg g) then g
      else (let bad = al_retain (\<lambda>_ w. now - bw_start w < bad_window (ag_cfg g)) (ag_bad g) in
            if length bad < anomaly_max_tracked_ips (ag_cfg g) then g\<lparr>ag_bad := bad\<rparr>
            else (case min_by_key (\<lambda>(_, w). bw_start w) bad of
                    Some (k, _) \<Rightarrow> g\<lparr>ag_bad := al_del k bad\<rparr>
                  | None \<Rightarrow> g\<lparr>ag_bad := bad\<rparr>)))"

definition ensure_banned_headroom :: "nanos \<Rightarrow> anomaly_guard \<Rightarrow> anomaly_guard" where
  "ensure_banned_headroom now g =
     (if length (ag_banned g) < anomaly_max_tracked_ips (ag_cfg g) then g
      else (let banned = al_retain (\<lambda>_ until. until > now) (ag_banned g) in
            if length banned < anomaly_max_tracked_ips (ag_cfg g) then g\<lparr>ag_banned := banned\<rparr>
            else (case min_by_key snd banned of
                    Some (k, _) \<Rightarrow> g\<lparr>ag_banned := al_del k banned\<rparr>
                  | None \<Rightarrow> g\<lparr>ag_banned := banned\<rparr>)))"

text \<open>The window of an address after one more bad request, and whether it reaches the threshold.\<close>

definition count_bad :: "anomaly_config \<Rightarrow> nanos \<Rightarrow> bad_entry \<Rightarrow> bool \<times> bad_entry" where
  "count_bad cfg now w0 =
     (let w1 = (if now - bw_start w0 > bad_window cfg then \<lparr>bw_count = 0, bw_start = now\<rparr> else w0);
          w2 = w1\<lparr>bw_count := bw_count w1 + 1\<rparr>
      in if bw_count w2 \<ge> bad_requests_threshold cfg then (True, \<lparr>bw_count = 0, bw_start = now\<rparr>)
         else (False, w2))"

definition record_bad :: "ip_addr \<Rightarrow> nanos \<Rightarrow> anomaly_guard \<Rightarrow> anomaly_guard" where
  "record_bad ip now g =
     (if is_unspecified ip then g
      else (let g1 = ensure_bad_headroom ip now g;
                w0 = unwrap_or \<lparr>bw_count = 0, bw_start = now\<rparr> (al_get (ag_bad g1) ip);
                (ban, w) = count_bad (ag_cfg g1) now w0;
                g2 = g1\<lparr>ag_bad := al_put ip w (ag_bad g1)\<rparr>
            in if ban
               then (let g3 = ensure_banned_headroom now g2 in
                     g3\<lparr>ag_banned := al_put ip (now + ban_duration (ag_cfg g3)) (ag_banned g3)\<rparr>)
               else g2))"

definition anomaly_prune :: "nanos \<Rightarrow> anomaly_guard \<Rightarrow> anomaly_guard" where
  "anomaly_prune now g =
     g\<lparr>ag_banned := al_retain (\<lambda>_ until. until > now) (ag_banned g),
       ag_bad := al_retain (\<lambda>_ w. now - bw_start w < bad_window (ag_cfg g) * 2) (ag_bad g)\<rparr>"

definition banned_count :: "anomaly_guard \<Rightarrow> nat" where
  "banned_count g = length (ag_banned g)"

text \<open>Histories of the guard.\<close>

datatype guard_op = IsBanned ip_addr nanos | RecordBad ip_addr nanos | PruneGuard nanos

fun guard_step :: "guard_op \<Rightarrow> anomaly_guard \<Rightarrow> anomaly_guard" where
  "guard_step (IsBanned ip now) g = snd (is_banned ip now g)"
| "guard_step (RecordBad ip now) g = record_bad ip now g"
| "guard_step (PruneGuard now) g = anomaly_prune now g"

definition guard_run :: "guard_op list \<Rightarrow> anomaly_guard \<Rightarrow> anomaly_guard" where
  "guard_run ops g = fold guard_step ops g"

subsection \<open>Invariant and bounds\<close>

definition guard_ok :: "anomaly_guard \<Rightarrow> bool" where
  "guard_ok g \<longleftrightarrow> al_ok (ag_bad g) \<and> al_ok (ag_banned g)
     \<and> length (ag_bad g) \<le> anomaly_max_tracked_ips (ag_cfg g)
     \<and> length (ag_banned g) \<le> anomaly_max_tracked_ips (ag_cfg g)"

lemma evict_room:
  assumes "al_ok m" and "length m \<le> cap" and "0 < cap" and "\<not> length m < cap"
    and "min_by_key f m = Some (k, v)"
  shows "length (al_del k m) < cap"
proof -
  have "al_get m k = Some v"
    using assms(1,5) min_by_key_in al_get_eq_SomeI by metis
  then show ?thesis using al.del_makes_room [OF assms(1) _ assms(2,3)] by simp
qed

lemma min_by_key_full: "\<not> length m < cap \<Longrightarrow> 0 < cap \<Longrightarrow> min_by_key f m = None \<Longrightarrow> False"
  by (simp del: min_by_key.simps)

lemma bad_headroom:
  fixes ip :: ip_addr and now :: nanos
  assumes "guard_ok g" and "0 < anomaly_max_tracked_ips (ag_cfg g)"
  defines "g' \<equiv> ensure_bad_headroom ip now g"
  shows "guard_ok g' \<and> ag_cfg g' = ag_cfg g \<and> ag_banned g' = ag_banned g
    \<and> (al_get (ag_bad g') ip \<noteq> None \<or> length (ag_bad g') < anomaly_max_tracked_ips (ag_cfg g))"
proof -
  let ?cap = "anomaly_max_tracked_ips (ag_cfg g)"
  let ?bad = "al_retain (\<lambda>_ w. now - bw_start w < bad_window (ag_cfg g)) (ag_bad g)"
  have ok: "al_ok ?bad" "length ?bad \<le> ?cap"
    using assms(1) by (auto simp: guard_ok_def intro: order_trans [OF length_al_retain])
  show ?thesis
  proof (cases "al_get (ag_bad g) ip \<noteq> None \<or> length (ag_bad g) < ?cap \<or> length ?bad < ?cap")
    case True
    then show ?thesis using assms(1) ok by (auto simp: g'_def ensure_bad_headroom_def guard_ok_def)
  next
    case False
    then obtain k w where m: "min_by_key (\<lambda>(_, w). bw_start w) ?bad = Some (k, w)"
      using min_by_key_full [of ?bad ?cap] assms(2)
      by (cases "min_by_key (\<lambda>(_, w). bw_start w) ?bad") auto
    with evict_room [OF ok assms(2) _ m] False assms(1) ok show ?thesis
      by (auto simp: g'_def ensure_bad_headroom_def guard_ok_def Let_def)
  qed
qed

lemma banned_headroom:
  fixes now :: nanos
  assumes "guard_ok g" and "0 < anomaly_max_tracked_ips (ag_cfg g)"
  defines "g' \<equiv> ensure_banned_headroom now g"
  shows "guard_ok g' \<and> ag_cfg g' = ag_cfg g \<and> ag_bad g' = ag_bad g
    \<and> length (ag_banned g') < anomaly_max_tracked_ips (ag_cfg g)"
proof -
  let ?cap = "anomaly_max_tracked_ips (ag_cfg g)"
  let ?banned = "al_retain (\<lambda>_ until. until > now) (ag_banned g)"
  have ok: "al_ok ?banned" "length ?banned \<le> ?cap"
    using assms(1) by (auto simp: guard_ok_def intro: order_trans [OF length_al_retain])
  show ?thesis
  proof (cases "length (ag_banned g) < ?cap \<or> length ?banned < ?cap")
    case True
    then show ?thesis using assms(1) ok by (auto simp: g'_def ensure_banned_headroom_def guard_ok_def)
  next
    case False
    then obtain k u where m: "min_by_key snd ?banned = Some (k, u)"
      using min_by_key_full [of ?banned ?cap] assms(2) by (cases "min_by_key snd ?banned") auto
    with evict_room [OF ok assms(2) _ m] False assms(1) ok show ?thesis
      by (auto simp: g'_def ensure_banned_headroom_def guard_ok_def Let_def)
  qed
qed

lemma anomaly_prune_ok: "guard_ok g \<Longrightarrow> guard_ok (anomaly_prune now g)"
  by (auto simp: anomaly_prune_def guard_ok_def intro: order_trans [OF length_al_retain])

lemma is_banned_ok: "guard_ok g \<Longrightarrow> guard_ok (snd (is_banned ip now g))"
  by (auto simp: is_banned_def guard_ok_def length_al_del split: option.split)

text \<open>One bad request: the window of the address is counted, and the address is banned or not.\<close>

lemma record_bad_shape:
  fixes ip :: ip_addr and now :: nanos
  assumes "guard_ok g" and "0 < anomaly_max_tracked_ips (ag_cfg g)" and "\<not> is_unspecified ip"
  defines "w0 \<equiv> unwrap_or \<lparr>bw_count = 0, bw_start = now\<rparr> (al_get (ag_bad g) ip)"
  shows "guard_ok (record_bad ip now g) \<and> ag_cfg (record_bad ip now g) = ag_cfg g
    \<and> al_get (ag_bad (record_bad ip now g)) ip = Some (snd (count_bad (ag_cfg g) now w0))
    \<and> (if fst (count_bad (ag_cfg g) now w0)
       then al_get (ag_banned (record_bad ip now g)) ip = Some (now + ban_duration (ag_cfg g))
       else ag_banned (record_bad ip now g) = ag_banned g)"
proof -
  define g1 where "g1 = ensure_bad_headroom ip now g"
  have h1: "guard_ok g1" "ag_cfg g1 = ag_cfg g" "ag_banned g1 = ag_banned g"
    "al_get (ag_bad g1) ip \<noteq> None \<or> length (ag_bad g1) < anomaly_max_tracked_ips (ag_cfg g)"
    using bad_headroom [OF assms(1,2), of ip now] by (simp_all add: g1_def)
  have w: "unwrap_or \<lparr>bw_count = 0, bw_start = now\<rparr> (al_get (ag_bad g1) ip) = w0"
  proof (cases "al_get (ag_bad g) ip")
    case None
    have "al_get (ag_bad g1) ip = None"
      using assms(1) None by (auto simp: g1_def ensure_bad_headroom_def Let_def guard_ok_def
          store_simps split: option.split prod.split)
    with None show ?thesis by (simp add: w0_def)
  next
    case (Some v)
    then have "g1 = g" by (simp add: g1_def ensure_bad_headroom_def)
    with Some show ?thesis by (simp add: w0_def)
  qed
  obtain ban w2 where cb: "count_bad (ag_cfg g) now w0 = (ban, w2)" by fastforce
  define g2 where "g2 = g1\<lparr>ag_bad := al_put ip w2 (ag_bad g1)\<rparr>"
  have g2: "guard_ok g2" "ag_cfg g2 = ag_cfg g" "al_get (ag_bad g2) ip = Some w2"
      "ag_banned g2 = ag_banned g"
    using h1 al.put_within [OF _ h1(4), of w2]
    by (auto simp: g2_def guard_ok_def al_get_put)
  define g3 where "g3 = ensure_banned_headroom now g2"
  have g3: "guard_ok g3" "ag_cfg g3 = ag_cfg g" "ag_bad g3 = ag_bad g2"
      "length (ag_banned g3) < anomaly_max_tracked_ips (ag_cfg g)"
    using banned_headroom [OF g2(1), of now] assms(2) g2(2) by (simp_all add: g3_def)
  have r: "record_bad ip now g = (if ban
      then g3\<lparr>ag_banned := al_put ip (now + ban_duration (ag_cfg g)) (ag_banned g3)\<rparr> else g2)"
    using assms(3) cb w h1(2) g3(2)
    by (simp add: record_bad_def Let_def g3_def g2_def flip: g1_def)
  show ?thesis
    using g2 g3 al.put_within [of "ag_banned g3" "anomaly_max_tracked_ips (ag_cfg g)" ip]
    by (auto simp: r cb guard_ok_def al_get_put)
qed

lemma record_bad_unspecified: "is_unspecified ip \<Longrightarrow> record_bad ip now g = g"
  by (simp add: record_bad_def)

lemma guard_step_ok:
  assumes "guard_ok g" and "0 < anomaly_max_tracked_ips (ag_cfg g)"
  shows "guard_ok (guard_step x g) \<and> ag_cfg (guard_step x g) = ag_cfg g"
proof (cases x)
  case (IsBanned ip now)
  then show ?thesis using is_banned_ok [OF assms(1)]
    by (simp add: is_banned_def split: option.split)
next
  case (RecordBad ip now)
  then show ?thesis using record_bad_shape [OF assms] record_bad_unspecified assms(1)
    by (cases "is_unspecified ip") simp_all
next
  case (PruneGuard now)
  then show ?thesis using anomaly_prune_ok [OF assms(1)] by (simp add: anomaly_prune_def)
qed

lemma guard_run_ok:
  assumes "guard_ok g" and "0 < anomaly_max_tracked_ips (ag_cfg g)"
  shows "guard_ok (guard_run xs g) \<and> ag_cfg (guard_run xs g) = ag_cfg g"
  using assms by (induction xs arbitrary: g) (simp_all add: guard_run_def guard_step_ok)

subsection \<open>Bans\<close>

definition bad_burst :: "ip_addr \<Rightarrow> nanos list \<Rightarrow> guard_op list" where
  "bad_burst ip ts = map (RecordBad ip) ts"

lemma bad_burst_step:
  assumes "guard_ok g" and "0 < anomaly_max_tracked_ips (ag_cfg g)" and "\<not> is_unspecified ip"
    and "al_get (ag_bad g) ip = Some \<lparr>bw_count = c, bw_start = s\<rparr>"
    and "c + length ts < bad_requests_threshold (ag_cfg g)"
    and "\<forall>t \<in> set ts. t - s \<le> bad_window (ag_cfg g)"
  shows "al_get (ag_bad (guard_run (bad_burst ip ts) g)) ip
      = Some \<lparr>bw_count = c + length ts, bw_start = s\<rparr>
    \<and> ag_banned (guard_run (bad_burst ip ts) g) = ag_banned g"
  using assms
proof (induction ts arbitrary: g c)
  case Nil
  then show ?case by (simp add: bad_burst_def guard_run_def)
next
  case (Cons t ts)
  have cb: "count_bad (ag_cfg g) t \<lparr>bw_count = c, bw_start = s\<rparr> = (False, \<lparr>bw_count = c + 1, bw_start = s\<rparr>)"
    using Cons.prems(5,6) by (auto simp: count_bad_def)
  from record_bad_shape [OF Cons.prems(1-3), of t] Cons.prems(4) cb
  have r: "guard_ok (record_bad ip t g)" "ag_cfg (record_bad ip t g) = ag_cfg g"
    "al_get (ag_bad (record_bad ip t g)) ip = Some \<lparr>bw_count = c + 1, bw_start = s\<rparr>"
    "ag_banned (record_bad ip t g) = ag_banned g"
    by simp_all
  from Cons.IH [OF r(1) _ Cons.prems(3) r(3)] Cons.prems r(2,4) show ?case
    by (simp add: bad_burst_def guard_run_def)
qed

text \<open>The first bad requests of an address that has no window yet.\<close>

lemma bad_burst_fresh:
  assumes "guard_ok g" and "0 < anomaly_max_tracked_ips (ag_cfg g)" and "\<not> is_unspecified ip"
    and "al_get (ag_bad g) ip = None" and "Suc (length ts) < bad_requests_threshold (ag_cfg g)"
    and "\<forall>t \<in> set ts. t - s \<le> bad_window (ag_cfg g)"
  shows "al_get (ag_bad (guard_run (bad_burst ip (s # ts)) g)) ip
      = Some \<lparr>bw_count = Suc (length ts), bw_start = s\<rparr>
    \<and> ag_banned (guard_run (bad_burst ip (s # ts)) g) = ag_banned g"
proof -
  have cb: "count_bad (ag_cfg g) s \<lparr>bw_count = 0, bw_start = s\<rparr> = (False, \<lparr>bw_count = 1, bw_start = s\<rparr>)"
    using assms(5) by (auto simp: count_bad_def)
  from record_bad_shape [OF assms(1-3), of s] assms(4) cb
  have r: "guard_ok (record_bad ip s g)" "ag_cfg (record_bad ip s g) = ag_cfg g"
    "al_get (ag_bad (record_bad ip s g)) ip = Some \<lparr>bw_count = 1, bw_start = s\<rparr>"
    "ag_banned (record_bad ip s g) = ag_banned g"
    by simp_all
  from bad_burst_step [OF r(1) _ assms(3) r(3), of ts] assms r(2,4) show ?thesis
    by (simp add: bad_burst_def guard_run_def)
qed

lemma guard_run_snoc: "guard_run (xs @ [x]) g = guard_step x (guard_run xs g)"
  by (simp add: guard_run_def)

lemma bad_burst_bans:
  assumes "guard_ok g" and "0 < anomaly_max_tracked_ips (ag_cfg g)" and "\<not> is_unspecified ip"
    and "al_get (ag_bad g) ip = None" and "ts \<noteq> []" and "length ts = bad_requests_threshold (ag_cfg g)"
    and "\<forall>t \<in> set ts. t - hd ts \<le> bad_window (ag_cfg g)"
  shows "al_get (ag_banned (guard_run (bad_burst ip ts) g)) ip
           = Some (last ts + ban_duration (ag_cfg g))"
proof -
  obtain us u where ts: "ts = us @ [u]" using assms(5) by (cases ts rule: rev_cases) auto
  define g' where "g' = guard_run (bad_burst ip us) g"
  have g': "guard_ok g'" "ag_cfg g' = ag_cfg g"
    using guard_run_ok [OF assms(1,2)] by (simp_all add: g'_def)
  have step: "guard_run (bad_burst ip ts) g = record_bad ip u g'"
    by (simp add: ts g'_def bad_burst_def guard_run_snoc)
  have "fst (count_bad (ag_cfg g) u (unwrap_or \<lparr>bw_count = 0, bw_start = u\<rparr> (al_get (ag_bad g') ip)))"
  proof (cases us)
    case Nil
    then show ?thesis using assms(4,6) by (simp add: ts g'_def bad_burst_def guard_run_def count_bad_def)
  next
    case (Cons s vs)
    have "al_get (ag_bad g') ip = Some \<lparr>bw_count = Suc (length vs), bw_start = s\<rparr>"
      using bad_burst_fresh [OF assms(1-4), of vs s] assms(6,7) by (simp add: g'_def Cons ts)
    then show ?thesis using assms(6,7) by (simp add: Cons ts count_bad_def)
  qed
  with record_bad_shape [OF g'(1) _ assms(3), of u] assms(2) g'(2) show ?thesis
    unfolding step by (simp add: ts)
qed

text \<open>Nobody is banned without a bad request of its own.\<close>

lemma headroom_none:
  assumes "guard_ok g" and "al_get (ag_banned g) ip = None"
  shows "al_get (ag_banned (ensure_bad_headroom j now g)) ip = None"
    and "al_get (ag_banned (ensure_banned_headroom now g)) ip = None"
  using assms
  by (auto simp: ensure_bad_headroom_def ensure_banned_headroom_def guard_ok_def Let_def store_simps
      split: option.split prod.split)

fun blames :: "ip_addr \<Rightarrow> guard_op \<Rightarrow> bool" where
  "blames ip (RecordBad j _) = (j = ip)"
| "blames ip _ = False"

lemma record_bad_other_ban:
  assumes "guard_ok g" and "0 < anomaly_max_tracked_ips (ag_cfg g)"
    and "al_get (ag_banned g) ip = None" and "j \<noteq> ip"
  shows "al_get (ag_banned (record_bad j now g)) ip = None"
proof (cases "is_unspecified j")
  case False
  define g1 where "g1 = ensure_bad_headroom j now g"
  obtain ban w where cb: "count_bad (ag_cfg g1) now
      (unwrap_or \<lparr>bw_count = 0, bw_start = now\<rparr> (al_get (ag_bad g1) j)) = (ban, w)" by fastforce
  define g2 where "g2 = g1\<lparr>ag_bad := al_put j w (ag_bad g1)\<rparr>"
  have g1: "guard_ok g1" "ag_cfg g1 = ag_cfg g" "al_get (ag_banned g1) ip = None"
    "al_get (ag_bad g1) j \<noteq> None \<or> length (ag_bad g1) < anomaly_max_tracked_ips (ag_cfg g)"
    using bad_headroom [OF assms(1,2), of j now] assms(3) by (simp_all add: g1_def)
  then have "guard_ok g2" "al_get (ag_banned g2) ip = None"
    using al.put_within [OF _ g1(4), of w] by (auto simp: g2_def guard_ok_def)
  then have "al_get (ag_banned (ensure_banned_headroom now g2)) ip = None" by (rule headroom_none)
  with cb False assms(4) g1(3) show ?thesis
    by (simp add: record_bad_def Let_def al_get_put flip: g1_def g2_def) (simp add: g2_def)
qed (simp add: record_bad_unspecified assms(3))

lemma guard_step_innocent:
  assumes "guard_ok g" and "0 < anomaly_max_tracked_ips (ag_cfg g)"
    and "al_get (ag_banned g) ip = None" and "\<not> blames ip x"
  shows "al_get (ag_banned (guard_step x g)) ip = None"
  using assms record_bad_other_ban [OF assms(1-3)]
  by (cases x) (auto simp: is_banned_def anomaly_prune_def guard_ok_def store_simps split: option.split)

lemma guard_run_innocent:
  assumes "guard_ok g" and "0 < anomaly_max_tracked_ips (ag_cfg g)"
    and "al_get (ag_banned g) ip = None" and "\<forall>x \<in> set xs. \<not> blames ip x"
  shows "al_get (ag_banned (guard_run xs g)) ip = None"
  using assms
proof (induction xs arbitrary: g)
  case (Cons x xs)
  from Cons.IH [of "guard_step x g"] guard_step_ok [OF Cons.prems(1,2)]
    guard_step_innocent [OF Cons.prems(1-3)] Cons.prems show ?case
    by (simp add: guard_run_def)
qed (simp add: guard_run_def)

lemma guard_ok_new: "guard_ok (anomaly_guard_new cfg)"
  by (simp add: guard_ok_def anomaly_guard_new_def)

lemma split_on_append: "last (split_on c (xs @ c # ys)) = last (split_on c ys)"
  by (simp add: split_on_sep)

subsection \<open>Properties\<close>


definition anomaly_default :: anomaly_config where
  "anomaly_default = \<lparr>bad_requests_threshold = 3, bad_window = secs 60, ban_duration = secs 300,
     anomaly_max_tracked_ips = 1\<rparr>"


text \<open>Fewer bad requests than the threshold ban nobody: a burst below it leaves the bans as
  they were.\<close>

theorem below_threshold_not_banned:
  assumes "guard_ok g" and "0 < anomaly_max_tracked_ips (ag_cfg g)" and "\<not> is_unspecified ip"
    and "al_get (ag_bad g) ip = None" and "length ts < bad_requests_threshold (ag_cfg g)"
    and "\<forall>t \<in> set ts. t - hd ts \<le> bad_window (ag_cfg g)"
  shows "ag_banned (guard_run (bad_burst ip ts) g) = ag_banned g"
  using bad_burst_fresh [OF assms(1-4), of "tl ts" "hd ts"] assms(5,6)
  by (cases ts) (simp_all add: bad_burst_def guard_run_def)

lemma below_threshold_not_banned_witness:
  "ag_banned (guard_run (bad_burst (V4 7) [10, 11]) (anomaly_guard_new anomaly_default)) = []"
  using below_threshold_not_banned [OF guard_ok_new [of anomaly_default], of "V4 7" "[10, 11]"]
  by (simp add: anomaly_guard_new_def anomaly_default_def is_unspecified_def secs_def)

text \<open>No innocent ban: over any history, an address without a bad request of its own is never
  banned, whatever the others do and whatever is evicted.\<close>

theorem innocent_never_banned:
  assumes "0 < anomaly_max_tracked_ips cfg" and "\<forall>x \<in> set xs. \<not> blames ip x"
  shows "\<not> fst (is_banned ip t (guard_run xs (anomaly_guard_new cfg)))"
  using guard_run_innocent [OF guard_ok_new [of cfg], of ip xs] assms
  by (simp add: is_banned_def anomaly_guard_new_def)

lemma innocent_never_banned_witness:
  "\<not> fst (is_banned (V4 7) 20 (guard_run [RecordBad (V4 5) 9, RecordBad (V4 6) 9]
      (anomaly_guard_new anomaly_default)))"
  by (rule innocent_never_banned) (simp_all add: anomaly_default_def)

text \<open>Memory bound: over any history the guard holds at most the configured number of windows
  and of bans.\<close>

theorem guard_memory_bounds:
  assumes "0 < anomaly_max_tracked_ips cfg"
  shows "length (ag_bad (guard_run xs (anomaly_guard_new cfg))) \<le> anomaly_max_tracked_ips cfg
    \<and> banned_count (guard_run xs (anomaly_guard_new cfg)) \<le> anomaly_max_tracked_ips cfg"
  using guard_run_ok [OF guard_ok_new [of cfg], of xs] assms
  by (auto simp: guard_ok_def banned_count_def anomaly_guard_new_def)

lemma guard_memory_bounds_witness:
  "banned_count (guard_run [RecordBad (V4 5) 9, RecordBad (V4 6) 9] (anomaly_guard_new anomaly_default)) \<le> 1"
  using guard_memory_bounds [of anomaly_default "[RecordBad (V4 5) 9, RecordBad (V4 6) 9]"]
  by (simp add: anomaly_default_def)

text \<open>Behind a trusted proxy only the hop that the proxy itself appended counts: whatever a
  client writes before the last comma of the forwarding header, the resolved address is the same.\<close>

theorem client_ip_rightmost:
  assumes "headers ''x-forwarded-for'' = Some (forged @ CHR '','' # hop)" and "CHR '','' \<notin> set hop"
    and "header_str (forged @ CHR '','' # hop) = Some (forged @ CHR '','' # hop)"
    and "header_str hop = Some hop"
  shows "client_ip parse_ip headers peer trust
           = client_ip parse_ip (headers(''x-forwarded-for'' \<mapsto> hop)) peer trust
    \<and> (trust \<longrightarrow> parse_ip (str_trim hop) = Some ip \<longrightarrow> client_ip parse_ip headers peer trust = ip)"
  using assms by (simp add: client_ip_def split_on_append split_on_free)

lemma client_ip_rightmost_witness:
  "client_ip (\<lambda>s. if s = ''b'' then Some (V4 7) else None)
     [''x-forwarded-for'' \<mapsto> ''a,b''] (V4 1) True = V4 7"
proof -
  have "str_trim ''b'' = ''b''" by (rule str_trim_visible) (simp_all add: ascii_visible_def)
  then show ?thesis
    using client_ip_rightmost [of "[''x-forwarded-for'' \<mapsto> ''a,b'']" "''a''" "''b''"
        "\<lambda>s. if s = ''b'' then Some (V4 7) else None" "V4 1" True "V4 7"]
    by (auto simp: header_str_def)
qed

end
