(* ===== verification/Token.thy ===== *)
theory Token
  imports Config
begin

text \<open>
  \<^verbatim>\<open>backend/src/security/token.rs\<close> and \<^verbatim>\<open>backend/src/security/mod.rs\<close>: the verifier of
  signed tokens, its keys and their rotation, and the check of a service credential. The JWT crate
  is a parameter: \<open>decode_header\<close> and \<open>decode\<close>, the key parsers, and the answer of the JWKS
  endpoint. Error messages are the constructors of \<open>token_error\<close>.
\<close>

subsection \<open>Data\<close>

record verified_token =
  vt_actor_id :: string
  vt_session_id :: string
  vt_tenant_id :: "string option"

record claims =
  cl_actor_id :: string
  cl_session_id :: string
  cl_tenant_id :: "string option"
  cl_iat :: int

record 'key key_entry =
  ke_kid :: "string option"
  ke_alg :: algorithm
  ke_key :: 'key

record 'key token_verifier =
  tv_enabled :: bool
  tv_algorithms :: "algorithm list"
  tv_issuer :: "string option"
  tv_audience :: "string option"
  tv_leeway :: nat
  tv_keys :: "'key key_entry list"
  tv_jwks :: "(string \<times> nanos) option"

record jwt_header =
  jh_alg :: algorithm
  jh_kid :: "string option"

record validation =
  va_algorithm :: algorithm
  va_leeway :: nat
  va_validate_exp :: bool
  va_required :: "string list"
  va_issuer :: "string option"
  va_audience :: "string option"
  va_validate_aud :: bool

datatype jwt_error_kind =
    ExpiredSignature
  | InvalidSignature
  | InvalidIssuer
  | InvalidAudience
  | MissingRequiredClaim string
  | InvalidToken
  | OtherJwtError

datatype token_error =
    BadHeader
  | AlgorithmNotAllowed algorithm
  | UnknownKey
  | Expired
  | BadSignature
  | BadIssuer
  | BadAudience
  | MissingClaim string
  | Malformed
  | Invalid
  | EmptyClaims
  | ServiceTokenRequired
  | ServiceTokenInvalid

datatype key_error =
    BadPem
  | PemAlgorithm algorithm
  | JwksUnreachable
  | BadJwk
  | NoUsableKey

subsection \<open>Keys\<close>

definition select_key :: "'key key_entry list \<Rightarrow> string option \<Rightarrow> algorithm \<Rightarrow> 'key key_entry option" where
  "select_key keys kid alg =
     (case kid of
        Some k \<Rightarrow> find (\<lambda>e. ke_kid e = Some k \<and> ke_alg e = alg) keys
      | None \<Rightarrow> find (\<lambda>e. ke_alg e = alg) keys)"

definition build_pem_key ::
    "(string \<Rightarrow> 'key option) \<Rightarrow> (string \<Rightarrow> 'key option) \<Rightarrow> string \<Rightarrow> algorithm \<Rightarrow> string option
       \<Rightarrow> key_error + 'key key_entry" where
  "build_pem_key ed_pem rsa_pem p alg kid =
     (case alg of
        EdDSA \<Rightarrow> and_then (ok_or BadPem (ed_pem p)) (\<lambda>k. Inr \<lparr>ke_kid = kid, ke_alg = alg, ke_key = k\<rparr>)
      | RS256 \<Rightarrow> and_then (ok_or BadPem (rsa_pem p)) (\<lambda>k. Inr \<lparr>ke_kid = kid, ke_alg = alg, ke_key = k\<rparr>)
      | other \<Rightarrow> Inl (PemAlgorithm other))"

datatype algorithm_parameters = EllipticCurve | RSA | OctetKey | OctetKeyPair

record jwk =
  jw_kid :: "string option"
  jw_params :: algorithm_parameters
  jw_data :: string

text \<open>\<open>response\<close> is the parsed answer of the endpoint, \<open>None\<close> when any step of the request failed.\<close>

fun jwk_entries :: "(jwk \<Rightarrow> 'key option) \<Rightarrow> jwk list \<Rightarrow> key_error + 'key key_entry list" where
  "jwk_entries from_jwk [] = Inr []"
| "jwk_entries from_jwk (j # js) =
     (case (case jw_params j of OctetKeyPair \<Rightarrow> Some EdDSA | RSA \<Rightarrow> Some RS256 | _ \<Rightarrow> None) of
        None \<Rightarrow> jwk_entries from_jwk js
      | Some alg \<Rightarrow>
          and_then (ok_or BadJwk (from_jwk j)) (\<lambda>k.
          and_then (jwk_entries from_jwk js) (\<lambda>es.
          Inr (\<lparr>ke_kid = jw_kid j, ke_alg = alg, ke_key = k\<rparr> # es))))"

definition fetch_jwks :: "(jwk \<Rightarrow> 'key option) \<Rightarrow> jwk list option \<Rightarrow> key_error + 'key key_entry list" where
  "fetch_jwks from_jwk response =
     and_then (ok_or JwksUnreachable response) (\<lambda>js.
     and_then (jwk_entries from_jwk js) (\<lambda>es.
     if es = [] then Inl NoUsableKey else Inr es))"

subsection \<open>The verifier\<close>

definition token_verifier_new ::
    "(string \<Rightarrow> 'key option) \<Rightarrow> (string \<Rightarrow> 'key option) \<Rightarrow> (jwk \<Rightarrow> 'key option)
       \<Rightarrow> (string \<Rightarrow> jwk list option) \<Rightarrow> token_config \<Rightarrow> key_error + 'key token_verifier" where
  "token_verifier_new ed_pem rsa_pem from_jwk get cfg =
     and_then
       (case key_source cfg of
          None \<Rightarrow> Inr ([], None)
        | Some (Pem p alg kid) \<Rightarrow>
            and_then (build_pem_key ed_pem rsa_pem p alg kid) (\<lambda>e. Inr ([e], None))
        | Some (Jwks url) \<Rightarrow>
            and_then (fetch_jwks from_jwk (get url)) (\<lambda>es. Inr (es, Some (url, jwks_refresh cfg))))
       (\<lambda>(keys, jwks).
          Inr \<lparr>tv_enabled = token_enabled cfg, tv_algorithms = algorithms cfg,
               tv_issuer = issuer cfg, tv_audience = audience cfg, tv_leeway = leeway_secs cfg,
               tv_keys = keys, tv_jwks = jwks\<rparr>)"

text \<open>One tick of the refresh task: a failed fetch keeps the keys.\<close>

definition refresh_keys ::
    "(jwk \<Rightarrow> 'key option) \<Rightarrow> jwk list option \<Rightarrow> 'key token_verifier \<Rightarrow> 'key token_verifier" where
  "refresh_keys from_jwk response v =
     (case tv_jwks v of
        None \<Rightarrow> v
      | Some _ \<Rightarrow>
          (case fetch_jwks from_jwk response of
             Inr keys \<Rightarrow> v\<lparr>tv_keys := keys\<rparr>
           | Inl _ \<Rightarrow> v))"

fun map_jwt_err :: "jwt_error_kind \<Rightarrow> token_error" where
  "map_jwt_err ExpiredSignature = Expired"
| "map_jwt_err InvalidSignature = BadSignature"
| "map_jwt_err InvalidIssuer = BadIssuer"
| "map_jwt_err InvalidAudience = BadAudience"
| "map_jwt_err (MissingRequiredClaim c) = MissingClaim c"
| "map_jwt_err InvalidToken = Malformed"
| "map_jwt_err OtherJwtError = Invalid"

definition validation_of :: "'key token_verifier \<Rightarrow> algorithm \<Rightarrow> validation" where
  "validation_of v alg =
     \<lparr>va_algorithm = alg, va_leeway = tv_leeway v, va_validate_exp = True, va_required = [''exp''],
      va_issuer = tv_issuer v, va_audience = tv_audience v,
      va_validate_aud = (tv_audience v \<noteq> None)\<rparr>"

definition verify ::
    "(string \<Rightarrow> jwt_header option) \<Rightarrow> (string \<Rightarrow> 'key \<Rightarrow> validation \<Rightarrow> jwt_error_kind + claims)
       \<Rightarrow> 'key token_verifier \<Rightarrow> string \<Rightarrow> token_error + verified_token" where
  "verify decode_header decode v tok =
     and_then (ok_or BadHeader (decode_header tok)) (\<lambda>h.
     if jh_alg h \<notin> set (tv_algorithms v) then Inl (AlgorithmNotAllowed (jh_alg h))
     else
     and_then (ok_or UnknownKey (select_key (tv_keys v) (jh_kid h) (jh_alg h))) (\<lambda>e.
     and_then (map_err map_jwt_err (decode tok (ke_key e) (validation_of v (jh_alg h)))) (\<lambda>c.
     if str_trim (cl_actor_id c) = [] \<or> str_trim (cl_session_id c) = [] then Inl EmptyClaims
     else Inr \<lparr>vt_actor_id = cl_actor_id c, vt_session_id = cl_session_id c,
               vt_tenant_id = cl_tenant_id c\<rparr>)))"

subsection \<open>Service credentials\<close>

definition byte :: "char \<Rightarrow> 8 word" where
  "byte c = word_of_nat (of_char c)"

definition constant_time_eq :: "string \<Rightarrow> string \<Rightarrow> bool" where
  "constant_time_eq a b =
     (if length a \<noteq> length b then False
      else foldl (\<lambda>diff (x, y). or diff (xor (byte x) (byte y))) 0 (zip a b) = 0)"

definition check_service_token ::
    "(string \<Rightarrow> token_error + verified_token) \<Rightarrow> logs_auth \<Rightarrow> string option \<Rightarrow> token_error + unit" where
  "check_service_token vfy auth token =
     (case auth of
        NoAuth \<Rightarrow> Inr ()
      | Static secret \<Rightarrow>
          and_then (ok_or ServiceTokenRequired token) (\<lambda>provided.
          if constant_time_eq provided secret then Inr () else Inl ServiceTokenInvalid)
      | Jwt \<Rightarrow>
          and_then (ok_or ServiceTokenRequired token) (\<lambda>provided.
          and_then (vfy provided) (\<lambda>_. Inr ())))"

subsection \<open>Lemmas\<close>

lemma byte_inj [simp]: "byte c = byte d \<longleftrightarrow> c = d"
proof
  assume "byte c = byte d"
  then have "unat (byte c) = unat (byte d)" by simp
  then have "(of_char c :: nat) = of_char d"
    by (simp add: byte_def unat_of_nat take_bit_eq_mod)
  then show "c = d" by simp
qed simp

lemma or_eq_0_iff: "or x y = 0 \<longleftrightarrow> x = 0 \<and> y = (0 :: 8 word)"
  by (auto simp: bit_eq_iff bit_simps)

lemma xor_eq_0_iff: "xor x y = 0 \<longleftrightarrow> x = (y :: 8 word)"
  by (auto simp: bit_eq_iff bit_simps)

lemma diff_fold:
  "length a = length b \<Longrightarrow>
     foldl (\<lambda>diff (x, y). or diff (xor (byte x) (byte y))) d (zip a b) = 0 \<longleftrightarrow> d = 0 \<and> a = b"
proof (induction a arbitrary: b d)
  case Nil
  then show ?case by simp
next
  case (Cons x a)
  obtain y b' where b: "b = y # b'" using Cons.prems by (cases b) auto
  with Cons show ?case by (auto simp: or_eq_0_iff xor_eq_0_iff)
qed

lemma constant_time_eq_iff: "constant_time_eq a b \<longleftrightarrow> a = b"
  by (auto simp: constant_time_eq_def diff_fold)

lemma select_key_sound:
  "select_key keys kid alg = Some e \<Longrightarrow>
     e \<in> set keys \<and> ke_alg e = alg \<and> (\<forall>k. kid = Some k \<longrightarrow> ke_kid e = Some k)"
  by (auto simp: select_key_def find_Some_iff split: option.splits)

definition asymmetric_keys :: "'key key_entry list \<Rightarrow> bool" where
  "asymmetric_keys keys \<longleftrightarrow> (\<forall>e \<in> set keys. ke_alg e = EdDSA \<or> ke_alg e = RS256)"

lemma jwk_entries_asymmetric: "jwk_entries from_jwk js = Inr es \<Longrightarrow> asymmetric_keys es"
  by (induction js arbitrary: es)
    (auto simp: asymmetric_keys_def split: algorithm_parameters.splits)

lemma fetch_jwks_sound: "fetch_jwks from_jwk r = Inr es \<Longrightarrow> asymmetric_keys es \<and> es \<noteq> []"
  by (auto simp: fetch_jwks_def split: if_splits dest: jwk_entries_asymmetric)

lemma build_pem_key_asymmetric:
  "build_pem_key ed_pem rsa_pem p alg kid = Inr e \<Longrightarrow> asymmetric_keys [e] \<and> ke_alg e = alg"
  by (cases alg) (auto simp: build_pem_key_def asymmetric_keys_def)

lemma token_verifier_new_asymmetric:
  assumes "token_verifier_new ed_pem rsa_pem from_jwk get cfg = Inr v"
  shows "asymmetric_keys (tv_keys v) \<and> (key_source cfg \<noteq> None \<longrightarrow> tv_keys v \<noteq> [])
    \<and> tv_algorithms v = algorithms cfg"
  using assms
  by (auto simp: token_verifier_new_def asymmetric_keys_def split: option.splits key_source.splits
      dest!: fetch_jwks_sound build_pem_key_asymmetric)

definition rotations :: "(jwk \<Rightarrow> 'key option) \<Rightarrow> jwk list option list \<Rightarrow> 'key token_verifier \<Rightarrow> 'key token_verifier" where
  "rotations from_jwk rs v = fold (refresh_keys from_jwk) rs v"

lemma refresh_keys_inv:
  "asymmetric_keys (tv_keys v) \<Longrightarrow> asymmetric_keys (tv_keys (refresh_keys from_jwk r v))"
  "tv_keys v \<noteq> [] \<Longrightarrow> tv_keys (refresh_keys from_jwk r v) \<noteq> []"
  "tv_algorithms (refresh_keys from_jwk r v) = tv_algorithms v"
  by (auto simp: refresh_keys_def split: option.splits sum.splits dest: fetch_jwks_sound)

lemma rotations_inv:
  "asymmetric_keys (tv_keys v) \<Longrightarrow> asymmetric_keys (tv_keys (rotations from_jwk rs v))"
  "tv_keys v \<noteq> [] \<Longrightarrow> tv_keys (rotations from_jwk rs v) \<noteq> []"
  "tv_algorithms (rotations from_jwk rs v) = tv_algorithms v"
  by (induction rs arbitrary: v) (simp_all add: rotations_def refresh_keys_inv)

lemma verify_sound:
  assumes "verify decode_header decode v tok = Inr t"
  shows "\<exists>h e c. decode_header tok = Some h \<and> jh_alg h \<in> set (tv_algorithms v)
    \<and> e \<in> set (tv_keys v) \<and> ke_alg e = jh_alg h \<and> (\<forall>k. jh_kid h = Some k \<longrightarrow> ke_kid e = Some k)
    \<and> decode tok (ke_key e) (validation_of v (jh_alg h)) = Inr c
    \<and> vt_actor_id t = cl_actor_id c \<and> vt_session_id t = cl_session_id c
    \<and> str_trim (vt_actor_id t) \<noteq> [] \<and> str_trim (vt_session_id t) \<noteq> []"
  using assms
  by (fastforce simp: verify_def split: if_splits dest: select_key_sound)

subsection \<open>Properties\<close>

text \<open>C16. Tokens are accepted only under asymmetric keys: a verifier built from any configuration,
  after any sequence of key rotations (failed ones included), accepts a token only if its header
  names EdDSA or RS256 and an allowed algorithm, a current key has that algorithm and exactly the
  key id the header names, the JWT crate verified the token under that key with an expiry required
  and the configured issuer, audience and leeway, and both identities are not blank.\<close>

theorem accepted_token_is_verified:
  assumes "token_verifier_new ed_pem rsa_pem from_jwk get cfg = Inr v0"
    and "v = rotations from_jwk rs v0"
    and "verify decode_header decode v tok = Inr t"
  shows "\<exists>h e c. decode_header tok = Some h \<and> jh_alg h \<in> set (algorithms cfg) \<inter> {EdDSA, RS256}
    \<and> e \<in> set (tv_keys v) \<and> ke_alg e = jh_alg h \<and> (\<forall>k. jh_kid h = Some k \<longrightarrow> ke_kid e = Some k)
    \<and> decode tok (ke_key e) (validation_of v (jh_alg h)) = Inr c
    \<and> vt_actor_id t = cl_actor_id c \<and> vt_session_id t = cl_session_id c
    \<and> str_trim (vt_actor_id t) \<noteq> [] \<and> str_trim (vt_session_id t) \<noteq> []"
proof -
  note n = token_verifier_new_asymmetric [OF assms(1)]
  have "asymmetric_keys (tv_keys v)" "tv_algorithms v = algorithms cfg"
    unfolding assms(2) using n by (simp_all add: rotations_inv)
  with verify_sound [OF assms(3)] show ?thesis
    by (fastforce simp: asymmetric_keys_def)
qed

definition token_demo :: token_config where
  "token_demo = \<lparr>token_enabled = True, key_source = Some (Pem ''p'' EdDSA (Some ''k1'')),
     algorithms = [EdDSA], issuer = None, audience = None, leeway_secs = 60, jwks_refresh = 0\<rparr>"

lemma accepted_token_is_verified_witness:
  "\<exists>v. token_verifier_new Some (\<lambda>_. None) (\<lambda>_. None) (\<lambda>_. None) token_demo = Inr v
     \<and> EdDSA \<in> set (algorithms token_demo) \<inter> {EdDSA, RS256}"
proof -
  define v :: "string token_verifier" where
    "v = \<lparr>tv_enabled = True, tv_algorithms = [EdDSA], tv_issuer = None, tv_audience = None,
       tv_leeway = 60, tv_keys = [\<lparr>ke_kid = Some ''k1'', ke_alg = EdDSA, ke_key = ''p''\<rparr>], tv_jwks = None\<rparr>"
  have n: "token_verifier_new Some (\<lambda>_. None) (\<lambda>_. None) (\<lambda>_. None) token_demo = Inr v"
    by (simp add: token_verifier_new_def token_demo_def build_pem_key_def v_def)
  have trim: "str_trim ''a'' = ''a''" by (rule str_trim_visible) (simp_all add: ascii_visible_def)
  have "verify (\<lambda>_. Some \<lparr>jh_alg = EdDSA, jh_kid = Some ''k1''\<rparr>)
      (\<lambda>_ _ _. Inr \<lparr>cl_actor_id = ''a'', cl_session_id = ''a'', cl_tenant_id = None, cl_iat = 0\<rparr>) v ''t''
    = Inr \<lparr>vt_actor_id = ''a'', vt_session_id = ''a'', vt_tenant_id = None\<rparr>"
    by (simp add: verify_def v_def select_key_def trim)
  moreover have "v = rotations (\<lambda>_. None) [None] v" by (simp add: rotations_def refresh_keys_def v_def)
  ultimately show ?thesis using accepted_token_is_verified [OF n] n by fastforce
qed

text \<open>A static service token is accepted exactly when it is the configured one: the constant
  time comparison is equality.\<close>

theorem static_token_exact:
  "check_service_token vfy (Static secret) token = Inr () \<longleftrightarrow> token = Some secret"
  by (auto simp: check_service_token_def constant_time_eq_iff)

text \<open>The claim that a token was issued in the past is not checked: the answer does not depend on
  its date of issue.\<close>

definition reissued :: "int \<Rightarrow> jwt_error_kind + claims \<Rightarrow> jwt_error_kind + claims" where
  "reissued t r = (case r of Inl e \<Rightarrow> Inl e | Inr c \<Rightarrow> Inr (c\<lparr>cl_iat := t\<rparr>))"

lemma verify_ignores_iat:
  "verify decode_header (\<lambda>tok k va. reissued t (decode tok k va)) v tok
     = verify decode_header decode v tok"
  by (auto simp: verify_def and_then_def map_err_def reissued_def split: sum.splits)

text \<open>Rotation is fail-safe: after any sequence of refreshes a verifier that had a key still
  has one.\<close>

theorem rotation_keeps_a_key:
  assumes "token_verifier_new ed_pem rsa_pem from_jwk get cfg = Inr v" and "key_source cfg \<noteq> None"
  shows "tv_keys (rotations from_jwk rs v) \<noteq> []"
  using token_verifier_new_asymmetric [OF assms(1)] assms(2) by (simp add: rotations_inv)

lemma rotation_keeps_a_key_witness:
  "\<exists>v. token_verifier_new Some (\<lambda>_. None) (\<lambda>_. None) (\<lambda>_. None) token_demo = Inr v
     \<and> tv_keys (rotations (\<lambda>_. None) [None, Some []] v) \<noteq> []"
proof -
  obtain v :: "string token_verifier" where
    n: "token_verifier_new Some (\<lambda>_. None) (\<lambda>_. None) (\<lambda>_. None) token_demo = Inr v"
    by (simp add: token_verifier_new_def token_demo_def build_pem_key_def)
  with rotation_keeps_a_key [OF n] show ?thesis by (simp add: token_demo_def)
qed

end
