(* ===== verification/Rules.thy ===== *)
theory Rules
  imports Config
begin

text \<open>
  \<^verbatim>\<open>backend/src/alerting/rules.rs\<close>: the alerting rules and their validation. A rule is the
  record of its fields with the list of its sub-conditions. Reading the JSON text is the serde
  crate's work and a parameter of \<open>parse_rules\<close>.
\<close>

subsection \<open>Data\<close>

datatype rule_kind =
    LogCount
  | LogGroupCount
  | MetricThreshold
  | TelemetryCount
  | ErrorRatio
  | SpanDuration
  | RelativeChange
  | Composite
  | LogNewSignature
  | Anomaly_kind

datatype bool_op = All_op | Any_op

datatype source = Logs | Events | Spans | Metrics

datatype action =
    Slack "string option"
  | Email "string list option"
  | Webhook string "(string \<times> string) list"

datatype agg = Avg | Max_agg | Min_agg | Sum_agg | Count_agg | Last_agg | P50 | P90 | P95 | P99

fun percentile :: "agg \<Rightarrow> real option" where
  "percentile P50 = Some (1 / 2)"
| "percentile P90 = Some (9 / 10)"
| "percentile P95 = Some (95 / 100)"
| "percentile P99 = Some (99 / 100)"
| "percentile _ = None"

fun agg_label :: "agg \<Rightarrow> string" where
  "agg_label Avg = ''avg''"
| "agg_label Max_agg = ''max''"
| "agg_label Min_agg = ''min''"
| "agg_label Sum_agg = ''sum''"
| "agg_label Count_agg = ''count''"
| "agg_label Last_agg = ''last''"
| "agg_label P50 = ''p50''"
| "agg_label P90 = ''p90''"
| "agg_label P95 = ''p95''"
| "agg_label P99 = ''p99''"

datatype comparator = Gt | Gte | Lt | Lte

fun compare_values :: "comparator \<Rightarrow> real \<Rightarrow> real \<Rightarrow> bool" where
  "compare_values Gt value threshold = (value > threshold)"
| "compare_values Gte value threshold = (value \<ge> threshold)"
| "compare_values Lt value threshold = (value < threshold)"
| "compare_values Lte value threshold = (value \<le> threshold)"

fun comparator_symbol :: "comparator \<Rightarrow> string" where
  "comparator_symbol Gt = ''>''"
| "comparator_symbol Gte = ''>=''"
| "comparator_symbol Lt = ''<''"
| "comparator_symbol Lte = ''<=''"

definition default_severity :: string where
  "default_severity = ''warning''"

record rule_fields =
  ru_name :: string
  ru_kind :: rule_kind
  ru_source :: source
  ru_service :: "string option"
  ru_tenant :: "string option"
  ru_severity_min :: "int option"
  ru_metric_name :: "string option"
  ru_agg :: "agg option"
  ru_event_name :: "string option"
  ru_operation :: "string option"
  ru_error_only :: bool
  ru_min_count :: nat
  ru_baseline_secs :: "nat option"
  ru_window_secs :: nat
  ru_comparator :: comparator
  ru_threshold :: real
  ru_cooldown_secs :: nat
  ru_severity :: string
  ru_group_by :: "string option"
  ru_op :: "bool_op option"
  ru_actions :: "action list"

datatype rule = Rule (rule_data: rule_fields) (conditions: "rule list")

text \<open>The values serde gives to the fields a rules file leaves out.\<close>

definition rule_default :: "string \<Rightarrow> rule_kind \<Rightarrow> rule_fields" where
  "rule_default name kind =
     \<lparr>ru_name = name, ru_kind = kind, ru_source = Logs, ru_service = None, ru_tenant = None,
      ru_severity_min = None, ru_metric_name = None, ru_agg = None, ru_event_name = None,
      ru_operation = None, ru_error_only = False, ru_min_count = 0, ru_baseline_secs = None,
      ru_window_secs = 0, ru_comparator = Gt, ru_threshold = 0, ru_cooldown_secs = 0,
      ru_severity = default_severity, ru_group_by = None, ru_op = None, ru_actions = []\<rparr>"

datatype group_expr = Column string | Attr string

datatype rule_error =
    RuleWithoutName
  | NestedComposite
  | CompositeWithoutConditions
  | ZeroWindow
  | NoMetricName
  | NoAgg
  | BadRatioSource
  | NotScalar rule_kind
  | BadGroupBy string
  | WebhookWithoutUrl
  | RulesUnreadable
  | RulesJsonInvalid

subsection \<open>Validation\<close>

definition group_expr_of :: "rule_fields \<Rightarrow> rule_error + group_expr" where
  "group_expr_of r =
     (let g = unwrap_or ''body'' (ru_group_by r) in
      if g = ''body'' then Inr (Column ''body'')
      else if g = ''service_name'' then Inr (Column ''service_name'')
      else if g = ''severity_text'' then Inr (Column ''severity_text'')
      else if g = ''trace_id'' then Inr (Column ''trace_id'')
      else (case strip_prefix ''attr:'' g of
              Some key \<Rightarrow> if key \<noteq> [] then Inr (Attr key) else Inl (BadGroupBy g)
            | None \<Rightarrow> Inl (BadGroupBy g)))"

fun webhook_urls_ok :: "action list \<Rightarrow> rule_error + unit" where
  "webhook_urls_ok [] = Inr ()"
| "webhook_urls_ok (Webhook url _ # as) =
     (if str_trim url = [] then Inl WebhookWithoutUrl else webhook_urls_ok as)"
| "webhook_urls_ok (_ # as) = webhook_urls_ok as"

text \<open>The checks of a rule that is not a composite, by kind.\<close>

definition validate_kind :: "bool \<Rightarrow> rule_fields \<Rightarrow> rule_error + unit" where
  "validate_kind as_condition r =
     (case ru_kind r of
        MetricThreshold \<Rightarrow>
          (if unwrap_or [] (ru_metric_name r) = [] then Inl NoMetricName
           else if ru_agg r = None then Inl NoAgg else Inr ())
      | ErrorRatio \<Rightarrow>
          (if ru_source r \<noteq> Logs \<and> ru_source r \<noteq> Spans then Inl BadRatioSource else Inr ())
      | LogGroupCount \<Rightarrow>
          (if as_condition then Inl (NotScalar (ru_kind r))
           else and_then (group_expr_of r) (\<lambda>_. Inr ()))
      | LogNewSignature \<Rightarrow>
          (if as_condition then Inl (NotScalar (ru_kind r))
           else and_then (group_expr_of r) (\<lambda>_. Inr ()))
      | _ \<Rightarrow> Inr ())"

fun validate_inner :: "bool \<Rightarrow> rule \<Rightarrow> rule_error + unit"
  and validate_conditions :: "rule list \<Rightarrow> rule_error + unit" where
  "validate_inner as_condition (Rule r cs) =
     and_then
       (if ru_kind r = Composite
        then (if as_condition then Inl NestedComposite
              else if cs = [] then Inl CompositeWithoutConditions
              else validate_conditions cs)
        else (if ru_window_secs r = 0 then Inl ZeroWindow else validate_kind as_condition r))
       (\<lambda>_. webhook_urls_ok (ru_actions r))"
| "validate_conditions [] = Inr ()"
| "validate_conditions (c # cs) = and_then (validate_inner True c) (\<lambda>_. validate_conditions cs)"

definition validate_rule :: "rule \<Rightarrow> rule_error + unit" where
  "validate_rule r =
     (if str_trim (ru_name (rule_data r)) = [] then Inl RuleWithoutName else validate_inner False r)"

definition parse_rules :: "(string \<Rightarrow> rule list option) \<Rightarrow> string \<Rightarrow> rule_error + rule list" where
  "parse_rules from_json raw =
     and_then (ok_or RulesJsonInvalid (from_json raw)) (\<lambda>rules.
     and_then (try_map validate_rule rules) (\<lambda>_. Inr rules))"

definition load_rules ::
    "(string \<Rightarrow> string option) \<Rightarrow> (string \<Rightarrow> rule list option) \<Rightarrow> string \<Rightarrow> rule_error + rule list" where
  "load_rules read_file from_json path =
     and_then (ok_or RulesUnreadable (read_file path)) (parse_rules from_json)"

subsection \<open>What a valid rule is\<close>

definition action_ok :: "action \<Rightarrow> bool" where
  "action_ok a = (case a of Webhook url _ \<Rightarrow> str_trim url \<noteq> [] | _ \<Rightarrow> True)"

definition group_ok :: "rule_fields \<Rightarrow> bool" where
  "group_ok r \<longleftrightarrow> (case ru_group_by r of
      None \<Rightarrow> True
    | Some g \<Rightarrow> g \<in> set [''body'', ''service_name'', ''severity_text'', ''trace_id'']
        \<or> (prefix ''attr:'' g \<and> g \<noteq> ''attr:''))"

definition scalar_ok :: "rule_fields \<Rightarrow> bool" where
  "scalar_ok r \<longleftrightarrow> 0 < ru_window_secs r
     \<and> (ru_kind r = MetricThreshold \<longrightarrow>
          (\<exists>m. ru_metric_name r = Some m \<and> m \<noteq> []) \<and> ru_agg r \<noteq> None)
     \<and> (ru_kind r = ErrorRatio \<longrightarrow> ru_source r = Logs \<or> ru_source r = Spans)"

definition condition_ok :: "rule \<Rightarrow> bool" where
  "condition_ok c \<longleftrightarrow> ru_kind (rule_data c) \<notin> {Composite, LogGroupCount, LogNewSignature}
     \<and> scalar_ok (rule_data c) \<and> list_all action_ok (ru_actions (rule_data c))"

definition rule_ok :: "rule \<Rightarrow> bool" where
  "rule_ok r \<longleftrightarrow> str_trim (ru_name (rule_data r)) \<noteq> [] \<and> list_all action_ok (ru_actions (rule_data r))
     \<and> (if ru_kind (rule_data r) = Composite
        then conditions r \<noteq> [] \<and> list_all condition_ok (conditions r)
        else scalar_ok (rule_data r)
          \<and> (ru_kind (rule_data r) \<in> {LogGroupCount, LogNewSignature} \<longrightarrow> group_ok (rule_data r)))"

lemma webhook_urls_ok_iff: "webhook_urls_ok as = Inr () \<longleftrightarrow> list_all action_ok as"
  by (induction "as" rule: webhook_urls_ok.induct) (auto simp: action_ok_def)

lemma strip_prefix_ex: "(\<exists>k. strip_prefix p g = Some k \<and> k \<noteq> []) \<longleftrightarrow> prefix p g \<and> g \<noteq> p"
  by (auto simp: strip_prefix_def prefix_def)

lemma group_expr_ok_iff: "(\<exists>g. group_expr_of r = Inr g) \<longleftrightarrow> group_ok r"
proof (cases "ru_group_by r")
  case None
  then show ?thesis by (simp add: group_expr_of_def group_ok_def)
next
  case (Some g)
  define cols where "cols = [''body'', ''service_name'', ''severity_text'', ''trace_id'']"
  define att where "att = ''attr:''"
  show ?thesis
  proof (cases "g \<in> set cols")
    case True
    then have "g \<in> set cols \<or> (prefix att g \<and> g \<noteq> att)" by simp
    then have "group_ok r" by (simp add: group_ok_def Some cols_def att_def)
    moreover have "group_expr_of r = Inr (Column g)"
      using True by (auto simp: group_expr_of_def Some cols_def)
    ultimately show ?thesis by simp
  next
    case False
    then have g: "group_expr_of r = (case strip_prefix att g of
        Some key \<Rightarrow> if key \<noteq> [] then Inr (Attr key) else Inl (BadGroupBy g)
      | None \<Rightarrow> Inl (BadGroupBy g))"
      unfolding group_expr_of_def Some att_def [symmetric] by (simp add: cols_def)
    have "group_ok r \<longleftrightarrow> prefix att g \<and> g \<noteq> att"
      using False unfolding group_ok_def Some att_def [symmetric] cols_def [symmetric] by simp
    also have "\<dots> \<longleftrightarrow> (\<exists>x. group_expr_of r = Inr x)"
      unfolding g strip_prefix_ex [symmetric] by (auto split: option.splits if_splits)
    finally show ?thesis by simp
  qed
qed

lemma validate_kind_iff:
  "ru_kind r \<noteq> Composite \<Longrightarrow>
   0 < ru_window_secs r \<and> validate_kind as_condition r = Inr () \<longleftrightarrow>
     scalar_ok r \<and> (ru_kind r \<in> {LogGroupCount, LogNewSignature} \<longrightarrow> \<not> as_condition \<and> group_ok r)"
  using group_expr_ok_iff [of r]
  by (cases "ru_kind r") (cases "ru_metric_name r"; auto simp: validate_kind_def scalar_ok_def)+

lemma validate_condition_iff: "validate_inner True c = Inr () \<longleftrightarrow> condition_ok c"
proof (cases c)
  case (Rule r cs)
  then show ?thesis using validate_kind_iff [of r True]
    by (auto simp: condition_ok_def webhook_urls_ok_iff)
qed

lemma validate_conditions_iff: "validate_conditions cs = Inr () \<longleftrightarrow> list_all condition_ok cs"
  by (induction cs) (auto simp: validate_condition_iff)

lemma validate_rule_iff: "validate_rule r = Inr () \<longleftrightarrow> rule_ok r"
proof (cases r)
  case (Rule f cs)
  then show ?thesis using validate_kind_iff [of f False]
    by (auto simp: validate_rule_def rule_ok_def webhook_urls_ok_iff validate_conditions_iff)
qed

lemma parse_rules_iff:
  "parse_rules from_json raw = Inr rs \<longleftrightarrow> from_json raw = Some rs \<and> list_all rule_ok rs"
proof -
  have "(\<exists>us. try_map validate_rule rs = Inr us) \<longleftrightarrow> list_all rule_ok rs" for rs
    by (induction rs)
      (auto simp: validate_rule_iff split: sum.splits dest: validate_rule_iff [THEN iffD2])
  then show ?thesis by (auto simp: parse_rules_def)
qed

text \<open>Validation is exactly well-formedness: a rules file is accepted if and only if every rule
  has a name, a window, the fields its kind needs, usable webhooks, and composites are one level
  deep over scalar conditions; the accepted rules are the ones of the file.\<close>

lemma rules_accepted_iff_well_formed:
  "parse_rules from_json raw = Inr rs \<longleftrightarrow> from_json raw = Some rs \<and> list_all rule_ok rs"
  by (rule parse_rules_iff)

end
