(* ===== verification/Notify.thy ===== *)
theory Notify
  imports Rules
begin

text \<open>
  \<^verbatim>\<open>backend/src/alerting/notify.rs\<close>: the alert, its text, the channels, and the dispatcher
  that resolves the actions of each rule. Printing a float, parsing a mail address, and the answer
  of the HTTP and SMTP servers are parameters. A notifier is the data it was built from.
\<close>

subsection \<open>Alerts\<close>

fun state_label :: "alert_state \<Rightarrow> string" where
  "state_label Firing = ''FIRING''"
| "state_label Resolved = ''RESOLVED''"

record alert =
  a_rule_name :: string
  a_severity :: string
  a_state :: alert_state
  a_value :: real
  a_threshold :: real
  a_description :: string
  a_group_key :: "string option"

text \<open>\<open>fmt4\<close> is the format \<^verbatim>\<open>{:.4}\<close>; the dash of the text is the UTF-8 one.\<close>

definition em_dash :: string where
  "em_dash = [CHR 0xE2, CHR 0x80, CHR 0x94]"

definition summary :: "(real \<Rightarrow> string) \<Rightarrow> alert \<Rightarrow> string" where
  "summary fmt4 a =
     ''['' @ state_label (a_state a) @ ''] '' @ a_rule_name a @ '' ('' @ a_severity a @ '')''
     @ (case a_group_key a of Some g \<Rightarrow> '' ['' @ g @ '']'' | None \<Rightarrow> '''')
     @ '' '' @ em_dash @ '' '' @ a_description a @ '' (valeur='' @ fmt4 (a_value a)
     @ '', seuil='' @ fmt4 (a_threshold a) @ '')''"

subsection \<open>Channels\<close>

record slack_bot =
  sb_token :: string
  sb_default_channel :: string

record email_config =
  ec_smtp_host :: string
  ec_smtp_port :: nat
  ec_username :: "string option"
  ec_password :: "string option"
  ec_from :: string
  ec_to :: "string list"

record 'box email_notifier =
  en_from :: 'box
  en_to :: "'box list"
  en_host :: string
  en_port :: nat
  en_credentials :: "(string \<times> string) option"

datatype email_error = BadSender | BadRecipient string | NoRecipient | BadRelay

definition email_notifier_new ::
    "(string \<Rightarrow> 'box option) \<Rightarrow> (string \<Rightarrow> bool) \<Rightarrow> email_config \<Rightarrow> email_error + 'box email_notifier" where
  "email_notifier_new mailbox relay_ok cfg =
     and_then (ok_or BadSender (mailbox (ec_from cfg))) (\<lambda>from.
     and_then (try_map (\<lambda>a. ok_or (BadRecipient a) (mailbox a)) (ec_to cfg)) (\<lambda>to.
     if to = [] then Inl NoRecipient
     else if \<not> relay_ok (ec_smtp_host cfg) then Inl BadRelay
     else Inr \<lparr>en_from = from, en_to = to, en_host = ec_smtp_host cfg, en_port = ec_smtp_port cfg,
               en_credentials =
                 (case (ec_username cfg, ec_password cfg) of
                    (Some u, Some p) \<Rightarrow> Some (u, p)
                  | _ \<Rightarrow> None)\<rparr>))"

datatype 'box notifier =
    SlackNotifier string string
  | EmailNotifier "'box email_notifier"
  | WebhookNotifier string "(string \<times> string) list"

text \<open>
  The answer of Slack: the HTTP status and the body, or none when the request failed. It always
  answers 200, so the field \<open>ok\<close> of the body decides.
\<close>

datatype slack_error = SlackUnreachable | SlackStatus nat | SlackUnreadable | SlackRefused string

definition slack_send :: "(nat \<times> (bool \<times> string option) option) option \<Rightarrow> slack_error + unit" where
  "slack_send response =
     and_then (ok_or SlackUnreachable response) (\<lambda>(status, body).
     if \<not> (200 \<le> status \<and> status < 300) then Inl (SlackStatus status)
     else and_then (ok_or SlackUnreadable body) (\<lambda>(ok, err).
       if \<not> ok then Inl (SlackRefused (unwrap_or ''erreur inconnue'' err)) else Inr ()))"

definition webhook_send :: "nat option \<Rightarrow> nat option + unit" where
  "webhook_send response =
     (case response of
        None \<Rightarrow> Inl None
      | Some status \<Rightarrow> if 200 \<le> status \<and> status < 300 then Inr () else Inl (Some status))"

subsection \<open>The dispatcher\<close>

record dispatch_settings =
  ds_slack :: "slack_bot option"
  ds_email :: "email_config option"

record 'box dispatcher =
  di_default :: "'box notifier list"
  di_per_rule :: "'box notifier list alist"

definition with_defaults :: "'box notifier list \<Rightarrow> 'box dispatcher" where
  "with_defaults d = \<lparr>di_default = d, di_per_rule = []\<rparr>"

definition resolve_action ::
    "(email_config \<Rightarrow> email_error + 'box email_notifier) \<Rightarrow> dispatch_settings \<Rightarrow> action
       \<Rightarrow> 'box notifier list" where
  "resolve_action email_new st a =
     (case a of
        Slack channel \<Rightarrow>
          (case ds_slack st of
             Some sbot \<Rightarrow> [SlackNotifier (sb_token sbot) (unwrap_or (sb_default_channel sbot) channel)]
           | None \<Rightarrow> [])
      | Email to \<Rightarrow>
          (case ds_email st of
             Some base \<Rightarrow>
               (let cfg = (case to of Some t \<Rightarrow> base\<lparr>ec_to := t\<rparr> | None \<Rightarrow> base) in
                if ec_to cfg = [] then []
                else (case email_new cfg of Inr n \<Rightarrow> [EmailNotifier n] | Inl _ \<Rightarrow> []))
           | None \<Rightarrow> [])
      | Webhook url headers \<Rightarrow> [WebhookNotifier url headers])"

fun build_per_rule ::
    "(email_config \<Rightarrow> email_error + 'box email_notifier) \<Rightarrow> dispatch_settings \<Rightarrow> rule list
       \<Rightarrow> 'box notifier list alist \<Rightarrow> 'box notifier list alist" where
  "build_per_rule email_new st [] m = m"
| "build_per_rule email_new st (r # rs) m =
     build_per_rule email_new st rs
       (if ru_actions (rule_data r) = [] then m
        else al_put (ru_name (rule_data r))
               (concat (map (resolve_action email_new st) (ru_actions (rule_data r)))) m)"

definition dispatcher_build ::
    "(email_config \<Rightarrow> email_error + 'box email_notifier) \<Rightarrow> rule list \<Rightarrow> dispatch_settings
       \<Rightarrow> 'box notifier list \<Rightarrow> 'box dispatcher" where
  "dispatcher_build email_new rules st d =
     \<lparr>di_default = d, di_per_rule = build_per_rule email_new st rules []\<rparr>"

definition for_rule :: "'box dispatcher \<Rightarrow> rule \<Rightarrow> 'box notifier list" where
  "for_rule d r = unwrap_or (di_default d) (al_get (di_per_rule d) (ru_name (rule_data r)))"

subsection \<open>Lemmas\<close>

abbreviation rule_name :: "rule \<Rightarrow> string" where
  "rule_name r \<equiv> ru_name (rule_data r)"

lemma build_per_rule_other:
  "n \<notin> rule_name ` set rs \<Longrightarrow> al_get (build_per_rule email_new st rs m) n = al_get m n"
  by (induction rs arbitrary: m) (auto simp: al_get_put)

lemma build_per_rule_get:
  assumes "distinct (map rule_name rs)" and "r \<in> set rs" and "al_get m (rule_name r) = None"
  shows "al_get (build_per_rule email_new st rs m) (rule_name r)
    = (if ru_actions (rule_data r) = [] then None
       else Some (concat (map (resolve_action email_new st) (ru_actions (rule_data r)))))"
  using assms
proof (induction rs arbitrary: m)
  case Nil
  then show ?case by simp
next
  case (Cons q rs)
  show ?case
  proof (cases "q = r")
    case True
    with Cons.prems show ?thesis by (simp add: build_per_rule_other al_get_put)
  next
    case False
    with Cons.prems have "rule_name q \<noteq> rule_name r" "r \<in> set rs" by force+
    with Cons show ?thesis by (simp add: al_get_put)
  qed
qed

text \<open>Every rule reaches its own channels: with distinct rule names, a rule without actions
  goes to the default channels and a rule with actions to exactly those of its actions that the
  settings can serve, in order, whatever the other rules ask for.\<close>

theorem dispatch_per_rule:
  assumes "distinct (map rule_name rules)" and "r \<in> set rules"
  shows "for_rule (dispatcher_build email_new rules st d) r =
    (if ru_actions (rule_data r) = [] then d
     else concat (map (resolve_action email_new st) (ru_actions (rule_data r))))"
  using build_per_rule_get [OF assms, where m = "[]" and email_new = email_new and st = st]
  by (simp add: for_rule_def dispatcher_build_def)

lemma dispatch_per_rule_witness:
  "for_rule (dispatcher_build (\<lambda>_. Inl BadRelay)
       [Rule ((rule_default ''a'' LogCount)\<lparr>ru_actions := [Webhook ''u'' [], Slack None]\<rparr>) [],
        Rule (rule_default ''b'' LogCount) []]
       \<lparr>ds_slack = None, ds_email = None\<rparr> [SlackNotifier ''t'' ''c''])
     (Rule ((rule_default ''a'' LogCount)\<lparr>ru_actions := [Webhook ''u'' [], Slack None]\<rparr>) [])
   = [WebhookNotifier ''u'' []]"
  by (subst dispatch_per_rule) (simp_all add: rule_default_def resolve_action_def)

end
