(* ===== verification/Companion.thy ===== *)
theory Companion
  imports Notify
begin

text \<open>
  \<^verbatim>\<open>backend/src/companion/mod.rs\<close>: the registry of heartbeats and the monitor that raises an
  alert when an expected companion goes silent. The loop is a sequence of events: a heartbeat
  arrives, or the ticker fires and every expected companion is evaluated. Sending is left out: a
  failed notification is only logged.
\<close>

subsection \<open>Registry\<close>

type_synonym registry = "datetime alist"

definition registry_record :: "string \<Rightarrow> datetime \<Rightarrow> registry \<Rightarrow> registry" where
  "registry_record cid now r = al_put cid now r"

definition last_seen :: "registry \<Rightarrow> string \<Rightarrow> datetime option" where
  "last_seen r cid = al_get r cid"

definition snapshot :: "registry \<Rightarrow> (string \<times> datetime) list" where
  "snapshot r = r"

subsection \<open>Evaluation of one companion\<close>

record expected_companion =
  xc_id :: string
  xc_timeout :: nanos
  xc_severity :: string

definition quoted :: "string \<Rightarrow> string" where
  "quoted s = [CHR 0x27] @ s @ [CHR 0x27]"

definition companion_down :: "registry \<Rightarrow> expected_companion \<Rightarrow> datetime \<Rightarrow> bool" where
  "companion_down r c now =
     (case last_seen r (xc_id c) of
        Some t \<Rightarrow> since now t > xc_timeout c
      | None \<Rightarrow> True)"

definition companion_alert ::
    "registry \<Rightarrow> expected_companion \<Rightarrow> datetime \<Rightarrow> alert_state \<Rightarrow> alert" where
  "companion_alert r c now st =
     (let last = last_seen r (xc_id c);
          s = unwrap_or 0 (map_option (\<lambda>t. as_secs (since now t)) last)
      in \<lparr>a_rule_name = ''companion/'' @ xc_id c, a_severity = xc_severity c, a_state = st,
          a_value = real s, a_threshold = real (as_secs (xc_timeout c)),
          a_description =
            (case last of
               Some _ \<Rightarrow> ''companion '' @ quoted (xc_id c) @ '' silent for '' @ show_nat s
                 @ ''s (timeout '' @ show_nat (as_secs (xc_timeout c)) @ ''s)''
             | None \<Rightarrow> ''companion '' @ quoted (xc_id c) @ '' never seen''),
          a_group_key = None\<rparr>)"

definition evaluate_companion ::
    "registry \<Rightarrow> expected_companion \<Rightarrow> datetime \<Rightarrow> bool alist \<Rightarrow> alert option \<times> bool alist" where
  "evaluate_companion r c now firing =
     (let down = companion_down r c now;
          was = unwrap_or False (al_get firing (xc_id c));
          transition = (case (was, down) of
                          (False, True) \<Rightarrow> Some Firing
                        | (True, False) \<Rightarrow> Some Resolved
                        | _ \<Rightarrow> None)
      in (map_option (companion_alert r c now) transition, al_put (xc_id c) down firing))"

subsection \<open>The monitor loop\<close>

fun monitor_tick ::
    "registry \<Rightarrow> datetime \<Rightarrow> expected_companion list \<Rightarrow> bool alist \<Rightarrow> alert list \<times> bool alist" where
  "monitor_tick r now [] firing = ([], firing)"
| "monitor_tick r now (c # cs) firing =
     (let (a, firing') = evaluate_companion r c now firing;
          (as, firing'') = monitor_tick r now cs firing'
      in ((case a of None \<Rightarrow> as | Some x \<Rightarrow> x # as), firing''))"

datatype monitor_event = Beat string datetime | Tick datetime

fun monitor_step ::
    "expected_companion list \<Rightarrow> registry \<times> bool alist \<Rightarrow> monitor_event
       \<Rightarrow> alert list \<times> (registry \<times> bool alist)" where
  "monitor_step cs (r, firing) (Beat cid now) = ([], (registry_record cid now r, firing))"
| "monitor_step cs (r, firing) (Tick now) =
     (let (as, firing') = monitor_tick r now cs firing in (as, (r, firing')))"

fun monitor_run ::
    "expected_companion list \<Rightarrow> registry \<times> bool alist \<Rightarrow> monitor_event list
       \<Rightarrow> alert list \<times> (registry \<times> bool alist)" where
  "monitor_run cs s [] = ([], s)"
| "monitor_run cs s (e # es) =
     (let (as, s') = monitor_step cs s e; (bs, s'') = monitor_run cs s' es in (as @ bs, s''))"

subsection \<open>One companion as an edge-triggered machine\<close>

definition companion_flag :: "expected_companion \<Rightarrow> registry \<times> bool alist \<Rightarrow> bool" where
  "companion_flag c s = unwrap_or False (al_get (snd s) (xc_id c))"

fun companion_step ::
    "expected_companion \<Rightarrow> registry \<times> bool alist \<Rightarrow> monitor_event
       \<Rightarrow> (registry \<times> bool alist) \<times> alert_state option" where
  "companion_step c (r, firing) (Beat cid now) = ((registry_record cid now r, firing), None)"
| "companion_step c (r, firing) (Tick now) =
     (let (a, firing') = evaluate_companion r c now firing in ((r, firing'), map_option a_state a))"

lemma companion_alert_state [simp]: "a_state (companion_alert r c now st) = st"
  by (simp add: companion_alert_def Let_def)

lemma companion_alert_name [simp]: "a_rule_name (companion_alert r c now st) = ''companion/'' @ xc_id c"
  by (simp add: companion_alert_def Let_def)

lemma evaluate_edge:
  "map_option a_state (fst (evaluate_companion r c now firing))
     = edge (unwrap_or False (al_get firing (xc_id c))) (companion_down r c now)"
  by (simp add: evaluate_companion_def Let_def edge_def split: bool.split)

lemma evaluate_firing:
  "snd (evaluate_companion r c now firing) = al_put (xc_id c) (companion_down r c now) firing"
  by (simp add: evaluate_companion_def Let_def)

interpretation cm: edge_machine "companion_step c" "companion_flag c" for c
proof
  fix s t :: "registry \<times> bool alist" and i out
  assume a: "companion_step c s i = (t, out)"
  obtain r firing where s: "s = (r, firing)" by fastforce
  show "out = edge (companion_flag c s) (companion_flag c t)"
  proof (cases i)
    case (Beat cid now)
    with a s show ?thesis by (auto simp: companion_flag_def edge_def)
  next
    case (Tick now)
    with a s evaluate_edge [of r c now firing] evaluate_firing [of r c now firing] show ?thesis
      by (auto simp: companion_flag_def al_get_put split: prod.splits)
  qed
qed

subsection \<open>The monitor of many companions, seen from one of them\<close>

definition alerts_of :: "expected_companion \<Rightarrow> alert list \<Rightarrow> alert_state list" where
  "alerts_of c as = map a_state (filter (\<lambda>a. a_rule_name a = ''companion/'' @ xc_id c) as)"

lemma evaluate_name:
  "fst (evaluate_companion r c now firing) = Some a \<Longrightarrow> a_rule_name a = ''companion/'' @ xc_id c"
  by (auto simp: evaluate_companion_def Let_def)

lemma evaluate_cong:
  "al_get f (xc_id c) = al_get g (xc_id c) \<Longrightarrow>
     fst (evaluate_companion r c now f) = fst (evaluate_companion r c now g)"
  by (simp add: evaluate_companion_def Let_def)

lemma tick_other:
  "xc_id c \<notin> xc_id ` set cs \<Longrightarrow> monitor_tick r now cs f = (as, g) \<Longrightarrow>
     alerts_of c as = [] \<and> al_get g (xc_id c) = al_get f (xc_id c)"
proof (induction cs arbitrary: f as g)
  case Nil
  then show ?case by (simp add: alerts_of_def)
next
  case (Cons d cs)
  obtain a f' where e: "evaluate_companion r d now f = (a, f')" by fastforce
  obtain bs g' where t: "monitor_tick r now cs f' = (bs, g')" by fastforce
  have "al_get f' (xc_id c) = al_get f (xc_id c)"
    using evaluate_firing [of r d now f] e Cons.prems(1) by (auto simp: al_get_put)
  with Cons.IH [OF _ t] Cons.prems e t show ?case
    using evaluate_name [of r d now f] by (auto simp: alerts_of_def split: option.splits)
qed

lemma tick_one:
  assumes "c \<in> set cs" and "distinct (map xc_id cs)" and "monitor_tick r now cs f = (as, g)"
  shows "alerts_of c as = (case fst (evaluate_companion r c now f) of None \<Rightarrow> [] | Some a \<Rightarrow> [a_state a])
    \<and> al_get g (xc_id c) = Some (companion_down r c now)"
  using assms
proof (induction cs arbitrary: f as g)
  case Nil
  then show ?case by simp
next
  case (Cons d cs)
  obtain a f' where e: "evaluate_companion r d now f = (a, f')" by fastforce
  obtain bs where t: "monitor_tick r now cs f' = (bs, g)" and as: "as = (case a of None \<Rightarrow> bs | Some x \<Rightarrow> x # bs)"
    using Cons.prems(3) e by (auto split: prod.splits)
  have f': "f' = al_put (xc_id d) (companion_down r d now) f" using evaluate_firing [of r d now f] e by simp
  show ?case
  proof (cases "d = c")
    case True
    with Cons.prems(2) have "xc_id c \<notin> xc_id ` set cs" by auto
    from tick_other [OF this t] True e as f' evaluate_name [of r d now f] show ?thesis
      by (auto simp: alerts_of_def al_get_put split: option.splits)
  next
    case False
    with Cons.prems have c: "c \<in> set cs" "distinct (map xc_id cs)" "xc_id d \<noteq> xc_id c" by force+
    with f' have "al_get f' (xc_id c) = al_get f (xc_id c)" by (simp add: al_get_put)
    with Cons.IH [OF c(1,2) t] evaluate_cong [of f' c f r now] as evaluate_name [of r d now f] e c(3)
    show ?thesis by (auto simp: alerts_of_def split: option.splits)
  qed
qed

lemma alerts_of_append: "alerts_of c (xs @ ys) = alerts_of c xs @ alerts_of c ys"
  by (simp add: alerts_of_def)

lemma cm_run_cong:
  "fst s = fst t \<Longrightarrow> al_get (snd s) (xc_id c) = al_get (snd t) (xc_id c) \<Longrightarrow>
     snd (cm.run c s es) = snd (cm.run c t es)
     \<and> companion_flag c (fst (cm.run c s es)) = companion_flag c (fst (cm.run c t es))"
proof (induction es arbitrary: s t)
  case Nil
  then show ?case by (simp add: companion_flag_def)
next
  case (Cons e es)
  obtain r f where s: "s = (r, f)" by fastforce
  obtain g where t: "t = (r, g)" using Cons.prems s by (cases t) auto
  define s' where "s' = fst (companion_step c s e)"
  define t' where "t' = fst (companion_step c t e)"
  have out: "snd (companion_step c s e) = snd (companion_step c t e)"
    and st: "fst s' = fst t'" "al_get (snd s') (xc_id c) = al_get (snd t') (xc_id c)"
    using Cons.prems evaluate_cong [of f c g r] evaluate_firing [of r c _ f] evaluate_firing [of r c _ g]
    by (cases e; auto simp: s'_def t'_def s t split_beta al_get_put)+
  from Cons.IH [OF st] out show ?case
    by (auto simp: split_beta s'_def t'_def split: option.split)
qed

lemma monitor_run_project:
  assumes "c \<in> set cs" and "distinct (map xc_id cs)"
  shows "alerts_of c (fst (monitor_run cs s es)) = snd (cm.run c s es)
    \<and> companion_flag c (snd (monitor_run cs s es)) = companion_flag c (fst (cm.run c s es))"
proof (induction es arbitrary: s)
  case Nil
  then show ?case by (simp add: alerts_of_def)
next
  case (Cons e es)
  obtain r f where s: "s = (r, f)" by fastforce
  show ?case
  proof (cases e)
    case (Beat cid now)
    with Cons show ?thesis by (simp add: s split_beta alerts_of_append alerts_of_def)
  next
    case (Tick now)
    obtain as g where t: "monitor_tick r now cs f = (as, g)" by fastforce
    note p = tick_one [OF assms t]
    let ?f = "al_put (xc_id c) (companion_down r c now) f"
    have "al_get g (xc_id c) = al_get ?f (xc_id c)" using p by (simp add: al_get_put)
    with cm_run_cong [of "(r, g)" "(r, ?f)" c es]
    have "snd (cm.run c (r, g) es) = snd (cm.run c (r, ?f) es)"
      "companion_flag c (fst (cm.run c (r, g) es)) = companion_flag c (fst (cm.run c (r, ?f) es))"
      by simp_all
    with Cons [of "(r, g)"] p t evaluate_firing [of r c now f] show ?thesis
      by (simp add: s Tick split_beta alerts_of_append split: option.split)
  qed
qed

subsection \<open>Properties\<close>

text \<open>No duplicate and no lost companion alert: over any sequence of heartbeats and ticks, the
  alerts of an expected companion alternate between firing and resolved, starting with firing, and
  the last one tells what the monitor remembers.\<close>

theorem companion_alerts_alternate:
  assumes "c \<in> set cs" and "distinct (map xc_id cs)"
  shows "alternates False (alerts_of c (fst (monitor_run cs ([], []) es)))
    \<and> final_flag False (alerts_of c (fst (monitor_run cs ([], []) es)))
      = companion_flag c (snd (monitor_run cs ([], []) es))"
proof -
  obtain t outs where r: "cm.run c ([], []) es = (t, outs)" by fastforce
  have "companion_flag c ([], []) = False" by (simp add: companion_flag_def)
  with cm.run_alternates [OF r] monitor_run_project [OF assms, of "([], [])" es] r show ?thesis
    by simp
qed

lemma companion_alerts_alternate_witness:
  "alternates False (alerts_of \<lparr>xc_id = ''e'', xc_timeout = 5, xc_severity = ''s''\<rparr>
     (fst (monitor_run [\<lparr>xc_id = ''e'', xc_timeout = 5, xc_severity = ''s''\<rparr>] ([], [])
       [Tick 0, Beat ''e'' 1, Tick 2, Tick 9])))"
  by (rule companion_alerts_alternate [THEN conjunct1]) simp_all

lemma monitor_run_snoc_tick:
  "snd (monitor_run cs s (es @ [Tick now]))
     = (fst (snd (monitor_run cs s es)),
        snd (monitor_tick (fst (snd (monitor_run cs s es))) now cs (snd (snd (monitor_run cs s es)))))"
proof (induction es arbitrary: s)
  case Nil
  then show ?case by (cases s) (simp add: split_beta)
qed (simp add: split_beta)

text \<open>Detection: after a tick the monitor remembers a companion as firing exactly when it was
  never seen or its last heartbeat is older than its timeout, whatever happened before.\<close>

theorem companion_detection:
  assumes "c \<in> set cs" and "distinct (map xc_id cs)"
  shows "companion_flag c (snd (monitor_run cs s (es @ [Tick now])))
    \<longleftrightarrow> (case last_seen (fst (snd (monitor_run cs s es))) (xc_id c) of
           None \<Rightarrow> True | Some t \<Rightarrow> since now t > xc_timeout c)"
proof -
  obtain r f where st: "snd (monitor_run cs s es) = (r, f)" by fastforce
  obtain as g where t: "monitor_tick r now cs f = (as, g)" by fastforce
  from tick_one [OF assms t] show ?thesis
    by (simp add: monitor_run_snoc_tick st t companion_flag_def companion_down_def)
qed

lemma companion_detection_witness:
  "companion_flag \<lparr>xc_id = ''e'', xc_timeout = 5, xc_severity = ''s''\<rparr>
     (snd (monitor_run [\<lparr>xc_id = ''e'', xc_timeout = 5, xc_severity = ''s''\<rparr>] ([], [])
       ([Beat ''e'' 1] @ [Tick 9])))"
  by (subst companion_detection)
    (simp_all add: last_seen_def registry_record_def al_get_put since_def)

end
