(* ===== verification/Otlp.thy ===== *)
theory Otlp
  imports Config
begin

text \<open>
  \<^verbatim>\<open>backend/src/otlp/mod.rs\<close>, \<^verbatim>\<open>json.rs\<close> and \<^verbatim>\<open>proto.rs\<close>: JSON values, the
  attribute values of the two OTLP encodings and their conversion, the correlation identity and
  the timestamps. A JSON object of serde\_json is a sorted map, an association list with ascending
  keys here. Printing a JSON value is the crate's work and the parameter \<open>ser\<close> where it is used.
\<close>

subsection \<open>JSON values\<close>

datatype json_number = PosInt nat | NegInt int | JFloat real

datatype json =
    JNull
  | JBool bool
  | JNum json_number
  | JStr string
  | JArr "json list"
  | JObj "(string \<times> json) list"

type_synonym json_map = "(string \<times> json) list"

text \<open>Insertion into a sorted map.\<close>

fun map_insert :: "string \<Rightarrow> 'v \<Rightarrow> (string \<times> 'v) list \<Rightarrow> (string \<times> 'v) list" where
  "map_insert k v [] = [(k, v)]"
| "map_insert k v ((k', v') # m) =
     (if k = k' then (k, v) # m
      else if k < k' then (k, v) # (k', v') # m
      else (k', v') # map_insert k v m)"

definition json_of_int :: "int \<Rightarrow> json" where
  "json_of_int i = JNum (if i < 0 then NegInt i else PosInt (nat i))"

definition json_obj :: "(string \<times> json) list \<Rightarrow> json" where
  "json_obj kvs = JObj (fold (\<lambda>(k, v) m. map_insert k v m) kvs [])"

definition json_byte_len :: "(json \<Rightarrow> string) \<Rightarrow> json \<Rightarrow> nat" where
  "json_byte_len ser v = length (ser v)"

definition opt_len :: "string option \<Rightarrow> nat" where
  "opt_len s = (case s of None \<Rightarrow> 0 | Some t \<Rightarrow> length t)"

subsection \<open>Correlation\<close>

definition tenant_keys :: "string list" where
  "tenant_keys = [''tenant_id'', ''tenant.id'', ''tenant'']"

definition actor_keys :: "string list" where
  "actor_keys = [''actor_id'', ''actor.id'', ''user.id'', ''enduser.id'', ''user_id'']"

definition session_keys :: "string list" where
  "session_keys = [''session_id'', ''session.id'', ''session'']"

fun lookup :: "json_map \<Rightarrow> string list \<Rightarrow> string option" where
  "lookup m [] = None"
| "lookup m (k # ks) =
     (case al_get m k of
        Some (JStr s) \<Rightarrow> if s \<noteq> [] then Some s else lookup m ks
      | _ \<Rightarrow> lookup m ks)"

record correlation =
  co_tenant_id :: "string option"
  co_actor_id :: "string option"
  co_session_id :: "string option"

definition correlate :: "json_map \<Rightarrow> json_map \<Rightarrow> correlation" where
  "correlate record_attrs resource_attrs =
     \<lparr>co_tenant_id = opt_or (lookup record_attrs tenant_keys) (lookup resource_attrs tenant_keys),
      co_actor_id = opt_or (lookup record_attrs actor_keys) (lookup resource_attrs actor_keys),
      co_session_id = opt_or (lookup record_attrs session_keys) (lookup resource_attrs session_keys)\<rparr>"

subsection \<open>Timestamps\<close>

text \<open>\<^verbatim>\<open>DateTime::from_timestamp\<close> of the chrono crate accepts the dates it can represent.\<close>

definition from_timestamp :: "int \<Rightarrow> nat \<Rightarrow> datetime option" where
  "from_timestamp s sub =
     (if -8334601228800 \<le> s \<and> s \<le> 8210266876799 \<and> sub < 2000000000
      then Some (s * 1000000000 + int sub) else None)"

definition nanos_to_dt :: "nat \<Rightarrow> datetime option" where
  "nanos_to_dt n = from_timestamp (int (n div 1000000000)) (n mod 1000000000)"

lemma nanos_to_dt_u64: "n \<le> u64_max \<Longrightarrow> nanos_to_dt n = Some (int n)"
proof -
  assume "n \<le> u64_max"
  then have "n div 1000000000 \<le> 18446744073" by (simp add: u64_max_def)
  moreover have "n mod 1000000000 < 2000000000" by (rule less_trans [OF mod_less_divisor]) simp_all
  moreover have "int (n div 1000000000) * 1000000000 + int (n mod 1000000000) = int n"
    by (metis div_mult_mod_eq of_nat_add of_nat_mult of_nat_numeral)
  ultimately show ?thesis by (simp add: nanos_to_dt_def from_timestamp_def)
qed

subsection \<open>The JSON encoding\<close>

datatype string_or_num = Str string | Num json_number

text \<open>The cast \<^verbatim>\<open>f as u64\<close> truncates and saturates: what is negative becomes zero.\<close>

definition f64_as_u64 :: "real \<Rightarrow> nat" where
  "f64_as_u64 f = min (nat \<lfloor>f\<rfloor>) u64_max"

fun as_u64 :: "string_or_num \<Rightarrow> nat option" where
  "as_u64 (Str s) = parse_uint u64_max (str_trim s)"
| "as_u64 (Num (PosInt n)) = Some n"
| "as_u64 (Num (NegInt i)) = Some (f64_as_u64 (real_of_int i))"
| "as_u64 (Num (JFloat f)) = Some (f64_as_u64 f)"

datatype any_value =
  AnyValue
    (av_string: "string option")
    (av_int: "string_or_num option")
    (av_double: "real option")
    (av_bool: "bool option")
    (av_array: "any_value list option")
    (av_kvlist: "(string \<times> any_value option) list option")
    (av_bytes: "string option")

type_synonym key_value = "string \<times> any_value option"

fun anyvalue_to_json :: "any_value \<Rightarrow> json"
  and anyvalues_to_json :: "any_value list \<Rightarrow> json list"
  and attrs_into :: "key_value list \<Rightarrow> json_map \<Rightarrow> json_map" where
  "anyvalue_to_json (AnyValue s i d b a kv bs) =
     (case s of Some t \<Rightarrow> JStr t | None \<Rightarrow>
      (case i of Some n \<Rightarrow> (case as_u64 n of Some k \<Rightarrow> JNum (PosInt k) | None \<Rightarrow> JNull) | None \<Rightarrow>
      (case d of Some f \<Rightarrow> JNum (JFloat f) | None \<Rightarrow>
      (case b of Some c \<Rightarrow> JBool c | None \<Rightarrow>
      (case a of Some vs \<Rightarrow> JArr (anyvalues_to_json vs) | None \<Rightarrow>
      (case kv of Some kvs \<Rightarrow> JObj (attrs_into kvs []) | None \<Rightarrow>
      (case bs of Some t \<Rightarrow> JStr t | None \<Rightarrow> JNull)))))))"
| "anyvalues_to_json [] = []"
| "anyvalues_to_json (v # vs) = anyvalue_to_json v # anyvalues_to_json vs"
| "attrs_into [] m = m"
| "attrs_into ((k, v) # kvs) m =
     attrs_into kvs (map_insert k (case v of Some w \<Rightarrow> anyvalue_to_json w | None \<Rightarrow> JNull) m)"

definition attrs_to_map :: "key_value list \<Rightarrow> json_map" where
  "attrs_to_map attrs = attrs_into attrs []"

text \<open>Both encodings print a value that is not a string as JSON text.\<close>

definition json_text :: "(json \<Rightarrow> string) \<Rightarrow> json \<Rightarrow> string" where
  "json_text ser j = (case j of JStr s \<Rightarrow> s | other \<Rightarrow> ser other)"

definition anyvalue_to_string :: "(json \<Rightarrow> string) \<Rightarrow> any_value \<Rightarrow> string" where
  "anyvalue_to_string ser v = json_text ser (anyvalue_to_json v)"

subsection \<open>The protobuf encoding\<close>

datatype proto_value =
    PString string
  | PBool bool
  | PInt int
  | PDouble real
  | PArray "proto_value list"
  | PKvlist "(string \<times> proto_value option) list"
  | PBytes "8 word list"
  | POther
  | PUnset

type_synonym proto_key_value = "string \<times> proto_value option"

definition hex_digit :: "nat \<Rightarrow> char" where
  "hex_digit n = char_of (if n < 10 then 48 + n else 87 + n)"

definition hex :: "8 word list \<Rightarrow> string" where
  "hex bytes = concat (map (\<lambda>b. [hex_digit (unat b div 16), hex_digit (unat b mod 16)]) bytes)"

definition hex_opt :: "8 word list \<Rightarrow> string option" where
  "hex_opt bytes = (if bytes = [] then None else Some (hex bytes))"

fun proto_to_json :: "proto_value \<Rightarrow> json"
  and protos_to_json :: "proto_value list \<Rightarrow> json list"
  and proto_attrs_into :: "proto_key_value list \<Rightarrow> json_map \<Rightarrow> json_map" where
  "proto_to_json (PString s) = JStr s"
| "proto_to_json (PBool b) = JBool b"
| "proto_to_json (PInt i) = json_of_int i"
| "proto_to_json (PDouble d) = JNum (JFloat d)"
| "proto_to_json (PArray vs) = JArr (protos_to_json vs)"
| "proto_to_json (PKvlist kvs) = JObj (proto_attrs_into kvs [])"
| "proto_to_json (PBytes bs) = JStr (hex bs)"
| "proto_to_json POther = JNull"
| "proto_to_json PUnset = JNull"
| "protos_to_json [] = []"
| "protos_to_json (v # vs) = proto_to_json v # protos_to_json vs"
| "proto_attrs_into [] m = m"
| "proto_attrs_into ((k, v) # kvs) m =
     proto_attrs_into kvs (map_insert k (case v of Some w \<Rightarrow> proto_to_json w | None \<Rightarrow> JNull) m)"

definition proto_attrs_to_map :: "proto_key_value list \<Rightarrow> json_map" where
  "proto_attrs_to_map attrs = proto_attrs_into attrs []"

definition proto_to_string :: "(json \<Rightarrow> string) \<Rightarrow> proto_value \<Rightarrow> string" where
  "proto_to_string ser v = json_text ser (proto_to_json v)"

subsection \<open>Sorted maps\<close>

definition map_sorted :: "(string \<times> 'v) list \<Rightarrow> bool" where
  "map_sorted m \<longleftrightarrow> sorted_wrt (<) (map fst m)"

lemma map_insert_keys: "fst ` set (map_insert k v m) = insert k (fst ` set m)"
  by (induction k v m rule: map_insert.induct) auto

lemma map_sorted_insert: "map_sorted m \<Longrightarrow> map_sorted (map_insert k v m)"
proof (induction k v m rule: map_insert.induct)
  case (1 k v)
  then show ?case by (simp add: map_sorted_def)
next
  case (2 k v k' v' m)
  have keys: "x \<in> fst ` set (map_insert k v m) \<longleftrightarrow> x = k \<or> x \<in> fst ` set m" for x
    by (simp add: map_insert_keys)
  from 2 keys show ?case
    by (auto simp: map_sorted_def simp flip: set_map)
qed

lemma al_get_map_insert: "al_get (map_insert k v m) k' = (if k' = k then Some v else al_get m k')"
  by (induction k v m rule: map_insert.induct) (auto simp: al_get_def)

fun json_ok :: "json \<Rightarrow> bool" where
  "json_ok (JObj m) \<longleftrightarrow> map_sorted m \<and> (\<forall>(k, v) \<in> set m. json_ok v)"
| "json_ok (JArr vs) \<longleftrightarrow> (\<forall>v \<in> set vs. json_ok v)"
| "json_ok _ \<longleftrightarrow> True"

definition map_ok :: "json_map \<Rightarrow> bool" where
  "map_ok m \<longleftrightarrow> map_sorted m \<and> (\<forall>(k, v) \<in> set m. json_ok v)"

lemma set_map_insert: "set (map_insert k v m) \<subseteq> insert (k, v) (set m)"
  by (induction k v m rule: map_insert.induct) auto

lemma map_ok_insert: "map_ok m \<Longrightarrow> json_ok v \<Longrightarrow> map_ok (map_insert k v m)"
  using set_map_insert [of k v m] map_sorted_insert [of m k v] by (auto simp: map_ok_def)

lemma anyvalue_json_ok:
  "json_ok (anyvalue_to_json v)"
  "\<forall>j \<in> set (anyvalues_to_json vs). json_ok j"
  "map_ok m \<Longrightarrow> map_ok (attrs_into kvs m)"
proof (induction v and vs and kvs m rule: anyvalue_to_json_anyvalues_to_json_attrs_into.induct)
  case (1 s i d b a kv bs)
  have "map_ok []" by (simp add: map_ok_def map_sorted_def)
  with 1 show ?case by (auto simp: map_ok_def split: option.split)
next
  case (5 k v kvs m)
  then show ?case by (auto simp: map_ok_insert split: option.split)
qed auto

lemma proto_json_ok:
  "json_ok (proto_to_json v)"
  "\<forall>j \<in> set (protos_to_json vs). json_ok j"
  "map_ok m \<Longrightarrow> map_ok (proto_attrs_into kvs m)"
proof (induction v and vs and kvs m rule: proto_to_json_protos_to_json_proto_attrs_into.induct)
  case (6 kvs)
  then show ?case by (auto simp: map_ok_def map_sorted_def)
next
  case (13 k v kvs m)
  then show ?case by (auto simp: map_ok_insert split: option.split)
qed (auto simp: json_of_int_def)

subsection \<open>The two encodings of one value\<close>

text \<open>
  The JSON encoding OTLP prescribes for a protobuf value: integers are decimal strings. Byte
  strings (base64 in JSON, printed in hexadecimal from protobuf) are left out of the claim by
  \<open>wire_safe\<close>, as are negative integers, on which the two conversions differ.
\<close>

definition av_none :: any_value where
  "av_none = AnyValue None None None None None None None"

fun to_wire :: "proto_value \<Rightarrow> any_value"
  and to_wires :: "proto_value list \<Rightarrow> any_value list"
  and to_wire_kvs :: "proto_key_value list \<Rightarrow> key_value list" where
  "to_wire (PString s) = AnyValue (Some s) None None None None None None"
| "to_wire (PInt i) = AnyValue None (Some (Str (show_int i))) None None None None None"
| "to_wire (PDouble d) = AnyValue None None (Some d) None None None None"
| "to_wire (PBool b) = AnyValue None None None (Some b) None None None"
| "to_wire (PArray vs) = AnyValue None None None None (Some (to_wires vs)) None None"
| "to_wire (PKvlist kvs) = AnyValue None None None None None (Some (to_wire_kvs kvs)) None"
| "to_wire (PBytes bs) = av_none"
| "to_wire POther = av_none"
| "to_wire PUnset = av_none"
| "to_wires [] = []"
| "to_wires (v # vs) = to_wire v # to_wires vs"
| "to_wire_kvs [] = []"
| "to_wire_kvs ((k, v) # kvs) =
     (k, case v of None \<Rightarrow> None | Some w \<Rightarrow> Some (to_wire w)) # to_wire_kvs kvs"

fun wire_safe :: "proto_value \<Rightarrow> bool"
  and wires_safe :: "proto_value list \<Rightarrow> bool"
  and kvs_safe :: "proto_key_value list \<Rightarrow> bool" where
  "wire_safe (PInt i) \<longleftrightarrow> 0 \<le> i \<and> i < 2 ^ 63"
| "wire_safe (PArray vs) \<longleftrightarrow> wires_safe vs"
| "wire_safe (PKvlist kvs) \<longleftrightarrow> kvs_safe kvs"
| "wire_safe (PBytes bs) \<longleftrightarrow> False"
| "wire_safe _ \<longleftrightarrow> True"
| "wires_safe [] \<longleftrightarrow> True"
| "wires_safe (v # vs) \<longleftrightarrow> wire_safe v \<and> wires_safe vs"
| "kvs_safe [] \<longleftrightarrow> True"
| "kvs_safe ((k, v) # kvs) \<longleftrightarrow> (case v of None \<Rightarrow> True | Some w \<Rightarrow> wire_safe w) \<and> kvs_safe kvs"

lemma as_u64_show: "0 \<le> i \<Longrightarrow> i < 2 ^ 63 \<Longrightarrow> as_u64 (Str (show_int i)) = Some (nat i)"
proof -
  assume i: "0 \<le> i" "i < 2 ^ 63"
  have "str_trim (show_nat (nat i)) = show_nat (nat i)" by (rule str_trim_visible) simp_all
  with i show ?thesis by (simp add: show_int_def parse_uint_show_nat u64_max_def)
qed

lemma wire_conversion:
  "wire_safe v \<Longrightarrow> anyvalue_to_json (to_wire v) = proto_to_json v"
  "wires_safe vs \<Longrightarrow> anyvalues_to_json (to_wires vs) = protos_to_json vs"
  "kvs_safe kvs \<Longrightarrow> attrs_into (to_wire_kvs kvs) m = proto_attrs_into kvs m"
proof (induction v and vs and kvs arbitrary: and and m rule: to_wire_to_wires_to_wire_kvs.induct)
  case (2 i)
  then show ?case by (simp add: as_u64_show json_of_int_def del: as_u64.simps)
next
  case (13 k v kvs)
  then show ?case by (auto split: option.split)
qed (auto simp: av_none_def)

text \<open>One value, two encodings: for attributes without negative integers and byte strings, the
  JSON and the protobuf transports store the same JSON value, at any depth.\<close>

theorem encodings_agree:
  assumes "kvs_safe kvs"
  shows "attrs_to_map (to_wire_kvs kvs) = proto_attrs_to_map kvs"
  using wire_conversion(3) [OF assms] by (simp add: attrs_to_map_def proto_attrs_to_map_def)

lemma encodings_agree_witness:
  "attrs_to_map (to_wire_kvs [(''b'', Some (PInt 7)), (''a'', Some (PArray [PBool True, PUnset]))])
     = [(''a'', JArr [JBool True, JNull]), (''b'', JNum (PosInt 7))]"
  by (subst encodings_agree) (simp_all add: proto_attrs_to_map_def json_of_int_def)

text \<open>A negative integer is lost by the JSON transport: as the string OTLP prescribes it becomes null,
  as a number it becomes zero; the protobuf transport keeps it.\<close>

lemma negative_integer_lost:
  "anyvalue_to_json (to_wire (PInt (- 5))) = JNull"
  "anyvalue_to_json (AnyValue None (Some (Num (NegInt (- 5)))) None None None None None) = JNum (PosInt 0)"
  "proto_to_json (PInt (- 5)) = JNum (NegInt (- 5))"
proof -
  have "str_trim ''-5'' = ''-5''" by (rule str_trim_visible) (simp_all add: ascii_visible_def)
  moreover have "show_int (- 5) = ''-5''" by code_simp
  ultimately show "anyvalue_to_json (to_wire (PInt (- 5))) = JNull"
    by (simp add: parse_uint_def digit_val_def)
qed (simp_all add: f64_as_u64_def json_of_int_def)


end
