(* ===== verification/Ingest.thy ===== *)
theory Ingest
  imports Config
begin

text \<open>
  \<^verbatim>\<open>backend/src/ingest/mod.rs\<close> and the merge function of
  \<^verbatim>\<open>backend/migrations/0002_functions.sql\<close>: the CSV rows of \<^verbatim>\<open>COPY\<close>, the
  counters, the bounded queue of batches, the batcher task as a step function over explicit
  events (so that every interleaving is a list of events), the flush, and the idempotent merge.
  Printing dates and floats and the database are parameters. Counters are unbounded.
\<close>

subsection \<open>CSV\<close>

definition csv_quoted :: "string \<Rightarrow> string" where
  "csv_quoted s =
     CHR 0x22 # concat (map (\<lambda>c. if c = CHR 0x22 then [CHR 0x22, c] else [c]) s) @ [CHR 0x22]"

definition csv_opt :: "string option \<Rightarrow> string" where
  "csv_opt v = (case v of Some s \<Rightarrow> csv_quoted s | None \<Rightarrow> [])"

definition csv_ts :: "(datetime \<Rightarrow> string) \<Rightarrow> datetime option \<Rightarrow> string" where
  "csv_ts rfc3339 t = (case t of Some d \<Rightarrow> rfc3339 d | None \<Rightarrow> [])"

definition csv_num :: "int option \<Rightarrow> string" where
  "csv_num n = (case n of Some v \<Rightarrow> show_int v | None \<Rightarrow> [])"

definition csv_f64 :: "(real \<Rightarrow> string) \<Rightarrow> real option \<Rightarrow> string" where
  "csv_f64 show_f64 n = (case n of Some v \<Rightarrow> show_f64 v | None \<Rightarrow> [])"

text \<open>A row: the fields with commas between them and a line feed at the end.\<close>

fun csv_row :: "string list \<Rightarrow> string" where
  "csv_row [] = [CHR 0x0A]"
| "csv_row [f] = f @ [CHR 0x0A]"
| "csv_row (f # fs) = f @ CHR '','' # csv_row fs"

subsection \<open>Counters\<close>

record ingest_metrics =
  received_total :: nat
  inserted_total :: nat
  dropped_skew_total :: nat
  dropped_oversized_total :: nat
  dropped_channel_full_total :: nat
  flush_failures_total :: nat
  flushes_total :: nat

definition metrics_zero :: ingest_metrics where
  "metrics_zero = \<lparr>received_total = 0, inserted_total = 0, dropped_skew_total = 0,
     dropped_oversized_total = 0, dropped_channel_full_total = 0, flush_failures_total = 0,
     flushes_total = 0\<rparr>"

definition metrics_snapshot :: "ingest_metrics \<Rightarrow> (string \<times> nat) list" where
  "metrics_snapshot m =
     [(''received_total'', received_total m), (''inserted_total'', inserted_total m),
      (''deduplicated_total'', received_total m - inserted_total m),
      (''dropped_skew_total'', dropped_skew_total m),
      (''dropped_oversized_total'', dropped_oversized_total m),
      (''dropped_channel_full_total'', dropped_channel_full_total m),
      (''flush_failures_total'', flush_failures_total m), (''flushes_total'', flushes_total m)]"

definition drop_oversized ::
    "nat \<Rightarrow> ('a \<Rightarrow> nat) \<Rightarrow> 'a list \<Rightarrow> ingest_metrics \<Rightarrow> nat \<times> 'a list \<times> ingest_metrics" where
  "drop_oversized max_bytes size_of stored m =
     (let kept = filter (\<lambda>r. size_of r \<le> max_bytes) stored;
          dropped = length stored - length kept
      in (dropped, kept,
          if dropped > 0
          then m\<lparr>dropped_oversized_total := dropped_oversized_total m + dropped\<rparr> else m))"

subsection \<open>Interface: a bounded queue\<close>

text \<open>
  What the ingestion uses of the bounded channel: a send appends to the contents or is refused, a
  receive takes the oldest element. The client lemma is that over any history the received
  elements followed by the contents are the accepted ones, in order.
\<close>

datatype 'b queue_op = Send 'b | Receive

locale bounded_queue =
  fixes contents :: "'q \<Rightarrow> 'b list"
    and try_send :: "'b \<Rightarrow> 'q \<Rightarrow> 'q option"
    and try_recv :: "'q \<Rightarrow> ('b \<times> 'q) option"
  assumes send_contents: "try_send x q = Some q' \<Longrightarrow> contents q' = contents q @ [x]"
    and recv_contents: "try_recv q = Some (x, q') \<Longrightarrow> contents q = x # contents q'"
    and recv_empty: "try_recv q = None \<longleftrightarrow> contents q = []"
begin

fun queue_run :: "'q \<Rightarrow> 'b queue_op list \<Rightarrow> 'b list \<times> 'b list \<times> 'q" where
  "queue_run q [] = ([], [], q)"
| "queue_run q (Send x # ops) =
     (case try_send x q of
        None \<Rightarrow> queue_run q ops
      | Some q' \<Rightarrow> (case queue_run q' ops of (acc, out, r) \<Rightarrow> (x # acc, out, r)))"
| "queue_run q (Receive # ops) =
     (case try_recv q of
        None \<Rightarrow> queue_run q ops
      | Some (x, q') \<Rightarrow> (case queue_run q' ops of (acc, out, r) \<Rightarrow> (acc, x # out, r)))"

lemma queue_fifo: "queue_run q ops = (acc, out, r) \<Longrightarrow> out @ contents r = contents q @ acc"
proof (induction q ops arbitrary: acc out r rule: queue_run.induct)
  case (1 q)
  then show ?case by simp
next
  case (2 q x ops)
  then show ?case by (auto split: option.splits prod.splits dest: send_contents)
next
  case (3 q ops)
  then show ?case by (fastforce split: option.splits prod.splits dest: recv_contents)
qed

end

record 'a channel =
  ch_capacity :: nat
  ch_batches :: "'a list list"
  ch_open :: bool

definition chan_send :: "'a list \<Rightarrow> 'a channel \<Rightarrow> 'a channel option" where
  "chan_send b c =
     (if ch_open c \<and> length (ch_batches c) < ch_capacity c
      then Some (c\<lparr>ch_batches := ch_batches c @ [b]\<rparr>) else None)"

definition chan_recv :: "'a channel \<Rightarrow> ('a list \<times> 'a channel) option" where
  "chan_recv c =
     (case ch_batches c of [] \<Rightarrow> None | b # bs \<Rightarrow> Some (b, c\<lparr>ch_batches := bs\<rparr>))"

interpretation ch: bounded_queue ch_batches chan_send chan_recv
  by unfold_locales (auto simp: chan_send_def chan_recv_def split: list.splits if_splits)

subsection \<open>The batcher\<close>

text \<open>
  The task receives, ticks, is shut down, or stops because every sender is gone (\<open>Hangup\<close>). Draining and the final flush are separate steps:
  between the moment the queue was seen empty and the moment the receiver is dropped
  (\<open>Closing\<close>), a sender can still be accepted.
\<close>

datatype phase = Running | Draining | Closing | Stopped

record ('a, 'db) batcher =
  ba_chan :: "'a channel"
  ba_buf :: "'a list"
  ba_metrics :: ingest_metrics
  ba_db :: 'db
  ba_phase :: phase

definition try_enqueue :: "'a list \<Rightarrow> ('a, 'db) batcher \<Rightarrow> nat \<times> ('a, 'db) batcher" where
  "try_enqueue batch s =
     (let n = length batch; m = ba_metrics s in
      case chan_send batch (ba_chan s) of
        Some c \<Rightarrow>
          (n, s\<lparr>ba_chan := c, ba_metrics := m\<lparr>received_total := received_total m + n\<rparr>\<rparr>)
      | None \<Rightarrow>
          (0, s\<lparr>ba_metrics :=
             m\<lparr>dropped_channel_full_total := dropped_channel_full_total m + n\<rparr>\<rparr>))"

text \<open>
  \<open>store\<close> is the database work of a flush (\<^verbatim>\<open>flush_inner\<close> and the defensive
  truncation): the number of inserted rows, or none when it failed, and the new database. A flush
  clears the buffer in both cases; the list returned first is the batch that was handed over.
\<close>

definition flush ::
    "('db \<Rightarrow> 'a list \<Rightarrow> nat option \<times> 'db) \<Rightarrow> ('a, 'db) batcher \<Rightarrow> 'a list \<times> ('a, 'db) batcher" where
  "flush store s =
     (if ba_buf s = [] then ([], s)
      else (let (r, db) = store (ba_db s) (ba_buf s); m = ba_metrics s;
                m' = (case r of
                        Some inserted \<Rightarrow> m\<lparr>inserted_total := inserted_total m + inserted,
                                           flushes_total := flushes_total m + 1\<rparr>
                      | None \<Rightarrow> m\<lparr>flush_failures_total := flush_failures_total m + 1\<rparr>)
            in (ba_buf s, s\<lparr>ba_buf := [], ba_metrics := m', ba_db := db\<rparr>)))"

definition take_batch ::
    "('db \<Rightarrow> 'a list \<Rightarrow> nat option \<times> 'db) \<Rightarrow> nat \<Rightarrow> 'a list \<Rightarrow> 'a channel \<Rightarrow> ('a, 'db) batcher
       \<Rightarrow> 'a list \<times> ('a, 'db) batcher" where
  "take_batch store bsize batch c s =
     (let s' = s\<lparr>ba_chan := c, ba_buf := ba_buf s @ batch\<rparr> in
      if length (ba_buf s') \<ge> bsize then flush store s' else ([], s'))"

datatype 'a batcher_event = Enqueue "'a list" | Recv | Hangup | FlushTick | Shutdown | Drain | Close

fun batcher_step ::
    "('db \<Rightarrow> 'a list \<Rightarrow> nat option \<times> 'db) \<Rightarrow> nat \<Rightarrow> 'a batcher_event \<Rightarrow> ('a, 'db) batcher
       \<Rightarrow> 'a list \<times> ('a, 'db) batcher" where
  "batcher_step store bsize (Enqueue batch) s = ([], snd (try_enqueue batch s))"
| "batcher_step store bsize Recv s =
     (if ba_phase s = Running
      then (case chan_recv (ba_chan s) of
              Some (batch, c) \<Rightarrow> take_batch store bsize batch c s
            | None \<Rightarrow> ([], s))
      else ([], s))"
| "batcher_step store bsize Hangup s =
     (if ba_phase s = Running \<and> ch_batches (ba_chan s) = []
      then (let (out, s') = flush store s
            in (out, s'\<lparr>ba_phase := Stopped, ba_chan := (ba_chan s')\<lparr>ch_open := False\<rparr>\<rparr>))
      else ([], s))"
| "batcher_step store bsize FlushTick s = (if ba_phase s = Running then flush store s else ([], s))"
| "batcher_step store bsize Shutdown s =
     ([], if ba_phase s = Running then s\<lparr>ba_phase := Draining\<rparr> else s)"
| "batcher_step store bsize Drain s =
     (if ba_phase s = Draining
      then (case chan_recv (ba_chan s) of
              Some (batch, c) \<Rightarrow> take_batch store bsize batch c s
            | None \<Rightarrow> (let (out, s') = flush store s in (out, s'\<lparr>ba_phase := Closing\<rparr>)))
      else ([], s))"
| "batcher_step store bsize Close s =
     ([], if ba_phase s = Closing
          then s\<lparr>ba_phase := Stopped, ba_chan := (ba_chan s)\<lparr>ch_open := False, ch_batches := []\<rparr>\<rparr>
          else s)"

fun batcher_run ::
    "('db \<Rightarrow> 'a list \<Rightarrow> nat option \<times> 'db) \<Rightarrow> nat \<Rightarrow> 'a batcher_event list \<Rightarrow> ('a, 'db) batcher
       \<Rightarrow> 'a list \<times> ('a, 'db) batcher" where
  "batcher_run store bsize [] s = ([], s)"
| "batcher_run store bsize (e # es) s =
     (let (out, s') = batcher_step store bsize e s; (outs, s'') = batcher_run store bsize es s'
      in (out @ outs, s''))"

definition spawn_batcher :: "nat \<Rightarrow> 'db \<Rightarrow> ('a, 'db) batcher" where
  "spawn_batcher capacity db =
     \<lparr>ba_chan = \<lparr>ch_capacity = capacity, ch_batches = [], ch_open = True\<rparr>, ba_buf = [],
      ba_metrics = metrics_zero, ba_db = db, ba_phase = Running\<rparr>"

subsection \<open>The idempotent merge\<close>

text \<open>\<^verbatim>\<open>SELECT DISTINCT ON (key) ... ORDER BY key, received_at\<close>: the first received of each key.\<close>

fun keep_first :: "('r \<Rightarrow> 'k) \<Rightarrow> 'k list \<Rightarrow> 'r list \<Rightarrow> 'r list" where
  "keep_first key seen [] = []"
| "keep_first key seen (r # rs) =
     (if key r \<in> set seen then keep_first key seen rs
      else r # keep_first key (key r # seen) rs)"

definition merge_staging ::
    "('r \<Rightarrow> 'k) \<Rightarrow> ('r \<Rightarrow> datetime) \<Rightarrow> 'r list \<Rightarrow> 'r list \<Rightarrow> nat \<times> 'r list" where
  "merge_staging key received target staging =
     (let fresh = filter (\<lambda>r. key r \<notin> key ` set target) (keep_first key [] (sort_key received staging))
      in (length fresh, target @ fresh))"

definition store_merge ::
    "('r \<Rightarrow> 'k) \<Rightarrow> ('r \<Rightarrow> datetime) \<Rightarrow> 'r list \<Rightarrow> 'r list \<Rightarrow> nat option \<times> 'r list" where
  "store_merge key received target batch =
     (let (n, target') = merge_staging key received target batch in (Some n, target'))"

subsection \<open>Reading the rows back\<close>

text \<open>
  The reader of \<^verbatim>\<open>COPY ... WITH (FORMAT csv)\<close>, as PostgreSQL documents it: an unquoted
  empty field is null, a doubled quote inside quotes is a quote.
\<close>

datatype csv_mode = Start | Bare string | Inside string | Quote string

fun csv_scan :: "csv_mode \<Rightarrow> string option list \<Rightarrow> string \<Rightarrow> string option list list option" where
  "csv_scan Start row [] = (if row = [] then Some [] else None)"
| "csv_scan (Bare a) row [] = None"
| "csv_scan (Inside a) row [] = None"
| "csv_scan (Quote a) row [] = None"
| "csv_scan Start row (c # s) =
     (if c = CHR 0x22 then csv_scan (Inside []) row s
      else if c = CHR '','' then csv_scan Start (row @ [None]) s
      else if c = CHR 0x0A then map_option (Cons (row @ [None])) (csv_scan Start [] s)
      else csv_scan (Bare [c]) row s)"
| "csv_scan (Bare a) row (c # s) =
     (if c = CHR 0x22 then None
      else if c = CHR '','' then csv_scan Start (row @ [Some a]) s
      else if c = CHR 0x0A then map_option (Cons (row @ [Some a])) (csv_scan Start [] s)
      else csv_scan (Bare (a @ [c])) row s)"
| "csv_scan (Inside a) row (c # s) =
     (if c = CHR 0x22 then csv_scan (Quote a) row s else csv_scan (Inside (a @ [c])) row s)"
| "csv_scan (Quote a) row (c # s) =
     (if c = CHR 0x22 then csv_scan (Inside (a @ [c])) row s
      else if c = CHR '','' then csv_scan Start (row @ [Some a]) s
      else if c = CHR 0x0A then map_option (Cons (row @ [Some a])) (csv_scan Start [] s)
      else None)"

definition csv_read :: "string \<Rightarrow> string option list list option" where
  "csv_read s = csv_scan Start [] s"

text \<open>A cell is a quoted text, or a plain text without special characters (empty for null).\<close>

datatype cell = QuotedCell string | PlainCell string

fun cell_text :: "cell \<Rightarrow> string" where
  "cell_text (QuotedCell s) = csv_quoted s"
| "cell_text (PlainCell s) = s"

fun cell_value :: "cell \<Rightarrow> string option" where
  "cell_value (QuotedCell s) = Some s"
| "cell_value (PlainCell s) = (if s = [] then None else Some s)"

fun cell_ok :: "cell \<Rightarrow> bool" where
  "cell_ok (QuotedCell s) = True"
| "cell_ok (PlainCell s) = (CHR 0x22 \<notin> set s \<and> CHR '','' \<notin> set s \<and> CHR 0x0A \<notin> set s)"

lemma scan_quoted:
  "csv_scan (Inside a) row (concat (map (\<lambda>c. if c = CHR 0x22 then [CHR 0x22, c] else [c]) s) @ CHR 0x22 # t)
     = csv_scan (Quote (a @ s)) row t"
  by (induction s arbitrary: a) auto

lemma scan_bare:
  "CHR 0x22 \<notin> set s \<Longrightarrow> CHR '','' \<notin> set s \<Longrightarrow> CHR 0x0A \<notin> set s \<Longrightarrow>
     csv_scan (Bare a) row (s @ t) = csv_scan (Bare (a @ s)) row t"
  by (induction s arbitrary: a) auto

lemma scan_cell_comma:
  assumes "cell_ok x"
  shows "csv_scan Start row (cell_text x @ CHR '','' # t) = csv_scan Start (row @ [cell_value x]) t"
proof (cases x)
  case (QuotedCell s)
  then show ?thesis by (simp add: csv_quoted_def scan_quoted)
next
  case (PlainCell s)
  with assms show ?thesis by (cases s) (auto simp: scan_bare)
qed

lemma scan_cell_end:
  assumes "cell_ok x"
  shows "csv_scan Start row (cell_text x @ CHR 0x0A # t)
    = map_option (Cons (row @ [cell_value x])) (csv_scan Start [] t)"
proof (cases x)
  case (QuotedCell s)
  then show ?thesis by (simp add: csv_quoted_def scan_quoted)
next
  case (PlainCell s)
  with assms show ?thesis by (cases s) (auto simp: scan_bare)
qed

lemma scan_row:
  "xs \<noteq> [] \<Longrightarrow> list_all cell_ok xs \<Longrightarrow>
     csv_scan Start row (csv_row (map cell_text xs) @ t)
       = map_option (Cons (row @ map cell_value xs)) (csv_scan Start [] t)"
proof (induction xs arbitrary: row)
  case Nil
  then show ?case by simp
next
  case (Cons x xs)
  show ?case
  proof (cases xs)
    case Nil
    with Cons.prems show ?thesis by (simp add: scan_cell_end)
  next
    case (Cons y ys)
    with Cons.prems Cons.IH [of "row @ [cell_value x]"] show ?thesis
      by (simp add: scan_cell_comma)
  qed
qed

lemma csv_read_rows:
  "\<forall>xs \<in> set rows. xs \<noteq> [] \<and> list_all cell_ok xs \<Longrightarrow>
     csv_read (concat (map (\<lambda>xs. csv_row (map cell_text xs)) rows)) = Some (map (map cell_value) rows)"
  by (induction rows) (simp_all add: csv_read_def scan_row)

subsection \<open>The batcher loses nothing\<close>

lemma flush_out: "flush store s = (out, s') \<Longrightarrow>
    out = ba_buf s \<and> ba_buf s' = [] \<and> ba_chan s' = ba_chan s \<and> ba_phase s' = ba_phase s
    \<and> received_total (ba_metrics s') = received_total (ba_metrics s)"
  by (auto simp: flush_def Let_def split: if_splits prod.splits option.splits)

lemma take_batch_out: "take_batch store bsize batch c s = (out, s') \<Longrightarrow>
    out @ ba_buf s' = ba_buf s @ batch \<and> ba_chan s' = c \<and> ba_phase s' = ba_phase s
    \<and> (length (ba_buf s') < bsize \<or> ba_buf s' = [])
    \<and> received_total (ba_metrics s') = received_total (ba_metrics s)"
  by (auto simp: take_batch_def Let_def split: if_splits dest!: flush_out)

text \<open>The records a batcher holds, and the ones an event makes it accept.\<close>

definition held :: "('a, 'db) batcher \<Rightarrow> 'a list" where
  "held s = ba_buf s @ concat (ch_batches (ba_chan s))"

definition accepted :: "'a batcher_event \<Rightarrow> ('a, 'db) batcher \<Rightarrow> 'a list" where
  "accepted e s =
     (case e of
        Enqueue batch \<Rightarrow> if chan_send batch (ba_chan s) = None then [] else batch
      | _ \<Rightarrow> [])"

fun accepted_run ::
    "('db \<Rightarrow> 'a list \<Rightarrow> nat option \<times> 'db) \<Rightarrow> nat \<Rightarrow> 'a batcher_event list \<Rightarrow> ('a, 'db) batcher \<Rightarrow> 'a list" where
  "accepted_run store bsize [] s = []"
| "accepted_run store bsize (e # es) s =
     accepted e s @ accepted_run store bsize es (snd (batcher_step store bsize e s))"

lemma chan_recv_Some: "chan_recv c = Some (b, c') \<Longrightarrow> ch_batches c = b # ch_batches c' \<and> ch_open c' = ch_open c"
  by (auto simp: chan_recv_def split: list.splits)

lemma chan_recv_None: "chan_recv c = None \<longleftrightarrow> ch_batches c = []"
  by (rule ch.recv_empty)

lemma step_conserves:
  assumes "batcher_step store bsize e s = (out, s')"
    and "e = Close \<longrightarrow> ba_phase s = Closing \<longrightarrow> ch_batches (ba_chan s) = []"
  shows "out @ held s' = held s @ accepted e s"
proof (cases e)
  case (Enqueue batch)
  with assms show ?thesis
    by (auto simp: try_enqueue_def held_def accepted_def Let_def split: option.splits
        dest!: ch.send_contents)
next
  case Recv
  with assms show ?thesis
    by (auto simp: held_def accepted_def split: if_splits option.splits
        dest!: take_batch_out chan_recv_Some)
next
  case Hangup
  with assms show ?thesis
    by (auto simp: held_def accepted_def split: if_splits prod.splits dest!: flush_out)
next
  case FlushTick
  with assms show ?thesis
    by (auto simp: held_def accepted_def split: if_splits dest!: flush_out)
next
  case Shutdown
  with assms show ?thesis by (auto simp: held_def accepted_def)
next
  case Drain
  with assms show ?thesis
    by (auto simp: held_def accepted_def chan_recv_None split: if_splits option.splits prod.splits
        dest!: take_batch_out flush_out chan_recv_Some)
next
  case Close
  with assms show ?thesis by (auto simp: held_def accepted_def)
qed

fun is_enqueue :: "'a batcher_event \<Rightarrow> bool" where
  "is_enqueue (Enqueue _) = True"
| "is_enqueue _ = False"

fun quiet_after_shutdown :: "'a batcher_event list \<Rightarrow> bool" where
  "quiet_after_shutdown [] = True"
| "quiet_after_shutdown (Shutdown # es) = list_all (\<lambda>e. \<not> is_enqueue e) es"
| "quiet_after_shutdown (_ # es) = quiet_after_shutdown es"

definition stopping_ok :: "('a, 'db) batcher \<Rightarrow> bool" where
  "stopping_ok s \<longleftrightarrow> ba_phase s \<noteq> Running
     \<and> (ba_phase s \<noteq> Draining \<longrightarrow> ba_buf s = [] \<and> ch_batches (ba_chan s) = [])"

definition running_ok :: "('a, 'db) batcher \<Rightarrow> bool" where
  "running_ok s \<longleftrightarrow> ba_phase s = Running
     \<or> (ba_phase s = Stopped \<and> ba_buf s = [] \<and> ch_batches (ba_chan s) = [] \<and> \<not> ch_open (ba_chan s))"

lemma stopping_step:
  assumes "stopping_ok s" and "\<not> is_enqueue e" and "batcher_step store bsize e s = (out, s')"
  shows "stopping_ok s' \<and> out @ held s' = held s @ accepted e s"
proof -
  have "out @ held s' = held s @ accepted e s"
    using assms by (intro step_conserves [OF assms(3)]) (auto simp: stopping_ok_def)
  moreover have "stopping_ok s'"
    using assms
    by (cases e) (auto simp: stopping_ok_def chan_recv_None split: if_splits option.splits prod.splits
        dest!: take_batch_out flush_out)
  ultimately show ?thesis by simp
qed

lemma stopping_run:
  "stopping_ok s \<Longrightarrow> list_all (\<lambda>e. \<not> is_enqueue e) es \<Longrightarrow> batcher_run store bsize es s = (out, s') \<Longrightarrow>
     stopping_ok s' \<and> out @ held s' = held s @ accepted_run store bsize es s"
proof (induction es arbitrary: s out)
  case Nil
  then show ?case by simp
next
  case (Cons e es)
  obtain o1 s1 where e: "batcher_step store bsize e s = (o1, s1)" by fastforce
  obtain o2 where r: "batcher_run store bsize es s1 = (o2, s')" and out: "out = o1 @ o2"
    using Cons.prems(3) e by (auto split: prod.splits)
  have ne: "\<not> is_enqueue e" "list_all (\<lambda>e. \<not> is_enqueue e) es" using Cons.prems(2) by simp_all
  from stopping_step [OF Cons.prems(1) ne(1) e] have s1: "stopping_ok s1"
    and c: "o1 @ held s1 = held s @ accepted e s" by auto
  from Cons.IH [OF s1 ne(2) r] c e out show ?case by (metis accepted_run.simps(2) append.assoc snd_conv)
qed

lemma running_step:
  assumes "running_ok s" and "e \<noteq> Shutdown" and "batcher_step store bsize e s = (out, s')"
  shows "running_ok s' \<and> out @ held s' = held s @ accepted e s"
proof -
  have "out @ held s' = held s @ accepted e s"
    using assms by (intro step_conserves [OF assms(3)]) (auto simp: running_ok_def)
  moreover have "running_ok s'"
    using assms
    by (cases e) (auto simp: running_ok_def try_enqueue_def chan_send_def Let_def
        split: if_splits option.splits prod.splits dest!: take_batch_out flush_out)
  ultimately show ?thesis by simp
qed

lemma quiet_run:
  "running_ok s \<Longrightarrow> quiet_after_shutdown es \<Longrightarrow> batcher_run store bsize es s = (out, s') \<Longrightarrow>
     (running_ok s' \<or> stopping_ok s') \<and> out @ held s' = held s @ accepted_run store bsize es s"
proof (induction es arbitrary: s out)
  case Nil
  then show ?case by simp
next
  case (Cons e es)
  obtain o1 s1 where e: "batcher_step store bsize e s = (o1, s1)" by fastforce
  obtain o2 where r: "batcher_run store bsize es s1 = (o2, s')" and out: "out = o1 @ o2"
    using Cons.prems(3) e by (auto split: prod.splits)
  show ?case
  proof (cases "e = Shutdown")
    case True
    with e Cons.prems(1) have s1: "stopping_ok s1" "o1 = []" "held s1 = held s"
      by (auto simp: running_ok_def stopping_ok_def held_def split: if_splits)
    have "list_all (\<lambda>e. \<not> is_enqueue e) es" using Cons.prems(2) True by simp
    from stopping_run [OF s1(1) this r] s1 e out True show ?thesis by (simp add: accepted_def)
  next
    case False
    then have q: "quiet_after_shutdown es" using Cons.prems(2) by (cases e) auto
    from running_step [OF Cons.prems(1) False e] have s1: "running_ok s1"
      and c: "o1 @ held s1 = held s @ accepted e s" by auto
    from Cons.IH [OF s1 q r] c e out show ?thesis by (metis accepted_run.simps(2) append.assoc snd_conv)
  qed
qed

lemma running_spawn: "running_ok (spawn_batcher cap db)" "held (spawn_batcher cap db) = []"
  by (simp_all add: running_ok_def spawn_batcher_def held_def)

lemma stopped_holds_nothing:
  "running_ok s \<or> stopping_ok s \<Longrightarrow> ba_phase s = Stopped \<Longrightarrow> held s = []"
  by (auto simp: running_ok_def stopping_ok_def held_def)

subsection \<open>Counters and buffer\<close>

lemma flush_snd [simp]:
  "ba_buf (snd (flush store s)) = []"
  "received_total (ba_metrics (snd (flush store s))) = received_total (ba_metrics s)"
  using flush_out [of store s "fst (flush store s)" "snd (flush store s)"] by simp_all

lemma take_batch_snd [simp]:
  "received_total (ba_metrics (snd (take_batch store bsize b c s))) = received_total (ba_metrics s)"
  "length (ba_buf (snd (take_batch store bsize b c s))) < max (Suc 0) bsize"
  using take_batch_out [of store bsize b c s "fst (take_batch store bsize b c s)"
      "snd (take_batch store bsize b c s)"] by auto

lemma step_received:
  "received_total (ba_metrics (snd (batcher_step store bsize e s)))
     = received_total (ba_metrics s) + length (accepted e s)"
  by (cases e) (auto simp: try_enqueue_def accepted_def Let_def split_beta split: option.splits)

lemma run_received:
  "received_total (ba_metrics (snd (batcher_run store bsize es s)))
     = received_total (ba_metrics s) + length (accepted_run store bsize es s)"
  by (induction es arbitrary: s) (simp_all add: split_beta step_received)

lemma step_buffer:
  "length (ba_buf s) < max (Suc 0) bsize \<Longrightarrow>
     length (ba_buf (snd (batcher_step store bsize e s))) < max (Suc 0) bsize"
  by (cases e)
    (auto simp: try_enqueue_def Let_def split_beta simp del: less_max_iff_disj split: option.split)

lemma run_buffer:
  "length (ba_buf s) < max (Suc 0) bsize \<Longrightarrow>
     length (ba_buf (snd (batcher_run store bsize es s))) < max (Suc 0) bsize"
proof (induction es arbitrary: s)
  case (Cons e es)
  from Cons.IH [OF step_buffer [OF Cons.prems]] show ?case by (simp add: split_beta)
qed simp

subsection \<open>The merge is idempotent\<close>

lemma keep_first_keys:
  "key ` set (keep_first key seen rs) = key ` set rs - set seen
   \<and> distinct (map key (keep_first key seen rs))"
proof (induction rs arbitrary: seen)
  case Nil
  then show ?case by simp
next
  case (Cons r rs)
  show ?case
  proof (cases "key r \<in> set seen")
    case True
    with Cons [of seen] show ?thesis by auto
  next
    case False
    with Cons [of "key r # seen"] show ?thesis by auto
  qed
qed

lemma merge_keys:
  assumes "distinct (map key target)" and "merge_staging key received target staging = (n, target')"
  shows "key ` set target' = key ` set target \<union> key ` set staging \<and> distinct (map key target')
    \<and> n = length target' - length target \<and> prefix target target'"
proof -
  let ?kept = "keep_first key [] (sort_key received staging)"
  let ?fresh = "filter (\<lambda>r. key r \<notin> key ` set target) ?kept"
  have k: "key ` set ?kept = key ` set staging" "distinct (map key ?kept)"
    using keep_first_keys [of key "[]" "sort_key received staging"] by simp_all
  have t: "target' = target @ ?fresh" "n = length ?fresh"
    using assms(2) by (simp_all add: merge_staging_def Let_def)
  have "distinct (map key ?fresh)" using k(2) by (simp add: distinct_map_filter)
  moreover have "key ` set ?fresh = key ` set ?kept - key ` set target" by auto
  then have "key ` set ?fresh = key ` set staging - key ` set target" unfolding k(1) .
  ultimately show ?thesis using assms(1) t by auto
qed

lemma merge_again:
  assumes "key ` set staging \<subseteq> key ` set target"
  shows "merge_staging key received target staging = (0, target)"
proof -
  have "key ` set (keep_first key [] (sort_key received staging)) = key ` set staging"
    using keep_first_keys [of key "[]" "sort_key received staging"] by simp
  with assms have "\<forall>k \<in> key ` set (keep_first key [] (sort_key received staging)). k \<in> key ` set target"
    by blast
  then have "filter (\<lambda>r. key r \<notin> key ` set target) (keep_first key [] (sort_key received staging)) = []"
    by (simp add: filter_empty_conv)
  then show ?thesis by (simp add: merge_staging_def)
qed

text \<open>What the database of a batcher over the merge holds: one row per key that was flushed.\<close>

definition db_ok :: "('r \<Rightarrow> 'k) \<Rightarrow> 'k set \<Rightarrow> ('r, 'r list) batcher \<Rightarrow> bool" where
  "db_ok key K s \<longleftrightarrow> distinct (map key (ba_db s)) \<and> key ` set (ba_db s) = K
     \<and> inserted_total (ba_metrics s) = length (ba_db s)
     \<and> flush_failures_total (ba_metrics s) = 0"

lemma flush_db:
  assumes "db_ok key K s" and "flush (store_merge key received) s = (out, s')"
  shows "db_ok key (K \<union> key ` set out) s'"
proof (cases "ba_buf s = []")
  case True
  with assms show ?thesis by (auto simp: flush_def)
next
  case False
  obtain n t where m: "merge_staging key received (ba_db s) (ba_buf s) = (n, t)" by fastforce
  with assms have "key ` set t = K \<union> key ` set (ba_buf s)" "distinct (map key t)"
      "n = length t - length (ba_db s)" "prefix (ba_db s) t"
    using merge_keys [of key "ba_db s" received "ba_buf s" n t] by (auto simp: db_ok_def)
  with assms m False show ?thesis
    by (auto simp: flush_def store_merge_def Let_def db_ok_def dest: prefix_length_le)
qed

lemma db_ok_cong:
  "db_ok key K s \<Longrightarrow> ba_db s' = ba_db s \<Longrightarrow> inserted_total (ba_metrics s') = inserted_total (ba_metrics s) \<Longrightarrow>
     flush_failures_total (ba_metrics s') = flush_failures_total (ba_metrics s) \<Longrightarrow> db_ok key K s'"
  by (simp add: db_ok_def)

lemma take_batch_db:
  "db_ok key K s \<Longrightarrow> take_batch (store_merge key received) bsize b c s = (out, s') \<Longrightarrow>
     db_ok key (K \<union> key ` set out) s'"
  by (auto simp: take_batch_def Let_def split: if_splits intro: db_ok_cong
      dest!: flush_db [rotated])

lemma step_db:
  assumes "db_ok key K s" and "batcher_step (store_merge key received) bsize e s = (out, s')"
  shows "db_ok key (K \<union> key ` set out) s'"
proof (cases e)
  case (Enqueue batch)
  with assms show ?thesis
    by (auto simp: try_enqueue_def Let_def split: option.splits intro: db_ok_cong)
next
  case Recv
  with assms show ?thesis by (auto split: if_splits option.splits dest: take_batch_db)
next
  case Hangup
  with assms show ?thesis
    by (auto split: if_splits prod.splits dest: flush_db intro: db_ok_cong)
next
  case FlushTick
  with assms show ?thesis by (auto split: if_splits dest: flush_db)
next
  case Shutdown
  with assms show ?thesis by (auto intro: db_ok_cong)
next
  case Drain
  with assms show ?thesis
    by (auto split: if_splits option.splits prod.splits dest: take_batch_db flush_db intro: db_ok_cong)
next
  case Close
  with assms show ?thesis by (auto intro: db_ok_cong)
qed

lemma run_db:
  "db_ok key K s \<Longrightarrow> batcher_run (store_merge key received) bsize es s = (out, s') \<Longrightarrow>
     db_ok key (K \<union> key ` set out) s'"
proof (induction es arbitrary: s K out)
  case Nil
  then show ?case by simp
next
  case (Cons e es)
  obtain o1 s1 where e: "batcher_step (store_merge key received) bsize e s = (o1, s1)" by fastforce
  obtain o2 where r: "batcher_run (store_merge key received) bsize es s1 = (o2, s')" and out: "out = o1 @ o2"
    using Cons.prems(2) e by (auto split: prod.splits)
  from Cons.IH [OF step_db [OF Cons.prems(1) e] r] out show ?case by (simp add: image_Un Un_assoc)
qed

lemma batcher_stopped:
  assumes "quiet_after_shutdown es"
    and "batcher_run store bsize es (spawn_batcher cap db) = (out, s')" and "ba_phase s' = Stopped"
  shows "out = accepted_run store bsize es (spawn_batcher cap db)"
proof -
  from quiet_run [OF running_spawn(1) assms(1,2)]
  have "running_ok s' \<or> stopping_ok s'"
    and c: "out @ held s' = held (spawn_batcher cap db) @ accepted_run store bsize es (spawn_batcher cap db)"
    by auto
  from stopped_holds_nothing [OF this(1) assms(3)] c show ?thesis
    by (simp add: running_spawn(2))
qed

subsection \<open>Properties\<close>

text \<open>CSV round trip: the rows written for a batch are read back by \<^verbatim>\<open>COPY\<close> as
  exactly the values that were written, whatever quotes, commas and line feeds they contain, and a
  null stays distinct from an empty text.\<close>

theorem csv_round_trip:
  assumes "\<forall>xs \<in> set rows. xs \<noteq> [] \<and> list_all cell_ok xs"
  shows "csv_read (concat (map (\<lambda>xs. csv_row (map cell_text xs)) rows)) = Some (map (map cell_value) rows)"
  using assms by (rule csv_read_rows)

lemma csv_round_trip_witness:
  "csv_read (concat (map (\<lambda>xs. csv_row (map cell_text xs))
       [[QuotedCell [CHR 0x22, CHR '',''], PlainCell [], QuotedCell []], [PlainCell ''7'', PlainCell ''x'']]))
   = Some [[Some [CHR 0x22, CHR '',''], None, Some []], [Some ''7'', Some ''x'']]"
  by (subst csv_round_trip) simp_all

text \<open>C15. Nothing accepted is lost or reordered while the batcher runs, and a graceful stop loses
  nothing: over any interleaving of senders, receives and ticks in which no sender is active after
  the shutdown signal, the batches handed to the database followed by what the batcher still holds
  are exactly the accepted records in order, and once it has stopped it holds nothing.\<close>

theorem batcher_conserves:
  assumes "quiet_after_shutdown es"
    and "batcher_run store bsize es (spawn_batcher cap db) = (out, s')"
  shows "out @ held s' = accepted_run store bsize es (spawn_batcher cap db)
    \<and> (ba_phase s' = Stopped \<longrightarrow> held s' = [])
    \<and> received_total (ba_metrics s') = length (accepted_run store bsize es (spawn_batcher cap db))"
proof -
  have "received_total (ba_metrics (spawn_batcher cap db)) = 0"
    by (simp add: spawn_batcher_def metrics_zero_def)
  with quiet_run [OF running_spawn(1) assms] stopped_holds_nothing running_spawn(2) [of cap db]
    run_received [of store bsize es "spawn_batcher cap db"] assms(2)
  show ?thesis by auto
qed

lemma batcher_conserves_witness:
  "fst (batcher_run (store_merge fst snd) 2 [Enqueue [(1::nat, 0)], Recv, Enqueue [(2, 0)], Shutdown, Drain, Drain, Close]
      (spawn_batcher 3 [])) = [(1, 0), (2, 0)]"
proof -
  define es where "es = [Enqueue [(1::nat, 0::int)], Recv, Enqueue [(2, 0)], Shutdown, Drain, Drain, Close]"
  obtain out s' where r: "batcher_run (store_merge fst snd) 2 es (spawn_batcher 3 []) = (out, s')"
    by fastforce
  have q: "quiet_after_shutdown es" by (simp add: es_def)
  have a: "accepted_run (store_merge fst snd) 2 es (spawn_batcher 3 []) = [(1, 0), (2, 0)]"
    and p: "ba_phase s' = Stopped"
    using r by (auto simp: es_def accepted_def spawn_batcher_def chan_send_def chan_recv_def
        try_enqueue_def take_batch_def flush_def store_merge_def merge_staging_def Let_def metrics_zero_def)
  from batcher_conserves [OF q r] a p have "out = [(1, 0), (2, 0)]" by auto
  then show ?thesis unfolding es_def [symmetric] r by simp
qed

text \<open>A sender that is accepted between the last look at the queue and the end of the task is
  acknowledged and lost; the server is stopped before the batchers for this reason.\<close>

lemma accepted_while_closing_is_lost:
  "accepted_run (\<lambda>db b. (Some (length b), db)) 2 [Shutdown, Drain, Enqueue [x], Close] (spawn_batcher 3 ()) = [x]"
  "batcher_run (\<lambda>db b. (Some (length b), db)) 2 [Shutdown, Drain, Enqueue [x], Close] (spawn_batcher 3 ())
    = ([], \<lparr>ba_chan = \<lparr>ch_capacity = 3, ch_batches = [], ch_open = False\<rparr>, ba_buf = [],
           ba_metrics = metrics_zero\<lparr>received_total := 1\<rparr>, ba_db = (), ba_phase = Stopped\<rparr>)"
  by (simp_all add: accepted_def spawn_batcher_def chan_send_def chan_recv_def try_enqueue_def
      flush_def Let_def metrics_zero_def)

text \<open>Exactly once: with the idempotent merge and no database failure, after a graceful stop the
  table holds exactly one row per key that was ever accepted, however often a record was sent
  again, and the counter of insertions is the number of rows.\<close>

theorem exactly_once:
  assumes "quiet_after_shutdown es"
    and "batcher_run (store_merge key received) bsize es (spawn_batcher cap []) = (out, s')"
    and "ba_phase s' = Stopped"
  shows "distinct (map key (ba_db s'))
    \<and> key ` set (ba_db s') = key ` set (accepted_run (store_merge key received) bsize es (spawn_batcher cap []))
    \<and> inserted_total (ba_metrics s') = length (ba_db s')"
proof -
  have "db_ok key {} (spawn_batcher cap [])"
    by (simp add: db_ok_def spawn_batcher_def metrics_zero_def)
  from run_db [OF this assms(2)] batcher_stopped [OF assms] show ?thesis
    by (simp add: db_ok_def)
qed

lemma exactly_once_witness:
  "length (ba_db (snd (batcher_run (store_merge fst snd) 2
      [Enqueue [(1::nat, 0)], Recv, Enqueue [(1, 5)], Shutdown, Drain, Drain, Close] (spawn_batcher 3 [])))) = 1"
proof -
  define es where "es = [Enqueue [(1::nat, 0::int)], Recv, Enqueue [(1, 5)], Shutdown, Drain, Drain, Close]"
  obtain out s' where r: "batcher_run (store_merge fst snd) 2 es (spawn_batcher 3 []) = (out, s')"
    by fastforce
  have q: "quiet_after_shutdown es" by (simp add: es_def)
  have a: "accepted_run (store_merge fst snd) 2 es (spawn_batcher 3 []) = [(1, 0), (1, 5)]"
    and p: "ba_phase s' = Stopped"
    using r by (auto simp: es_def accepted_def spawn_batcher_def chan_send_def chan_recv_def
        try_enqueue_def take_batch_def flush_def store_merge_def merge_staging_def Let_def metrics_zero_def)
  from exactly_once [OF q r p] a have "distinct (map fst (ba_db s'))" "fst ` set (ba_db s') = {1}" by simp_all
  then have "length (map fst (ba_db s')) = card {1::nat}" by (metis distinct_card set_map)
  then show ?thesis unfolding es_def [symmetric] r by simp
qed

text \<open>Bounded buffer: after any events the task buffers fewer records than the flush size (or
  none), so a flush is never later than one batch.\<close>

theorem batcher_buffer_bounded:
  "length (ba_buf (snd (batcher_run store bsize es (spawn_batcher cap db)))) < max (Suc 0) bsize"
  by (rule run_buffer) (simp add: spawn_batcher_def)

text \<open>The merge is idempotent: merging a batch again, alone or among others that are already
  there, inserts nothing and leaves the table as it is.\<close>

theorem merge_idempotent:
  assumes "distinct (map key target)" and "merge_staging key received target batch = (n, target')"
    and "key ` set again \<subseteq> key ` set batch"
  shows "merge_staging key received target' again = (0, target')"
  using merge_keys [OF assms(1,2)] assms(3) by (intro merge_again) auto

lemma merge_idempotent_witness:
  "merge_staging fst snd (snd (merge_staging fst snd [] [(1::nat, 3), (2, 4)])) [(2, 9), (1, 7)]
     = (0, snd (merge_staging fst snd [] [(1::nat, 3), (2, 4)]))"
proof -
  obtain n t where m: "merge_staging fst snd [] [(1::nat, 3), (2, 4)] = (n, t)" by fastforce
  from merge_idempotent [OF _ m, of "[(2, 9), (1, 7)]"] m show ?thesis by simp
qed

end
