(* ===== verification/Records.thy ===== *)
theory Records
  imports Otlp Ingest
begin

text \<open>
  What the four kinds of records share: the window of accepted dates, the labelled loop
  (\<^verbatim>\<open>'records\<close>) that flattens a request until one record more than the limit is
  kept, the bytes that are hashed into a deduplication identifier, and the cells of the CSV rows.
  A UUID is its text. The window is built with \<^verbatim>\<open>chrono::Duration::from_std\<close>, which
  is assumed to succeed (it fails beyond 292 million years).
\<close>

type_synonym uuid = string

subsection \<open>The window of accepted dates\<close>

definition past_limit :: "validation_limits \<Rightarrow> datetime \<Rightarrow> datetime" where
  "past_limit limits received_at = received_at - int (max_past_skew limits)"

definition future_limit :: "validation_limits \<Rightarrow> datetime \<Rightarrow> datetime" where
  "future_limit limits received_at = received_at + int (max_future_skew limits)"

definition out_of_skew :: "validation_limits \<Rightarrow> datetime \<Rightarrow> datetime \<Rightarrow> bool" where
  "out_of_skew limits received_at t \<longleftrightarrow> t < past_limit limits received_at \<or> t > future_limit limits received_at"

subsection \<open>The loop over the records of a request\<close>

datatype 'r verdict = Keep 'r | Skewed | Invalid

record 'r parse =
  pa_stored :: "'r list"
  pa_dropped_skew :: nat
  pa_dropped_invalid :: nat

definition parse_default :: "'r parse" where
  "parse_default = \<lparr>pa_stored = [], pa_dropped_skew = 0, pa_dropped_invalid = 0\<rparr>"

fun push_verdict :: "'r verdict \<Rightarrow> 'r parse \<Rightarrow> 'r parse" where
  "push_verdict (Keep r) p = p\<lparr>pa_stored := pa_stored p @ [r]\<rparr>"
| "push_verdict Skewed p = p\<lparr>pa_dropped_skew := pa_dropped_skew p + 1\<rparr>"
| "push_verdict Invalid p = p\<lparr>pa_dropped_invalid := pa_dropped_invalid p + 1\<rparr>"

fun collect_records :: "nat \<Rightarrow> ('x \<Rightarrow> 'r verdict) \<Rightarrow> 'x list \<Rightarrow> 'r parse \<Rightarrow> 'r parse" where
  "collect_records max_records f [] p = p"
| "collect_records max_records f (x # xs) p =
     (if length (pa_stored p) > max_records then p
      else collect_records max_records f xs (push_verdict (f x) p))"

lemma length_push_verdict: "length (pa_stored (push_verdict v p)) \<le> Suc (length (pa_stored p))"
  by (cases v) simp_all

lemma collect_records_bound:
  "length (pa_stored p) \<le> Suc max_records \<Longrightarrow>
     length (pa_stored (collect_records max_records f xs p)) \<le> Suc max_records"
proof (induction xs arbitrary: p)
  case (Cons x xs)
  then show ?case
    using length_push_verdict [of "f x" p] by (auto intro!: Cons.IH)
qed simp

lemma collect_records_from:
  "r \<in> set (pa_stored (collect_records max_records f xs p)) \<Longrightarrow>
     r \<in> set (pa_stored p) \<or> (\<exists>x\<in>set xs. f x = Keep r)"
proof (induction xs arbitrary: p)
  case (Cons x xs)
  show ?case
  proof (cases "length (pa_stored p) > max_records")
    case True
    with Cons.prems show ?thesis by simp
  next
    case False
    with Cons.prems Cons.IH [of "push_verdict (f x) p"] show ?thesis
      by (cases "f x") auto
  qed
qed simp

lemma collect_records_all:
  "length (pa_stored p) + length xs \<le> max_records \<Longrightarrow>
     pa_stored (collect_records max_records f xs p)
       = pa_stored p @ concat (map (\<lambda>x. case f x of Keep r \<Rightarrow> [r] | _ \<Rightarrow> []) xs)
     \<and> length (pa_stored (collect_records max_records f xs p))
        + pa_dropped_skew (collect_records max_records f xs p)
        + pa_dropped_invalid (collect_records max_records f xs p)
       = length (pa_stored p) + pa_dropped_skew p + pa_dropped_invalid p + length xs"
proof (induction xs arbitrary: p)
  case (Cons x xs)
  then have "length (pa_stored (push_verdict (f x) p)) + length xs \<le> max_records"
    by (cases "f x") auto
  from Cons.IH [OF this] Cons.prems show ?case by (cases "f x") auto
qed simp

lemma collect_records_cong:
  "list_all2 (\<lambda>x y. f x = g y) xs ys \<Longrightarrow> collect_records m f xs p = collect_records m g ys p"
  by (induction arbitrary: p rule: list_all2_induct) simp_all

text \<open>A relation between two requests record by record carries over to what they keep.\<close>

lemma collect_records_rel:
  assumes "list_all2 (\<lambda>x y. rel_option R (case f x of Keep r \<Rightarrow> Some r | _ \<Rightarrow> None)
        (case g y of Keep r \<Rightarrow> Some r | _ \<Rightarrow> None)) xs ys"
    and "list_all2 R (pa_stored p) (pa_stored q)"
  shows "list_all2 R (pa_stored (collect_records m f xs p)) (pa_stored (collect_records m g ys q))"
  using assms
proof (induction xs ys arbitrary: p q rule: list_all2_induct)
  case Nil
  then show ?case by simp
next
  case (Cons x xs y ys)
  have len: "length (pa_stored p) = length (pa_stored q)"
    using Cons.prems by (rule list_all2_lengthD)
  have "list_all2 R (pa_stored (push_verdict (f x) p)) (pa_stored (push_verdict (g y) q))"
    using Cons.hyps(1) Cons.prems
    by (cases "f x"; cases "g y") (auto intro: list_all2_appendI)
  from Cons.IH [OF this] Cons.prems len show ?case by simp
qed

subsection \<open>Hashed bytes\<close>

text \<open>\<^verbatim>\<open>to_le_bytes\<close> of an integer of \<open>n\<close> bytes, in two's complement.\<close>

fun le_bytes :: "nat \<Rightarrow> int \<Rightarrow> string" where
  "le_bytes 0 i = []"
| "le_bytes (Suc n) i = char_of (nat (i mod 256)) # le_bytes n (i div 256)"

text \<open>\<^verbatim>\<open>timestamp_nanos_opt().unwrap_or(0)\<close>: zero when the date does not fit 64 bits.\<close>

definition timestamp_nanos :: "datetime \<Rightarrow> int" where
  "timestamp_nanos t = (if - (2 ^ 63) \<le> t \<and> t < 2 ^ 63 then t else 0)"

lemma length_le_bytes [simp]: "length (le_bytes n i) = n"
  by (induction n arbitrary: i) simp_all

lemma le_bytes_inj_nonneg:
  "le_bytes n i = le_bytes n j \<Longrightarrow> i mod 256 ^ n = j mod 256 ^ n"
proof (induction n arbitrary: i j)
  case 0
  then show ?case by simp
next
  case (Suc n)
  then have c: "char_of (nat (i mod 256)) = (char_of (nat (j mod 256)) :: char)"
    and l: "le_bytes n (i div 256) = le_bytes n (j div 256)"
    unfolding le_bytes.simps list.inject by blast+
  from Suc.IH [OF l] have r: "(i div 256) mod 256 ^ n = (j div 256) mod 256 ^ n" .
  have b: "nat (k mod 256) < 256" for k :: int by (simp add: nat_less_iff)
  from c have "(of_char (char_of (nat (i mod 256)) :: char) :: nat) = of_char (char_of (nat (j mod 256)) :: char)"
    by (rule arg_cong)
  then have "nat (i mod 256) mod 256 = nat (j mod 256) mod 256" by (simp only: of_char_of)
  then have "nat (i mod 256) = nat (j mod 256)" by (simp only: mod_less [OF b])
  moreover have "0 \<le> k mod 256" for k :: int by simp
  ultimately have m: "i mod 256 = j mod 256" by (metis nat_eq_iff2)
  have "k mod 256 ^ Suc n = 256 * (k div 256 mod 256 ^ n) + k mod 256" for k :: int
    by (simp add: zmod_zmult2_eq)
  with m r show ?case by simp
qed

lemma le_bytes_timestamp_inj:
  assumes "le_bytes 8 (timestamp_nanos s) = le_bytes 8 (timestamp_nanos t)"
  shows "timestamp_nanos s = timestamp_nanos t"
proof -
  have b: "- (2 ^ 63) \<le> timestamp_nanos x \<and> timestamp_nanos x < 2 ^ 63" for x
    by (simp add: timestamp_nanos_def)
  from le_bytes_inj_nonneg [OF assms]
  have "timestamp_nanos s mod 2 ^ 64 = timestamp_nanos t mod 2 ^ 64" by simp
  then have "(2 ^ 64 :: int) dvd (timestamp_nanos s - timestamp_nanos t)" by (simp add: mod_eq_dvd_iff)
  then obtain k where k: "timestamp_nanos s - timestamp_nanos t = 2 ^ 64 * k" by (elim dvdE)
  with b [of s] b [of t] have "k = 0" by auto
  with k show ?thesis by simp
qed

subsection \<open>Rows\<close>

text \<open>A printer whose texts need no quotes in a CSV row: what \<^verbatim>\<open>to_rfc3339\<close>, the
  text of a UUID and of a float are documented to be.\<close>

definition plain_text :: "string \<Rightarrow> bool" where
  "plain_text s \<longleftrightarrow> s \<noteq> [] \<and> CHR 0x22 \<notin> set s \<and> CHR '','' \<notin> set s \<and> CHR 0x0A \<notin> set s"

definition plain_printer :: "('a \<Rightarrow> string) \<Rightarrow> bool" where
  "plain_printer f \<longleftrightarrow> (\<forall>x. plain_text (f x))"

definition opt_cell :: "string option \<Rightarrow> cell" where
  "opt_cell v = (case v of Some s \<Rightarrow> QuotedCell s | None \<Rightarrow> PlainCell [])"

definition shown_cell :: "('a \<Rightarrow> string) \<Rightarrow> 'a option \<Rightarrow> cell" where
  "shown_cell f v = PlainCell (case v of Some x \<Rightarrow> f x | None \<Rightarrow> [])"

text \<open>The SQL constants a kind of record gives to the batcher, and the columns its \<^verbatim>\<open>COPY\<close> names.\<close>

record ingest_sql =
  iq_copy :: string
  iq_ensure_partitions :: string
  iq_merge :: string
  iq_staging_table :: string
  iq_label :: string

fun split_commas :: "string \<Rightarrow> string list" where
  "split_commas [] = [[]]"
| "split_commas (c # cs) =
     (if c = CHR '','' then [] # split_commas cs
      else (case split_commas cs of w # ws \<Rightarrow> (c # w) # ws | [] \<Rightarrow> [[c]]))"

definition copy_columns :: "ingest_sql \<Rightarrow> string list" where
  "copy_columns sql =
     map (dropWhile (\<lambda>c. c = CHR '' ''))
       (split_commas (takeWhile (\<lambda>c. c \<noteq> CHR '')'') (drop 1 (dropWhile (\<lambda>c. c \<noteq> CHR ''('') (iq_copy sql)))))"

lemma opt_cell_text [simp]: "cell_text (opt_cell v) = csv_opt v"
  by (simp add: opt_cell_def csv_opt_def split: option.split)

lemma opt_cell_value [simp]: "cell_value (opt_cell v) = v"
  by (simp add: opt_cell_def split: option.split)

lemma opt_cell_ok [simp]: "cell_ok (opt_cell v)"
  by (simp add: opt_cell_def split: option.split)

lemma shown_cell_text_ts [simp]: "cell_text (shown_cell f t) = csv_ts f t"
  by (simp add: shown_cell_def csv_ts_def)

lemma shown_cell_text_f64 [simp]: "cell_text (shown_cell f x) = csv_f64 f x"
  by (simp add: shown_cell_def csv_f64_def)

lemma csv_ts_num [simp]: "csv_ts show_int n = csv_num n"
  by (simp add: csv_ts_def csv_num_def)

lemma shown_cell_value: "plain_printer f \<Longrightarrow> cell_value (shown_cell f v) = map_option f v"
  by (auto simp: shown_cell_def plain_printer_def plain_text_def split: option.split)

lemma shown_cell_ok: "plain_printer f \<Longrightarrow> cell_ok (shown_cell f v)"
  by (auto simp: shown_cell_def plain_printer_def plain_text_def split: option.split)

lemma show_nat_plain: "plain_text (show_nat n)"
  using show_nat_digits [of _ n] by (force simp: plain_text_def)

lemma show_int_plain: "plain_printer show_int"
  using show_nat_plain by (auto simp: plain_printer_def plain_text_def show_int_def)

lemma read_rows:
  assumes "\<forall>e\<in>set es. \<exists>xs. row e = csv_row (map cell_text xs) \<and> xs \<noteq> [] \<and> list_all cell_ok xs
    \<and> map cell_value xs = vals e"
  shows "csv_read (concat (map row es)) = Some (map vals es)"
proof -
  from assms obtain cells where c: "\<forall>e\<in>set es. row e = csv_row (map cell_text (cells e)) \<and> cells e \<noteq> []
      \<and> list_all cell_ok (cells e) \<and> map cell_value (cells e) = vals e"
    by metis
  have "map row es = map (\<lambda>xs. csv_row (map cell_text xs)) (map cells es)"
    using c by simp
  moreover have "map (map cell_value) (map cells es) = map vals es" using c by simp
  moreover have "\<forall>xs\<in>set (map cells es). xs \<noteq> [] \<and> list_all cell_ok xs" using c by auto
  ultimately show ?thesis using csv_read_rows [of "map cells es"] by metis
qed

subsection \<open>Requests\<close>

text \<open>
  An OTLP request is a list of resources, each with its scopes and their records; \<open>'s\<close> is
  what the encoding keeps of a scope's name. The items of a request are its records, in order, each
  with the attributes and the service name of its resource and the name of its scope.
\<close>

record ('kv, 's, 'r) resource_group =
  rg_resource :: "'kv list option"
  rg_scopes :: "('s option \<times> 'r list) list"

record 'r item =
  it_resource_attrs :: json_map
  it_service_name :: "string option"
  it_scope_name :: "string option"
  it_record :: 'r

definition request_items ::
    "('kv list \<Rightarrow> json_map) \<Rightarrow> (json_map \<Rightarrow> string option) \<Rightarrow> ('s option \<Rightarrow> string option)
       \<Rightarrow> ('kv, 's, 'r) resource_group list \<Rightarrow> 'r item list" where
  "request_items attrs service scope req =
     concat (map (\<lambda>rg.
       let ra = unwrap_or [] (map_option attrs (rg_resource rg)) in
       concat (map (\<lambda>(sc, rs).
         map (\<lambda>r. \<lparr>it_resource_attrs = ra, it_service_name = service ra, it_scope_name = scope sc,
                     it_record = r\<rparr>) rs)
         (rg_scopes rg)))
       req)"

text \<open>The JSON transport reads \<^verbatim>\<open>service.name\<close> with \<open>lookup\<close> and keeps
  the scope's name as it is; the protobuf one reads any string and drops an empty scope name.\<close>

definition json_service_name :: "json_map \<Rightarrow> string option" where
  "json_service_name ra = lookup ra [''service.name'']"

definition proto_service_name :: "json_map \<Rightarrow> string option" where
  "proto_service_name ra = (case al_get ra ''service.name'' of Some (JStr s) \<Rightarrow> Some s | _ \<Rightarrow> None)"

definition json_scope_name :: "string option option \<Rightarrow> string option" where
  "json_scope_name sc = (case sc of None \<Rightarrow> None | Some n \<Rightarrow> n)"

definition proto_scope_name :: "string option \<Rightarrow> string option" where
  "proto_scope_name sc = opt_filter (\<lambda>s. s \<noteq> []) sc"

definition json_items ::
    "(key_value, string option, 'r) resource_group list \<Rightarrow> 'r item list" where
  "json_items req = request_items attrs_to_map json_service_name json_scope_name req"

definition proto_items ::
    "(proto_key_value, string, 'r) resource_group list \<Rightarrow> 'r item list" where
  "proto_items req = request_items proto_attrs_to_map proto_service_name proto_scope_name req"

text \<open>A timestamp: absent, unreadable and zero are the same.\<close>

definition json_nanos :: "string_or_num option \<Rightarrow> datetime option" where
  "json_nanos t =
     (case t of None \<Rightarrow> None
      | Some v \<Rightarrow> (case opt_filter (\<lambda>n. n > 0) (as_u64 v) of None \<Rightarrow> None | Some n \<Rightarrow> nanos_to_dt n))"

definition proto_nanos :: "nat \<Rightarrow> datetime option" where
  "proto_nanos n = (if n \<noteq> 0 then nanos_to_dt n else None)"

definition non_empty_str :: "string \<Rightarrow> string option" where
  "non_empty_str s = (if s = [] then None else Some s)"

lemma as_u64_show_nat: "n \<le> u64_max \<Longrightarrow> as_u64 (Str (show_nat n)) = Some n"
proof -
  assume n: "n \<le> u64_max"
  have "str_trim (show_nat n) = show_nat n" by (rule str_trim_visible) simp_all
  with n show ?thesis by (simp add: parse_uint_show_nat)
qed

lemma json_nanos_show: "n \<le> u64_max \<Longrightarrow> json_nanos (Some (Str (show_nat n))) = proto_nanos n"
  by (simp add: json_nanos_def proto_nanos_def as_u64_show_nat del: as_u64.simps)

subsection \<open>The JSON encoding of a protobuf request\<close>

text \<open>As OTLP prescribes it: hexadecimal identifiers, decimal strings for 64-bit integers, empty
  texts and zero numbers left out.\<close>

definition group_to_wire ::
    "('r \<Rightarrow> 'w) \<Rightarrow> (proto_key_value, string, 'r) resource_group \<Rightarrow> (key_value, string option, 'w) resource_group" where
  "group_to_wire enc rg =
     \<lparr>rg_resource = map_option to_wire_kvs (rg_resource rg),
      rg_scopes = map (\<lambda>(sc, rs). (map_option non_empty_str sc, map enc rs)) (rg_scopes rg)\<rparr>"

definition group_safe :: "(proto_key_value, string, 'r) resource_group \<Rightarrow> bool" where
  "group_safe rg \<longleftrightarrow> (\<forall>kvs. rg_resource rg = Some kvs \<longrightarrow>
     kvs_safe kvs \<and> al_get (proto_attrs_to_map kvs) ''service.name'' \<noteq> Some (JStr []))"

lemma service_names_agree:
  "al_get ra ''service.name'' \<noteq> Some (JStr []) \<Longrightarrow> json_service_name ra = proto_service_name ra"
  by (auto simp: json_service_name_def proto_service_name_def split: option.splits json.splits)

lemma scope_names_agree: "json_scope_name (map_option non_empty_str sc) = proto_scope_name sc"
  by (cases sc) (simp_all add: json_scope_name_def proto_scope_name_def non_empty_str_def)

definition encode_item :: "('r \<Rightarrow> 'w) \<Rightarrow> 'r item \<Rightarrow> 'w item" where
  "encode_item enc i =
     \<lparr>it_resource_attrs = it_resource_attrs i, it_service_name = it_service_name i,
      it_scope_name = it_scope_name i, it_record = enc (it_record i)\<rparr>"

lemma attrs_to_wire: "kvs_safe kvs \<Longrightarrow> attrs_to_map (to_wire_kvs kvs) = proto_attrs_to_map kvs"
  using wire_conversion(3) [of kvs "[]"] by (simp add: attrs_to_map_def proto_attrs_to_map_def)

lemma json_items_to_wire:
  assumes "\<forall>rg\<in>set req. group_safe rg"
  shows "json_items (map (group_to_wire enc) req) = map (encode_item enc) (proto_items req)"
proof -
  have ra: "unwrap_or [] (map_option attrs_to_map (rg_resource (group_to_wire enc rg)))
      = unwrap_or [] (map_option proto_attrs_to_map (rg_resource rg))" if "group_safe rg" for rg
    using that by (cases "rg_resource rg") (simp_all add: group_to_wire_def group_safe_def attrs_to_wire)
  have sv: "json_service_name (unwrap_or [] (map_option proto_attrs_to_map (rg_resource rg)))
      = proto_service_name (unwrap_or [] (map_option proto_attrs_to_map (rg_resource rg)))" if "group_safe rg" for rg
    using that by (cases "rg_resource rg") (auto simp: group_safe_def intro: service_names_agree)
  show ?thesis
    using assms
    by (induction req)
      (simp_all add: json_items_def proto_items_def request_items_def Let_def ra sv map_concat o_def
        split_beta scope_names_agree group_to_wire_def [of enc, THEN arg_cong [where f = rg_scopes]]
        encode_item_def)
qed

end
