(* ===== verification/Events.thy ===== *)
theory Events
  imports Records
begin

text \<open>
  \<^verbatim>\<open>backend/src/events/model.rs\<close>: the product events, their strict validation and
  their CSV row. Reading the body as JSON is the serde crate's work; printing JSON and dates are
  the parameters \<open>ser\<close> and \<open>rfc3339\<close>.
\<close>

subsection \<open>Data\<close>

record incoming_event =
  ie_event_id :: uuid
  ie_event_name :: string
  ie_tenant_id :: "string option"
  ie_actor_id :: string
  ie_session_id :: string
  ie_timestamp_client :: datetime
  ie_properties :: "json option"

record ingest_body =
  ib_token :: "string option"
  ib_events :: "incoming_event list"

record stored_event =
  se_event_id :: uuid
  se_event_name :: string
  se_tenant_id :: "string option"
  se_actor_id :: string
  se_session_id :: string
  se_timestamp_client :: datetime
  se_received_at :: datetime
  se_properties :: json

datatype event_check = Event_ok stored_event | OutOfSkew

text \<open>Why an event is refused: the index of the event, the field and the reason.\<close>

datatype field = EventName | ActorId | SessionId | TenantId | Properties

datatype reason = Empty | TooLong nat | NotAnObject | TooLarge nat nat | TooDeep nat

datatype structural_error = StructuralError nat field reason

subsection \<open>Validation\<close>

definition check_text :: "string \<Rightarrow> field \<Rightarrow> nat \<Rightarrow> nat \<Rightarrow> structural_error + unit" where
  "check_text v f max_len index =
     (if str_trim v = [] then Inl (StructuralError index f Empty)
      else if chars_count v > max_len then Inl (StructuralError index f (TooLong max_len))
      else Inr ())"

text \<open>\<^verbatim>\<open>iter().map(json_depth).max().unwrap_or(0)\<close>\<close>

fun json_depth :: "json \<Rightarrow> nat"
  and json_depths :: "json list \<Rightarrow> nat"
  and field_depths :: "(string \<times> json) list \<Rightarrow> nat" where
  "json_depth (JObj m) = 1 + field_depths m"
| "json_depth (JArr vs) = 1 + json_depths vs"
| "json_depth JNull = 0"
| "json_depth (JBool b) = 0"
| "json_depth (JNum n) = 0"
| "json_depth (JStr s) = 0"
| "json_depths [] = 0"
| "json_depths (v # vs) = max (json_depth v) (json_depths vs)"
| "field_depths [] = 0"
| "field_depths ((k, v) # m) = max (json_depth v) (field_depths m)"

definition event_properties :: "json option \<Rightarrow> nat \<Rightarrow> structural_error + json" where
  "event_properties p index =
     (case p of
        None \<Rightarrow> Inr (JObj [])
      | Some JNull \<Rightarrow> Inr (JObj [])
      | Some (JObj m) \<Rightarrow> Inr (JObj m)
      | Some _ \<Rightarrow> Inl (StructuralError index Properties NotAnObject))"

definition check_event ::
    "(json \<Rightarrow> string) \<Rightarrow> incoming_event \<Rightarrow> datetime \<Rightarrow> validation_limits \<Rightarrow> nat
       \<Rightarrow> structural_error + event_check" where
  "check_event ser ev received_at limits index =
     and_then (check_text (ie_event_name ev) EventName (max_string_len limits) index) (\<lambda>_.
     and_then (check_text (ie_actor_id ev) ActorId (max_string_len limits) index) (\<lambda>_.
     and_then (check_text (ie_session_id ev) SessionId (max_string_len limits) index) (\<lambda>_.
     and_then (case ie_tenant_id ev of
                 Some t \<Rightarrow> check_text t TenantId (max_string_len limits) index
               | None \<Rightarrow> Inr ()) (\<lambda>_.
     and_then (event_properties (ie_properties ev) index) (\<lambda>properties.
       let serialized_len = length (ser properties) in
       if serialized_len > max_properties_bytes limits
       then Inl (StructuralError index Properties (TooLarge serialized_len (max_properties_bytes limits)))
       else if json_depth properties > max_json_depth limits
       then Inl (StructuralError index Properties (TooDeep (max_json_depth limits)))
       else if out_of_skew limits received_at (ie_timestamp_client ev) then Inr OutOfSkew
       else Inr (Event_ok
         \<lparr>se_event_id = ie_event_id ev, se_event_name = ie_event_name ev,
          se_tenant_id = ie_tenant_id ev, se_actor_id = ie_actor_id ev,
          se_session_id = ie_session_id ev, se_timestamp_client = ie_timestamp_client ev,
          se_received_at = received_at, se_properties = properties\<rparr>))))))"

subsection \<open>The row of an event\<close>

definition event_sql :: ingest_sql where
  "event_sql =
     \<lparr>iq_copy = ''COPY events_staging ''
        @ ''(event_id, event_name, tenant_id, actor_id, session_id, ''
        @ ''timestamp_client, received_at, properties)''
        @ '' FROM STDIN WITH (FORMAT csv)'',
      iq_ensure_partitions = ''SELECT datacat_ensure_partitions_for_staging()'',
      iq_merge = ''SELECT datacat_merge_staging()'', iq_staging_table = ''events_staging'', iq_label = ''events''\<rparr>"

definition event_csv_row :: "(json \<Rightarrow> string) \<Rightarrow> (datetime \<Rightarrow> string) \<Rightarrow> stored_event \<Rightarrow> string" where
  "event_csv_row ser rfc3339 e = csv_row
     [se_event_id e, csv_quoted (se_event_name e), csv_opt (se_tenant_id e),
      csv_quoted (se_actor_id e), csv_quoted (se_session_id e), rfc3339 (se_timestamp_client e),
      rfc3339 (se_received_at e), csv_quoted (ser (se_properties e))]"

definition event_fields :: "(json \<Rightarrow> string) \<Rightarrow> (datetime \<Rightarrow> string) \<Rightarrow> stored_event \<Rightarrow> string option list" where
  "event_fields ser rfc3339 e =
     [Some (se_event_id e), Some (se_event_name e), se_tenant_id e, Some (se_actor_id e),
      Some (se_session_id e), Some (rfc3339 (se_timestamp_client e)),
      Some (rfc3339 (se_received_at e)), Some (ser (se_properties e))]"

subsection \<open>What a valid event is\<close>

definition text_ok :: "validation_limits \<Rightarrow> string \<Rightarrow> bool" where
  "text_ok limits s \<longleftrightarrow> str_trim s \<noteq> [] \<and> chars_count s \<le> max_string_len limits"

definition event_ok :: "(json \<Rightarrow> string) \<Rightarrow> validation_limits \<Rightarrow> stored_event \<Rightarrow> bool" where
  "event_ok ser limits e \<longleftrightarrow>
     text_ok limits (se_event_name e) \<and> text_ok limits (se_actor_id e)
     \<and> text_ok limits (se_session_id e)
     \<and> (\<forall>t. se_tenant_id e = Some t \<longrightarrow> text_ok limits t)
     \<and> (\<exists>m. se_properties e = JObj m)
     \<and> length (ser (se_properties e)) \<le> max_properties_bytes limits
     \<and> json_depth (se_properties e) \<le> max_json_depth limits"

text \<open>The event a client sent, as it would be stored.\<close>

definition normalised :: "incoming_event \<Rightarrow> datetime \<Rightarrow> stored_event" where
  "normalised ev received_at =
     \<lparr>se_event_id = ie_event_id ev, se_event_name = ie_event_name ev,
      se_tenant_id = ie_tenant_id ev, se_actor_id = ie_actor_id ev,
      se_session_id = ie_session_id ev, se_timestamp_client = ie_timestamp_client ev,
      se_received_at = received_at,
      se_properties = (case ie_properties ev of
                         None \<Rightarrow> JObj [] | Some JNull \<Rightarrow> JObj [] | Some v \<Rightarrow> v)\<rparr>"

lemma check_text_iff: "check_text v f (max_string_len limits) index = Inr () \<longleftrightarrow> text_ok limits v"
  by (simp add: check_text_def text_ok_def)

lemma event_properties_iff:
  "event_properties p index = Inr j \<longleftrightarrow>
     j = (case p of None \<Rightarrow> JObj [] | Some JNull \<Rightarrow> JObj [] | Some v \<Rightarrow> v) \<and> (\<exists>m. j = JObj m)"
  by (auto simp: event_properties_def split: option.splits json.splits)

lemma check_event_iff:
  "check_event ser ev received_at limits index = Inr c \<longleftrightarrow>
     event_ok ser limits (normalised ev received_at)
     \<and> c = (if out_of_skew limits received_at (ie_timestamp_client ev) then OutOfSkew
            else Event_ok (normalised ev received_at))"
proof -
  have t: "(case ie_tenant_id ev of Some t \<Rightarrow> check_text t TenantId (max_string_len limits) index
      | None \<Rightarrow> Inr ()) = Inr () \<longleftrightarrow> (\<forall>t. ie_tenant_id ev = Some t \<longrightarrow> text_ok limits t)"
    by (simp add: check_text_iff split: option.split)
  show ?thesis
    by (simp add: check_event_def Let_def check_text_iff t event_properties_iff event_ok_def normalised_def)
      auto
qed

text \<open>C34. The validation of an event is exact: it is accepted if and only if the texts are non-blank
  and within the length limit, and the properties are an object within the size and depth limits; an
  accepted event is stored as it was sent, with the date of reception, unless its date lies outside
  the window, in which case it is dropped without refusing the batch.\<close>

theorem event_validation_exact:
  "check_event ser ev received_at limits index = Inr c \<longleftrightarrow>
     event_ok ser limits (normalised ev received_at)
     \<and> c = (if out_of_skew limits received_at (ie_timestamp_client ev) then OutOfSkew
            else Event_ok (normalised ev received_at))"
  by (rule check_event_iff)

lemma event_columns: "length (copy_columns event_sql) = length (event_fields ser rfc3339 e)"
  by (simp add: copy_columns_def event_sql_def event_fields_def)

lemma event_row_cells:
  assumes "plain_text (se_event_id e)" and "plain_printer rfc3339"
  shows "\<exists>xs. event_csv_row ser rfc3339 e = csv_row (map cell_text xs) \<and> xs \<noteq> [] \<and> list_all cell_ok xs
    \<and> map cell_value xs = event_fields ser rfc3339 e"
  using assms
  by (intro exI [of _ "[PlainCell (se_event_id e), QuotedCell (se_event_name e), opt_cell (se_tenant_id e),
      QuotedCell (se_actor_id e), QuotedCell (se_session_id e), PlainCell (rfc3339 (se_timestamp_client e)),
      PlainCell (rfc3339 (se_received_at e)), QuotedCell (ser (se_properties e))]"])
    (simp add: event_csv_row_def event_fields_def plain_printer_def plain_text_def)

text \<open>C35. What the database reads: the rows written for a batch of events, whatever texts they
  carry, read back field by field as those events.\<close>

theorem event_rows_read_back:
  assumes "\<forall>e\<in>set es. plain_text (se_event_id e)" and "plain_printer rfc3339"
  shows "csv_read (concat (map (event_csv_row ser rfc3339) es)) = Some (map (event_fields ser rfc3339) es)"
  by (rule read_rows) (use event_row_cells assms in blast)

lemma event_rows_read_back_witness:
  "csv_read (concat (map (event_csv_row (\<lambda>_. [CHR 0x7B, CHR 0x22, CHR 0x0A, CHR 0x7D]) (\<lambda>_. ''d''))
     [normalised \<lparr>ie_event_id = ''i'', ie_event_name = ''a,b'', ie_tenant_id = None, ie_actor_id = ''x'',
        ie_session_id = ''s'', ie_timestamp_client = 0, ie_properties = None\<rparr> 0]))
   = Some [[Some ''i'', Some ''a,b'', None, Some ''x'', Some ''s'', Some ''d'', Some ''d'',
        Some [CHR 0x7B, CHR 0x22, CHR 0x0A, CHR 0x7D]]]"
  by (subst event_rows_read_back)
    (simp_all add: normalised_def plain_text_def plain_printer_def event_fields_def)

end
