(* ===== verification/Logs.thy ===== *)
theory Logs
  imports Records
begin

text \<open>
  \<^verbatim>\<open>backend/src/logs/model.rs\<close> and the conversion of
  \<^verbatim>\<open>backend/src/logs/grpc.rs\<close>: OpenTelemetry logs from the JSON and the protobuf
  transports, their deduplication identifier and their CSV row. The first sixteen bytes of a
  SHA-256 digest as a UUID are the parameter \<open>digest\<close>; printing JSON and dates are
  \<open>ser\<close> and \<open>rfc3339\<close>.
\<close>

subsection \<open>Data\<close>

record log_record =
  lr_time :: "string_or_num option"
  lr_observed_time :: "string_or_num option"
  lr_severity_number :: "int option"
  lr_severity_text :: "string option"
  lr_body :: "any_value option"
  lr_attributes :: "key_value list"
  lr_trace_id :: "string option"
  lr_span_id :: "string option"

record proto_log =
  pl_time :: nat
  pl_observed_time :: nat
  pl_severity_number :: int
  pl_severity_text :: string
  pl_body :: "proto_value option"
  pl_attributes :: "proto_key_value list"
  pl_trace_id :: "8 word list"
  pl_span_id :: "8 word list"

type_synonym logs_request = "(key_value, string option, log_record) resource_group list"
type_synonym proto_logs_request = "(proto_key_value, string, proto_log) resource_group list"

record stored_log =
  sl_log_id :: uuid
  sl_log_time :: datetime
  sl_observed_time :: "datetime option"
  sl_received_at :: datetime
  sl_severity_number :: "int option"
  sl_severity_text :: "string option"
  sl_body :: "string option"
  sl_service_name :: "string option"
  sl_scope_name :: "string option"
  sl_trace_id :: "string option"
  sl_span_id :: "string option"
  sl_tenant_id :: "string option"
  sl_actor_id :: "string option"
  sl_session_id :: "string option"
  sl_resource_attributes :: json
  sl_log_attributes :: json

definition log_content_bytes :: "(json \<Rightarrow> string) \<Rightarrow> stored_log \<Rightarrow> nat" where
  "log_content_bytes ser l =
     opt_len (sl_body l) + opt_len (sl_service_name l) + opt_len (sl_scope_name l)
     + opt_len (sl_severity_text l) + opt_len (sl_trace_id l) + opt_len (sl_span_id l)
     + json_byte_len ser (sl_resource_attributes l) + json_byte_len ser (sl_log_attributes l)"

record log_fields =
  lf_received_at :: datetime
  lf_log_time :: datetime
  lf_observed_time :: "datetime option"
  lf_severity_number :: "int option"
  lf_severity_text :: "string option"
  lf_body :: "string option"
  lf_service_name :: "string option"
  lf_scope_name :: "string option"
  lf_trace_id :: "string option"
  lf_span_id :: "string option"
  lf_log_attrs :: json_map
  lf_resource_attrs :: json_map

subsection \<open>Assembling a log\<close>

definition log_dedup_id ::
    "(json \<Rightarrow> string) \<Rightarrow> (string \<Rightarrow> uuid) \<Rightarrow> datetime \<Rightarrow> string option \<Rightarrow> string option
       \<Rightarrow> string option \<Rightarrow> string option \<Rightarrow> int option \<Rightarrow> json \<Rightarrow> uuid" where
  "log_dedup_id ser digest log_time service_name body trace_id span_id severity_number log_attributes =
     digest (le_bytes 8 (timestamp_nanos log_time)
       @ unwrap_or [] service_name @ [CHR 0x00]
       @ unwrap_or [] body @ [CHR 0x00]
       @ unwrap_or [] trace_id
       @ unwrap_or [] span_id
       @ le_bytes 2 (unwrap_or 0 severity_number)
       @ ser log_attributes)"

definition assemble_log :: "(json \<Rightarrow> string) \<Rightarrow> (string \<Rightarrow> uuid) \<Rightarrow> log_fields \<Rightarrow> stored_log" where
  "assemble_log ser digest f =
     (let c = correlate (lf_log_attrs f) (lf_resource_attrs f);
          log_attributes = JObj (lf_log_attrs f);
          log_id = log_dedup_id ser digest (lf_log_time f) (lf_service_name f) (lf_body f)
                     (lf_trace_id f) (lf_span_id f) (lf_severity_number f) log_attributes
      in \<lparr>sl_log_id = log_id, sl_log_time = lf_log_time f, sl_observed_time = lf_observed_time f,
          sl_received_at = lf_received_at f, sl_severity_number = lf_severity_number f,
          sl_severity_text = lf_severity_text f, sl_body = lf_body f,
          sl_service_name = lf_service_name f, sl_scope_name = lf_scope_name f,
          sl_trace_id = lf_trace_id f, sl_span_id = lf_span_id f,
          sl_tenant_id = co_tenant_id c, sl_actor_id = co_actor_id c, sl_session_id = co_session_id c,
          sl_resource_attributes = JObj (lf_resource_attrs f), sl_log_attributes = log_attributes\<rparr>)"

subsection \<open>From JSON\<close>

definition json_log_fields :: "(json \<Rightarrow> string) \<Rightarrow> datetime \<Rightarrow> log_record item \<Rightarrow> log_fields" where
  "json_log_fields ser received_at i =
     (let r = it_record i in
      \<lparr>lf_received_at = received_at,
       lf_log_time = unwrap_or received_at (opt_or (json_nanos (lr_time r)) (json_nanos (lr_observed_time r))),
       lf_observed_time = json_nanos (lr_observed_time r),
       lf_severity_number = map_option (clamp_int 0 24) (lr_severity_number r),
       lf_severity_text = lr_severity_text r,
       lf_body = map_option (anyvalue_to_string ser) (lr_body r),
       lf_service_name = it_service_name i, lf_scope_name = it_scope_name i,
       lf_trace_id = opt_filter (\<lambda>s. s \<noteq> []) (lr_trace_id r),
       lf_span_id = opt_filter (\<lambda>s. s \<noteq> []) (lr_span_id r),
       lf_log_attrs = attrs_to_map (lr_attributes r), lf_resource_attrs = it_resource_attrs i\<rparr>)"

text \<open>The body of the loop of both transports: the date is checked, then the log assembled.\<close>

definition log_verdict ::
    "(json \<Rightarrow> string) \<Rightarrow> (string \<Rightarrow> uuid) \<Rightarrow> validation_limits \<Rightarrow> datetime \<Rightarrow> log_fields \<Rightarrow> stored_log verdict" where
  "log_verdict ser digest limits received_at f =
     (if out_of_skew limits received_at (lf_log_time f) then Skewed else Keep (assemble_log ser digest f))"

definition otlp_to_logs ::
    "(json \<Rightarrow> string) \<Rightarrow> (string \<Rightarrow> uuid) \<Rightarrow> logs_request \<Rightarrow> datetime \<Rightarrow> validation_limits \<Rightarrow> nat
       \<Rightarrow> stored_log parse" where
  "otlp_to_logs ser digest req received_at limits max_records =
     collect_records max_records
       (\<lambda>i. log_verdict ser digest limits received_at (json_log_fields ser received_at i))
       (json_items req) parse_default"

subsection \<open>From protobuf\<close>

definition proto_log_fields :: "(json \<Rightarrow> string) \<Rightarrow> datetime \<Rightarrow> proto_log item \<Rightarrow> log_fields" where
  "proto_log_fields ser received_at i =
     (let r = it_record i in
      \<lparr>lf_received_at = received_at,
       lf_log_time = unwrap_or received_at (opt_or (proto_nanos (pl_time r)) (proto_nanos (pl_observed_time r))),
       lf_observed_time = proto_nanos (pl_observed_time r),
       lf_severity_number =
         (if pl_severity_number r \<noteq> 0 then Some (clamp_int 0 24 (pl_severity_number r)) else None),
       lf_severity_text = non_empty_str (pl_severity_text r),
       lf_body = map_option (proto_to_string ser) (pl_body r),
       lf_service_name = it_service_name i, lf_scope_name = it_scope_name i,
       lf_trace_id = hex_opt (pl_trace_id r), lf_span_id = hex_opt (pl_span_id r),
       lf_log_attrs = proto_attrs_to_map (pl_attributes r), lf_resource_attrs = it_resource_attrs i\<rparr>)"

definition proto_to_logs ::
    "(json \<Rightarrow> string) \<Rightarrow> (string \<Rightarrow> uuid) \<Rightarrow> proto_logs_request \<Rightarrow> datetime \<Rightarrow> validation_limits \<Rightarrow> nat
       \<Rightarrow> stored_log parse" where
  "proto_to_logs ser digest req received_at limits max_records =
     collect_records max_records
       (\<lambda>i. log_verdict ser digest limits received_at (proto_log_fields ser received_at i))
       (proto_items req) parse_default"

subsection \<open>The row of a log\<close>

definition log_sql :: ingest_sql where
  "log_sql =
     \<lparr>iq_copy = ''COPY logs_staging ''
        @ ''(log_id, log_time, observed_time, received_at, severity_number, severity_text, body, ''
        @ ''service_name, scope_name, trace_id, span_id, tenant_id, actor_id, session_id, ''
        @ ''resource_attributes, log_attributes)''
        @ '' FROM STDIN WITH (FORMAT csv)'',
      iq_ensure_partitions = ''SELECT datacat_ensure_log_partitions_for_staging()'',
      iq_merge = ''SELECT datacat_merge_log_staging()'', iq_staging_table = ''logs_staging'', iq_label = ''logs''\<rparr>"

definition log_csv_row :: "(json \<Rightarrow> string) \<Rightarrow> (datetime \<Rightarrow> string) \<Rightarrow> stored_log \<Rightarrow> string" where
  "log_csv_row ser rfc3339 l = csv_row
     [sl_log_id l, rfc3339 (sl_log_time l), csv_ts rfc3339 (sl_observed_time l),
      rfc3339 (sl_received_at l), csv_num (sl_severity_number l), csv_opt (sl_severity_text l),
      csv_opt (sl_body l), csv_opt (sl_service_name l), csv_opt (sl_scope_name l),
      csv_opt (sl_trace_id l), csv_opt (sl_span_id l), csv_opt (sl_tenant_id l),
      csv_opt (sl_actor_id l), csv_opt (sl_session_id l),
      csv_quoted (ser (sl_resource_attributes l)), csv_quoted (ser (sl_log_attributes l))]"

definition log_row_fields :: "(json \<Rightarrow> string) \<Rightarrow> (datetime \<Rightarrow> string) \<Rightarrow> stored_log \<Rightarrow> string option list" where
  "log_row_fields ser rfc3339 l =
     [Some (sl_log_id l), Some (rfc3339 (sl_log_time l)), map_option rfc3339 (sl_observed_time l),
      Some (rfc3339 (sl_received_at l)), map_option show_int (sl_severity_number l), sl_severity_text l,
      sl_body l, sl_service_name l, sl_scope_name l, sl_trace_id l, sl_span_id l, sl_tenant_id l,
      sl_actor_id l, sl_session_id l, Some (ser (sl_resource_attributes l)), Some (ser (sl_log_attributes l))]"

lemma log_columns: "length (copy_columns log_sql) = length (log_row_fields ser rfc3339 l)"
  by (simp add: copy_columns_def log_sql_def log_row_fields_def)

lemma log_row_cells:
  assumes "plain_text (sl_log_id l)" and "plain_printer rfc3339"
  shows "\<exists>xs. log_csv_row ser rfc3339 l = csv_row (map cell_text xs) \<and> xs \<noteq> [] \<and> list_all cell_ok xs
    \<and> map cell_value xs = log_row_fields ser rfc3339 l"
  using assms shown_cell_value [OF assms(2), of "sl_observed_time l"] shown_cell_ok [OF assms(2), of "sl_observed_time l"]
    shown_cell_value [OF show_int_plain, of "sl_severity_number l"] shown_cell_ok [OF show_int_plain, of "sl_severity_number l"]
  by (intro exI [of _ "[PlainCell (sl_log_id l), PlainCell (rfc3339 (sl_log_time l)),
      shown_cell rfc3339 (sl_observed_time l), PlainCell (rfc3339 (sl_received_at l)),
      shown_cell show_int (sl_severity_number l), opt_cell (sl_severity_text l), opt_cell (sl_body l),
      opt_cell (sl_service_name l), opt_cell (sl_scope_name l), opt_cell (sl_trace_id l), opt_cell (sl_span_id l),
      opt_cell (sl_tenant_id l), opt_cell (sl_actor_id l), opt_cell (sl_session_id l),
      QuotedCell (ser (sl_resource_attributes l)), QuotedCell (ser (sl_log_attributes l))]"])
    (simp add: log_csv_row_def log_row_fields_def plain_printer_def plain_text_def)

subsection \<open>Properties\<close>

text \<open>What is kept of a request: at most one log more than the limit (so that the excess is seen
  and refused), every one of them dated within the window and carrying a severity between 0 and 24,
  and below the limit nothing but the logs out of the window is left out.\<close>

lemma log_verdict_Keep:
  "log_verdict ser digest limits received_at f = Keep l \<Longrightarrow>
     l = assemble_log ser digest f \<and> \<not> out_of_skew limits received_at (sl_log_time l)"
  by (auto simp: log_verdict_def assemble_log_def Let_def split: if_splits)

theorem logs_kept:
  "length (pa_stored (otlp_to_logs ser digest req received_at limits max_records)) \<le> Suc max_records
   \<and> (\<forall>l\<in>set (pa_stored (otlp_to_logs ser digest req received_at limits max_records)).
        past_limit limits received_at \<le> sl_log_time l \<and> sl_log_time l \<le> future_limit limits received_at
        \<and> sl_received_at l = received_at
        \<and> (\<forall>n. sl_severity_number l = Some n \<longrightarrow> 0 \<le> n \<and> n \<le> 24))
   \<and> (length (json_items req) \<le> max_records \<longrightarrow>
        length (pa_stored (otlp_to_logs ser digest req received_at limits max_records))
        + pa_dropped_skew (otlp_to_logs ser digest req received_at limits max_records)
        = length (json_items req))"
proof (intro conjI ballI allI impI)
  show "length (pa_stored (otlp_to_logs ser digest req received_at limits max_records)) \<le> Suc max_records"
    unfolding otlp_to_logs_def by (rule collect_records_bound) (simp add: parse_default_def)
next
  assume "length (json_items req) \<le> max_records"
  moreover have "pa_dropped_invalid (collect_records m (\<lambda>i. log_verdict ser digest limits received_at (g i)) xs p)
      = pa_dropped_invalid p" for m g and xs :: "log_record item list" and p :: "stored_log parse"
    by (induction xs arbitrary: p) (simp_all add: log_verdict_def)
  ultimately show "length (pa_stored (otlp_to_logs ser digest req received_at limits max_records))
        + pa_dropped_skew (otlp_to_logs ser digest req received_at limits max_records)
        = length (json_items req)"
    using collect_records_all [of parse_default "json_items req" max_records
        "\<lambda>i. log_verdict ser digest limits received_at (json_log_fields ser received_at i)", THEN conjunct2]
    by (simp add: otlp_to_logs_def parse_default_def)
next
  fix l
  assume "l \<in> set (pa_stored (otlp_to_logs ser digest req received_at limits max_records))"
  then obtain i where i: "log_verdict ser digest limits received_at (json_log_fields ser received_at i) = Keep l"
    unfolding otlp_to_logs_def by (auto simp: parse_default_def dest: collect_records_from)
  note k = log_verdict_Keep [OF i]
  then show "past_limit limits received_at \<le> sl_log_time l" "sl_log_time l \<le> future_limit limits received_at"
    by (auto simp: out_of_skew_def)
  show "sl_received_at l = received_at"
    using k by (simp add: assemble_log_def json_log_fields_def Let_def)
  fix n
  assume n: "sl_severity_number l = Some n"
  with k have "\<exists>m. n = clamp_int 0 24 m"
    by (auto simp: assemble_log_def json_log_fields_def Let_def)
  then show "0 \<le> n" "n \<le> 24" using clamp_int_bounds [of 0 24] by auto
qed

lemma logs_kept_witness:
  "length (pa_stored (otlp_to_logs (\<lambda>_. []) (\<lambda>s. s)
     [\<lparr>rg_resource = None, rg_scopes = [(None, replicate 3
        \<lparr>lr_time = None, lr_observed_time = None, lr_severity_number = Some 99, lr_severity_text = None,
         lr_body = None, lr_attributes = [], lr_trace_id = None, lr_span_id = None\<rparr>)]\<rparr>]
     0 \<lparr>max_batch_events = 1, max_payload_bytes = 1, max_properties_bytes = 1, max_string_len = 1,
        max_json_depth = 1, max_past_skew = 1, max_future_skew = 1, max_otlp_record_bytes = 1\<rparr> 1)) \<le> Suc 1"
  by (rule logs_kept [THEN conjunct1])

subsection \<open>The two transports\<close>

text \<open>The JSON encoding of a protobuf log.\<close>

definition log_to_wire :: "proto_log \<Rightarrow> log_record" where
  "log_to_wire r =
     \<lparr>lr_time = Some (Str (show_nat (pl_time r))),
      lr_observed_time = Some (Str (show_nat (pl_observed_time r))),
      lr_severity_number = (if pl_severity_number r = 0 then None else Some (pl_severity_number r)),
      lr_severity_text = non_empty_str (pl_severity_text r),
      lr_body = map_option to_wire (pl_body r),
      lr_attributes = to_wire_kvs (pl_attributes r),
      lr_trace_id = Some (hex (pl_trace_id r)), lr_span_id = Some (hex (pl_span_id r))\<rparr>"

definition log_safe :: "proto_log \<Rightarrow> bool" where
  "log_safe r \<longleftrightarrow> pl_time r \<le> u64_max \<and> pl_observed_time r \<le> u64_max \<and> kvs_safe (pl_attributes r)
     \<and> (\<forall>b. pl_body r = Some b \<longrightarrow> wire_safe b)"

lemma hex_opt_filter: "opt_filter (\<lambda>s. s \<noteq> []) (Some (hex bs)) = hex_opt bs"
  by (cases bs) (simp_all add: hex_opt_def hex_def)

lemma log_fields_agree:
  assumes "log_safe (it_record i)"
  shows "json_log_fields ser received_at (encode_item log_to_wire i) = proto_log_fields ser received_at i"
proof -
  have b: "map_option (anyvalue_to_string ser) (map_option to_wire (pl_body (it_record i)))
      = map_option (proto_to_string ser) (pl_body (it_record i))"
    using assms wire_conversion(1)
    by (cases "pl_body (it_record i)") (auto simp: log_safe_def anyvalue_to_string_def proto_to_string_def)
  show ?thesis
    using assms b hex_opt_filter
    by (simp add: json_log_fields_def proto_log_fields_def encode_item_def log_to_wire_def log_safe_def
        json_nanos_show attrs_to_wire Let_def del: opt_filter_simps)
qed

lemma log_transports_same:
  assumes "\<forall>rg\<in>set req. group_safe rg \<and> (\<forall>(sc, rs)\<in>set (rg_scopes rg). \<forall>r\<in>set rs. log_safe r)"
  shows "otlp_to_logs ser digest (map (group_to_wire log_to_wire) req) received_at limits max_records
    = proto_to_logs ser digest req received_at limits max_records"
proof -
  have "json_items (map (group_to_wire log_to_wire) req) = map (encode_item log_to_wire) (proto_items req)"
    using assms by (intro json_items_to_wire) blast
  moreover have "\<forall>i\<in>set (proto_items req). log_safe (it_record i)"
    using assms by (force simp: proto_items_def request_items_def Let_def)
  ultimately show ?thesis
    unfolding otlp_to_logs_def proto_to_logs_def
    by (intro collect_records_cong) (simp add: list_all2_conv_all_nth log_fields_agree)
qed

text \<open>One request, two transports: a protobuf request and its JSON encoding give the same logs,
  identifiers included, and the same counts of dropped records (for attributes and bodies without
  negative integers and byte strings, and a service name that is not the empty text).\<close>

theorem log_transports_agree:
  assumes "\<forall>rg\<in>set req. group_safe rg \<and> (\<forall>(sc, rs)\<in>set (rg_scopes rg). \<forall>r\<in>set rs. log_safe r)"
  shows "otlp_to_logs ser digest (map (group_to_wire log_to_wire) req) received_at limits max_records
    = proto_to_logs ser digest req received_at limits max_records"
  by (rule log_transports_same [OF assms])

lemma log_transports_agree_witness:
  "otlp_to_logs (\<lambda>_. ''{}'') (\<lambda>s. s) (map (group_to_wire log_to_wire)
      [\<lparr>rg_resource = Some [(''service.name'', Some (PString ''api''))], rg_scopes = [(Some [],
        [\<lparr>pl_time = 5, pl_observed_time = 0, pl_severity_number = 9, pl_severity_text = [],
          pl_body = Some (PString ''x''), pl_attributes = [(''n'', Some (PInt 7))], pl_trace_id = [1], pl_span_id = []\<rparr>])]\<rparr>]) 5
      \<lparr>max_batch_events = 1, max_payload_bytes = 1, max_properties_bytes = 1, max_string_len = 1,
        max_json_depth = 1, max_past_skew = 1, max_future_skew = 1, max_otlp_record_bytes = 1\<rparr> 10
   = proto_to_logs (\<lambda>_. ''{}'') (\<lambda>s. s)
      [\<lparr>rg_resource = Some [(''service.name'', Some (PString ''api''))], rg_scopes = [(Some [],
        [\<lparr>pl_time = 5, pl_observed_time = 0, pl_severity_number = 9, pl_severity_text = [],
          pl_body = Some (PString ''x''), pl_attributes = [(''n'', Some (PInt 7))], pl_trace_id = [1], pl_span_id = []\<rparr>])]\<rparr>] 5
      \<lparr>max_batch_events = 1, max_payload_bytes = 1, max_properties_bytes = 1, max_string_len = 1,
        max_json_depth = 1, max_past_skew = 1, max_future_skew = 1, max_otlp_record_bytes = 1\<rparr> 10"
  by (rule log_transports_agree)
    (simp add: group_safe_def log_safe_def u64_max_def proto_attrs_to_map_def al_get_def)

subsection \<open>Retransmissions\<close>

text \<open>The date a client gives to a log, when it gives one.\<close>

definition given_date :: "log_record \<Rightarrow> datetime option" where
  "given_date r = opt_or (json_nanos (lr_time r)) (json_nanos (lr_observed_time r))"

definition dated_within :: "validation_limits \<Rightarrow> datetime \<Rightarrow> log_record \<Rightarrow> bool" where
  "dated_within limits received_at r \<longleftrightarrow> (\<exists>t. given_date r = Some t \<and> \<not> out_of_skew limits received_at t)"

definition log_key :: "stored_log \<Rightarrow> datetime \<times> uuid" where
  "log_key l = (sl_log_time l, sl_log_id l)"

lemma dated_item:
  assumes "dated_within limits received_at (it_record i)"
  shows "\<exists>l. log_verdict ser digest limits received_at (json_log_fields ser received_at i) = Keep l
    \<and> log_key l = log_key (assemble_log ser digest (json_log_fields ser 0 i))"
proof -
  obtain t where t: "given_date (it_record i) = Some t" "\<not> out_of_skew limits received_at t"
    using assms by (auto simp: dated_within_def)
  then have "lf_log_time (json_log_fields ser received_at i) = t" "lf_log_time (json_log_fields ser 0 i) = t"
    by (simp_all add: json_log_fields_def Let_def given_date_def)
  with t(2) show ?thesis
    by (simp add: log_verdict_def log_key_def assemble_log_def Let_def) (simp add: json_log_fields_def Let_def)
qed

lemma retransmitted_keys:
  assumes "\<forall>i\<in>set (json_items req). dated_within limits received_at (it_record i)
      \<and> dated_within limits received_at' (it_record i)"
  shows "map log_key (pa_stored (otlp_to_logs ser digest req received_at limits max_records))
    = map log_key (pa_stored (otlp_to_logs ser digest req received_at' limits max_records))"
proof -
  have "list_all2 (\<lambda>l l'. log_key l = log_key l')
      (pa_stored (otlp_to_logs ser digest req received_at limits max_records))
      (pa_stored (otlp_to_logs ser digest req received_at' limits max_records))"
    unfolding otlp_to_logs_def
  proof (rule collect_records_rel)
    show "list_all2 (\<lambda>x y. rel_option (\<lambda>l l'. log_key l = log_key l')
        (case log_verdict ser digest limits received_at (json_log_fields ser received_at x) of
           Keep r \<Rightarrow> Some r | _ \<Rightarrow> None)
        (case log_verdict ser digest limits received_at' (json_log_fields ser received_at' y) of
           Keep r \<Rightarrow> Some r | _ \<Rightarrow> None)) (json_items req) (json_items req)"
    proof (rule list_all2_same [THEN iffD2], rule ballI)
      fix i
      assume i: "i \<in> set (json_items req)"
      obtain l where l: "log_verdict ser digest limits received_at (json_log_fields ser received_at i) = Keep l"
        "log_key l = log_key (assemble_log ser digest (json_log_fields ser 0 i))"
        using assms i dated_item [of limits received_at i] by blast
      obtain l' where l': "log_verdict ser digest limits received_at' (json_log_fields ser received_at' i) = Keep l'"
        "log_key l' = log_key (assemble_log ser digest (json_log_fields ser 0 i))"
        using assms i dated_item [of limits received_at' i] by blast
      show "rel_option (\<lambda>l l'. log_key l = log_key l')
          (case log_verdict ser digest limits received_at (json_log_fields ser received_at i) of
             Keep r \<Rightarrow> Some r | _ \<Rightarrow> None)
          (case log_verdict ser digest limits received_at' (json_log_fields ser received_at' i) of
             Keep r \<Rightarrow> Some r | _ \<Rightarrow> None)"
        using l(2) l'(2) by (simp add: l(1) l'(1))
    qed
  qed (simp add: parse_default_def)
  then show ?thesis by (simp add: list_all2_conv_all_nth list_eq_iff_nth_eq)
qed

text \<open>The identifier does not separate the trace from the span: two logs that differ by where one
  identifier ends and the next begins share their deduplication identifier.\<close>

lemma dedup_id_conflates_trace_and_span:
  "log_dedup_id ser digest t sv b (Some (x @ y)) (Some z) n a
   = log_dedup_id ser digest t sv b (Some x) (Some (y @ z)) n a"
  by (simp add: log_dedup_id_def)

subsection \<open>Reading the rows back\<close>

lemma log_rows_read_back:
  assumes "\<forall>l\<in>set ls. plain_text (sl_log_id l)" and "plain_printer rfc3339"
  shows "csv_read (concat (map (log_csv_row ser rfc3339) ls)) = Some (map (log_row_fields ser rfc3339) ls)"
  by (rule read_rows) (use log_row_cells assms in blast)

end
