(* ===== verification/Traces.thy ===== *)
theory Traces
  imports Records
begin

text \<open>
  \<^verbatim>\<open>backend/src/traces/model.rs\<close> and the conversion of
  \<^verbatim>\<open>backend/src/traces/grpc.rs\<close>: OpenTelemetry spans from both transports and
  their CSV row. A span needs no hash: it is identified by its start, trace and span identifiers.
  A difference of dates in microseconds is assumed to fit 64 bits.
\<close>

subsection \<open>Data\<close>

record span_event =
  ev_time :: "string_or_num option"
  ev_name :: "string option"
  ev_attributes :: "key_value list"

record span_link =
  ln_trace_id :: "string option"
  ln_span_id :: "string option"
  ln_attributes :: "key_value list"

record span_status =
  st_code :: "int option"
  st_message :: "string option"

record span =
  sp_trace_id :: "string option"
  sp_span_id :: "string option"
  sp_parent_span_id :: "string option"
  sp_name :: "string option"
  sp_kind :: "int option"
  sp_start_time :: "string_or_num option"
  sp_end_time :: "string_or_num option"
  sp_attributes :: "key_value list"
  sp_events :: "span_event list"
  sp_links :: "span_link list"
  sp_status :: "span_status option"

record proto_span_event =
  pe_time :: nat
  pe_name :: string
  pe_attributes :: "proto_key_value list"

record proto_span_link =
  pk_trace_id :: "8 word list"
  pk_span_id :: "8 word list"
  pk_attributes :: "proto_key_value list"

record proto_span =
  ps_trace_id :: "8 word list"
  ps_span_id :: "8 word list"
  ps_parent_span_id :: "8 word list"
  ps_name :: string
  ps_kind :: int
  ps_start_time :: nat
  ps_end_time :: nat
  ps_attributes :: "proto_key_value list"
  ps_events :: "proto_span_event list"
  ps_links :: "proto_span_link list"
  ps_status :: "(int \<times> string) option"

type_synonym spans_request = "(key_value, string option, span) resource_group list"
type_synonym proto_spans_request = "(proto_key_value, string, proto_span) resource_group list"

record stored_span =
  ss_trace_id :: string
  ss_span_id :: string
  ss_parent_span_id :: "string option"
  ss_start_time :: datetime
  ss_end_time :: "datetime option"
  ss_duration_ms :: "real option"
  ss_name :: string
  ss_kind :: "int option"
  ss_service_name :: "string option"
  ss_scope_name :: "string option"
  ss_status_code :: "int option"
  ss_status_message :: "string option"
  ss_tenant_id :: "string option"
  ss_actor_id :: "string option"
  ss_session_id :: "string option"
  ss_received_at :: datetime
  ss_resource_attributes :: json
  ss_span_attributes :: json
  ss_events :: json
  ss_links :: json

definition span_content_bytes :: "(json \<Rightarrow> string) \<Rightarrow> stored_span \<Rightarrow> nat" where
  "span_content_bytes ser s =
     length (ss_name s) + length (ss_trace_id s) + length (ss_span_id s)
     + opt_len (ss_parent_span_id s) + opt_len (ss_service_name s) + opt_len (ss_scope_name s)
     + opt_len (ss_status_message s) + json_byte_len ser (ss_resource_attributes s)
     + json_byte_len ser (ss_span_attributes s) + json_byte_len ser (ss_events s)
     + json_byte_len ser (ss_links s)"

text \<open>\<^verbatim>\<open>num_microseconds\<close> truncates towards zero.\<close>

definition num_microseconds :: "int \<Rightarrow> int" where
  "num_microseconds d = (if d < 0 then - ((- d) div 1000) else d div 1000)"

definition duration_ms_between :: "datetime \<Rightarrow> datetime \<Rightarrow> real" where
  "duration_ms_between start_time e = real_of_int (num_microseconds (e - start_time)) / 1000"

definition optional_text :: "(datetime \<Rightarrow> string) \<Rightarrow> datetime option \<Rightarrow> json" where
  "optional_text rfc3339 t = (case t of None \<Rightarrow> JNull | Some d \<Rightarrow> JStr (rfc3339 d))"

subsection \<open>Assembling a span\<close>

record span_fields =
  sf_trace_id :: string
  sf_span_id :: string
  sf_parent_span_id :: "string option"
  sf_start_time :: datetime
  sf_end_time :: "datetime option"
  sf_name :: string
  sf_kind :: "int option"
  sf_service_name :: "string option"
  sf_scope_name :: "string option"
  sf_status_code :: "int option"
  sf_status_message :: "string option"
  sf_attrs :: json_map
  sf_resource_attrs :: json_map
  sf_events :: json
  sf_links :: json

definition assemble_span :: "datetime \<Rightarrow> span_fields \<Rightarrow> stored_span" where
  "assemble_span received_at f =
     (let c = correlate (sf_attrs f) (sf_resource_attrs f) in
      \<lparr>ss_trace_id = sf_trace_id f, ss_span_id = sf_span_id f,
       ss_parent_span_id = sf_parent_span_id f, ss_start_time = sf_start_time f,
       ss_end_time = sf_end_time f,
       ss_duration_ms = map_option (duration_ms_between (sf_start_time f)) (sf_end_time f),
       ss_name = sf_name f, ss_kind = sf_kind f, ss_service_name = sf_service_name f,
       ss_scope_name = sf_scope_name f, ss_status_code = sf_status_code f,
       ss_status_message = sf_status_message f, ss_tenant_id = co_tenant_id c,
       ss_actor_id = co_actor_id c, ss_session_id = co_session_id c, ss_received_at = received_at,
       ss_resource_attributes = JObj (sf_resource_attrs f), ss_span_attributes = JObj (sf_attrs f),
       ss_events = sf_events f, ss_links = sf_links f\<rparr>)"

text \<open>The end of the loop body of both transports.\<close>

definition span_verdict :: "validation_limits \<Rightarrow> datetime \<Rightarrow> span_fields \<Rightarrow> stored_span verdict" where
  "span_verdict limits received_at f =
     (if out_of_skew limits received_at (sf_start_time f) then Skewed
      else Keep (assemble_span received_at f))"

subsection \<open>From JSON\<close>

definition events_to_json :: "(datetime \<Rightarrow> string) \<Rightarrow> span_event list \<Rightarrow> json" where
  "events_to_json rfc3339 es = JArr (map (\<lambda>e. json_obj
     [(''time'', optional_text rfc3339
         (case ev_time e of None \<Rightarrow> None | Some v \<Rightarrow> (case as_u64 v of None \<Rightarrow> None | Some n \<Rightarrow> nanos_to_dt n))),
      (''name'', JStr (unwrap_or [] (ev_name e))),
      (''attributes'', JObj (attrs_to_map (ev_attributes e)))]) es)"

definition links_to_json :: "span_link list \<Rightarrow> json" where
  "links_to_json ls = JArr (map (\<lambda>l. json_obj
     [(''trace_id'', JStr (unwrap_or [] (ln_trace_id l))),
      (''span_id'', JStr (unwrap_or [] (ln_span_id l))),
      (''attributes'', JObj (attrs_to_map (ln_attributes l)))]) ls)"

definition json_span_verdict ::
    "(datetime \<Rightarrow> string) \<Rightarrow> validation_limits \<Rightarrow> datetime \<Rightarrow> span item \<Rightarrow> stored_span verdict" where
  "json_span_verdict rfc3339 limits received_at i =
     (let s = it_record i in
      case (opt_filter (\<lambda>v. v \<noteq> []) (sp_trace_id s), opt_filter (\<lambda>v. v \<noteq> []) (sp_span_id s)) of
        (Some trace_id, Some span_id) \<Rightarrow>
          span_verdict limits received_at
            \<lparr>sf_trace_id = trace_id, sf_span_id = span_id,
             sf_parent_span_id = opt_filter (\<lambda>v. v \<noteq> []) (sp_parent_span_id s),
             sf_start_time = unwrap_or received_at (json_nanos (sp_start_time s)),
             sf_end_time = json_nanos (sp_end_time s), sf_name = unwrap_or [] (sp_name s),
             sf_kind = map_option (clamp_int 0 5) (sp_kind s),
             sf_service_name = it_service_name i, sf_scope_name = it_scope_name i,
             sf_status_code =
               map_option (clamp_int 0 2) (case sp_status s of None \<Rightarrow> None | Some st \<Rightarrow> st_code st),
             sf_status_message =
               opt_filter (\<lambda>m. m \<noteq> []) (case sp_status s of None \<Rightarrow> None | Some st \<Rightarrow> st_message st),
             sf_attrs = attrs_to_map (sp_attributes s), sf_resource_attrs = it_resource_attrs i,
             sf_events = events_to_json rfc3339 (sp_events s), sf_links = links_to_json (sp_links s)\<rparr>
      | _ \<Rightarrow> Invalid)"

definition otlp_to_spans ::
    "(datetime \<Rightarrow> string) \<Rightarrow> spans_request \<Rightarrow> datetime \<Rightarrow> validation_limits \<Rightarrow> nat \<Rightarrow> stored_span parse" where
  "otlp_to_spans rfc3339 req received_at limits max_records =
     collect_records max_records (json_span_verdict rfc3339 limits received_at) (json_items req) parse_default"

subsection \<open>From protobuf\<close>

definition proto_events_to_json :: "(datetime \<Rightarrow> string) \<Rightarrow> proto_span_event list \<Rightarrow> json" where
  "proto_events_to_json rfc3339 es = JArr (map (\<lambda>e. json_obj
     [(''time'', optional_text rfc3339 (proto_nanos (pe_time e))),
      (''name'', JStr (pe_name e)),
      (''attributes'', JObj (proto_attrs_to_map (pe_attributes e)))]) es)"

definition proto_links_to_json :: "proto_span_link list \<Rightarrow> json" where
  "proto_links_to_json ls = JArr (map (\<lambda>l. json_obj
     [(''trace_id'', JStr (hex (pk_trace_id l))),
      (''span_id'', JStr (hex (pk_span_id l))),
      (''attributes'', JObj (proto_attrs_to_map (pk_attributes l)))]) ls)"

definition proto_span_verdict ::
    "(datetime \<Rightarrow> string) \<Rightarrow> validation_limits \<Rightarrow> datetime \<Rightarrow> proto_span item \<Rightarrow> stored_span verdict" where
  "proto_span_verdict rfc3339 limits received_at i =
     (let s = it_record i in
      case (hex_opt (ps_trace_id s), hex_opt (ps_span_id s)) of
        (Some trace_id, Some span_id) \<Rightarrow>
          span_verdict limits received_at
            \<lparr>sf_trace_id = trace_id, sf_span_id = span_id,
             sf_parent_span_id = hex_opt (ps_parent_span_id s),
             sf_start_time = unwrap_or received_at (proto_nanos (ps_start_time s)),
             sf_end_time = proto_nanos (ps_end_time s), sf_name = ps_name s,
             sf_kind = Some (clamp_int 0 5 (ps_kind s)),
             sf_service_name = it_service_name i, sf_scope_name = it_scope_name i,
             sf_status_code = map_option (\<lambda>st. clamp_int 0 2 (fst st)) (ps_status s),
             sf_status_message = opt_filter (\<lambda>m. m \<noteq> []) (map_option snd (ps_status s)),
             sf_attrs = proto_attrs_to_map (ps_attributes s), sf_resource_attrs = it_resource_attrs i,
             sf_events = proto_events_to_json rfc3339 (ps_events s),
             sf_links = proto_links_to_json (ps_links s)\<rparr>
      | _ \<Rightarrow> Invalid)"

definition proto_to_spans ::
    "(datetime \<Rightarrow> string) \<Rightarrow> proto_spans_request \<Rightarrow> datetime \<Rightarrow> validation_limits \<Rightarrow> nat \<Rightarrow> stored_span parse" where
  "proto_to_spans rfc3339 req received_at limits max_records =
     collect_records max_records (proto_span_verdict rfc3339 limits received_at) (proto_items req) parse_default"

subsection \<open>The row of a span\<close>

definition span_sql :: ingest_sql where
  "span_sql =
     \<lparr>iq_copy = ''COPY spans_staging ''
        @ ''(trace_id, span_id, parent_span_id, start_time, end_time, duration_ms, name, kind, ''
        @ ''service_name, scope_name, status_code, status_message, tenant_id, actor_id, session_id, ''
        @ ''received_at, resource_attributes, span_attributes, events, links)''
        @ '' FROM STDIN WITH (FORMAT csv)'',
      iq_ensure_partitions = ''SELECT datacat_ensure_span_partitions_for_staging()'',
      iq_merge = ''SELECT datacat_merge_span_staging()'', iq_staging_table = ''spans_staging'', iq_label = ''traces''\<rparr>"

definition span_csv_row ::
    "(json \<Rightarrow> string) \<Rightarrow> (datetime \<Rightarrow> string) \<Rightarrow> (real \<Rightarrow> string) \<Rightarrow> stored_span \<Rightarrow> string" where
  "span_csv_row ser rfc3339 show_f64 s = csv_row
     [csv_quoted (ss_trace_id s), csv_quoted (ss_span_id s), csv_opt (ss_parent_span_id s),
      rfc3339 (ss_start_time s), csv_ts rfc3339 (ss_end_time s), csv_f64 show_f64 (ss_duration_ms s),
      csv_quoted (ss_name s), csv_num (ss_kind s), csv_opt (ss_service_name s), csv_opt (ss_scope_name s),
      csv_num (ss_status_code s), csv_opt (ss_status_message s), csv_opt (ss_tenant_id s),
      csv_opt (ss_actor_id s), csv_opt (ss_session_id s), rfc3339 (ss_received_at s),
      csv_quoted (ser (ss_resource_attributes s)), csv_quoted (ser (ss_span_attributes s)),
      csv_quoted (ser (ss_events s)), csv_quoted (ser (ss_links s))]"

definition span_row_fields ::
    "(json \<Rightarrow> string) \<Rightarrow> (datetime \<Rightarrow> string) \<Rightarrow> (real \<Rightarrow> string) \<Rightarrow> stored_span \<Rightarrow> string option list" where
  "span_row_fields ser rfc3339 show_f64 s =
     [Some (ss_trace_id s), Some (ss_span_id s), ss_parent_span_id s, Some (rfc3339 (ss_start_time s)),
      map_option rfc3339 (ss_end_time s), map_option show_f64 (ss_duration_ms s), Some (ss_name s),
      map_option show_int (ss_kind s), ss_service_name s, ss_scope_name s,
      map_option show_int (ss_status_code s), ss_status_message s, ss_tenant_id s, ss_actor_id s,
      ss_session_id s, Some (rfc3339 (ss_received_at s)), Some (ser (ss_resource_attributes s)),
      Some (ser (ss_span_attributes s)), Some (ser (ss_events s)), Some (ser (ss_links s))]"

lemma span_columns: "length (copy_columns span_sql) = length (span_row_fields ser rfc3339 show_f64 s)"
  by (simp add: copy_columns_def span_sql_def span_row_fields_def)

lemma span_row_cells:
  assumes r: "plain_printer rfc3339" and f: "plain_printer show_f64"
  shows "\<exists>xs. span_csv_row ser rfc3339 show_f64 s = csv_row (map cell_text xs) \<and> xs \<noteq> [] \<and> list_all cell_ok xs
    \<and> map cell_value xs = span_row_fields ser rfc3339 show_f64 s"
  using r shown_cell_value [OF r] shown_cell_ok [OF r] shown_cell_value [OF f] shown_cell_ok [OF f]
    shown_cell_value [OF show_int_plain] shown_cell_ok [OF show_int_plain]
  by (intro exI [of _ "[QuotedCell (ss_trace_id s), QuotedCell (ss_span_id s), opt_cell (ss_parent_span_id s),
      PlainCell (rfc3339 (ss_start_time s)), shown_cell rfc3339 (ss_end_time s),
      shown_cell show_f64 (ss_duration_ms s), QuotedCell (ss_name s), shown_cell show_int (ss_kind s),
      opt_cell (ss_service_name s), opt_cell (ss_scope_name s), shown_cell show_int (ss_status_code s),
      opt_cell (ss_status_message s), opt_cell (ss_tenant_id s), opt_cell (ss_actor_id s),
      opt_cell (ss_session_id s), PlainCell (rfc3339 (ss_received_at s)),
      QuotedCell (ser (ss_resource_attributes s)), QuotedCell (ser (ss_span_attributes s)),
      QuotedCell (ser (ss_events s)), QuotedCell (ser (ss_links s))]"])
    (simp add: span_csv_row_def span_row_fields_def plain_printer_def plain_text_def)

lemma span_rows_read_back:
  assumes "plain_printer rfc3339" and "plain_printer show_f64"
  shows "csv_read (concat (map (span_csv_row ser rfc3339 show_f64) ss))
    = Some (map (span_row_fields ser rfc3339 show_f64) ss)"
  by (rule read_rows) (use span_row_cells assms in blast)

subsection \<open>Properties\<close>

text \<open>What is kept of a traces request: at most one span more than the limit, each with a trace
  and a span identifier, a start within the window, a kind between 0 and 5 and a status between 0 and
  2; below the limit every record is kept, out of the window, or without identifiers.\<close>

definition span_kept_ok :: "validation_limits \<Rightarrow> datetime \<Rightarrow> stored_span \<Rightarrow> bool" where
  "span_kept_ok limits received_at s \<longleftrightarrow>
     ss_trace_id s \<noteq> [] \<and> ss_span_id s \<noteq> [] \<and> \<not> out_of_skew limits received_at (ss_start_time s)
     \<and> (\<forall>k. ss_kind s = Some k \<longrightarrow> 0 \<le> k \<and> k \<le> 5)
     \<and> (\<forall>c. ss_status_code s = Some c \<longrightarrow> 0 \<le> c \<and> c \<le> 2)
     \<and> (ss_duration_ms s = None \<longleftrightarrow> ss_end_time s = None)
     \<and> (\<forall>p. ss_parent_span_id s = Some p \<longrightarrow> p \<noteq> [])"

lemma json_span_verdict_ok: "json_span_verdict rfc3339 limits received_at i = Keep s \<Longrightarrow> span_kept_ok limits received_at s"
  using clamp_int_bounds [of 0 5] clamp_int_bounds [of 0 2]
  by (auto simp: json_span_verdict_def span_verdict_def span_kept_ok_def assemble_span_def Let_def
      split: option.splits if_splits)

theorem spans_kept:
  "length (pa_stored (otlp_to_spans rfc3339 req received_at limits max_records)) \<le> Suc max_records
   \<and> list_all (span_kept_ok limits received_at) (pa_stored (otlp_to_spans rfc3339 req received_at limits max_records))
   \<and> (length (json_items req) \<le> max_records \<longrightarrow>
        length (pa_stored (otlp_to_spans rfc3339 req received_at limits max_records))
        + pa_dropped_skew (otlp_to_spans rfc3339 req received_at limits max_records)
        + pa_dropped_invalid (otlp_to_spans rfc3339 req received_at limits max_records)
        = length (json_items req))"
proof (intro conjI impI)
  show "length (pa_stored (otlp_to_spans rfc3339 req received_at limits max_records)) \<le> Suc max_records"
    unfolding otlp_to_spans_def by (rule collect_records_bound) (simp add: parse_default_def)
  show "list_all (span_kept_ok limits received_at)
      (pa_stored (otlp_to_spans rfc3339 req received_at limits max_records))"
    unfolding list_all_iff otlp_to_spans_def
    by (auto simp: parse_default_def dest!: collect_records_from intro: json_span_verdict_ok)
  assume "length (json_items req) \<le> max_records"
  then show "length (pa_stored (otlp_to_spans rfc3339 req received_at limits max_records))
        + pa_dropped_skew (otlp_to_spans rfc3339 req received_at limits max_records)
        + pa_dropped_invalid (otlp_to_spans rfc3339 req received_at limits max_records)
        = length (json_items req)"
    using collect_records_all [of parse_default "json_items req" max_records
        "json_span_verdict rfc3339 limits received_at", THEN conjunct2]
    by (simp add: otlp_to_spans_def parse_default_def)
qed

lemma spans_kept_witness:
  "length (pa_stored (otlp_to_spans (\<lambda>_. []) [\<lparr>rg_resource = None, rg_scopes = []\<rparr>]
     0 \<lparr>max_batch_events = 1, max_payload_bytes = 1, max_properties_bytes = 1, max_string_len = 1,
        max_json_depth = 1, max_past_skew = 1, max_future_skew = 1, max_otlp_record_bytes = 1\<rparr> 1)) \<le> Suc 1"
  by (rule spans_kept [THEN conjunct1])

subsection \<open>The two transports\<close>

definition wire_nanos :: "nat \<Rightarrow> string_or_num option" where
  "wire_nanos n = (if n = 0 then None else Some (Str (show_nat n)))"

text \<open>The JSON encoding of a protobuf span: zero dates are left out, the kind and the status code
  are always written.\<close>

definition span_to_wire :: "proto_span \<Rightarrow> span" where
  "span_to_wire s =
     \<lparr>sp_trace_id = Some (hex (ps_trace_id s)), sp_span_id = Some (hex (ps_span_id s)),
      sp_parent_span_id = Some (hex (ps_parent_span_id s)), sp_name = Some (ps_name s),
      sp_kind = Some (ps_kind s), sp_start_time = wire_nanos (ps_start_time s),
      sp_end_time = wire_nanos (ps_end_time s), sp_attributes = to_wire_kvs (ps_attributes s),
      sp_events = map (\<lambda>e. \<lparr>ev_time = wire_nanos (pe_time e), ev_name = Some (pe_name e),
                              ev_attributes = to_wire_kvs (pe_attributes e)\<rparr>) (ps_events s),
      sp_links = map (\<lambda>l. \<lparr>ln_trace_id = Some (hex (pk_trace_id l)), ln_span_id = Some (hex (pk_span_id l)),
                             ln_attributes = to_wire_kvs (pk_attributes l)\<rparr>) (ps_links s),
      sp_status = map_option (\<lambda>st. \<lparr>st_code = Some (fst st), st_message = Some (snd st)\<rparr>) (ps_status s)\<rparr>"

definition span_safe :: "proto_span \<Rightarrow> bool" where
  "span_safe s \<longleftrightarrow> ps_start_time s \<le> u64_max \<and> ps_end_time s \<le> u64_max \<and> kvs_safe (ps_attributes s)
     \<and> (\<forall>e\<in>set (ps_events s). pe_time e \<le> u64_max \<and> kvs_safe (pe_attributes e))
     \<and> (\<forall>l\<in>set (ps_links s). kvs_safe (pk_attributes l))"

lemma wire_nanos_read: "n \<le> u64_max \<Longrightarrow> json_nanos (wire_nanos n) = proto_nanos n"
  using json_nanos_show [of n] by (simp add: wire_nanos_def) (simp add: json_nanos_def proto_nanos_def)

lemma wire_event_time:
  "n \<le> u64_max \<Longrightarrow>
     (case wire_nanos n of None \<Rightarrow> None
      | Some v \<Rightarrow> (case as_u64 v of None \<Rightarrow> None | Some n \<Rightarrow> nanos_to_dt n)) = proto_nanos n"
  by (simp add: wire_nanos_def proto_nanos_def as_u64_show_nat del: as_u64.simps)

lemma span_hex_opt: "opt_filter (\<lambda>v. v \<noteq> []) (Some (hex bs)) = hex_opt bs"
  by (cases bs) (simp_all add: hex_opt_def hex_def)

lemma span_verdicts_agree:
  assumes "span_safe (it_record i)"
  shows "json_span_verdict rfc3339 limits received_at (encode_item span_to_wire i)
    = proto_span_verdict rfc3339 limits received_at i"
proof -
  define s where "s = it_record i"
  have e: "events_to_json rfc3339 (sp_events (span_to_wire s)) = proto_events_to_json rfc3339 (ps_events s)"
    using assms
    by (auto simp: events_to_json_def proto_events_to_json_def span_to_wire_def span_safe_def s_def
        wire_event_time attrs_to_wire)
  have l: "links_to_json (sp_links (span_to_wire s)) = proto_links_to_json (ps_links s)"
    using assms
    by (auto simp: links_to_json_def proto_links_to_json_def span_to_wire_def span_safe_def s_def attrs_to_wire)
  have st: "(case sp_status (span_to_wire s) of None \<Rightarrow> None | Some st \<Rightarrow> st_code st) = map_option fst (ps_status s)"
    "(case sp_status (span_to_wire s) of None \<Rightarrow> None | Some st \<Rightarrow> st_message st) = map_option snd (ps_status s)"
    by (cases "ps_status s"; simp add: span_to_wire_def)+
  have rest: "json_nanos (sp_start_time (span_to_wire s)) = proto_nanos (ps_start_time s)"
    "json_nanos (sp_end_time (span_to_wire s)) = proto_nanos (ps_end_time s)"
    "attrs_to_map (sp_attributes (span_to_wire s)) = proto_attrs_to_map (ps_attributes s)"
    using assms by (simp_all add: span_safe_def s_def span_to_wire_def wire_nanos_read attrs_to_wire)
  have flat: "sp_trace_id (span_to_wire s) = Some (hex (ps_trace_id s))"
    "sp_span_id (span_to_wire s) = Some (hex (ps_span_id s))"
    "sp_parent_span_id (span_to_wire s) = Some (hex (ps_parent_span_id s))"
    "sp_name (span_to_wire s) = Some (ps_name s)" "sp_kind (span_to_wire s) = Some (ps_kind s)"
    by (simp_all add: span_to_wire_def)
  show ?thesis
    by (simp only: json_span_verdict_def proto_span_verdict_def encode_item_def item.simps Let_def
        s_def [symmetric] e l st rest flat span_hex_opt unwrap_or_simps option.map option.map_comp comp_def)
qed

text \<open>One request, two transports: a protobuf traces request and its JSON encoding give the same
  spans with their events, links and identity, and the same counts of dropped records (for attributes
  without negative integers and byte strings and a service name that is not the empty text).\<close>

theorem span_transports_agree:
  assumes "\<forall>rg\<in>set req. group_safe rg \<and> (\<forall>(sc, rs)\<in>set (rg_scopes rg). \<forall>r\<in>set rs. span_safe r)"
  shows "otlp_to_spans rfc3339 (map (group_to_wire span_to_wire) req) received_at limits max_records
    = proto_to_spans rfc3339 req received_at limits max_records"
proof -
  have "json_items (map (group_to_wire span_to_wire) req) = map (encode_item span_to_wire) (proto_items req)"
    using assms by (intro json_items_to_wire) blast
  moreover have "\<forall>i\<in>set (proto_items req). span_safe (it_record i)"
    using assms by (force simp: proto_items_def request_items_def Let_def)
  ultimately show ?thesis
    unfolding otlp_to_spans_def proto_to_spans_def
    by (intro collect_records_cong) (simp add: list_all2_conv_all_nth span_verdicts_agree)
qed

lemma span_transports_agree_witness:
  "otlp_to_spans (\<lambda>_. ''d'') (map (group_to_wire span_to_wire)
      [\<lparr>rg_resource = None, rg_scopes = [(None,
        [\<lparr>ps_trace_id = [1], ps_span_id = [2], ps_parent_span_id = [], ps_name = ''GET'', ps_kind = 2,
          ps_start_time = 5, ps_end_time = 9, ps_attributes = [(''n'', Some (PInt 7))],
          ps_events = [\<lparr>pe_time = 0, pe_name = ''e'', pe_attributes = []\<rparr>], ps_links = [],
          ps_status = Some (2, ''boom'')\<rparr>])]\<rparr>]) 5
      \<lparr>max_batch_events = 1, max_payload_bytes = 1, max_properties_bytes = 1, max_string_len = 1,
        max_json_depth = 1, max_past_skew = 1, max_future_skew = 1, max_otlp_record_bytes = 1\<rparr> 10
   = proto_to_spans (\<lambda>_. ''d'')
      [\<lparr>rg_resource = None, rg_scopes = [(None,
        [\<lparr>ps_trace_id = [1], ps_span_id = [2], ps_parent_span_id = [], ps_name = ''GET'', ps_kind = 2,
          ps_start_time = 5, ps_end_time = 9, ps_attributes = [(''n'', Some (PInt 7))],
          ps_events = [\<lparr>pe_time = 0, pe_name = ''e'', pe_attributes = []\<rparr>], ps_links = [],
          ps_status = Some (2, ''boom'')\<rparr>])]\<rparr>] 5
      \<lparr>max_batch_events = 1, max_payload_bytes = 1, max_properties_bytes = 1, max_string_len = 1,
        max_json_depth = 1, max_past_skew = 1, max_future_skew = 1, max_otlp_record_bytes = 1\<rparr> 10"
  by (rule span_transports_agree) (simp add: group_safe_def span_safe_def u64_max_def)

end
