(* ===== verification/Metrics.thy ===== *)
theory Metrics
  imports Records
begin

text \<open>
  \<^verbatim>\<open>backend/src/metrics/model.rs\<close> and the conversion of
  \<^verbatim>\<open>backend/src/metrics/grpc.rs\<close>: the points of gauges, sums and histograms from
  both transports, their deduplication identifier and their CSV row. Summaries and exponential
  histograms are not ingested. The bytes of a float are the parameter \<open>f64_bytes\<close>.
\<close>

subsection \<open>Data\<close>

record number_point =
  np_time :: "string_or_num option"
  np_as_double :: "real option"
  np_as_int :: "string_or_num option"
  np_attributes :: "key_value list"

record histogram_point =
  hp_time :: "string_or_num option"
  hp_count :: "string_or_num option"
  hp_sum :: "real option"
  hp_bucket_counts :: "string_or_num list"
  hp_explicit_bounds :: "real list"
  hp_attributes :: "key_value list"

record metric =
  me_name :: "string option"
  me_unit :: "string option"
  me_gauge :: "number_point list option"
  me_sum :: "number_point list option"
  me_histogram :: "histogram_point list option"

datatype proto_number = AsDouble real | AsInt int

record proto_number_point =
  pn_time :: nat
  pn_value :: "proto_number option"
  pn_attributes :: "proto_key_value list"

record proto_histogram_point =
  ph_time :: nat
  ph_count :: nat
  ph_sum :: "real option"
  ph_bucket_counts :: "nat list"
  ph_explicit_bounds :: "real list"
  ph_attributes :: "proto_key_value list"

datatype proto_data =
    Gauge "proto_number_point list"
  | Sum "proto_number_point list"
  | Histogram "proto_histogram_point list"
  | OtherData

record proto_metric =
  pm_name :: string
  pm_unit :: string
  pm_data :: "proto_data option"

type_synonym metrics_request = "(key_value, string option, metric) resource_group list"
type_synonym proto_metrics_request = "(proto_key_value, string, proto_metric) resource_group list"

record stored_metric_point =
  sm_point_id :: uuid
  sm_time :: datetime
  sm_metric_name :: string
  sm_metric_type :: string
  sm_unit :: "string option"
  sm_value_double :: "real option"
  sm_value_int :: "int option"
  sm_count :: "int option"
  sm_sum :: "real option"
  sm_buckets :: "json option"
  sm_service_name :: "string option"
  sm_scope_name :: "string option"
  sm_tenant_id :: "string option"
  sm_actor_id :: "string option"
  sm_session_id :: "string option"
  sm_received_at :: datetime
  sm_resource_attributes :: json
  sm_attributes :: json

definition point_content_bytes :: "(json \<Rightarrow> string) \<Rightarrow> stored_metric_point \<Rightarrow> nat" where
  "point_content_bytes ser p =
     length (sm_metric_name p) + opt_len (sm_unit p) + opt_len (sm_service_name p)
     + opt_len (sm_scope_name p) + (case sm_buckets p of None \<Rightarrow> 0 | Some b \<Rightarrow> json_byte_len ser b)
     + json_byte_len ser (sm_resource_attributes p) + json_byte_len ser (sm_attributes p)"

text \<open>The cast \<^verbatim>\<open>v as i64\<close> of a \<^verbatim>\<open>u64\<close>.\<close>

definition u64_as_i64 :: "nat \<Rightarrow> int" where
  "u64_as_i64 n = (if n < 2 ^ 63 then int n else int n - 2 ^ 64)"

definition buckets_json :: "real list \<Rightarrow> nat list \<Rightarrow> json" where
  "buckets_json bounds counts = json_obj
     [(''bounds'', JArr (map (\<lambda>b. JNum (JFloat b)) bounds)),
      (''counts'', JArr (map (\<lambda>c. JNum (PosInt c)) counts))]"

subsection \<open>Assembling a point\<close>

record metric_fields =
  mf_received_at :: datetime
  mf_time :: datetime
  mf_metric_name :: string
  mf_metric_type :: string
  mf_unit :: "string option"
  mf_value_double :: "real option"
  mf_value_int :: "int option"
  mf_count :: "int option"
  mf_sum :: "real option"
  mf_buckets :: "json option"
  mf_service_name :: "string option"
  mf_scope_name :: "string option"
  mf_attrs :: json_map
  mf_resource_attrs :: json_map

text \<open>The printers and the digest the points depend on.\<close>

record point_encoding =
  pe_ser :: "json \<Rightarrow> string"
  pe_f64_bytes :: "real \<Rightarrow> string"
  pe_digest :: "string \<Rightarrow> uuid"

definition metric_dedup_id :: "point_encoding \<Rightarrow> metric_fields \<Rightarrow> json \<Rightarrow> uuid" where
  "metric_dedup_id e f attributes =
     pe_digest e (le_bytes 8 (timestamp_nanos (mf_time f))
       @ mf_metric_name f @ [CHR 0x00]
       @ mf_metric_type f @ [CHR 0x00]
       @ unwrap_or [] (mf_service_name f) @ [CHR 0x00]
       @ pe_f64_bytes e (unwrap_or 0 (mf_value_double f))
       @ le_bytes 8 (unwrap_or 0 (mf_value_int f))
       @ le_bytes 8 (unwrap_or 0 (mf_count f))
       @ pe_f64_bytes e (unwrap_or 0 (mf_sum f))
       @ unwrap_or [] (map_option (pe_ser e) (mf_buckets f)) @ [CHR 0x00]
       @ pe_ser e attributes)"

definition assemble_point :: "point_encoding \<Rightarrow> metric_fields \<Rightarrow> stored_metric_point" where
  "assemble_point e f =
     (let c = correlate (mf_attrs f) (mf_resource_attrs f);
          attributes = JObj (mf_attrs f)
      in \<lparr>sm_point_id = metric_dedup_id e f attributes, sm_time = mf_time f,
          sm_metric_name = mf_metric_name f, sm_metric_type = mf_metric_type f, sm_unit = mf_unit f,
          sm_value_double = mf_value_double f, sm_value_int = mf_value_int f, sm_count = mf_count f,
          sm_sum = mf_sum f, sm_buckets = mf_buckets f, sm_service_name = mf_service_name f,
          sm_scope_name = mf_scope_name f, sm_tenant_id = co_tenant_id c, sm_actor_id = co_actor_id c,
          sm_session_id = co_session_id c, sm_received_at = mf_received_at f,
          sm_resource_attributes = JObj (mf_resource_attrs f), sm_attributes = attributes\<rparr>)"

definition point_verdict ::
    "point_encoding \<Rightarrow> validation_limits \<Rightarrow> datetime \<Rightarrow> metric_fields \<Rightarrow> stored_metric_point verdict" where
  "point_verdict e limits received_at f =
     (if out_of_skew limits received_at (mf_time f) then Skewed else Keep (assemble_point e f))"

text \<open>The fields of a point before its values.\<close>

definition bare_point ::
    "datetime \<Rightarrow> 'r item \<Rightarrow> string \<Rightarrow> string \<Rightarrow> string option \<Rightarrow> datetime option \<Rightarrow> json_map \<Rightarrow> metric_fields" where
  "bare_point received_at i name ty u time attrs =
     \<lparr>mf_received_at = received_at, mf_time = unwrap_or received_at time, mf_metric_name = name,
      mf_metric_type = ty, mf_unit = u, mf_value_double = None, mf_value_int = None, mf_count = None,
      mf_sum = None, mf_buckets = None, mf_service_name = it_service_name i,
      mf_scope_name = it_scope_name i, mf_attrs = attrs, mf_resource_attrs = it_resource_attrs i\<rparr>"

subsection \<open>From JSON\<close>

definition json_number ::
    "datetime \<Rightarrow> metric item \<Rightarrow> string \<Rightarrow> string option \<Rightarrow> string \<Rightarrow> number_point \<Rightarrow> metric_fields" where
  "json_number received_at i name u ty p =
     (bare_point received_at i name ty u (json_nanos (np_time p)) (attrs_to_map (np_attributes p)))
       \<lparr>mf_value_double := np_as_double p,
        mf_value_int := (case np_as_int p of None \<Rightarrow> None | Some v \<Rightarrow> map_option u64_as_i64 (as_u64 v))\<rparr>"

definition json_histogram ::
    "datetime \<Rightarrow> metric item \<Rightarrow> string \<Rightarrow> string option \<Rightarrow> histogram_point \<Rightarrow> metric_fields" where
  "json_histogram received_at i name u p =
     (bare_point received_at i name ''histogram'' u (json_nanos (hp_time p)) (attrs_to_map (hp_attributes p)))
       \<lparr>mf_count := (case hp_count p of None \<Rightarrow> None | Some c \<Rightarrow> map_option u64_as_i64 (as_u64 c)),
        mf_sum := hp_sum p,
        mf_buckets := Some (buckets_json (hp_explicit_bounds p)
                              (List.map_filter as_u64 (hp_bucket_counts p)))\<rparr>"

text \<open>The points of a metric, in the order of the loops: gauge, sum, histogram.\<close>

definition json_points :: "datetime \<Rightarrow> metric item \<Rightarrow> metric_fields list" where
  "json_points received_at i =
     (let m = it_record i; name = unwrap_or [] (me_name m); u = opt_filter (\<lambda>u. u \<noteq> []) (me_unit m) in
      if name = [] then []
      else map (json_number received_at i name u ''gauge'') (unwrap_or [] (me_gauge m))
         @ map (json_number received_at i name u ''sum'') (unwrap_or [] (me_sum m))
         @ map (json_histogram received_at i name u) (unwrap_or [] (me_histogram m)))"

definition otlp_to_metrics ::
    "point_encoding \<Rightarrow> metrics_request \<Rightarrow> datetime \<Rightarrow> validation_limits \<Rightarrow> nat \<Rightarrow> stored_metric_point parse" where
  "otlp_to_metrics e req received_at limits max_records =
     collect_records max_records (point_verdict e limits received_at)
       (concat (map (json_points received_at) (json_items req))) parse_default"

subsection \<open>From protobuf\<close>

definition push_number ::
    "datetime \<Rightarrow> proto_metric item \<Rightarrow> string \<Rightarrow> string option \<Rightarrow> string \<Rightarrow> proto_number_point \<Rightarrow> metric_fields" where
  "push_number received_at i name u ty p =
     (bare_point received_at i name ty u (proto_nanos (pn_time p)) (proto_attrs_to_map (pn_attributes p)))
       \<lparr>mf_value_double := (case pn_value p of Some (AsDouble d) \<Rightarrow> Some d | _ \<Rightarrow> None),
        mf_value_int := (case pn_value p of Some (AsInt n) \<Rightarrow> Some n | _ \<Rightarrow> None)\<rparr>"

definition proto_histogram ::
    "datetime \<Rightarrow> proto_metric item \<Rightarrow> string \<Rightarrow> string option \<Rightarrow> proto_histogram_point \<Rightarrow> metric_fields" where
  "proto_histogram received_at i name u p =
     (bare_point received_at i name ''histogram'' u (proto_nanos (ph_time p)) (proto_attrs_to_map (ph_attributes p)))
       \<lparr>mf_count := Some (u64_as_i64 (ph_count p)), mf_sum := ph_sum p,
        mf_buckets := Some (buckets_json (ph_explicit_bounds p) (ph_bucket_counts p))\<rparr>"

definition proto_points :: "datetime \<Rightarrow> proto_metric item \<Rightarrow> metric_fields list" where
  "proto_points received_at i =
     (let m = it_record i; name = pm_name m; u = non_empty_str (pm_unit m) in
      if name = [] then []
      else (case pm_data m of
              Some (Gauge ps) \<Rightarrow> map (push_number received_at i name u ''gauge'') ps
            | Some (Sum ps) \<Rightarrow> map (push_number received_at i name u ''sum'') ps
            | Some (Histogram ps) \<Rightarrow> map (proto_histogram received_at i name u) ps
            | _ \<Rightarrow> []))"

definition proto_to_metrics ::
    "point_encoding \<Rightarrow> proto_metrics_request \<Rightarrow> datetime \<Rightarrow> validation_limits \<Rightarrow> nat \<Rightarrow> stored_metric_point parse" where
  "proto_to_metrics e req received_at limits max_records =
     collect_records max_records (point_verdict e limits received_at)
       (concat (map (proto_points received_at) (proto_items req))) parse_default"

subsection \<open>The row of a point\<close>

definition point_sql :: ingest_sql where
  "point_sql =
     \<lparr>iq_copy = ''COPY metric_points_staging ''
        @ ''(point_id, time, metric_name, metric_type, unit, value_double, value_int, count, sum, ''
        @ ''buckets, service_name, scope_name, tenant_id, actor_id, session_id, ''
        @ ''received_at, resource_attributes, attributes)''
        @ '' FROM STDIN WITH (FORMAT csv)'',
      iq_ensure_partitions = ''SELECT datacat_ensure_metric_partitions_for_staging()'',
      iq_merge = ''SELECT datacat_merge_metric_staging()'', iq_staging_table = ''metric_points_staging'', iq_label = ''metrics''\<rparr>"

definition point_csv_row ::
    "(json \<Rightarrow> string) \<Rightarrow> (datetime \<Rightarrow> string) \<Rightarrow> (real \<Rightarrow> string) \<Rightarrow> stored_metric_point \<Rightarrow> string" where
  "point_csv_row ser rfc3339 show_f64 p = csv_row
     [sm_point_id p, rfc3339 (sm_time p), csv_quoted (sm_metric_name p), csv_quoted (sm_metric_type p),
      csv_opt (sm_unit p), csv_f64 show_f64 (sm_value_double p), csv_num (sm_value_int p),
      csv_num (sm_count p), csv_f64 show_f64 (sm_sum p),
      (case sm_buckets p of Some b \<Rightarrow> csv_quoted (ser b) | None \<Rightarrow> []),
      csv_opt (sm_service_name p), csv_opt (sm_scope_name p), csv_opt (sm_tenant_id p),
      csv_opt (sm_actor_id p), csv_opt (sm_session_id p), rfc3339 (sm_received_at p),
      csv_quoted (ser (sm_resource_attributes p)), csv_quoted (ser (sm_attributes p))]"

definition point_row_fields ::
    "(json \<Rightarrow> string) \<Rightarrow> (datetime \<Rightarrow> string) \<Rightarrow> (real \<Rightarrow> string) \<Rightarrow> stored_metric_point \<Rightarrow> string option list" where
  "point_row_fields ser rfc3339 show_f64 p =
     [Some (sm_point_id p), Some (rfc3339 (sm_time p)), Some (sm_metric_name p), Some (sm_metric_type p),
      sm_unit p, map_option show_f64 (sm_value_double p), map_option show_int (sm_value_int p),
      map_option show_int (sm_count p), map_option show_f64 (sm_sum p), map_option ser (sm_buckets p),
      sm_service_name p, sm_scope_name p, sm_tenant_id p, sm_actor_id p, sm_session_id p,
      Some (rfc3339 (sm_received_at p)), Some (ser (sm_resource_attributes p)), Some (ser (sm_attributes p))]"

lemma point_columns: "length (copy_columns point_sql) = length (point_row_fields ser rfc3339 show_f64 p)"
  by (simp add: copy_columns_def point_sql_def point_row_fields_def)

lemma point_row_cells:
  assumes r: "plain_printer rfc3339" and f: "plain_printer show_f64" and "plain_text (sm_point_id p)"
  shows "\<exists>xs. point_csv_row ser rfc3339 show_f64 p = csv_row (map cell_text xs) \<and> xs \<noteq> [] \<and> list_all cell_ok xs
    \<and> map cell_value xs = point_row_fields ser rfc3339 show_f64 p"
proof -
  have b: "(case sm_buckets p of Some b \<Rightarrow> csv_quoted (ser b) | None \<Rightarrow> []) = csv_opt (map_option ser (sm_buckets p))"
    by (simp add: csv_opt_def split: option.split)
  show ?thesis
    using assms shown_cell_value [OF r] shown_cell_ok [OF r] shown_cell_value [OF f] shown_cell_ok [OF f]
      shown_cell_value [OF show_int_plain] shown_cell_ok [OF show_int_plain]
    by (intro exI [of _ "[PlainCell (sm_point_id p), PlainCell (rfc3339 (sm_time p)),
        QuotedCell (sm_metric_name p), QuotedCell (sm_metric_type p), opt_cell (sm_unit p),
        shown_cell show_f64 (sm_value_double p), shown_cell show_int (sm_value_int p),
        shown_cell show_int (sm_count p), shown_cell show_f64 (sm_sum p),
        opt_cell (map_option ser (sm_buckets p)), opt_cell (sm_service_name p), opt_cell (sm_scope_name p),
        opt_cell (sm_tenant_id p), opt_cell (sm_actor_id p), opt_cell (sm_session_id p),
        PlainCell (rfc3339 (sm_received_at p)), QuotedCell (ser (sm_resource_attributes p)),
        QuotedCell (ser (sm_attributes p))]"])
      (simp add: point_csv_row_def point_row_fields_def plain_printer_def plain_text_def b)
qed

lemma point_rows_read_back:
  assumes "plain_printer rfc3339" and "plain_printer show_f64" and "\<forall>p\<in>set ps. plain_text (sm_point_id p)"
  shows "csv_read (concat (map (point_csv_row ser rfc3339 show_f64) ps))
    = Some (map (point_row_fields ser rfc3339 show_f64) ps)"
  by (rule read_rows) (use point_row_cells assms in blast)

subsection \<open>Properties\<close>

text \<open>What is kept of a metrics request: at most one point more than the limit, each named, of a
  known type and dated within the window, with buckets exactly for histograms.\<close>

definition point_kept_ok :: "validation_limits \<Rightarrow> datetime \<Rightarrow> stored_metric_point \<Rightarrow> bool" where
  "point_kept_ok limits received_at p \<longleftrightarrow>
     sm_metric_name p \<noteq> [] \<and> sm_metric_type p \<in> {''gauge'', ''sum'', ''histogram''}
     \<and> \<not> out_of_skew limits received_at (sm_time p)
     \<and> (sm_buckets p \<noteq> None \<longleftrightarrow> sm_metric_type p = ''histogram'')
     \<and> (sm_metric_type p = ''histogram'' \<longrightarrow> sm_value_double p = None \<and> sm_value_int p = None)
     \<and> sm_unit p \<noteq> Some []"

lemma json_points_fields:
  "f \<in> set (json_points received_at i) \<Longrightarrow>
     mf_metric_name f \<noteq> [] \<and> mf_metric_type f \<in> {''gauge'', ''sum'', ''histogram''}
     \<and> (mf_buckets f \<noteq> None \<longleftrightarrow> mf_metric_type f = ''histogram'')
     \<and> (mf_metric_type f = ''histogram'' \<longrightarrow> mf_value_double f = None \<and> mf_value_int f = None)
     \<and> mf_unit f \<noteq> Some []"
  by (auto simp: json_points_def Let_def json_number_def json_histogram_def bare_point_def split: if_splits)

theorem points_kept:
  "length (pa_stored (otlp_to_metrics e req received_at limits max_records)) \<le> Suc max_records
   \<and> list_all (point_kept_ok limits received_at) (pa_stored (otlp_to_metrics e req received_at limits max_records))"
proof
  show "length (pa_stored (otlp_to_metrics e req received_at limits max_records)) \<le> Suc max_records"
    unfolding otlp_to_metrics_def by (rule collect_records_bound) (simp add: parse_default_def)
  show "list_all (point_kept_ok limits received_at) (pa_stored (otlp_to_metrics e req received_at limits max_records))"
    unfolding list_all_iff
  proof
    fix p
    assume "p \<in> set (pa_stored (otlp_to_metrics e req received_at limits max_records))"
    then obtain i f where "f \<in> set (json_points received_at i)" "point_verdict e limits received_at f = Keep p"
      unfolding otlp_to_metrics_def by (auto simp: parse_default_def dest!: collect_records_from)
    with json_points_fields [of f received_at i] show "point_kept_ok limits received_at p"
      by (auto simp: point_verdict_def point_kept_ok_def assemble_point_def Let_def split: if_splits)
  qed
qed

subsection \<open>The two transports\<close>

definition number_to_wire :: "proto_number_point \<Rightarrow> number_point" where
  "number_to_wire p =
     \<lparr>np_time = Some (Str (show_nat (pn_time p))),
      np_as_double = (case pn_value p of Some (AsDouble d) \<Rightarrow> Some d | _ \<Rightarrow> None),
      np_as_int = (case pn_value p of Some (AsInt n) \<Rightarrow> Some (Str (show_int n)) | _ \<Rightarrow> None),
      np_attributes = to_wire_kvs (pn_attributes p)\<rparr>"

definition histogram_to_wire :: "proto_histogram_point \<Rightarrow> histogram_point" where
  "histogram_to_wire p =
     \<lparr>hp_time = Some (Str (show_nat (ph_time p))), hp_count = Some (Str (show_nat (ph_count p))),
      hp_sum = ph_sum p, hp_bucket_counts = map (\<lambda>n. Str (show_nat n)) (ph_bucket_counts p),
      hp_explicit_bounds = ph_explicit_bounds p, hp_attributes = to_wire_kvs (ph_attributes p)\<rparr>"

definition metric_to_wire :: "proto_metric \<Rightarrow> metric" where
  "metric_to_wire m =
     \<lparr>me_name = Some (pm_name m), me_unit = Some (pm_unit m),
      me_gauge = (case pm_data m of Some (Gauge ps) \<Rightarrow> Some (map number_to_wire ps) | _ \<Rightarrow> None),
      me_sum = (case pm_data m of Some (Sum ps) \<Rightarrow> Some (map number_to_wire ps) | _ \<Rightarrow> None),
      me_histogram = (case pm_data m of Some (Histogram ps) \<Rightarrow> Some (map histogram_to_wire ps) | _ \<Rightarrow> None)\<rparr>"

definition number_safe :: "proto_number_point \<Rightarrow> bool" where
  "number_safe p \<longleftrightarrow> pn_time p \<le> u64_max \<and> kvs_safe (pn_attributes p)
     \<and> (\<forall>n. pn_value p = Some (AsInt n) \<longrightarrow> 0 \<le> n \<and> n < 2 ^ 63)"

definition histogram_safe :: "proto_histogram_point \<Rightarrow> bool" where
  "histogram_safe p \<longleftrightarrow> ph_time p \<le> u64_max \<and> ph_count p \<le> u64_max \<and> kvs_safe (ph_attributes p)
     \<and> (\<forall>n\<in>set (ph_bucket_counts p). n \<le> u64_max)"

definition metric_safe :: "proto_metric \<Rightarrow> bool" where
  "metric_safe m \<longleftrightarrow>
     (case pm_data m of
        Some (Gauge ps) \<Rightarrow> list_all number_safe ps
      | Some (Sum ps) \<Rightarrow> list_all number_safe ps
      | Some (Histogram ps) \<Rightarrow> list_all histogram_safe ps
      | _ \<Rightarrow> True)"

lemma numbers_agree:
  assumes "number_safe p"
  shows "json_number received_at (encode_item metric_to_wire i) name u ty (number_to_wire p)
    = push_number received_at i name u ty p"
proof -
  have v: "(case np_as_int (number_to_wire p) of None \<Rightarrow> None | Some v \<Rightarrow> map_option u64_as_i64 (as_u64 v))
      = (case pn_value p of Some (AsInt n) \<Rightarrow> Some n | _ \<Rightarrow> None)"
    using assms
    by (auto simp: number_to_wire_def number_safe_def as_u64_show u64_as_i64_def nat_less_iff
        split: option.split proto_number.split simp del: as_u64.simps)
  show ?thesis
    using assms
    unfolding json_number_def v
    by (simp add: push_number_def bare_point_def encode_item_def number_safe_def json_nanos_show attrs_to_wire
        number_to_wire_def)
qed

lemma histograms_agree:
  assumes "histogram_safe p"
  shows "json_histogram received_at (encode_item metric_to_wire i) name u (histogram_to_wire p)
    = proto_histogram received_at i name u p"
proof -
  have "List.map_filter as_u64 (map (\<lambda>n. Str (show_nat n)) ns) = ns" if "\<forall>n\<in>set ns. n \<le> u64_max" for ns
    using that by (induction ns) (simp_all add: List.map_filter_simps as_u64_show_nat del: as_u64.simps)
  with assms show ?thesis
    by (simp add: json_histogram_def proto_histogram_def bare_point_def encode_item_def histogram_safe_def
        json_nanos_show attrs_to_wire histogram_to_wire_def as_u64_show_nat del: as_u64.simps)
qed

lemma points_agree:
  assumes "metric_safe (it_record i)"
  shows "json_points received_at (encode_item metric_to_wire i) = proto_points received_at i"
proof -
  have u: "opt_filter (\<lambda>u. u \<noteq> []) (Some s) = non_empty_str s" for s :: string
    by (simp add: non_empty_str_def)
  show ?thesis
    using assms
    by (cases "pm_data (it_record i)"; (cases "the (pm_data (it_record i))")?)
      (auto simp: json_points_def proto_points_def Let_def metric_safe_def list_all_iff metric_to_wire_def
        encode_item_def [THEN arg_cong [where f = it_record]] u numbers_agree histograms_agree
        simp del: opt_filter_simps)
qed

text \<open>One request, two transports: a protobuf metrics request and its JSON encoding give the same
  points, identifiers included (for non-negative integers, attributes without negative integers and
  byte strings, and a service name that is not the empty text).\<close>

theorem metric_transports_agree:
  assumes "\<forall>rg\<in>set req. group_safe rg \<and> (\<forall>(sc, ms)\<in>set (rg_scopes rg). \<forall>m\<in>set ms. metric_safe m)"
  shows "otlp_to_metrics e (map (group_to_wire metric_to_wire) req) received_at limits max_records
    = proto_to_metrics e req received_at limits max_records"
proof -
  have j: "json_items (map (group_to_wire metric_to_wire) req) = map (encode_item metric_to_wire) (proto_items req)"
    using assms by (intro json_items_to_wire) blast
  have "\<forall>i\<in>set (proto_items req). metric_safe (it_record i)"
    using assms by (force simp: proto_items_def request_items_def Let_def)
  then have "map (json_points received_at) (json_items (map (group_to_wire metric_to_wire) req))
      = map (proto_points received_at) (proto_items req)"
    by (simp add: j points_agree)
  then show ?thesis by (simp add: otlp_to_metrics_def proto_to_metrics_def)
qed

lemma metric_transports_agree_witness:
  "pa_stored (otlp_to_metrics \<lparr>pe_ser = (\<lambda>_. ''{}''), pe_f64_bytes = (\<lambda>_. []), pe_digest = (\<lambda>s. s)\<rparr>
      (map (group_to_wire metric_to_wire) [\<lparr>rg_resource = None, rg_scopes = [(None,
        [\<lparr>pm_name = ''m'', pm_unit = [], pm_data = Some (Sum
           [\<lparr>pn_time = 5, pn_value = Some (AsInt 7), pn_attributes = []\<rparr>])\<rparr>])]\<rparr>]) 5
      \<lparr>max_batch_events = 1, max_payload_bytes = 1, max_properties_bytes = 1, max_string_len = 1,
        max_json_depth = 1, max_past_skew = 1, max_future_skew = 1, max_otlp_record_bytes = 1\<rparr> 10)
   = pa_stored (proto_to_metrics \<lparr>pe_ser = (\<lambda>_. ''{}''), pe_f64_bytes = (\<lambda>_. []), pe_digest = (\<lambda>s. s)\<rparr>
      [\<lparr>rg_resource = None, rg_scopes = [(None,
        [\<lparr>pm_name = ''m'', pm_unit = [], pm_data = Some (Sum
           [\<lparr>pn_time = 5, pn_value = Some (AsInt 7), pn_attributes = []\<rparr>])\<rparr>])]\<rparr>] 5
      \<lparr>max_batch_events = 1, max_payload_bytes = 1, max_properties_bytes = 1, max_string_len = 1,
        max_json_depth = 1, max_past_skew = 1, max_future_skew = 1, max_otlp_record_bytes = 1\<rparr> 10)"
  by (subst metric_transports_agree)
    (simp_all add: group_safe_def metric_safe_def number_safe_def u64_max_def)

text \<open>A negative integer value of a gauge or a sum is lost by the JSON transport.\<close>

lemma negative_point_lost:
  assumes "pn_value p = Some (AsInt (- 5))"
  shows "mf_value_int (json_number received_at (encode_item metric_to_wire i) name u ty (number_to_wire p)) = None"
    and "mf_value_int (push_number received_at i name u ty p) = Some (- 5)"
proof -
  have "str_trim ''-5'' = ''-5''" by (rule str_trim_visible) (simp_all add: ascii_visible_def)
  moreover have "show_int (- 5) = ''-5''" by code_simp
  ultimately show "mf_value_int (json_number received_at (encode_item metric_to_wire i) name u ty (number_to_wire p)) = None"
    using assms by (simp add: json_number_def number_to_wire_def parse_uint_def digit_val_def)
qed (use assms in \<open>simp add: push_number_def\<close>)

end
