(* ===== verification/Api.thy ===== *)
theory Api
  imports RateLimit Anomaly Token Companion Events Logs Traces Metrics
begin

text \<open>
  The entry points of the backend: \<^verbatim>\<open>backend/src/api/routes.rs\<close>, the admission of
  \<^verbatim>\<open>logs/intake.rs\<close>, \<^verbatim>\<open>traces/intake.rs\<close> and
  \<^verbatim>\<open>metrics/intake.rs\<close>, the gRPC services and the errors. A handler is a function of the
  shared state; it returns its answer and the new state. The instants read from the clocks are
  arguments. Reading a JSON body, printing an address and verifying a token are fields of the
  environment.
\<close>

subsection \<open>Errors\<close>

datatype app_error =
    BadRequest string "structural_error list"
  | PayloadTooLarge nat nat
  | Unauthorized token_error
  | TokenRequired
  | Forbidden string
  | RateLimited string nat
  | Unavailable string
  | Internal

text \<open>\<open>TokenRequired\<close> is \<^verbatim>\<open>AppError::Unauthorized\<close> with the message of the events route.\<close>

fun http_status :: "app_error \<Rightarrow> nat" where
  "http_status (BadRequest _ _) = 400"
| "http_status (PayloadTooLarge _ _) = 413"
| "http_status (Unauthorized _) = 401"
| "http_status TokenRequired = 401"
| "http_status (Forbidden _) = 403"
| "http_status (RateLimited _ _) = 429"
| "http_status (Unavailable _) = 503"
| "http_status Internal = 500"

datatype grpc_code = Unauthenticated | PermissionDenied | ResourceExhausted | OutOfRange
  | InvalidArgument | GrpcUnavailable | GrpcInternal

fun app_err_to_status :: "app_error \<Rightarrow> grpc_code" where
  "app_err_to_status (Unauthorized _) = Unauthenticated"
| "app_err_to_status TokenRequired = Unauthenticated"
| "app_err_to_status (Forbidden _) = PermissionDenied"
| "app_err_to_status (RateLimited _ _) = ResourceExhausted"
| "app_err_to_status (PayloadTooLarge _ _) = OutOfRange"
| "app_err_to_status (BadRequest _ _) = InvalidArgument"
| "app_err_to_status (Unavailable _) = GrpcUnavailable"
| "app_err_to_status Internal = GrpcInternal"

subsection \<open>State\<close>

record 'db app_state =
  as_events :: "(stored_event, 'db) batcher"
  as_logs :: "(stored_log, 'db) batcher"
  as_spans :: "(stored_span, 'db) batcher"
  as_points :: "(stored_metric_point, 'db) batcher"
  as_limiter :: rate_limiter
  as_anomaly :: anomaly_guard
  as_companions :: registry

record api_env =
  ae_cfg :: config
  ae_verifier_enabled :: bool
  ae_verify :: "string \<Rightarrow> token_error + verified_token"
  ae_parse_ip :: "string \<Rightarrow> ip_addr option"
  ae_show_ip :: "ip_addr \<Rightarrow> string"
  ae_rfc3339 :: "datetime \<Rightarrow> string"
  ae_encoding :: point_encoding

abbreviation ae_ser :: "api_env \<Rightarrow> json \<Rightarrow> string" where
  "ae_ser env \<equiv> pe_ser (ae_encoding env)"

abbreviation ae_limits :: "api_env \<Rightarrow> validation_limits" where
  "ae_limits env \<equiv> cfg_limits (ae_cfg env)"

text \<open>The instants of a request: the monotonic clock and the date.\<close>

record request =
  rq_now :: nanos
  rq_received_at :: datetime
  rq_peer :: ip_addr
  rq_headers :: header_map

definition request_ip :: "api_env \<Rightarrow> request \<Rightarrow> ip_addr" where
  "request_ip env q =
     client_ip (ae_parse_ip env) (rq_headers q) (rq_peer q) (trust_forwarded_for (ae_cfg env))"

text \<open>\<^verbatim>\<open>state.anomaly.record_bad(ip, now)\<close> before an error is returned.\<close>

definition blame :: "ip_addr \<Rightarrow> nanos \<Rightarrow> 'db app_state \<Rightarrow> 'db app_state" where
  "blame ip now st = st\<lparr>as_anomaly := record_bad ip now (as_anomaly st)\<rparr>"

subsection \<open>Tokens of a request\<close>

definition strip_bearer :: "string \<Rightarrow> string option" where
  "strip_bearer v = opt_or (strip_prefix ''Bearer '' v) (strip_prefix ''bearer '' v)"

definition bearer :: "header_map \<Rightarrow> string option" where
  "bearer headers =
     (case Option.bind (headers ''authorization'') header_str of
        None \<Rightarrow> None
      | Some v \<Rightarrow> opt_filter (\<lambda>t. t \<noteq> []) (map_option str_trim (strip_bearer v)))"

definition extract_token :: "header_map \<Rightarrow> string option \<Rightarrow> string option" where
  "extract_token headers body_token =
     (let from_body = opt_filter (\<lambda>t. t \<noteq> []) (map_option str_trim body_token) in
      case Option.bind (headers ''authorization'') header_str of
        None \<Rightarrow> from_body
      | Some v \<Rightarrow>
          (case strip_bearer v of
             None \<Rightarrow> from_body
           | Some rest \<Rightarrow> if str_trim rest \<noteq> [] then Some (str_trim rest) else from_body))"

subsection \<open>Product events\<close>

fun check_events ::
    "(json \<Rightarrow> string) \<Rightarrow> datetime \<Rightarrow> validation_limits \<Rightarrow> nat \<Rightarrow> incoming_event list
       \<Rightarrow> structural_error + stored_event list \<times> nat" where
  "check_events ser received_at limits i [] = Inr ([], 0)"
| "check_events ser received_at limits i (ev # evs) =
     and_then (check_event ser ev received_at limits i) (\<lambda>c.
     and_then (check_events ser received_at limits (Suc i) evs) (\<lambda>(stored, skew).
       Inr (case c of Event_ok e \<Rightarrow> (e # stored, skew) | OutOfSkew \<Rightarrow> (stored, Suc skew))))"

definition add_skew :: "nat \<Rightarrow> ('r, 'db) batcher \<Rightarrow> ('r, 'db) batcher" where
  "add_skew n b =
     (if n > 0
      then b\<lparr>ba_metrics := (ba_metrics b)\<lparr>dropped_skew_total := dropped_skew_total (ba_metrics b) + n\<rparr>\<rparr>
      else b)"

text \<open>The session that pays for a request, or why there is none.\<close>

definition session_key ::
    "api_env \<Rightarrow> ip_addr \<Rightarrow> header_map \<Rightarrow> ingest_body \<Rightarrow> app_error + string" where
  "session_key env ip headers body =
     (if ae_verifier_enabled env
      then and_then (ok_or TokenRequired (extract_token headers (ib_token body))) (\<lambda>token.
           and_then (map_err Unauthorized (ae_verify env token)) (\<lambda>v. Inr (vt_session_id v)))
      else Inr (case ib_events body of e # _ \<Rightarrow> ie_session_id e | [] \<Rightarrow> ae_show_ip env ip))"

definition as_u32 :: "nat \<Rightarrow> nat" where
  "as_u32 n = n mod 2 ^ 32"

definition ingest_events ::
    "api_env \<Rightarrow> request \<Rightarrow> ingest_body option \<Rightarrow> 'db app_state \<Rightarrow> (app_error + nat) \<times> 'db app_state" where
  "ingest_events env q body st =
     (let now = rq_now q; ip = request_ip env q;
          (banned, guard) = is_banned ip now (as_anomaly st); st = st\<lparr>as_anomaly := guard\<rparr> in
      if banned then (Inl (RateLimited ''anomaly_ban'' 60), st)
      else case body of
        None \<Rightarrow> (Inl (BadRequest ''corps JSON invalide'' []), blame ip now st)
      | Some parsed \<Rightarrow>
          if ib_events parsed = [] then (Inl (BadRequest ''batch vide'' []), st)
          else if length (ib_events parsed) > max_batch_events (ae_limits env)
          then (Inl (PayloadTooLarge (length (ib_events parsed)) (max_batch_events (ae_limits env))), blame ip now st)
          else (case session_key env ip (rq_headers q) parsed of
            Inl e \<Rightarrow> (Inl e, blame ip now st)
          | Inr sid \<Rightarrow>
              (case check now ip sid (as_u32 (length (ib_events parsed))) (as_limiter st) of
                 (Deny scope retry, rl) \<Rightarrow> (Inl (RateLimited scope retry), blame ip now (st\<lparr>as_limiter := rl\<rparr>))
               | (Allow, rl) \<Rightarrow>
                   (let st = st\<lparr>as_limiter := rl\<rparr> in
                    case check_events (ae_ser env) (rq_received_at q) (ae_limits env) 0 (ib_events parsed) of
                      Inl e \<Rightarrow> (Inl (BadRequest ''validation'' [e]), blame ip now st)
                    | Inr (stored, skew) \<Rightarrow>
                        (let (n, b) = try_enqueue stored (add_skew skew (as_events st))
                         in (Inr n, st\<lparr>as_events := b\<rparr>))))))"

subsection \<open>OpenTelemetry records\<close>

text \<open>\<^verbatim>\<open>authorize_logs\<close>, which the traces and the metrics use too.\<close>

definition authorize_logs ::
    "api_env \<Rightarrow> ip_addr \<Rightarrow> nanos \<Rightarrow> string option \<Rightarrow> 'db app_state \<Rightarrow> (app_error + unit) \<times> 'db app_state" where
  "authorize_logs env ip now token st =
     (case check_service_token (ae_verify env) (cfg_logs_auth (ae_cfg env)) token of
        Inl msg \<Rightarrow> (Inl (Unauthorized msg), blame ip now st)
      | Inr _ \<Rightarrow> (Inr (), st))"

text \<open>
  \<^verbatim>\<open>accept_logs\<close>, \<^verbatim>\<open>accept_spans\<close> and
  \<^verbatim>\<open>accept_metric_points\<close> differ in the size of a record, its service name and the
  batcher of the state: bounds, oversized records, rate limit paid by the service, queue. The answer
  is the number of records kept and of records queued.
\<close>

definition accept_records ::
    "api_env \<Rightarrow> ('r \<Rightarrow> nat) \<Rightarrow> ('r \<Rightarrow> string option) \<Rightarrow> ('db app_state \<Rightarrow> ('r, 'db) batcher)
       \<Rightarrow> (('r, 'db) batcher \<Rightarrow> 'db app_state \<Rightarrow> 'db app_state) \<Rightarrow> ip_addr \<Rightarrow> nanos \<Rightarrow> 'r parse
       \<Rightarrow> 'db app_state \<Rightarrow> (app_error + nat \<times> nat) \<times> 'db app_state" where
  "accept_records env size_of service_of get_b set_b ip now p st =
     (let submitted = length (pa_stored p) in
      if submitted > max_logs_records (ae_cfg env)
      then (Inl (PayloadTooLarge submitted (max_logs_records (ae_cfg env))), blame ip now st)
      else
        (let b = get_b st;
             (dropped, kept, m) = drop_oversized (max_otlp_record_bytes (ae_limits env)) size_of (pa_stored p) (ba_metrics b);
             st = set_b (b\<lparr>ba_metrics := m\<rparr>) st;
             service_key = unwrap_or (ae_show_ip env ip) (case kept of r # _ \<Rightarrow> service_of r | [] \<Rightarrow> None)
         in case check now ip service_key (as_u32 (max submitted 1)) (as_limiter st) of
              (Deny scope retry, rl) \<Rightarrow> (Inl (RateLimited scope retry), blame ip now (st\<lparr>as_limiter := rl\<rparr>))
            | (Allow, rl) \<Rightarrow>
                (let st = st\<lparr>as_limiter := rl\<rparr>;
                     (n, b) = try_enqueue kept (add_skew (pa_dropped_skew p) (get_b st))
                 in (Inr (length kept, n), set_b b st))))"

definition accept_logs ::
    "api_env \<Rightarrow> ip_addr \<Rightarrow> nanos \<Rightarrow> stored_log parse \<Rightarrow> 'db app_state \<Rightarrow> (app_error + nat \<times> nat) \<times> 'db app_state" where
  "accept_logs env = accept_records env (log_content_bytes (ae_ser env)) sl_service_name as_logs
     (\<lambda>b st. st\<lparr>as_logs := b\<rparr>)"

definition accept_spans ::
    "api_env \<Rightarrow> ip_addr \<Rightarrow> nanos \<Rightarrow> stored_span parse \<Rightarrow> 'db app_state \<Rightarrow> (app_error + nat \<times> nat) \<times> 'db app_state" where
  "accept_spans env = accept_records env (span_content_bytes (ae_ser env)) ss_service_name as_spans
     (\<lambda>b st. st\<lparr>as_spans := b\<rparr>)"

definition accept_metric_points ::
    "api_env \<Rightarrow> ip_addr \<Rightarrow> nanos \<Rightarrow> stored_metric_point parse \<Rightarrow> 'db app_state \<Rightarrow> (app_error + nat \<times> nat) \<times> 'db app_state" where
  "accept_metric_points env = accept_records env (point_content_bytes (ae_ser env)) sm_service_name as_points
     (\<lambda>b st. st\<lparr>as_points := b\<rparr>)"

text \<open>
  The flow of the six OTLP handlers: ban, authentication, body (none when it is not the expected
  JSON), admission. The answer is the number of rejected records, which the response reports when it
  is not zero.
\<close>

definition otlp_flow ::
    "api_env \<Rightarrow> ip_addr \<Rightarrow> nanos \<Rightarrow> string option \<Rightarrow> 'r parse option
       \<Rightarrow> (ip_addr \<Rightarrow> nanos \<Rightarrow> 'r parse \<Rightarrow> 'db app_state \<Rightarrow> (app_error + nat \<times> nat) \<times> 'db app_state)
       \<Rightarrow> 'db app_state \<Rightarrow> (app_error + nat) \<times> 'db app_state" where
  "otlp_flow env ip now token body accept st =
     (let (banned, guard) = is_banned ip now (as_anomaly st); st = st\<lparr>as_anomaly := guard\<rparr> in
      if banned then (Inl (RateLimited ''anomaly_ban'' 60), st)
      else case authorize_logs env ip now token st of
        (Inl e, st) \<Rightarrow> (Inl e, st)
      | (Inr _, st) \<Rightarrow>
          (case body of
             None \<Rightarrow> (Inl (BadRequest ''corps OTLP JSON invalide'' []), blame ip now st)
           | Some p \<Rightarrow>
               (case accept ip now p st of
                  (Inl e, st) \<Rightarrow> (Inl e, st)
                | (Inr (kept, enqueued), st) \<Rightarrow> (Inr (kept - enqueued), st))))"

definition ingest_logs ::
    "api_env \<Rightarrow> request \<Rightarrow> logs_request option \<Rightarrow> 'db app_state \<Rightarrow> (app_error + nat) \<times> 'db app_state" where
  "ingest_logs env q body st =
     otlp_flow env (request_ip env q) (rq_now q) (extract_token (rq_headers q) None)
       (map_option (\<lambda>req. otlp_to_logs (ae_ser env) (pe_digest (ae_encoding env)) req (rq_received_at q)
          (ae_limits env) (max_logs_records (ae_cfg env))) body)
       (accept_logs env) st"

definition ingest_traces ::
    "api_env \<Rightarrow> request \<Rightarrow> spans_request option \<Rightarrow> 'db app_state \<Rightarrow> (app_error + nat) \<times> 'db app_state" where
  "ingest_traces env q body st =
     otlp_flow env (request_ip env q) (rq_now q) (extract_token (rq_headers q) None)
       (map_option (\<lambda>req. otlp_to_spans (ae_rfc3339 env) req (rq_received_at q)
          (ae_limits env) (max_logs_records (ae_cfg env))) body)
       (accept_spans env) st"

definition ingest_metrics ::
    "api_env \<Rightarrow> request \<Rightarrow> metrics_request option \<Rightarrow> 'db app_state \<Rightarrow> (app_error + nat) \<times> 'db app_state" where
  "ingest_metrics env q body st =
     otlp_flow env (request_ip env q) (rq_now q) (extract_token (rq_headers q) None)
       (map_option (\<lambda>req. otlp_to_metrics (ae_encoding env) req (rq_received_at q)
          (ae_limits env) (max_logs_records (ae_cfg env))) body)
       (accept_metric_points env) st"

text \<open>The gRPC services: the address is the peer's, whatever the metadata says, or the unspecified
  address; the request is already decoded.\<close>

definition grpc_request_ip :: "ip_addr option \<Rightarrow> ip_addr" where
  "grpc_request_ip peer = unwrap_or (V4 0) peer"

definition grpc_answer :: "(app_error + nat) \<times> 'db app_state \<Rightarrow> (grpc_code + nat) \<times> 'db app_state" where
  "grpc_answer r = (map_err app_err_to_status (fst r), snd r)"

definition export_logs ::
    "api_env \<Rightarrow> nanos \<Rightarrow> datetime \<Rightarrow> ip_addr option \<Rightarrow> header_map \<Rightarrow> proto_logs_request \<Rightarrow> 'db app_state
       \<Rightarrow> (grpc_code + nat) \<times> 'db app_state" where
  "export_logs env now received_at peer metadata req st =
     grpc_answer (otlp_flow env (grpc_request_ip peer) now (bearer metadata)
       (Some (proto_to_logs (ae_ser env) (pe_digest (ae_encoding env)) req received_at
          (ae_limits env) (max_logs_records (ae_cfg env))))
       (accept_logs env) st)"

definition export_traces ::
    "api_env \<Rightarrow> nanos \<Rightarrow> datetime \<Rightarrow> ip_addr option \<Rightarrow> header_map \<Rightarrow> proto_spans_request \<Rightarrow> 'db app_state
       \<Rightarrow> (grpc_code + nat) \<times> 'db app_state" where
  "export_traces env now received_at peer metadata req st =
     grpc_answer (otlp_flow env (grpc_request_ip peer) now (bearer metadata)
       (Some (proto_to_spans (ae_rfc3339 env) req received_at (ae_limits env) (max_logs_records (ae_cfg env))))
       (accept_spans env) st)"

definition export_metrics ::
    "api_env \<Rightarrow> nanos \<Rightarrow> datetime \<Rightarrow> ip_addr option \<Rightarrow> header_map \<Rightarrow> proto_metrics_request \<Rightarrow> 'db app_state
       \<Rightarrow> (grpc_code + nat) \<times> 'db app_state" where
  "export_metrics env now received_at peer metadata req st =
     grpc_answer (otlp_flow env (grpc_request_ip peer) now (bearer metadata)
       (Some (proto_to_metrics (ae_encoding env) req received_at (ae_limits env) (max_logs_records (ae_cfg env))))
       (accept_metric_points env) st)"

subsection \<open>Health, statistics, heartbeats\<close>

definition readyz :: "bool \<Rightarrow> bool \<Rightarrow> nat \<times> string" where
  "readyz ready reachable =
     (if \<not> ready then (503, ''starting'') else if reachable then (200, ''ready'') else (503, ''db_unavailable''))"

record stats_answer =
  sa_streams :: "(string \<times> (string \<times> nat) list) list"
  sa_tracked_sessions :: nat
  sa_tracked_ips :: nat
  sa_banned_ips :: nat
  sa_companions :: "(string \<times> string) list"

definition stats :: "api_env \<Rightarrow> header_map \<Rightarrow> 'db app_state \<Rightarrow> app_error + stats_answer" where
  "stats env headers st =
     and_then (map_err Unauthorized
         (check_service_token (ae_verify env) (cfg_query_auth (ae_cfg env)) (bearer headers))) (\<lambda>_.
       Inr \<lparr>sa_streams = [(''events'', metrics_snapshot (ba_metrics (as_events st))),
                          (''logs'', metrics_snapshot (ba_metrics (as_logs st))),
                          (''traces'', metrics_snapshot (ba_metrics (as_spans st))),
                          (''metrics'', metrics_snapshot (ba_metrics (as_points st)))],
            sa_tracked_sessions = tracked_sessions (as_limiter st),
            sa_tracked_ips = tracked_ips (as_limiter st),
            sa_banned_ips = banned_count (as_anomaly st),
            sa_companions = map (\<lambda>(cid, t). (cid, ae_rfc3339 env t)) (snapshot (as_companions st))\<rparr>)"

definition heartbeat ::
    "api_env \<Rightarrow> header_map \<Rightarrow> string \<Rightarrow> datetime \<Rightarrow> 'db app_state \<Rightarrow> (app_error + unit) \<times> 'db app_state" where
  "heartbeat env headers hb_id now st =
     (case check_service_token (ae_verify env) (cfg_logs_auth (ae_cfg env)) (bearer headers) of
        Inl msg \<Rightarrow> (Inl (Unauthorized msg), st)
      | Inr _ \<Rightarrow>
          (let cid = str_trim hb_id in
           if cid = [] then (Inl (BadRequest ''companion id requis'' []), st)
           else (Inr (), st\<lparr>as_companions := registry_record cid now (as_companions st)\<rparr>)))"

subsection \<open>Runs of the service\<close>

text \<open>
  A run interleaves requests, the periodic purge and the steps of the four batchers (other than the
  sends, which the handlers make). \<open>store\<close> and \<open>bsize\<close> are those of
  \<open>batcher_step\<close>, for the four tables.
\<close>

record 'db stores =
  so_events :: "'db \<Rightarrow> stored_event list \<Rightarrow> nat option \<times> 'db"
  so_logs :: "'db \<Rightarrow> stored_log list \<Rightarrow> nat option \<times> 'db"
  so_spans :: "'db \<Rightarrow> stored_span list \<Rightarrow> nat option \<times> 'db"
  so_points :: "'db \<Rightarrow> stored_metric_point list \<Rightarrow> nat option \<times> 'db"
  so_bsize :: nat

datatype task_step = TaskRecv | TaskTick | TaskShutdown | TaskDrain | TaskClose

fun task_event :: "task_step \<Rightarrow> 'a batcher_event" where
  "task_event TaskRecv = Recv"
| "task_event TaskTick = FlushTick"
| "task_event TaskShutdown = Shutdown"
| "task_event TaskDrain = Drain"
| "task_event TaskClose = Close"

datatype api_op =
    PostEvents request "ingest_body option"
  | PostLogs request "logs_request option"
  | PostTraces request "spans_request option"
  | PostMetrics request "metrics_request option"
  | GrpcLogs nanos datetime "ip_addr option" header_map proto_logs_request
  | GrpcTraces nanos datetime "ip_addr option" header_map proto_spans_request
  | GrpcMetrics nanos datetime "ip_addr option" header_map proto_metrics_request
  | PostHeartbeat nanos header_map string datetime
  | Maintenance nanos
  | EventsTask nanos task_step
  | LogsTask nanos task_step
  | SpansTask nanos task_step
  | PointsTask nanos task_step

fun op_time :: "api_op \<Rightarrow> nanos" where
  "op_time (PostEvents q b) = rq_now q"
| "op_time (PostLogs q b) = rq_now q"
| "op_time (PostTraces q b) = rq_now q"
| "op_time (PostMetrics q b) = rq_now q"
| "op_time (GrpcLogs now d p m r) = now"
| "op_time (GrpcTraces now d p m r) = now"
| "op_time (GrpcMetrics now d p m r) = now"
| "op_time (PostHeartbeat now h i d) = now"
| "op_time (Maintenance now) = now"
| "op_time (EventsTask now t) = now"
| "op_time (LogsTask now t) = now"
| "op_time (SpansTask now t) = now"
| "op_time (PointsTask now t) = now"

fun api_step :: "api_env \<Rightarrow> 'db stores \<Rightarrow> api_op \<Rightarrow> 'db app_state \<Rightarrow> 'db app_state" where
  "api_step env so (PostEvents q b) st = snd (ingest_events env q b st)"
| "api_step env so (PostLogs q b) st = snd (ingest_logs env q b st)"
| "api_step env so (PostTraces q b) st = snd (ingest_traces env q b st)"
| "api_step env so (PostMetrics q b) st = snd (ingest_metrics env q b st)"
| "api_step env so (GrpcLogs now d p m r) st = snd (export_logs env now d p m r st)"
| "api_step env so (GrpcTraces now d p m r) st = snd (export_traces env now d p m r st)"
| "api_step env so (GrpcMetrics now d p m r) st = snd (export_metrics env now d p m r st)"
| "api_step env so (PostHeartbeat now h i d) st = snd (heartbeat env h i d st)"
| "api_step env so (Maintenance now) st =
     st\<lparr>as_limiter := limiter_prune now (as_limiter st), as_anomaly := anomaly_prune now (as_anomaly st)\<rparr>"
| "api_step env so (EventsTask now t) st =
     st\<lparr>as_events := snd (batcher_step (so_events so) (so_bsize so) (task_event t) (as_events st))\<rparr>"
| "api_step env so (LogsTask now t) st =
     st\<lparr>as_logs := snd (batcher_step (so_logs so) (so_bsize so) (task_event t) (as_logs st))\<rparr>"
| "api_step env so (SpansTask now t) st =
     st\<lparr>as_spans := snd (batcher_step (so_spans so) (so_bsize so) (task_event t) (as_spans st))\<rparr>"
| "api_step env so (PointsTask now t) st =
     st\<lparr>as_points := snd (batcher_step (so_points so) (so_bsize so) (task_event t) (as_points st))\<rparr>"

definition api_run :: "api_env \<Rightarrow> 'db stores \<Rightarrow> api_op list \<Rightarrow> 'db app_state \<Rightarrow> 'db app_state" where
  "api_run env so ops st = fold (api_step env so) ops st"

definition app_state_new :: "api_env \<Rightarrow> nanos \<Rightarrow> 'db \<Rightarrow> 'db app_state" where
  "app_state_new env t0 db =
     \<lparr>as_events = spawn_batcher (channel_capacity (ae_cfg env)) db,
      as_logs = spawn_batcher (channel_capacity (ae_cfg env)) db,
      as_spans = spawn_batcher (channel_capacity (ae_cfg env)) db,
      as_points = spawn_batcher (channel_capacity (ae_cfg env)) db,
      as_limiter = rate_limiter_new (cfg_rate_limit (ae_cfg env)) t0,
      as_anomaly = anomaly_guard_new (cfg_anomaly (ae_cfg env)), as_companions = []\<rparr>"

text \<open>The records queued so far, over the four streams.\<close>

definition queued :: "'db app_state \<Rightarrow> nat" where
  "queued st = received_total (ba_metrics (as_events st)) + received_total (ba_metrics (as_logs st))
     + received_total (ba_metrics (as_spans st)) + received_total (ba_metrics (as_points st))"

subsection \<open>What a handler does to the queues and to the limiter\<close>

lemma add_skew_simps [simp]:
  "received_total (ba_metrics (add_skew n b)) = received_total (ba_metrics b)"
  "ba_chan (add_skew n b) = ba_chan b"
  "ba_buf (add_skew n b) = ba_buf b"
  by (simp_all add: add_skew_def)

lemma drop_oversized_simps:
  "drop_oversized mx f xs m = (d, kept, m') \<Longrightarrow>
     kept = filter (\<lambda>r. f r \<le> mx) xs \<and> d = length xs - length kept \<and> received_total m' = received_total m"
  by (auto simp: drop_oversized_def Let_def)

lemma try_enqueue_count:
  "try_enqueue batch b = (n, b') \<Longrightarrow>
     received_total (ba_metrics b') = received_total (ba_metrics b) + n \<and> n \<le> length batch
     \<and> (n = length batch \<or> n = 0)"
  by (auto simp: try_enqueue_def Let_def split: option.splits)

lemma blame_simps [simp]:
  "as_limiter (blame ip now st) = as_limiter st"
  "as_events (blame ip now st) = as_events st"
  "as_logs (blame ip now st) = as_logs st"
  "as_spans (blame ip now st) = as_spans st"
  "as_points (blame ip now st) = as_points st"
  "as_companions (blame ip now st) = as_companions st"
  by (simp_all add: blame_def)

text \<open>
  One step of the service pays for what it queues: it moves the limiter by at most one
  \<open>check\<close>, at its own instant, and queues at most what this check admitted.
\<close>

definition pays :: "nanos \<Rightarrow> 'db app_state \<Rightarrow> 'db app_state \<Rightarrow> bool" where
  "pays now st st' \<longleftrightarrow>
     (as_limiter st' = as_limiter st \<and> queued st' = queued st)
     \<or> as_limiter st' = limiter_prune now (as_limiter st) \<and> queued st' = queued st
     \<or> (\<exists>ip sid k d. check now ip sid k (as_limiter st) = (d, as_limiter st')
          \<and> (if d = Allow then queued st' \<le> queued st + max k 1 else queued st' = queued st))"

lemma pays_none: "as_limiter st' = as_limiter st \<Longrightarrow> queued st' = queued st \<Longrightarrow> pays now st st'"
  by (simp add: pays_def)

lemma pays_check:
  "check now ip sid k (as_limiter st) = (d, as_limiter st') \<Longrightarrow>
     (d = Allow \<Longrightarrow> queued st' \<le> queued st + max k 1) \<Longrightarrow> (d \<noteq> Allow \<Longrightarrow> queued st' = queued st) \<Longrightarrow>
     pays now st st'"
  unfolding pays_def
  by (intro disjI2 exI [of _ ip] exI [of _ sid] exI [of _ k] exI [of _ d]) simp

lemma pays_cong:
  "as_limiter st1 = as_limiter st2 \<Longrightarrow> queued st1 = queued st2 \<Longrightarrow> pays now st1 st' = pays now st2 st'"
  by (simp add: pays_def)

lemma queued_blame [simp]: "queued (blame ip now st) = queued st"
  by (simp add: queued_def)

lemma queued_update [simp]:
  "queued (st\<lparr>as_limiter := rl\<rparr>) = queued st"
  "queued (st\<lparr>as_anomaly := g\<rparr>) = queued st"
  by (simp_all add: queued_def)

lemma check_events_length:
  "check_events ser received_at limits i evs = Inr (stored, skew) \<Longrightarrow> length stored + skew = length evs"
proof (induction evs arbitrary: i stored skew)
  case Nil
  then show ?case by simp
next
  case (Cons ev evs)
  from Cons.prems obtain c stored' skew' where
    c: "check_events ser received_at limits (Suc i) evs = Inr (stored', skew')"
      "(case c of Event_ok e \<Rightarrow> (e # stored', skew') | OutOfSkew \<Rightarrow> (stored', Suc skew')) = (stored, skew)"
    by auto
  from Cons.IH [OF c(1)] c(2) show ?case by (cases c) auto
qed

lemma ingest_events_pays:
  assumes "max_batch_events (ae_limits env) < 2 ^ 32"
  shows "pays (rq_now q) st (snd (ingest_events env q body st))"
proof -
  define ip where "ip = request_ip env q"
  obtain banned guard where b: "is_banned ip (rq_now q) (as_anomaly st) = (banned, guard)" by fastforce
  define st1 where "st1 = st\<lparr>as_anomaly := guard\<rparr>"
  have st1: "as_limiter st1 = as_limiter st" "queued st1 = queued st" by (simp_all add: st1_def)
  note start = ingest_events_def [of env q body st, unfolded ip_def [symmetric] Let_def b prod.case
      st1_def [symmetric]]
  show ?thesis
  proof (cases "banned \<or> body = None")
    case True
    then show ?thesis by (intro pays_none) (auto simp: start st1 split: option.split)
  next
    case False
    then obtain parsed where parsed: "body = Some parsed" "\<not> banned" by auto
    define k where "k = length (ib_events parsed)"
    note start = start [unfolded parsed(1) option.case, folded k_def]
    show ?thesis
    proof (cases "session_key env ip (rq_headers q) parsed")
      case (Inl e)
      with parsed show ?thesis by (intro pays_none) (auto simp: start st1)
    next
      case (Inr sid)
      show ?thesis
      proof (cases "ib_events parsed = [] \<or> k > max_batch_events (ae_limits env)")
        case True
        with parsed show ?thesis by (intro pays_none) (auto simp: start st1)
      next
        case False
        then have k: "as_u32 k = k" "0 < k" using assms by (auto simp: as_u32_def k_def)
        obtain d rl where c: "check (rq_now q) ip sid k (as_limiter st) = (d, rl)" by fastforce
        show ?thesis
        proof (cases d)
          case (Deny scope retry)
          have r: "snd (ingest_events env q (Some parsed) st) = blame ip (rq_now q) (st1\<lparr>as_limiter := rl\<rparr>)"
            using False parsed Deny by (simp add: start Inr k st1 c)
          show ?thesis unfolding parsed(1) r 
            by (rule pays_check [where ip = ip and sid = sid and k = k and d = d]) (simp_all add: c Deny st1)
        next
          case Allow
          show ?thesis
          proof (cases "check_events (ae_ser env) (rq_received_at q) (ae_limits env) 0 (ib_events parsed)")
            case e: (Inl e)
            have r: "snd (ingest_events env q (Some parsed) st) = blame ip (rq_now q) (st1\<lparr>as_limiter := rl\<rparr>)"
              using False parsed Allow by (simp add: start Inr k st1 c e)
            show ?thesis unfolding parsed(1) r
              by (rule pays_check [where ip = ip and sid = sid and k = k and d = d]) (simp_all add: c Allow st1)
          next
            case e: (Inr res)
            obtain stored skew where res: "res = (stored, skew)" by fastforce
            obtain n bt where t: "try_enqueue stored (add_skew skew (as_events st1)) = (n, bt)" by fastforce
            have r: "snd (ingest_events env q (Some parsed) st) = st1\<lparr>as_limiter := rl, as_events := bt\<rparr>"
              using False parsed Allow by (simp add: start Inr k st1 c e res t)
            from check_events_length [OF e [unfolded res]] try_enqueue_count [OF t]
            have "queued (st1\<lparr>as_limiter := rl, as_events := bt\<rparr>) \<le> queued st + k"
              by (simp add: queued_def k_def st1_def)
            then show ?thesis unfolding parsed(1) r
              by (intro pays_check [where ip = ip and sid = sid and k = k and d = d]) (simp_all add: c Allow st1)
          qed
        qed
      qed
    qed
  qed
qed

text \<open>What waits to be written and what is written, over the four streams.\<close>

definition waiting :: "('r, 'db) batcher \<Rightarrow> 'r channel \<times> 'r list \<times> 'db" where
  "waiting b = (ba_chan b, ba_buf b, ba_db b)"

definition pending ::
    "'db app_state \<Rightarrow> (stored_event channel \<times> stored_event list \<times> 'db) \<times> (stored_log channel \<times> stored_log list \<times> 'db)
       \<times> (stored_span channel \<times> stored_span list \<times> 'db) \<times> (stored_metric_point channel \<times> stored_metric_point list \<times> 'db)" where
  "pending st = (waiting (as_events st), waiting (as_logs st), waiting (as_spans st), waiting (as_points st))"

lemma pending_update [simp]:
  "pending (blame ip now st) = pending st"
  "pending (st\<lparr>as_limiter := rl\<rparr>) = pending st"
  "pending (st\<lparr>as_anomaly := g\<rparr>) = pending st"
  by (simp_all add: pending_def blame_def)

subsection \<open>Interface: a stream of the state\<close>

text \<open>
  What the admission of records uses of the state: the batcher of its stream, which it reads and
  replaces without touching the rest. The client lemma is that the admission pays for what it queues.
\<close>

locale stream =
  fixes get_b :: "'db app_state \<Rightarrow> ('r, 'db) batcher"
    and set_b :: "('r, 'db) batcher \<Rightarrow> 'db app_state \<Rightarrow> 'db app_state"
  assumes get_set: "get_b (set_b b st) = b"
    and get_limiter: "get_b (st\<lparr>as_limiter := rl\<rparr>) = get_b st"
    and set_limiter: "as_limiter (set_b b st) = as_limiter st"
    and set_anomaly: "as_anomaly (set_b b st) = as_anomaly st"
    and set_queued: "queued (set_b b st) + received_total (ba_metrics (get_b st))
      = queued st + received_total (ba_metrics b)"
    and set_pending: "waiting b = waiting (get_b st) \<Longrightarrow> pending (set_b b st) = pending st"
begin

lemma queued_same:
  "received_total (ba_metrics b) = received_total (ba_metrics (get_b st)) \<Longrightarrow> queued (set_b b st) = queued st"
  using set_queued [of b st] by simp

lemma accept_pays:
  assumes "max_logs_records (ae_cfg env) < 2 ^ 32"
  shows "pays now st (snd (accept_records env size_of service_of get_b set_b ip now p st))"
proof -
  define k where "k = length (pa_stored p)"
  obtain dropped kept m where d: "drop_oversized (max_otlp_record_bytes (ae_limits env)) size_of (pa_stored p)
      (ba_metrics (get_b st)) = (dropped, kept, m)"
    by (cases "drop_oversized (max_otlp_record_bytes (ae_limits env)) size_of (pa_stored p) (ba_metrics (get_b st))")
  note dd = drop_oversized_simps [OF d]
  define st1 where "st1 = set_b ((get_b st)\<lparr>ba_metrics := m\<rparr>) st"
  have st1: "as_limiter st1 = as_limiter st" "queued st1 = queued st" "get_b st1 = (get_b st)\<lparr>ba_metrics := m\<rparr>"
    using dd by (simp_all add: st1_def set_limiter get_set queued_same)
  define key where "key = unwrap_or (ae_show_ip env ip) (case kept of r # _ \<Rightarrow> service_of r | [] \<Rightarrow> None)"
  note start = accept_records_def [of env size_of service_of get_b set_b ip now p st,
      unfolded Let_def k_def [symmetric] d prod.case st1_def [symmetric] key_def [symmetric]]
  show ?thesis
  proof (cases "k > max_logs_records (ae_cfg env)")
    case True
    then show ?thesis by (intro pays_none) (simp_all add: start)
  next
    case False
    then have k: "as_u32 (max k 1) = max k 1" using assms by (auto simp: as_u32_def)
    obtain dec rl where c: "check now ip key (max k 1) (as_limiter st) = (dec, rl)" by fastforce
    show ?thesis
    proof (cases dec)
      case (Deny scope retry)
      have "snd (accept_records env size_of service_of get_b set_b ip now p st)
          = blame ip now (st1\<lparr>as_limiter := rl\<rparr>)"
        using False Deny by (simp add: start k [simplified] st1 c [simplified])
      then show ?thesis
        by (intro pays_check [where ip = ip and sid = key and k = "max k 1" and d = dec])
          (simp_all add: c [simplified] Deny st1)
    next
      case Allow
      obtain n b where t: "try_enqueue kept (add_skew (pa_dropped_skew p) (get_b st1)) = (n, b)" by fastforce
      have r: "snd (accept_records env size_of service_of get_b set_b ip now p st) = set_b b (st1\<lparr>as_limiter := rl\<rparr>)"
        using False Allow by (simp add: start k [simplified] st1(1) c [simplified] get_limiter t)
      have "length kept \<le> k" using dd by (simp add: k_def)
      with try_enqueue_count [OF t] set_queued [of b "st1\<lparr>as_limiter := rl\<rparr>"] st1 dd
      have "queued (set_b b (st1\<lparr>as_limiter := rl\<rparr>)) \<le> queued st + k"
        by (simp add: get_limiter)
      then show ?thesis unfolding r
        by (intro pays_check [where ip = ip and sid = key and k = "max k 1" and d = dec])
          (simp_all add: c [simplified] Allow st1 set_limiter)
    qed
  qed
qed

lemma accept_refused:
  assumes "fst (accept_records env size_of service_of get_b set_b ip now p st) = Inl e"
  shows "pending (snd (accept_records env size_of service_of get_b set_b ip now p st)) = pending st"
proof -
  have "pending (set_b ((get_b st)\<lparr>ba_metrics := m\<rparr>) st) = pending st" for m
    by (rule set_pending) (simp add: waiting_def)
  with assms show ?thesis
    by (auto simp: accept_records_def Let_def split: if_splits decision.splits prod.splits)
qed

end

interpretation log_stream: stream as_logs "\<lambda>b st. st\<lparr>as_logs := b\<rparr>"
  by unfold_locales (simp_all add: queued_def pending_def)

interpretation span_stream: stream as_spans "\<lambda>b st. st\<lparr>as_spans := b\<rparr>"
  by unfold_locales (simp_all add: queued_def pending_def)

interpretation point_stream: stream as_points "\<lambda>b st. st\<lparr>as_points := b\<rparr>"
  by unfold_locales (simp_all add: queued_def pending_def)

lemma authorize_logs_state:
  "authorize_logs env ip now token st = (r, st') \<Longrightarrow> as_limiter st' = as_limiter st \<and> queued st' = queued st"
  by (auto simp: authorize_logs_def split: sum.splits)

lemma otlp_flow_pays:
  assumes "\<And>p st. pays now st (snd (accept ip now p st))"
  shows "pays now st (snd (otlp_flow env ip now token body accept st))"
proof -
  obtain banned guard where b: "is_banned ip now (as_anomaly st) = (banned, guard)" by fastforce
  define st1 where "st1 = st\<lparr>as_anomaly := guard\<rparr>"
  have st1: "as_limiter st1 = as_limiter st" "queued st1 = queued st" by (simp_all add: st1_def)
  obtain r st2 where a: "authorize_logs env ip now token st1 = (r, st2)" by fastforce
  note st2 = authorize_logs_state [OF a]
  show ?thesis
  proof (cases "banned \<or> body = None \<or> \<not> is_ok r")
    case True
    then show ?thesis using st1 st2
      by (intro pays_none)
        (auto simp: otlp_flow_def b a st1_def [symmetric] Let_def split: sum.split option.split)
  next
    case False
    then obtain p where p: "body = Some p" "\<not> banned" "r = Inr ()" by (cases r) auto
    obtain res st3 where acc: "accept ip now p st2 = (res, st3)" by fastforce
    have "snd (otlp_flow env ip now token body accept st) = st3"
      by (simp add: otlp_flow_def b a st1_def [symmetric] Let_def p acc split: sum.split prod.split)
    moreover have "pays now st2 st3" using assms [of st2 p] acc by simp
    ultimately show ?thesis using st1 st2 pays_cong [of st2 st now st3] by simp
  qed
qed

lemma accepts_pay:
  assumes "max_logs_records (ae_cfg env) < 2 ^ 32"
  shows "pays now st (snd (accept_logs env ip now lp st))"
    and "pays now st (snd (accept_spans env ip now sp st))"
    and "pays now st (snd (accept_metric_points env ip now pp st))"
  unfolding accept_logs_def accept_spans_def accept_metric_points_def
  by (rule log_stream.accept_pays span_stream.accept_pays point_stream.accept_pays; rule assms)+

lemma batcher_step_received:
  "received_total (ba_metrics (snd (batcher_step store bsize (task_event t) s))) = received_total (ba_metrics s)"
proof -
  obtain out s' where f: "flush store s = (out, s')" by fastforce
  have tb: "received_total (ba_metrics (snd (take_batch store bsize b c s))) = received_total (ba_metrics s)" for b c
    using take_batch_out [of store bsize b c s] by (metis prod.collapse)
  show ?thesis
    using flush_out [OF f] tb
    by (cases t) (auto simp: f split: option.split)
qed

lemma api_step_pays:
  assumes "max_logs_records (ae_cfg env) < 2 ^ 32" and "max_batch_events (ae_limits env) < 2 ^ 32"
  shows "pays (op_time op) st (api_step env so op st)"
proof (cases op)
  case (PostHeartbeat now h i d)
  then show ?thesis
    by (auto simp: heartbeat_def Let_def queued_def intro!: pays_none split: sum.split)
next
  case (Maintenance now)
  then show ?thesis by (simp add: pays_def queued_def)
next
  case (PostEvents q b)
  then show ?thesis by simp (rule ingest_events_pays [OF assms(2)])
qed (auto simp: ingest_logs_def ingest_traces_def ingest_metrics_def export_logs_def export_traces_def
    export_metrics_def grpc_answer_def batcher_step_received queued_def
    intro!: otlp_flow_pays accepts_pay [OF assms(1)] intro: pays_none)

subsection \<open>The service under load\<close>

lemma subseq_set_le: "subseq xs ys \<Longrightarrow> set xs \<subseteq> set ys"
  by (induction rule: list_emb.induct) auto

lemma subseq_sorted: "subseq xs ys \<Longrightarrow> sorted ys \<Longrightarrow> sorted (xs :: nat list)"
  by (induction rule: list_emb.induct) (auto dest: subseq_set_le)

lemma allowed_of_Check:
  "allowed_of (Check now ip sid k) (Some d) = (if d = Allow then real (max k 1) else 0)"
  by (simp add: allowed_of_def)

lemma pays_limiter_ops:
  assumes "pays now st st'"
  shows "\<exists>xs. as_limiter st' = snd (rl_run xs (as_limiter st)) \<and> map rl_time xs \<in> {[], [now]}
    \<and> real (queued st') \<le> real (queued st) + admitted (\<lambda>_. True) xs (fst (rl_run xs (as_limiter st)))"
proof -
  consider (idle) "as_limiter st' = as_limiter st" "queued st' = queued st"
    | (purge) "as_limiter st' = limiter_prune now (as_limiter st)" "queued st' = queued st"
    | (checked) ip sid k d where "check now ip sid k (as_limiter st) = (d, as_limiter st')"
        "if d = Allow then queued st' \<le> queued st + max k 1 else queued st' = queued st"
    using assms by (auto simp: pays_def)
  then show ?thesis
  proof cases
    case idle
    then show ?thesis by (intro exI [of _ "[]"]) (simp add: admitted_def)
  next
    case purge
    then show ?thesis
      by (intro exI [of _ "[PruneLimiter now]"]) (simp add: admitted_def allowed_of_def)
  next
    case checked
    then have "real (queued st') \<le> real (queued st) + allowed_of (Check now ip sid k) (Some d)"
      by (auto simp: allowed_of_Check split: if_splits)
    with checked(1) show ?thesis
      by (intro exI [of _ "[Check now ip sid k]"]) (simp add: admitted_def)
  qed
qed

lemma admitted_append:
  "admitted P (xs @ ys) (fst (rl_run (xs @ ys) rl))
     = admitted P xs (fst (rl_run xs rl)) + admitted P ys (fst (rl_run ys (snd (rl_run xs rl))))
   \<and> snd (rl_run (xs @ ys) rl) = snd (rl_run ys (snd (rl_run xs rl)))"
proof (induction xs arbitrary: rl)
  case Nil
  then show ?case by (simp add: admitted_def)
next
  case (Cons x xs)
  obtain d rl' where x: "rl_step x rl = (d, rl')" by fastforce
  with Cons.IH [of rl'] show ?case by (simp add: split_beta admitted_Cons)
qed

lemma api_run_limiter_ops:
  assumes "max_logs_records (ae_cfg env) < 2 ^ 32" and "max_batch_events (ae_limits env) < 2 ^ 32"
  shows "\<exists>xs. as_limiter (api_run env so ops st) = snd (rl_run xs (as_limiter st))
    \<and> subseq (map rl_time xs) (map op_time ops)
    \<and> real (queued (api_run env so ops st))
        \<le> real (queued st) + admitted (\<lambda>_. True) xs (fst (rl_run xs (as_limiter st)))"
proof (induction ops arbitrary: st)
  case Nil
  then show ?case by (intro exI [of _ "[]"]) (simp add: api_run_def admitted_def)
next
  case (Cons op ops)
  define st' where "st' = api_step env so op st"
  obtain xs where xs: "as_limiter st' = snd (rl_run xs (as_limiter st))" "map rl_time xs \<in> {[], [op_time op]}"
    "real (queued st') \<le> real (queued st) + admitted (\<lambda>_. True) xs (fst (rl_run xs (as_limiter st)))"
    using pays_limiter_ops [OF api_step_pays [OF assms, of op st so], folded st'_def]
    by (elim exE conjE) (rule that)
  obtain ys where ys: "as_limiter (api_run env so ops st') = snd (rl_run ys (as_limiter st'))"
    "subseq (map rl_time ys) (map op_time ops)"
    "real (queued (api_run env so ops st'))
        \<le> real (queued st') + admitted (\<lambda>_. True) ys (fst (rl_run ys (as_limiter st')))"
    using Cons.IH [of st'] by blast
  have run: "api_run env so (op # ops) st = api_run env so ops st'" by (simp add: api_run_def st'_def)
  have "subseq (map rl_time (xs @ ys)) (map op_time (op # ops))"
    using xs(2) ys(2) by auto
  with xs ys admitted_append [of "\<lambda>_. True" xs ys "as_limiter st"] show ?case
    by (intro exI [of _ "xs @ ys"]) (simp add: run)
qed

text \<open>The service holds the global rate: whatever requests arrive, valid or not, on whichever of
  the seven ingestion endpoints and from whatever addresses, interleaved with the purge and the work
  of the batchers, the records queued since the start are at most the global burst plus the global
  rate times the elapsed time.\<close>

theorem service_flood_bound:
  assumes "max_logs_records (ae_cfg env) < 2 ^ 32" and "max_batch_events (ae_limits env) < 2 ^ 32"
    and "cfg_ok (cfg_rate_limit (ae_cfg env))" and "sorted (map op_time ops)"
    and "\<forall>op\<in>set ops. t0 \<le> op_time op \<and> op_time op \<le> t" and "t0 \<le> t"
  shows "real (queued (api_run env so ops (app_state_new env t0 db)))
    \<le> global_burst (cfg_rate_limit (ae_cfg env))
       + (as_secs_f64 t - as_secs_f64 t0) * global_per_sec (cfg_rate_limit (ae_cfg env))"
proof -
  define cfg where "cfg = cfg_rate_limit (ae_cfg env)"
  obtain xs where xs: "subseq (map rl_time xs) (map op_time ops)"
    "real (queued (api_run env so ops (app_state_new env t0 db)))
      \<le> admitted (\<lambda>_. True) xs (fst (rl_run xs (rate_limiter_new cfg t0)))"
    using api_run_limiter_ops [OF assms(1,2), of so ops "app_state_new env t0 db"]
    by (auto simp: app_state_new_def queued_def spawn_batcher_def metrics_zero_def cfg_def)
  have srt: "sorted (map rl_time xs)"
    using xs(1) assms(4) by (rule subseq_sorted)
  have "set (map rl_time xs) \<subseteq> set (map op_time ops)"
    using xs(1) by (rule subseq_set_le)
  then have tm: "\<forall>x\<in>set xs. t0 \<le> rl_time x \<and> rl_time x \<le> t" using assms(5) by auto
  have "refilled t0 (rl_global (rate_limiter_new cfg t0)) = global_burst cfg"
    by (simp add: rate_limiter_new_def bucket_new_def refilled_def as_secs_f64_def)
  moreover have "rl_cfg (rate_limiter_new cfg t0) = cfg" by (simp add: rate_limiter_new_def)
  ultimately show ?thesis
    using gm.flood_bound [OF rl_ok_new [OF assms(3) [folded cfg_def]] srt tm assms(6), of t0] xs(2)
    by (simp add: gm_total cfg_def [symmetric])
qed

definition demo_service :: config where
  "demo_service = \<lparr>bind_addr = ''0.0.0.0:8080'', grpc_enabled = False, grpc_bind_addr = ''0.0.0.0:4317'',
     database_url = ''postgres://db'', db_max_connections = 10, flush_interval = millis 200,
     flush_batch_size = 5000, channel_capacity = 10, retention_days = 90, partition_future_days = 2,
     max_logs_records = 2048, max_logs_payload_bytes = 4194304, request_timeout = secs 15,
     trust_forwarded_for = False,
     cfg_limits = \<lparr>max_batch_events = 500, max_payload_bytes = 1048576, max_properties_bytes = 16384,
       max_string_len = 200, max_json_depth = 16, max_past_skew = 100, max_future_skew = 100,
       max_otlp_record_bytes = 65536\<rparr>,
     cfg_rate_limit = rl_default,
     cfg_anomaly = \<lparr>bad_requests_threshold = 100, bad_window = secs 60, ban_duration = secs 300,
       anomaly_max_tracked_ips = 200000\<rparr>,
     cfg_token = \<lparr>token_enabled = False, key_source = None, algorithms = [EdDSA], issuer = None, audience = None,
       leeway_secs = 60, jwks_refresh = secs 3600\<rparr>,
     cfg_logs_auth = NoAuth, cfg_query_auth = Static ''q'', mcp_enabled = False, cfg_cors = CorsList [],
     cfg_alerting = \<lparr>rules_file = None, eval_interval = secs 60, slack_bot_token = None, slack_channel = None,
       smtp_host = None, smtp_port = 587, smtp_username = None, smtp_password = None, email_from = None,
       email_to = []\<rparr>\<rparr>"

definition demo_api :: api_env where
  "demo_api = \<lparr>ae_cfg = demo_service, ae_verifier_enabled = False, ae_verify = \<lambda>_. Inl UnknownKey,
     ae_parse_ip = \<lambda>_. None, ae_show_ip = \<lambda>_. ''ip'', ae_rfc3339 = \<lambda>_. ''d'',
     ae_encoding = \<lparr>pe_ser = \<lambda>_. ''{}'', pe_f64_bytes = \<lambda>_. [], pe_digest = \<lambda>s. s\<rparr>\<rparr>"

definition demo_stores :: "unit stores" where
  "demo_stores = \<lparr>so_events = \<lambda>db rs. (Some (length rs), db), so_logs = \<lambda>db rs. (Some (length rs), db),
     so_spans = \<lambda>db rs. (Some (length rs), db), so_points = \<lambda>db rs. (Some (length rs), db), so_bsize = 2\<rparr>"

lemma service_flood_bound_witness:
  "real (queued (api_run demo_api demo_stores
      [PostEvents \<lparr>rq_now = 6, rq_received_at = 7, rq_peer = V4 1, rq_headers = \<lambda>_. None\<rparr> None,
       Maintenance 7,
       PostLogs \<lparr>rq_now = 8, rq_received_at = 7, rq_peer = V4 1, rq_headers = \<lambda>_. None\<rparr> (Some [])]
      (app_state_new demo_api 5 ())))
    \<le> global_burst rl_default + (as_secs_f64 9 - as_secs_f64 5) * global_per_sec rl_default"
  using service_flood_bound [of demo_api _ 5 9 demo_stores "()"]
  by (simp add: demo_api_def demo_service_def rl_default_ok)

subsection \<open>Refused requests\<close>

fun refused :: "api_env \<Rightarrow> api_op \<Rightarrow> 'db app_state \<Rightarrow> bool" where
  "refused env (PostEvents q b) st \<longleftrightarrow> \<not> is_ok (fst (ingest_events env q b st))"
| "refused env (PostLogs q b) st \<longleftrightarrow> \<not> is_ok (fst (ingest_logs env q b st))"
| "refused env (PostTraces q b) st \<longleftrightarrow> \<not> is_ok (fst (ingest_traces env q b st))"
| "refused env (PostMetrics q b) st \<longleftrightarrow> \<not> is_ok (fst (ingest_metrics env q b st))"
| "refused env (GrpcLogs now d p m r) st \<longleftrightarrow> \<not> is_ok (fst (export_logs env now d p m r st))"
| "refused env (GrpcTraces now d p m r) st \<longleftrightarrow> \<not> is_ok (fst (export_traces env now d p m r st))"
| "refused env (GrpcMetrics now d p m r) st \<longleftrightarrow> \<not> is_ok (fst (export_metrics env now d p m r st))"
| "refused env (PostHeartbeat now h i d) st \<longleftrightarrow> \<not> is_ok (fst (heartbeat env h i d st))"
| "refused env _ st \<longleftrightarrow> False"

lemma not_ok_iff: "\<not> is_ok r \<longleftrightarrow> (\<exists>e. r = Inl e)"
  by (cases r) simp_all

lemma ingest_events_refused:
  "\<not> is_ok (fst (ingest_events env q body st)) \<Longrightarrow>
     pending (snd (ingest_events env q body st)) = pending st
     \<and> as_companions (snd (ingest_events env q body st)) = as_companions st"
  by (auto simp: ingest_events_def Let_def split_beta split: if_splits option.splits sum.splits decision.splits)

lemma authorize_logs_pending:
  "authorize_logs env ip now token st = (r, st') \<Longrightarrow>
     pending st' = pending st \<and> as_companions st' = as_companions st"
  by (auto simp: authorize_logs_def split: sum.splits)

lemma otlp_flow_refused:
  assumes "\<And>p st e. fst (accept ip now p st) = Inl e \<Longrightarrow> pending (snd (accept ip now p st)) = pending st"
    and "\<not> is_ok (fst (otlp_flow env ip now token body accept st))"
  shows "pending (snd (otlp_flow env ip now token body accept st)) = pending st"
proof -
  obtain banned guard where b: "is_banned ip now (as_anomaly st) = (banned, guard)" by fastforce
  obtain r st2 where a: "authorize_logs env ip now token (st\<lparr>as_anomaly := guard\<rparr>) = (r, st2)" by fastforce
  note st2 = authorize_logs_pending [OF a]
  show ?thesis
  proof (cases "banned \<or> body = None \<or> \<not> is_ok r")
    case True
    then show ?thesis using st2
      by (auto simp: otlp_flow_def b a Let_def split: sum.split option.split)
  next
    case False
    then obtain p where p: "body = Some p" "\<not> banned" "r = Inr ()" by (cases r) auto
    obtain res st3 where acc: "accept ip now p st2 = (res, st3)" by fastforce
    with assms(2) obtain e where e: "res = Inl e"
      by (cases res) (auto simp: otlp_flow_def b a Let_def p split: prod.splits)
    with assms(1) [of p st2] acc st2 show ?thesis
      by (simp add: otlp_flow_def b a Let_def p)
  qed
qed

lemma accepts_refused:
  "fst (accept_logs env ip now lp st) = Inl e \<Longrightarrow> pending (snd (accept_logs env ip now lp st)) = pending st"
  "fst (accept_spans env ip now sp st) = Inl e \<Longrightarrow> pending (snd (accept_spans env ip now sp st)) = pending st"
  "fst (accept_metric_points env ip now pp st) = Inl e \<Longrightarrow>
     pending (snd (accept_metric_points env ip now pp st)) = pending st"
  unfolding accept_logs_def accept_spans_def accept_metric_points_def
  by (erule log_stream.accept_refused span_stream.accept_refused point_stream.accept_refused)+

lemma grpc_answer_ok [simp]: "is_ok (fst (grpc_answer x)) = is_ok (fst x)" "snd (grpc_answer x) = snd x"
  by (cases x; cases "fst x"; simp add: grpc_answer_def)+

text \<open>C12. A request that is answered by an error, on any endpoint and for any reason, stores nothing and
  disturbs nothing that was accepted before: what waits in the four queues and buffers and what is in
  the database stay as they were.\<close>

theorem refused_request_stores_nothing:
  assumes "refused env op st"
  shows "pending (api_step env so op st) = pending st"
proof (cases op)
  case (PostEvents q b)
  with assms have "\<not> is_ok (fst (ingest_events env q b st))" by simp
  from ingest_events_refused [OF this] PostEvents show ?thesis by simp
next
  case (PostHeartbeat now h i d)
  with assms show ?thesis by (auto simp: heartbeat_def Let_def split: sum.splits if_splits)
qed (use assms in \<open>auto simp: ingest_logs_def ingest_traces_def ingest_metrics_def export_logs_def
      export_traces_def export_metrics_def intro!: otlp_flow_refused dest: accepts_refused\<close>)

definition demo_event :: incoming_event where
  "demo_event = \<lparr>ie_event_id = ''i'', ie_event_name = ''click'', ie_tenant_id = None, ie_actor_id = ''a'',
     ie_session_id = ''s'', ie_timestamp_client = 7, ie_properties = None\<rparr>"

definition demo_request :: request where
  "demo_request = \<lparr>rq_now = 0, rq_received_at = 7, rq_peer = V4 0, rq_headers = \<lambda>_. None\<rparr>"

lemma demo_not_banned: "is_banned (V4 0) now g = (False, g)"
  by (simp add: is_banned_def is_unspecified_def)

lemma demo_ip: "request_ip demo_api demo_request = V4 0"
  by (simp add: request_ip_def client_ip_def demo_api_def demo_service_def demo_request_def)

lemma refused_request_stores_nothing_witness:
  "pending (api_step demo_api demo_stores (PostEvents demo_request None) (app_state_new demo_api 0 ()))
     = pending (app_state_new demo_api 0 ())"
  by (rule refused_request_stores_nothing)
    (simp add: ingest_events_def demo_ip demo_not_banned)

subsection \<open>Accepted events\<close>

lemma check_events_exact:
  "check_events ser received_at limits i evs = Inr (stored, skew) \<Longrightarrow>
     (\<forall>ev\<in>set evs. event_ok ser limits (normalised ev received_at))
     \<and> stored = map (\<lambda>ev. normalised ev received_at)
         (filter (\<lambda>ev. \<not> out_of_skew limits received_at (ie_timestamp_client ev)) evs)"
proof (induction evs arbitrary: i stored skew)
  case Nil
  then show ?case by simp
next
  case (Cons ev evs)
  from Cons.prems obtain c stored' skew' where
    c: "check_event ser ev received_at limits i = Inr c"
      "check_events ser received_at limits (Suc i) evs = Inr (stored', skew')"
      "(case c of Event_ok e \<Rightarrow> (e # stored', skew') | OutOfSkew \<Rightarrow> (stored', Suc skew')) = (stored, skew)"
    by auto
  from Cons.IH [OF c(2)] c(1,3) show ?case
    by (auto simp: check_event_iff split: if_splits)
qed

text \<open>C11. What an acknowledgement means: the batch was not empty and within the limit, every event of it
  was valid, and either all those dated within the window were queued, in order, as they were sent,
  and their number is the answer, or the queue was full or closed, nothing was queued and the answer
  is zero. What was waiting before keeps its place.\<close>

theorem acknowledged_events_are_queued:
  assumes "fst (ingest_events env q (Some body) st) = Inr n"
  defines "es \<equiv> map (\<lambda>ev. normalised ev (rq_received_at q))
      (filter (\<lambda>ev. \<not> out_of_skew (ae_limits env) (rq_received_at q) (ie_timestamp_client ev)) (ib_events body))"
  shows "ib_events body \<noteq> [] \<and> length (ib_events body) \<le> max_batch_events (ae_limits env)
    \<and> (\<forall>ev\<in>set (ib_events body). event_ok (ae_ser env) (ae_limits env) (normalised ev (rq_received_at q)))
    \<and> (n = length es
         \<and> ch_batches (ba_chan (as_events (snd (ingest_events env q (Some body) st))))
             = ch_batches (ba_chan (as_events st)) @ [es]
       \<or> n = 0 \<and> chan_send es (ba_chan (as_events st)) = None
         \<and> ba_chan (as_events (snd (ingest_events env q (Some body) st))) = ba_chan (as_events st))"
proof -
  define ip where "ip = request_ip env q"
  obtain banned guard where b: "is_banned ip (rq_now q) (as_anomaly st) = (banned, guard)" by fastforce
  note start = assms(1) [unfolded ingest_events_def ip_def [symmetric] Let_def b prod.case option.case]
  have bounds: "\<not> banned" "ib_events body \<noteq> []" "\<not> length (ib_events body) > max_batch_events (ae_limits env)"
    using start by (auto split: if_splits)
  with start obtain sid where sid: "session_key env ip (rq_headers q) body = Inr sid"
    by (cases "session_key env ip (rq_headers q) body") simp_all
  define k where "k = as_u32 (length (ib_events body))"
  obtain d rl where c: "check (rq_now q) ip sid k (as_limiter st) = (d, rl)" by fastforce
  with start bounds sid have allow: "d = Allow" by (cases d) (simp_all add: k_def)
  from start bounds sid c allow obtain stored skew where
    e: "check_events (ae_ser env) (rq_received_at q) (ae_limits env) 0 (ib_events body) = Inr (stored, skew)"
    by (cases "check_events (ae_ser env) (rq_received_at q) (ae_limits env) 0 (ib_events body)")
      (auto simp: k_def)
  obtain m bt where t: "try_enqueue stored (add_skew skew (as_events st)) = (m, bt)" by fastforce
  have r: "ingest_events env q (Some body) st = (Inr m, st\<lparr>as_anomaly := guard, as_limiter := rl, as_events := bt\<rparr>)"
    using bounds sid c allow e t
    by (simp add: ingest_events_def ip_def [symmetric] Let_def b k_def)
  have ex: "\<forall>ev\<in>set (ib_events body). event_ok (ae_ser env) (ae_limits env) (normalised ev (rq_received_at q))"
    "stored = es"
    using check_events_exact [OF e] by (simp_all add: es_def)
  have "n = m" using assms(1) r by simp
  with t ex(2) have "n = length es \<and> ch_batches (ba_chan bt) = ch_batches (ba_chan (as_events st)) @ [es]
      \<or> n = 0 \<and> chan_send es (ba_chan (as_events st)) = None \<and> ba_chan bt = ba_chan (as_events st)"
    by (auto simp: try_enqueue_def Let_def chan_send_def split: option.splits if_splits)
  with bounds ex(1) r show ?thesis by simp
qed

lemma demo_check: "\<exists>rl. check 0 (V4 0) sid (Suc 0) (rate_limiter_new rl_default 0) = (Allow, rl)"
  by (simp add: check_def check_session_def rate_limiter_new_def rl_default_def session_entry_def try_take_def
      bucket_new_def check_ip_def is_unspecified_def check_global_def Let_def as_secs_f64_def)

lemma demo_acknowledged:
  "fst (ingest_events demo_api demo_request (Some \<lparr>ib_token = None, ib_events = [demo_event]\<rparr>)
     (app_state_new demo_api 0 db)) = Inr 1"
proof -
  obtain rl where c: "check 0 (V4 0) ''s'' (Suc 0) (rate_limiter_new rl_default 0) = (Allow, rl)"
    using demo_check by blast
  have t: "text_ok l s" if "l = cfg_limits demo_service" "s \<in> {''click'', ''a'', ''s''}" for s l
  proof -
    have "str_trim s = s" using that(2) by (auto intro!: str_trim_visible simp: ascii_visible_def)
    then show ?thesis using that by (auto simp: text_ok_def demo_service_def chars_count_def)
  qed
  have ev: "check_event (\<lambda>_. ''{}'') demo_event 7 (cfg_limits demo_service) 0
      = Inr (Event_ok (normalised demo_event 7))"
    unfolding check_event_iff
    by (simp add: event_ok_def normalised_def demo_event_def t)
      (simp add: demo_service_def out_of_skew_def past_limit_def future_limit_def)
  have m: "max_batch_events (cfg_limits demo_service) = 500" by (simp add: demo_service_def)
  have l: "as_limiter (app_state_new demo_api 0 db) = rate_limiter_new rl_default 0"
    and ch: "ba_chan (as_events (app_state_new demo_api 0 db)) = \<lparr>ch_capacity = 10, ch_batches = [], ch_open = True\<rparr>"
    by (simp_all add: app_state_new_def demo_api_def demo_service_def spawn_batcher_def)
  have sid: "ie_session_id demo_event = ''s''" by (simp add: demo_event_def)
  have api: "ae_cfg demo_api = demo_service" "\<not> ae_verifier_enabled demo_api" "ae_ser demo_api = (\<lambda>_. ''{}'')"
      "rq_now demo_request = 0" "rq_received_at demo_request = 7"
    by (simp_all add: demo_api_def demo_request_def)
  show ?thesis
    unfolding ingest_events_def Let_def demo_ip demo_not_banned
    by (simp add: session_key_def api m sid as_u32_def l c ev ch try_enqueue_def chan_send_def add_skew_def Let_def)
qed

lemma acknowledged_events_are_queued_witness:
  "ch_batches (ba_chan (as_events (snd (ingest_events demo_api demo_request
      (Some \<lparr>ib_token = None, ib_events = [demo_event]\<rparr>) (app_state_new demo_api 0 ())))))
   = [[normalised demo_event 7]]"
  using acknowledged_events_are_queued [OF demo_acknowledged, of "()"]
  by (simp add: out_of_skew_def past_limit_def future_limit_def demo_event_def demo_request_def demo_api_def demo_service_def
      app_state_new_def spawn_batcher_def)

end
