(* ===== verification/Partitions.thy ===== *)
theory Partitions
  imports Ingest Events Logs Traces Metrics
begin

text \<open>
  The daily partitions of the four tables, \<^verbatim>\<open>backend/src/db/partitions.rs\<close> and the SQL
  functions it calls (\<^verbatim>\<open>migrations/0002_functions.sql\<close> and their variants in
  \<^verbatim>\<open>0003\<close>, \<^verbatim>\<open>0004\<close> and \<^verbatim>\<open>0006\<close>). A day is the
  number of days since the epoch, of a year of four digits, so that the names of the partitions are
  ordered as the days. Whether a query reaches the database is a parameter.
\<close>

subsection \<open>A partitioned table and its staging table\<close>

record 'r part_table =
  pt_days :: "int list"
  pt_rows :: "'r list"
  pt_staging :: "'r list"

definition utc_day :: "datetime \<Rightarrow> int" where
  "utc_day t = t div (86400 * 1000000000)"

text \<open>A table knows the day, the key and the reception of its rows.\<close>

record ('r, 'k) table_kind =
  tk_day :: "'r \<Rightarrow> int"
  tk_key :: "'r \<Rightarrow> 'k"
  tk_received :: "'r \<Rightarrow> datetime"

definition create_partition :: "int \<Rightarrow> 'r part_table \<Rightarrow> 'r part_table" where
  "create_partition d t = (if d \<in> set (pt_days t) then t else t\<lparr>pt_days := pt_days t @ [d]\<rparr>)"

definition partitions_for_staging :: "('r, 'k) table_kind \<Rightarrow> 'r part_table \<Rightarrow> 'r part_table" where
  "partitions_for_staging k t = fold create_partition (remdups (map (tk_day k) (pt_staging t))) t"

text \<open>An insertion into the partitioned table fails, as a whole, when a row has no partition.\<close>

definition merge_table :: "('r, 'k) table_kind \<Rightarrow> 'r part_table \<Rightarrow> (nat \<times> 'r part_table) option" where
  "merge_table k t =
     (if \<forall>r\<in>set (keep_first (tk_key k) [] (sort_key (tk_received k) (pt_staging t))). tk_day k r \<in> set (pt_days t)
      then (let (n, rows) = merge_staging (tk_key k) (tk_received k) (pt_rows t) (pt_staging t)
            in Some (n, t\<lparr>pt_rows := rows, pt_staging := []\<rparr>))
      else None)"

definition drop_before :: "('r, 'k) table_kind \<Rightarrow> int \<Rightarrow> 'r part_table \<Rightarrow> nat \<times> 'r part_table" where
  "drop_before k d t =
     (length (filter (\<lambda>p. p < d) (pt_days t)),
      t\<lparr>pt_days := filter (\<lambda>p. \<not> p < d) (pt_days t), pt_rows := filter (\<lambda>r. \<not> tk_day k r < d) (pt_rows t)\<rparr>)"

subsection \<open>The operations of the backend\<close>

text \<open>The query for each day may fail: the days before it stay created.\<close>

fun ensure_days :: "(int \<Rightarrow> bool) \<Rightarrow> int list \<Rightarrow> 'r part_table \<Rightarrow> int option \<times> 'r part_table" where
  "ensure_days reach [] t = (None, t)"
| "ensure_days reach (d # ds) t =
     (if reach d then ensure_days reach ds (create_partition d t) else (Some d, t))"

definition ensure_window :: "(int \<Rightarrow> bool) \<Rightarrow> int \<Rightarrow> int \<Rightarrow> int \<Rightarrow> 'r part_table \<Rightarrow> int option \<times> 'r part_table" where
  "ensure_window reach today past_days future_days t =
     ensure_days reach (map (\<lambda>off. today + off) [- past_days..future_days]) t"

definition purge_old ::
    "bool \<Rightarrow> ('r, 'k) table_kind \<Rightarrow> int \<Rightarrow> int \<Rightarrow> 'r part_table \<Rightarrow> nat option \<times> 'r part_table" where
  "purge_old reach k today retention t =
     (if reach then (let (n, t') = drop_before k (today - retention) t in (Some n, t')) else (None, t))"

text \<open>The drain makes two queries; either may fail, and the second one when a partition is missing.\<close>

definition drain :: "bool \<times> bool \<Rightarrow> ('r, 'k) table_kind \<Rightarrow> 'r part_table \<Rightarrow> nat option \<times> 'r part_table" where
  "drain reach k t =
     (if \<not> fst reach then (None, t)
      else (let t' = partitions_for_staging k t
            in if \<not> snd reach then (None, t')
               else (case merge_table k t' of Some (n, t'') \<Rightarrow> (Some n, t'') | None \<Rightarrow> (None, t'))))"

subsection \<open>The four tables\<close>

definition events_table :: "(stored_event, int \<times> uuid) table_kind" where
  "events_table = \<lparr>tk_day = \<lambda>e. utc_day (se_timestamp_client e),
     tk_key = \<lambda>e. (se_timestamp_client e div 1000, se_event_id e), tk_received = se_received_at\<rparr>"

definition logs_table :: "(stored_log, int \<times> uuid) table_kind" where
  "logs_table = \<lparr>tk_day = \<lambda>l. utc_day (sl_log_time l),
     tk_key = \<lambda>l. (sl_log_time l div 1000, sl_log_id l), tk_received = sl_received_at\<rparr>"

definition spans_table :: "(stored_span, int \<times> string \<times> string) table_kind" where
  "spans_table = \<lparr>tk_day = \<lambda>s. utc_day (ss_start_time s),
     tk_key = \<lambda>s. (ss_start_time s div 1000, ss_trace_id s, ss_span_id s), tk_received = ss_received_at\<rparr>"

definition points_table :: "(stored_metric_point, int \<times> uuid) table_kind" where
  "points_table = \<lparr>tk_day = \<lambda>p. utc_day (sm_time p),
     tk_key = \<lambda>p. (sm_time p div 1000, sm_point_id p), tk_received = sm_received_at\<rparr>"

record database =
  db_events :: "stored_event part_table"
  db_logs :: "stored_log part_table"
  db_spans :: "stored_span part_table"
  db_points :: "stored_metric_point part_table"

definition ensure_partition_window :: "(int \<Rightarrow> bool) \<Rightarrow> int \<Rightarrow> int \<Rightarrow> int \<Rightarrow> database \<Rightarrow> int option \<times> database" where
  "ensure_partition_window reach today past_days future_days db =
     (let (e, t) = ensure_window reach today past_days future_days (db_events db) in (e, db\<lparr>db_events := t\<rparr>))"

definition ensure_log_partition_window :: "(int \<Rightarrow> bool) \<Rightarrow> int \<Rightarrow> int \<Rightarrow> int \<Rightarrow> database \<Rightarrow> int option \<times> database" where
  "ensure_log_partition_window reach today past_days future_days db =
     (let (e, t) = ensure_window reach today past_days future_days (db_logs db) in (e, db\<lparr>db_logs := t\<rparr>))"

definition ensure_span_partition_window :: "(int \<Rightarrow> bool) \<Rightarrow> int \<Rightarrow> int \<Rightarrow> int \<Rightarrow> database \<Rightarrow> int option \<times> database" where
  "ensure_span_partition_window reach today past_days future_days db =
     (let (e, t) = ensure_window reach today past_days future_days (db_spans db) in (e, db\<lparr>db_spans := t\<rparr>))"

definition ensure_metric_partition_window :: "(int \<Rightarrow> bool) \<Rightarrow> int \<Rightarrow> int \<Rightarrow> int \<Rightarrow> database \<Rightarrow> int option \<times> database" where
  "ensure_metric_partition_window reach today past_days future_days db =
     (let (e, t) = ensure_window reach today past_days future_days (db_points db) in (e, db\<lparr>db_points := t\<rparr>))"

definition purge_old_partitions :: "bool \<Rightarrow> int \<Rightarrow> int \<Rightarrow> database \<Rightarrow> nat option \<times> database" where
  "purge_old_partitions reach today retention db =
     (let (n, t) = purge_old reach events_table today retention (db_events db) in (n, db\<lparr>db_events := t\<rparr>))"

definition purge_old_log_partitions :: "bool \<Rightarrow> int \<Rightarrow> int \<Rightarrow> database \<Rightarrow> nat option \<times> database" where
  "purge_old_log_partitions reach today retention db =
     (let (n, t) = purge_old reach logs_table today retention (db_logs db) in (n, db\<lparr>db_logs := t\<rparr>))"

definition purge_old_span_partitions :: "bool \<Rightarrow> int \<Rightarrow> int \<Rightarrow> database \<Rightarrow> nat option \<times> database" where
  "purge_old_span_partitions reach today retention db =
     (let (n, t) = purge_old reach spans_table today retention (db_spans db) in (n, db\<lparr>db_spans := t\<rparr>))"

definition purge_old_metric_partitions :: "bool \<Rightarrow> int \<Rightarrow> int \<Rightarrow> database \<Rightarrow> nat option \<times> database" where
  "purge_old_metric_partitions reach today retention db =
     (let (n, t) = purge_old reach points_table today retention (db_points db) in (n, db\<lparr>db_points := t\<rparr>))"

definition drain_staging :: "bool \<times> bool \<Rightarrow> database \<Rightarrow> nat option \<times> database" where
  "drain_staging reach db = (let (n, t) = drain reach events_table (db_events db) in (n, db\<lparr>db_events := t\<rparr>))"

definition drain_log_staging :: "bool \<times> bool \<Rightarrow> database \<Rightarrow> nat option \<times> database" where
  "drain_log_staging reach db = (let (n, t) = drain reach logs_table (db_logs db) in (n, db\<lparr>db_logs := t\<rparr>))"

definition drain_span_staging :: "bool \<times> bool \<Rightarrow> database \<Rightarrow> nat option \<times> database" where
  "drain_span_staging reach db = (let (n, t) = drain reach spans_table (db_spans db) in (n, db\<lparr>db_spans := t\<rparr>))"

definition drain_metric_staging :: "bool \<times> bool \<Rightarrow> database \<Rightarrow> nat option \<times> database" where
  "drain_metric_staging reach db = (let (n, t) = drain reach points_table (db_points db) in (n, db\<lparr>db_points := t\<rparr>))"


subsection \<open>Every row has a partition\<close>

definition table_ok :: "('r, 'k) table_kind \<Rightarrow> 'r part_table \<Rightarrow> bool" where
  "table_ok k t \<longleftrightarrow> distinct (pt_days t) \<and> tk_day k ` set (pt_rows t) \<subseteq> set (pt_days t)
     \<and> distinct (map (tk_key k) (pt_rows t))"

lemma create_partition_simps [simp]:
  "set (pt_days (create_partition d t)) = insert d (set (pt_days t))"
  "pt_rows (create_partition d t) = pt_rows t"
  "pt_staging (create_partition d t) = pt_staging t"
  by (auto simp: create_partition_def)

lemma create_partition_ok: "table_ok k t \<Longrightarrow> table_ok k (create_partition d t)"
  by (auto simp: table_ok_def create_partition_def)

lemma create_partitions:
  "set (pt_days (fold create_partition ds t)) = set ds \<union> set (pt_days t)
   \<and> pt_rows (fold create_partition ds t) = pt_rows t \<and> pt_staging (fold create_partition ds t) = pt_staging t
   \<and> (table_ok k t \<longrightarrow> table_ok k (fold create_partition ds t))"
  by (induction ds arbitrary: t) (auto intro: create_partition_ok)

lemma keep_first_subset: "set (keep_first key seen rs) \<subseteq> set rs"
  by (induction key seen rs rule: keep_first.induct) auto

lemma merge_table_result:
  assumes "table_ok k t" "tk_day k ` set (pt_staging t) \<subseteq> set (pt_days t)"
  shows "\<exists>n t'. merge_table k t = Some (n, t') \<and> table_ok k t' \<and> pt_staging t' = []
     \<and> n = length (pt_rows t') - length (pt_rows t)
     \<and> tk_key k ` set (pt_rows t') = tk_key k ` set (pt_rows t) \<union> tk_key k ` set (pt_staging t)
     \<and> prefix (pt_rows t) (pt_rows t')"
proof -
  let ?kept = "keep_first (tk_key k) [] (sort_key (tk_received k) (pt_staging t))"
  have kept: "set ?kept \<subseteq> set (pt_staging t)"
    using keep_first_subset [of "tk_key k" "[]" "sort_key (tk_received k) (pt_staging t)"] by simp
  obtain n rows where m: "merge_staging (tk_key k) (tk_received k) (pt_rows t) (pt_staging t) = (n, rows)" by fastforce
  have "set rows \<subseteq> set (pt_rows t) \<union> set ?kept" using m by (auto simp: merge_staging_def Let_def)
  then have days: "tk_day k ` set rows \<subseteq> set (pt_days t)" using assms kept unfolding table_ok_def by blast
  have keys: "distinct (map (tk_key k) (pt_rows t))" using assms(1) by (simp add: table_ok_def)
  have "\<forall>r\<in>set ?kept. tk_day k r \<in> set (pt_days t)" using kept assms(2) by blast
  then have "merge_table k t = Some (n, t\<lparr>pt_rows := rows, pt_staging := []\<rparr>)"
    unfolding merge_table_def m by simp
  then show ?thesis using merge_keys [OF keys m] days assms(1) by (simp add: table_ok_def)
qed

lemma partitions_for_staging_result:
  "tk_day k ` set (pt_staging t) \<subseteq> set (pt_days (partitions_for_staging k t))
   \<and> pt_rows (partitions_for_staging k t) = pt_rows t \<and> pt_staging (partitions_for_staging k t) = pt_staging t
   \<and> (table_ok k t \<longrightarrow> table_ok k (partitions_for_staging k t))"
  using create_partitions [where k = k and ds = "remdups (map (tk_day k) (pt_staging t))" and t = t]
  by (auto simp: partitions_for_staging_def)

lemma drain_result:
  assumes "table_ok k t"
  shows "\<exists>n t'. drain (True, True) k t = (Some n, t') \<and> table_ok k t' \<and> pt_staging t' = []
     \<and> n = length (pt_rows t') - length (pt_rows t)
     \<and> tk_key k ` set (pt_rows t') = tk_key k ` set (pt_rows t) \<union> tk_key k ` set (pt_staging t)
     \<and> prefix (pt_rows t) (pt_rows t')"
  using merge_table_result [of k "partitions_for_staging k t"] partitions_for_staging_result [of k t] assms
  by (auto simp: drain_def)

lemma ensure_days_result:
  "ensure_days reach ds t = (e, t') \<Longrightarrow> pt_rows t' = pt_rows t \<and> pt_staging t' = pt_staging t
     \<and> set (pt_days t) \<subseteq> set (pt_days t') \<and> set (pt_days t') \<subseteq> set (pt_days t) \<union> set ds
     \<and> (e = None \<longrightarrow> set ds \<subseteq> set (pt_days t')) \<and> (table_ok k t \<longrightarrow> table_ok k t')"
proof (induction ds arbitrary: t)
  case (Cons d ds)
  show ?case
  proof (cases "reach d")
    case True
    then have e: "ensure_days reach ds (create_partition d t) = (e, t')" using Cons.prems by simp
    from Cons.IH [OF e] show ?thesis using create_partition_ok [of k t d] by auto
  next
    case False
    then show ?thesis using Cons.prems by auto
  qed
qed simp

lemma drop_before_ok: "table_ok k t \<Longrightarrow> table_ok k (snd (drop_before k d t))"
  by (auto simp: table_ok_def drop_before_def distinct_map_filter)

text \<open>What the backend does to a table.\<close>

datatype 'r table_op =
    CopyIn "'r list"
  | EnsureWindow "int \<Rightarrow> bool" int int int
  | Purge bool int int
  | DrainOp "bool \<times> bool"

fun table_step :: "('r, 'k) table_kind \<Rightarrow> 'r part_table \<Rightarrow> 'r table_op \<Rightarrow> 'r part_table" where
  "table_step k t (CopyIn rs) = t\<lparr>pt_staging := pt_staging t @ rs\<rparr>"
| "table_step k t (EnsureWindow reach today past_days future_days) = snd (ensure_window reach today past_days future_days t)"
| "table_step k t (Purge reach today retention) = snd (purge_old reach k today retention t)"
| "table_step k t (DrainOp reach) = snd (drain reach k t)"

definition table_new :: "'r part_table" where
  "table_new = \<lparr>pt_days = [], pt_rows = [], pt_staging = []\<rparr>"

definition database_new :: database where
  "database_new = \<lparr>db_events = table_new, db_logs = table_new, db_spans = table_new, db_points = table_new\<rparr>"

lemma table_step_ok: assumes "table_ok k t" shows "table_ok k (table_step k t opn)"
proof (cases opn)
  case (CopyIn rs)
  then show ?thesis using assms by (simp add: table_ok_def)
next
  case (EnsureWindow reach today p f)
  obtain e t' where "ensure_window reach today p f t = (e, t')" by fastforce
  then show ?thesis using EnsureWindow assms ensure_days_result [where k = k] by (fastforce simp: ensure_window_def)
next
  case (Purge reach today r)
  then show ?thesis using assms drop_before_ok [of k t "today - r"]
    by (cases "drop_before k (today - r) t") (simp add: purge_old_def)
next
  case (DrainOp reach)
  have "table_ok k (partitions_for_staging k t)" using partitions_for_staging_result [of k t] assms by simp
  then show ?thesis
    using DrainOp assms merge_table_result [of k "partitions_for_staging k t"] partitions_for_staging_result [of k t]
    by (auto simp: drain_def Let_def)
qed

lemma table_run_ok: "table_ok k t \<Longrightarrow> table_ok k (foldl (table_step k) t ops)"
  by (induction ops arbitrary: t) (auto intro: table_step_ok)

text \<open>C24. Whatever the backend did to a table before, failures of the database included, every row lies in an
  existing partition and no two rows share a key; a drain that reaches the database then never fails for
  lack of a partition, empties the staging table and stores exactly the keys that were waiting.\<close>
theorem drain_never_lacks_a_partition:
  "(let t = foldl (table_step k) table_new ops; t' = snd (drain (True, True) k t) in
      tk_day k ` set (pt_rows t) \<subseteq> set (pt_days t) \<and> distinct (map (tk_key k) (pt_rows t))
      \<and> fst (drain (True, True) k t) = Some (length (pt_rows t') - length (pt_rows t))
      \<and> pt_staging t' = []
      \<and> tk_key k ` set (pt_rows t') = tk_key k ` set (pt_rows t) \<union> tk_key k ` set (pt_staging t)
      \<and> prefix (pt_rows t) (pt_rows t'))"
proof -
  have "table_ok k table_new" by (simp add: table_ok_def table_new_def)
  then have ok: "table_ok k (foldl (table_step k) table_new ops)" by (rule table_run_ok)
  then show ?thesis using drain_result [OF ok] by (auto simp: table_ok_def Let_def)
qed

end
