(* ===== verification/Service.thy ===== *)
theory Service
  imports Api Partitions
begin

text \<open>
  The service as a whole: what a run of the handlers of \<^verbatim>\<open>Api\<close> does to each of the four batchers of
  \<^verbatim>\<open>Ingest\<close>, the bounds on what the service keeps in memory, and the stop of
  \<^verbatim>\<open>backend/src/main.rs\<close>: the servers first, then the batchers one after the other. Each batcher
  writes its own table of \<^verbatim>\<open>Partitions\<close>; the database it carries is its view of that table.
\<close>

subsection \<open>The phases of a batcher are ordered\<close>

fun phase_rank :: "phase \<Rightarrow> nat" where
  "phase_rank Running = 0"
| "phase_rank Draining = 1"
| "phase_rank Closing = 2"
| "phase_rank Stopped = 3"

lemma phase_rank_inj: "phase_rank p = phase_rank q \<Longrightarrow> p = q"
  by (cases p; cases q) simp_all

instantiation phase :: linorder
begin

definition less_eq_phase :: "phase \<Rightarrow> phase \<Rightarrow> bool" where
  "less_eq_phase p q \<longleftrightarrow> phase_rank p \<le> phase_rank q"

definition less_phase :: "phase \<Rightarrow> phase \<Rightarrow> bool" where
  "less_phase p q \<longleftrightarrow> phase_rank p < phase_rank q"

instance
  by standard (auto simp: less_eq_phase_def less_phase_def dest: phase_rank_inj)

end

lemma flush_keeps [simp]:
  "ba_phase (snd (flush store b)) = ba_phase b" "ba_chan (snd (flush store b)) = ba_chan b"
  by (auto simp: flush_def Let_def split_beta)

lemma take_batch_keeps [simp]:
  "ba_phase (snd (take_batch store bsize batch c b)) = ba_phase b"
  "ba_chan (snd (take_batch store bsize batch c b)) = c"
  by (auto simp: take_batch_def Let_def)

lemma try_enqueue_phase [simp]: "ba_phase (snd (try_enqueue batch b)) = ba_phase b"
  by (auto simp: try_enqueue_def Let_def split: option.split)

lemma phase_advances: "ba_phase b \<le> ba_phase (snd (batcher_step store bsize e b))"
  by (cases e) (auto simp: less_eq_phase_def split_beta split: option.split)

subsection \<open>The counters of drops do not matter\<close>

text \<open>A batcher up to the two counters that the handlers move before they send.\<close>

definition core :: "('r, 'db) batcher \<Rightarrow> ('r, 'db) batcher" where
  "core b = b\<lparr>ba_metrics := (ba_metrics b)\<lparr>dropped_skew_total := 0, dropped_oversized_total := 0\<rparr>\<rparr>"

lemma core_simps [simp]:
  "ba_chan (core b) = ba_chan b" "ba_buf (core b) = ba_buf b" "ba_db (core b) = ba_db b"
  "ba_phase (core b) = ba_phase b" "core (add_skew n b) = core b"
  "core (b\<lparr>ba_metrics := m\<lparr>dropped_skew_total := d\<rparr>\<rparr>) = core (b\<lparr>ba_metrics := m\<rparr>)"
  "core (b\<lparr>ba_metrics := m\<lparr>dropped_oversized_total := d\<rparr>\<rparr>) = core (b\<lparr>ba_metrics := m\<rparr>)"
  by (simp_all add: core_def add_skew_def)

lemma core_spawn [simp]: "core (spawn_batcher cap db) = spawn_batcher cap db"
  by (simp add: core_def spawn_batcher_def metrics_zero_def)

lemma core_drop: "drop_oversized mx f xs (ba_metrics b) = (d, kept, m) \<Longrightarrow> core (b\<lparr>ba_metrics := m\<rparr>) = core b"
  by (auto simp: drop_oversized_def Let_def)

lemma core_enqueue: "core (snd (try_enqueue batch b)) = snd (try_enqueue batch (core b))"
  by (cases "chan_send batch (ba_chan b)") (simp_all add: try_enqueue_def Let_def core_def)

lemma core_flush: "flush store (core b) = (fst (flush store b), core (snd (flush store b)))"
  by (cases "store (ba_db b) (ba_buf b)")
    (auto simp: flush_def Let_def core_def split: option.split)

lemma core_take: "take_batch store bsize batch c (core b)
    = (fst (take_batch store bsize batch c b), core (snd (take_batch store bsize batch c b)))"
proof -
  have "(core b)\<lparr>ba_chan := c, ba_buf := ba_buf (core b) @ batch\<rparr> = core (b\<lparr>ba_chan := c, ba_buf := ba_buf b @ batch\<rparr>)"
    by (simp add: core_def)
  then show ?thesis by (simp only: take_batch_def Let_def core_flush core_simps) simp
qed

lemma core_update [simp]:
  "core (b\<lparr>ba_phase := p\<rparr>) = (core b)\<lparr>ba_phase := p\<rparr>"
  "core (b\<lparr>ba_chan := c\<rparr>) = (core b)\<lparr>ba_chan := c\<rparr>"
  by (simp_all add: core_def)

lemma core_step:
  "batcher_step store bsize e (core b) = (fst (batcher_step store bsize e b), core (snd (batcher_step store bsize e b)))"
  by (cases e) (simp_all add: core_enqueue core_take core_flush split_beta split: option.split)

subsection \<open>What a handler sends\<close>

text \<open>The records of a request that are not oversized: what the admission sends to the batcher.\<close>

definition kept_records :: "api_env \<Rightarrow> ('r \<Rightarrow> nat) \<Rightarrow> 'r parse \<Rightarrow> 'r list" where
  "kept_records env size_of p = filter (\<lambda>r. size_of r \<le> max_otlp_record_bytes (ae_limits env)) (pa_stored p)"

definition fresh_events :: "request \<Rightarrow> validation_limits \<Rightarrow> ingest_body option \<Rightarrow> stored_event list" where
  "fresh_events q limits body =
     (case body of None \<Rightarrow> [] | Some b \<Rightarrow>
        map (\<lambda>ev. normalised ev (rq_received_at q))
          (filter (\<lambda>ev. \<not> out_of_skew limits (rq_received_at q) (ie_timestamp_client ev)) (ib_events b)))"

text \<open>A request acts on a batcher as the send of \<open>batch\<close>, or not at all, depending on its answer.\<close>

definition sends :: "('r, 'db) batcher \<Rightarrow> ('r, 'db) batcher \<Rightarrow> bool \<Rightarrow> 'r list \<Rightarrow> bool" where
  "sends b b' ok batch \<longleftrightarrow> core b' = (if ok then snd (try_enqueue batch (core b)) else core b)"

context stream
begin

lemma accept_sends:
  assumes "\<And>ip now st. get_b (blame ip now st) = get_b st"
  shows "sends (get_b st) (get_b (snd (accept_records env size_of service_of get_b set_b ip now p st)))
    (is_ok (fst (accept_records env size_of service_of get_b set_b ip now p st))) (kept_records env size_of p)"
proof -
  obtain dropped kept m where d: "drop_oversized (max_otlp_record_bytes (ae_limits env)) size_of (pa_stored p)
      (ba_metrics (get_b st)) = (dropped, kept, m)"
    by (cases "drop_oversized (max_otlp_record_bytes (ae_limits env)) size_of (pa_stored p) (ba_metrics (get_b st))")
  have kept: "kept_records env size_of p = kept"
    using drop_oversized_simps [OF d] by (simp add: kept_records_def)
  show ?thesis
    by (simp add: accept_records_def Let_def d sends_def assms get_set get_limiter core_drop [OF d]
        core_enqueue kept split_beta split: decision.split)
qed

text \<open>The answer counts the records that were kept and not queued.\<close>

lemma accept_counts:
  assumes "accept_records env size_of service_of get_b set_b ip now p st = (Inr (k, n), st')"
  shows "k = length (kept_records env size_of p)
    \<and> n = (if chan_send (kept_records env size_of p) (ba_chan (get_b st)) = None then 0 else k)"
proof -
  obtain dropped kept m where d: "drop_oversized (max_otlp_record_bytes (ae_limits env)) size_of (pa_stored p)
      (ba_metrics (get_b st)) = (dropped, kept, m)"
    by (cases "drop_oversized (max_otlp_record_bytes (ae_limits env)) size_of (pa_stored p) (ba_metrics (get_b st))")
  have kept: "kept_records env size_of p = kept"
    using drop_oversized_simps [OF d] by (simp add: kept_records_def)
  show ?thesis using assms
    by (auto simp: accept_records_def Let_def d get_set get_limiter kept try_enqueue_def split_beta
        split: if_splits decision.splits option.splits)
qed

end

text \<open>A part of the state that neither the stream nor the guards contain is left alone.\<close>

lemma accept_keeps:
  assumes "\<And>b st. f (set_b b st) = f st" "\<And>rl st. f (st\<lparr>as_limiter := rl\<rparr>) = f st" "\<And>ip now st. f (blame ip now st) = f st"
  shows "f (snd (accept_records env size_of service_of get_b set_b ip now p st)) = f st"
  by (simp add: accept_records_def Let_def split_beta assms split: decision.split)

lemma otlp_flow_keeps:
  assumes "\<And>p st. f (snd (accept ip now p st)) = f st" "\<And>g st. f (st\<lparr>as_anomaly := g\<rparr>) = f st"
  shows "f (snd (otlp_flow env ip now token body accept st)) = f st"
  by (simp add: otlp_flow_def Let_def authorize_logs_def blame_def split_beta assms split: sum.split option.split)

lemma otlp_flow_sends:
  assumes "\<And>p st. sends (get_b st) (get_b (snd (accept ip now p st))) (is_ok (fst (accept ip now p st))) (batch p)"
    and "\<And>g st. get_b (st\<lparr>as_anomaly := g\<rparr>) = get_b st"
  shows "sends (get_b st) (get_b (snd (otlp_flow env ip now token body accept st)))
    (is_ok (fst (otlp_flow env ip now token body accept st))) (case body of Some p \<Rightarrow> batch p | None \<Rightarrow> [])"
proof -
  obtain banned guard where b: "is_banned ip now (as_anomaly st) = (banned, guard)" by fastforce
  have blamed: "get_b (blame ip now st) = get_b st" for st by (simp add: blame_def assms(2))
  have not: "sends (get_b st) (get_b st) False ys" for ys by (simp add: sends_def)
  show ?thesis
  proof (cases "banned \<or> body = None")
    case True
    then show ?thesis
      by (auto simp: otlp_flow_def b Let_def authorize_logs_def blamed assms(2) not split: sum.split option.split)
  next
    case False
    then obtain p where p: "body = Some p" "\<not> banned" by auto
    show ?thesis
    proof (cases "check_service_token (ae_verify env) (cfg_logs_auth (ae_cfg env)) token")
      case (Inl msg)
      then show ?thesis by (simp add: otlp_flow_def b Let_def authorize_logs_def blamed assms(2) p not)
    next
      case (Inr u)
      obtain res st3 where acc: "accept ip now p (st\<lparr>as_anomaly := guard\<rparr>) = (res, st3)" by fastforce
      have "otlp_flow env ip now token body accept st = (case res of Inl e \<Rightarrow> Inl e | Inr (k, n) \<Rightarrow> Inr (k - n), st3)"
        by (simp add: otlp_flow_def b Let_def authorize_logs_def p Inr acc split: sum.split)
      then show ?thesis using assms(1) [of "st\<lparr>as_anomaly := guard\<rparr>" p] acc p
        by (cases res) (auto simp: assms(2))
    qed
  qed
qed

lemma ingest_events_sends:
  "sends (as_events st) (as_events (snd (ingest_events env q body st))) (is_ok (fst (ingest_events env q body st)))
     (fresh_events q (ae_limits env) body)"
proof -
  obtain banned guard where b: "is_banned (request_ip env q) (rq_now q) (as_anomaly st) = (banned, guard)" by fastforce
  note start = ingest_events_def [of env q body st, unfolded Let_def b prod.case]
  have not: "sends c c False ys" for c ys by (simp add: sends_def)
  show ?thesis
  proof (cases "banned \<or> body = None")
    case True
    then show ?thesis by (auto simp: start not split: option.split)
  next
    case False
    then obtain parsed where parsed: "body = Some parsed" "\<not> banned" by auto
    note start = start [unfolded parsed(1) option.case]
    show ?thesis
    proof (cases "check_events (ae_ser env) (rq_received_at q) (ae_limits env) 0 (ib_events parsed)")
      case (Inl e)
      then show ?thesis unfolding parsed(1)
        by (simp add: start parsed(2) not split_beta split: sum.split decision.split)
    next
      case (Inr res)
      obtain stored skew where res: "res = (stored, skew)" by fastforce
      have "stored = fresh_events q (ae_limits env) (Some parsed)"
        using check_events_exact [OF Inr [unfolded res]] by (simp add: fresh_events_def)
      then show ?thesis unfolding parsed(1)
        by (simp add: start parsed(2) not Inr res sends_def core_enqueue split_beta split: sum.split decision.split)
    qed
  qed
qed

text \<open>The records that a request carries, for each of the three OpenTelemetry streams.\<close>

fun log_parse :: "api_env \<Rightarrow> api_op \<Rightarrow> stored_log parse option" where
  "log_parse env (PostLogs q b) = map_option (\<lambda>req. otlp_to_logs (ae_ser env) (pe_digest (ae_encoding env)) req
     (rq_received_at q) (ae_limits env) (max_logs_records (ae_cfg env))) b"
| "log_parse env (GrpcLogs now d p m r) = Some (proto_to_logs (ae_ser env) (pe_digest (ae_encoding env)) r d
     (ae_limits env) (max_logs_records (ae_cfg env)))"
| "log_parse env _ = None"

fun span_parse :: "api_env \<Rightarrow> api_op \<Rightarrow> stored_span parse option" where
  "span_parse env (PostTraces q b) = map_option (\<lambda>req. otlp_to_spans (ae_rfc3339 env) req (rq_received_at q)
     (ae_limits env) (max_logs_records (ae_cfg env))) b"
| "span_parse env (GrpcTraces now d p m r) = Some (proto_to_spans (ae_rfc3339 env) r d (ae_limits env)
     (max_logs_records (ae_cfg env)))"
| "span_parse env _ = None"

fun point_parse :: "api_env \<Rightarrow> api_op \<Rightarrow> stored_metric_point parse option" where
  "point_parse env (PostMetrics q b) = map_option (\<lambda>req. otlp_to_metrics (ae_encoding env) req (rq_received_at q)
     (ae_limits env) (max_logs_records (ae_cfg env))) b"
| "point_parse env (GrpcMetrics now d p m r) = Some (proto_to_metrics (ae_encoding env) r d (ae_limits env)
     (max_logs_records (ae_cfg env)))"
| "point_parse env _ = None"

fun event_batch :: "api_env \<Rightarrow> api_op \<Rightarrow> stored_event list" where
  "event_batch env (PostEvents q b) = fresh_events q (ae_limits env) b"
| "event_batch env _ = []"

definition log_batch :: "api_env \<Rightarrow> api_op \<Rightarrow> stored_log list" where
  "log_batch env op = (case log_parse env op of None \<Rightarrow> [] | Some p \<Rightarrow> kept_records env (log_content_bytes (ae_ser env)) p)"

definition span_batch :: "api_env \<Rightarrow> api_op \<Rightarrow> stored_span list" where
  "span_batch env op = (case span_parse env op of None \<Rightarrow> [] | Some p \<Rightarrow> kept_records env (span_content_bytes (ae_ser env)) p)"

definition point_batch :: "api_env \<Rightarrow> api_op \<Rightarrow> stored_metric_point list" where
  "point_batch env op = (case point_parse env op of None \<Rightarrow> [] | Some p \<Rightarrow> kept_records env (point_content_bytes (ae_ser env)) p)"

lemma accepts_send:
  "sends (as_logs st) (as_logs (snd (accept_logs env ip now lp st))) (is_ok (fst (accept_logs env ip now lp st)))
     (kept_records env (log_content_bytes (ae_ser env)) lp)"
  "sends (as_spans st) (as_spans (snd (accept_spans env ip now sp st))) (is_ok (fst (accept_spans env ip now sp st)))
     (kept_records env (span_content_bytes (ae_ser env)) sp)"
  "sends (as_points st) (as_points (snd (accept_metric_points env ip now pp st)))
     (is_ok (fst (accept_metric_points env ip now pp st))) (kept_records env (point_content_bytes (ae_ser env)) pp)"
  unfolding accept_logs_def accept_spans_def accept_metric_points_def
  by (rule log_stream.accept_sends span_stream.accept_sends point_stream.accept_sends; simp)+

lemma accepts_keep [simp]:
  "as_events (snd (accept_logs env ip now lp st)) = as_events st"
  "as_spans (snd (accept_logs env ip now lp st)) = as_spans st"
  "as_points (snd (accept_logs env ip now lp st)) = as_points st"
  "as_events (snd (accept_spans env ip now sp st)) = as_events st"
  "as_logs (snd (accept_spans env ip now sp st)) = as_logs st"
  "as_points (snd (accept_spans env ip now sp st)) = as_points st"
  "as_events (snd (accept_metric_points env ip now pp st)) = as_events st"
  "as_logs (snd (accept_metric_points env ip now pp st)) = as_logs st"
  "as_spans (snd (accept_metric_points env ip now pp st)) = as_spans st"
  unfolding accept_logs_def accept_spans_def accept_metric_points_def
  by (rule accept_keeps; simp)+

lemmas handler_defs = ingest_logs_def ingest_traces_def ingest_metrics_def export_logs_def export_traces_def
  export_metrics_def

lemma handlers_keep [simp]:
  "as_events (snd (ingest_logs env q lb st)) = as_events st"
  "as_spans (snd (ingest_logs env q lb st)) = as_spans st"
  "as_points (snd (ingest_logs env q lb st)) = as_points st"
  "as_events (snd (export_logs env now d p m lr st)) = as_events st"
  "as_spans (snd (export_logs env now d p m lr st)) = as_spans st"
  "as_points (snd (export_logs env now d p m lr st)) = as_points st"
  "as_events (snd (ingest_traces env q sb st)) = as_events st"
  "as_logs (snd (ingest_traces env q sb st)) = as_logs st"
  "as_points (snd (ingest_traces env q sb st)) = as_points st"
  "as_events (snd (export_traces env now d p m sr st)) = as_events st"
  "as_logs (snd (export_traces env now d p m sr st)) = as_logs st"
  "as_points (snd (export_traces env now d p m sr st)) = as_points st"
  "as_events (snd (ingest_metrics env q mb st)) = as_events st"
  "as_logs (snd (ingest_metrics env q mb st)) = as_logs st"
  "as_spans (snd (ingest_metrics env q mb st)) = as_spans st"
  "as_events (snd (export_metrics env now d p m mr st)) = as_events st"
  "as_logs (snd (export_metrics env now d p m mr st)) = as_logs st"
  "as_spans (snd (export_metrics env now d p m mr st)) = as_spans st"
  unfolding handler_defs grpc_answer_ok by (rule otlp_flow_keeps; simp)+

lemma ingest_events_keep [simp]:
  "as_logs (snd (ingest_events env q body st)) = as_logs st"
  "as_spans (snd (ingest_events env q body st)) = as_spans st"
  "as_points (snd (ingest_events env q body st)) = as_points st"
  by (simp_all add: ingest_events_def Let_def split_beta split: option.split sum.split decision.split)

lemma heartbeat_keep [simp]:
  "as_events (snd (heartbeat env h i d st)) = as_events st"
  "as_logs (snd (heartbeat env h i d st)) = as_logs st"
  "as_spans (snd (heartbeat env h i d st)) = as_spans st"
  "as_points (snd (heartbeat env h i d st)) = as_points st"
  by (simp_all add: heartbeat_def Let_def split: sum.split)

subsection \<open>Interface: a component of a larger machine\<close>

text \<open>
  A component is read off the state of a machine, and each step of the machine acts on it as a list
  of its own events. The client lemma is that a run of the machine is a run of the component alone,
  over the trace of these events: what is proved of the component over any events holds in the machine.
\<close>

fun trace :: "('s \<Rightarrow> 'o \<Rightarrow> 'e list) \<Rightarrow> ('o \<Rightarrow> 's \<Rightarrow> 's) \<Rightarrow> 'o list \<Rightarrow> 's \<Rightarrow> 'e list" where
  "trace ev stp [] st = []"
| "trace ev stp (op # ops) st = ev st op @ trace ev stp ops (stp op st)"

lemma trace_append: "trace ev stp (xs @ ys) st = trace ev stp xs st @ trace ev stp ys (fold stp xs st)"
  by (induction xs arbitrary: st) simp_all

locale component =
  fixes part :: "'s \<Rightarrow> 'a"
    and ev :: "'s \<Rightarrow> 'o \<Rightarrow> 'e list"
    and mstep :: "'o \<Rightarrow> 's \<Rightarrow> 's"
    and pstep :: "'e \<Rightarrow> 'a \<Rightarrow> 'a"
  assumes step_simulates: "part (mstep op st) = fold pstep (ev st op) (part st)"
begin

lemma run_simulates: "part (fold mstep ops st) = fold pstep (trace ev mstep ops st) (part st)"
  by (induction ops arbitrary: st) (simp_all add: step_simulates)

end

lemma batcher_run_fold: "snd (batcher_run store bsize es b) = fold (\<lambda>e b. snd (batcher_step store bsize e b)) es b"
  by (induction es arbitrary: b) (simp_all add: split_beta)

subsection \<open>The four batchers are components of the service\<close>

fun request_on :: "api_op \<Rightarrow> string" where
  "request_on (PostEvents q b) = ''events''"
| "request_on (PostLogs q b) = ''logs''"
| "request_on (GrpcLogs now d p m r) = ''logs''"
| "request_on (PostTraces q b) = ''traces''"
| "request_on (GrpcTraces now d p m r) = ''traces''"
| "request_on (PostMetrics q b) = ''metrics''"
| "request_on (GrpcMetrics now d p m r) = ''metrics''"
| "request_on _ = ''''"

fun events_ev :: "api_env \<Rightarrow> 'db app_state \<Rightarrow> api_op \<Rightarrow> stored_event batcher_event list" where
  "events_ev env st (EventsTask now t) = [task_event t]"
| "events_ev env st op = (if request_on op = ''events'' \<and> \<not> refused env op st then [Enqueue (event_batch env op)] else [])"

fun logs_ev :: "api_env \<Rightarrow> 'db app_state \<Rightarrow> api_op \<Rightarrow> stored_log batcher_event list" where
  "logs_ev env st (LogsTask now t) = [task_event t]"
| "logs_ev env st op = (if request_on op = ''logs'' \<and> \<not> refused env op st then [Enqueue (log_batch env op)] else [])"

fun spans_ev :: "api_env \<Rightarrow> 'db app_state \<Rightarrow> api_op \<Rightarrow> stored_span batcher_event list" where
  "spans_ev env st (SpansTask now t) = [task_event t]"
| "spans_ev env st op = (if request_on op = ''traces'' \<and> \<not> refused env op st then [Enqueue (span_batch env op)] else [])"

fun points_ev :: "api_env \<Rightarrow> 'db app_state \<Rightarrow> api_op \<Rightarrow> stored_metric_point batcher_event list" where
  "points_ev env st (PointsTask now t) = [task_event t]"
| "points_ev env st op = (if request_on op = ''metrics'' \<and> \<not> refused env op st then [Enqueue (point_batch env op)] else [])"

lemma sendsD: "sends b b' ok batch \<Longrightarrow>
    core b' = fold (\<lambda>e b. snd (batcher_step store bsize e b)) (if ok then [Enqueue batch] else []) (core b)"
  by (simp add: sends_def)

lemma log_sends:
  "sends (as_logs st) (as_logs (snd (ingest_logs env q b st))) (is_ok (fst (ingest_logs env q b st))) (log_batch env (PostLogs q b))"
  "sends (as_logs st) (as_logs (snd (export_logs env now d p m r st))) (is_ok (fst (export_logs env now d p m r st)))
     (log_batch env (GrpcLogs now d p m r))"
  unfolding handler_defs grpc_answer_ok log_batch_def log_parse.simps
  by (rule otlp_flow_sends [where batch = "kept_records env (log_content_bytes (ae_ser env))"]; simp add: accepts_send)+

lemma span_sends:
  "sends (as_spans st) (as_spans (snd (ingest_traces env q b st))) (is_ok (fst (ingest_traces env q b st))) (span_batch env (PostTraces q b))"
  "sends (as_spans st) (as_spans (snd (export_traces env now d p m r st))) (is_ok (fst (export_traces env now d p m r st)))
     (span_batch env (GrpcTraces now d p m r))"
  unfolding handler_defs grpc_answer_ok span_batch_def span_parse.simps
  by (rule otlp_flow_sends [where batch = "kept_records env (span_content_bytes (ae_ser env))"]; simp add: accepts_send)+

lemma point_sends:
  "sends (as_points st) (as_points (snd (ingest_metrics env q b st))) (is_ok (fst (ingest_metrics env q b st))) (point_batch env (PostMetrics q b))"
  "sends (as_points st) (as_points (snd (export_metrics env now d p m r st))) (is_ok (fst (export_metrics env now d p m r st)))
     (point_batch env (GrpcMetrics now d p m r))"
  unfolding handler_defs grpc_answer_ok point_batch_def point_parse.simps
  by (rule otlp_flow_sends [where batch = "kept_records env (point_content_bytes (ae_ser env))"]; simp add: accepts_send)+

interpretation events_part: component "\<lambda>st. core (as_events st)" "events_ev env" "api_step env so"
    "\<lambda>e b. snd (batcher_step (so_events so) (so_bsize so) e b)" for env so
proof
  show "core (as_events (api_step env so op st))
      = fold (\<lambda>e b. snd (batcher_step (so_events so) (so_bsize so) e b)) (events_ev env st op) (core (as_events st))" for op st
    by (cases op) (simp_all add: ingest_events_sends [THEN sendsD [where store = "so_events so" and bsize = "so_bsize so"]] core_step)
qed

interpretation logs_part: component "\<lambda>st. core (as_logs st)" "logs_ev env" "api_step env so"
    "\<lambda>e b. snd (batcher_step (so_logs so) (so_bsize so) e b)" for env so
proof
  show "core (as_logs (api_step env so op st))
      = fold (\<lambda>e b. snd (batcher_step (so_logs so) (so_bsize so) e b)) (logs_ev env st op) (core (as_logs st))" for op st
    by (cases op) (simp_all add: log_sends [THEN sendsD [where store = "so_logs so" and bsize = "so_bsize so"]] core_step)
qed

interpretation spans_part: component "\<lambda>st. core (as_spans st)" "spans_ev env" "api_step env so"
    "\<lambda>e b. snd (batcher_step (so_spans so) (so_bsize so) e b)" for env so
proof
  show "core (as_spans (api_step env so op st))
      = fold (\<lambda>e b. snd (batcher_step (so_spans so) (so_bsize so) e b)) (spans_ev env st op) (core (as_spans st))" for op st
    by (cases op) (simp_all add: span_sends [THEN sendsD [where store = "so_spans so" and bsize = "so_bsize so"]] core_step)
qed

interpretation points_part: component "\<lambda>st. core (as_points st)" "points_ev env" "api_step env so"
    "\<lambda>e b. snd (batcher_step (so_points so) (so_bsize so) e b)" for env so
proof
  show "core (as_points (api_step env so op st))
      = fold (\<lambda>e b. snd (batcher_step (so_points so) (so_bsize so) e b)) (points_ev env st op) (core (as_points st))" for op st
    by (cases op) (simp_all add: point_sends [THEN sendsD [where store = "so_points so" and bsize = "so_bsize so"]] core_step)
qed

subsection \<open>What an acknowledgement promises\<close>

text \<open>
  An acknowledgement: a batch of events is answered with the number of queued events, which is not
  zero; a request of OpenTelemetry records with no rejected record.
\<close>

fun acked :: "api_env \<Rightarrow> api_op \<Rightarrow> 'db app_state \<Rightarrow> bool" where
  "acked env (PostEvents q b) st \<longleftrightarrow> (case fst (ingest_events env q b st) of Inl e \<Rightarrow> False | Inr n \<Rightarrow> 0 < n)"
| "acked env (PostLogs q b) st \<longleftrightarrow> fst (ingest_logs env q b st) = Inr 0"
| "acked env (PostTraces q b) st \<longleftrightarrow> fst (ingest_traces env q b st) = Inr 0"
| "acked env (PostMetrics q b) st \<longleftrightarrow> fst (ingest_metrics env q b st) = Inr 0"
| "acked env (GrpcLogs now d p m r) st \<longleftrightarrow> fst (export_logs env now d p m r st) = Inr 0"
| "acked env (GrpcTraces now d p m r) st \<longleftrightarrow> fst (export_traces env now d p m r st) = Inr 0"
| "acked env (GrpcMetrics now d p m r) st \<longleftrightarrow> fst (export_metrics env now d p m r st) = Inr 0"
| "acked env _ st \<longleftrightarrow> False"

definition acked_events :: "api_env \<Rightarrow> 'db app_state \<Rightarrow> api_op \<Rightarrow> stored_event list" where
  "acked_events env st op = (if acked env op st then event_batch env op else [])"

definition acked_logs :: "api_env \<Rightarrow> 'db app_state \<Rightarrow> api_op \<Rightarrow> stored_log list" where
  "acked_logs env st op = (if acked env op st then log_batch env op else [])"

definition acked_spans :: "api_env \<Rightarrow> 'db app_state \<Rightarrow> api_op \<Rightarrow> stored_span list" where
  "acked_spans env st op = (if acked env op st then span_batch env op else [])"

definition acked_points :: "api_env \<Rightarrow> 'db app_state \<Rightarrow> api_op \<Rightarrow> stored_metric_point list" where
  "acked_points env st op = (if acked env op st then point_batch env op else [])"

text \<open>A batch of events counts its events or nothing; a request of records, the records that were not queued.\<close>

definition counts_events :: "'r list \<Rightarrow> ('r, 'db) batcher \<Rightarrow> (app_error + nat) \<Rightarrow> bool" where
  "counts_events batch b r \<longleftrightarrow>
     (\<forall>n. r = Inr n \<longrightarrow> n = (if chan_send batch (ba_chan b) = None then 0 else length batch))"

definition counts_rejected :: "'r list \<Rightarrow> ('r, 'db) batcher \<Rightarrow> ('e + nat) \<Rightarrow> bool" where
  "counts_rejected batch b r \<longleftrightarrow>
     (\<forall>n. r = Inr n \<longrightarrow> n = (if chan_send batch (ba_chan b) = None then length batch else 0))"

lemma counts_errors [simp]: "counts_events batch b (Inl e)" "counts_rejected batch b (Inl e')"
  by (simp_all add: counts_events_def counts_rejected_def)

lemma ingest_events_counts:
  "counts_events (fresh_events q (ae_limits env) body) (as_events st) (fst (ingest_events env q body st))"
proof -
  obtain banned guard where b: "is_banned (request_ip env q) (rq_now q) (as_anomaly st) = (banned, guard)" by fastforce
  note start = ingest_events_def [of env q body st, unfolded Let_def b prod.case]
  show ?thesis
  proof (cases "banned \<or> body = None")
    case True
    then show ?thesis by (auto simp: start split: option.split)
  next
    case False
    then obtain parsed where parsed: "body = Some parsed" "\<not> banned" by auto
    note start = start [unfolded parsed(1) option.case]
    show ?thesis
    proof (cases "check_events (ae_ser env) (rq_received_at q) (ae_limits env) 0 (ib_events parsed)")
      case (Inl e)
      then show ?thesis unfolding parsed(1)
        by (simp add: start parsed(2) split_beta split: sum.split decision.split)
    next
      case (Inr res)
      obtain stored skew where res: "res = (stored, skew)" by fastforce
      have "stored = fresh_events q (ae_limits env) (Some parsed)"
        using check_events_exact [OF Inr [unfolded res]] by (simp add: fresh_events_def)
      then show ?thesis unfolding parsed(1)
        by (simp add: start parsed(2) Inr res split_beta split: sum.split decision.split)
          (auto simp: counts_events_def try_enqueue_def Let_def)
    qed
  qed
qed

lemma otlp_flow_counts:
  assumes "\<And>p st k n st'. accept ip now p st = (Inr (k, n), st') \<Longrightarrow>
      k = length (batch p) \<and> n = (if chan_send (batch p) (ba_chan (get_b st)) = None then 0 else k)"
    and "\<And>g st. get_b (st\<lparr>as_anomaly := g\<rparr>) = get_b st"
  shows "counts_rejected (case body of Some p \<Rightarrow> batch p | None \<Rightarrow> []) (get_b st)
    (fst (otlp_flow env ip now token body accept st))"
proof -
  obtain banned guard where b: "is_banned ip now (as_anomaly st) = (banned, guard)" by fastforce
  show ?thesis
  proof (cases "banned \<or> body = None \<or> \<not> is_ok (check_service_token (ae_verify env) (cfg_logs_auth (ae_cfg env)) token)")
    case True
    then show ?thesis
      by (auto simp: otlp_flow_def b Let_def authorize_logs_def split: sum.split option.split)
  next
    case False
    then obtain p u where p: "body = Some p" "\<not> banned" "check_service_token (ae_verify env) (cfg_logs_auth (ae_cfg env)) token = Inr u"
      by (cases "check_service_token (ae_verify env) (cfg_logs_auth (ae_cfg env)) token") auto
    obtain res st3 where acc: "accept ip now p (st\<lparr>as_anomaly := guard\<rparr>) = (res, st3)" by fastforce
    have flow: "otlp_flow env ip now token body accept st = (case res of Inl e \<Rightarrow> Inl e | Inr (k, n) \<Rightarrow> Inr (k - n), st3)"
      by (simp add: otlp_flow_def b Let_def authorize_logs_def p acc split: sum.split)
    show ?thesis
    proof (cases res)
      case (Inr kn)
      obtain k n where kn: "kn = (k, n)" by fastforce
      from assms(1) [OF acc [unfolded Inr kn]] show ?thesis unfolding flow
        by (simp add: Inr kn p counts_rejected_def assms(2))
    qed (simp add: flow)
  qed
qed

lemma counts_grpc: "counts_rejected batch b (fst x) \<Longrightarrow> counts_rejected batch b (fst (grpc_answer x))"
  by (cases "fst x") (simp_all add: grpc_answer_def counts_rejected_def)

lemma log_counts:
  "counts_rejected (log_batch env (PostLogs q b)) (as_logs st) (fst (ingest_logs env q b st))"
  "counts_rejected (log_batch env (GrpcLogs now d p m r)) (as_logs st) (fst (export_logs env now d p m r st))"
proof -
  have c: "k = length (kept_records env (log_content_bytes (ae_ser env)) lp)
      \<and> n = (if chan_send (kept_records env (log_content_bytes (ae_ser env)) lp) (ba_chan (as_logs st)) = None then 0 else k)"
    if "accept_logs env ip now lp st = (Inr (k, n), st')" for ip now lp k n and st st' :: "'c app_state"
    using log_stream.accept_counts [OF that [unfolded accept_logs_def]] .
  note flow = otlp_flow_counts [where get_b = as_logs and batch = "kept_records env (log_content_bytes (ae_ser env))"
      and accept = "accept_logs env", OF c]
  show "counts_rejected (log_batch env (PostLogs q b)) (as_logs st) (fst (ingest_logs env q b st))"
    unfolding handler_defs log_batch_def log_parse.simps by (rule flow) simp_all
  show "counts_rejected (log_batch env (GrpcLogs now d p m r)) (as_logs st) (fst (export_logs env now d p m r st))"
    unfolding handler_defs log_batch_def log_parse.simps by (rule counts_grpc, rule flow) simp_all
qed

lemma span_counts:
  "counts_rejected (span_batch env (PostTraces q b)) (as_spans st) (fst (ingest_traces env q b st))"
  "counts_rejected (span_batch env (GrpcTraces now d p m r)) (as_spans st) (fst (export_traces env now d p m r st))"
proof -
  have c: "k = length (kept_records env (span_content_bytes (ae_ser env)) lp)
      \<and> n = (if chan_send (kept_records env (span_content_bytes (ae_ser env)) lp) (ba_chan (as_spans st)) = None then 0 else k)"
    if "accept_spans env ip now lp st = (Inr (k, n), st')" for ip now lp k n and st st' :: "'c app_state"
    using span_stream.accept_counts [OF that [unfolded accept_spans_def]] .
  note flow = otlp_flow_counts [where get_b = as_spans and batch = "kept_records env (span_content_bytes (ae_ser env))"
      and accept = "accept_spans env", OF c]
  show "counts_rejected (span_batch env (PostTraces q b)) (as_spans st) (fst (ingest_traces env q b st))"
    unfolding handler_defs span_batch_def span_parse.simps by (rule flow) simp_all
  show "counts_rejected (span_batch env (GrpcTraces now d p m r)) (as_spans st) (fst (export_traces env now d p m r st))"
    unfolding handler_defs span_batch_def span_parse.simps by (rule counts_grpc, rule flow) simp_all
qed

lemma point_counts:
  "counts_rejected (point_batch env (PostMetrics q b)) (as_points st) (fst (ingest_metrics env q b st))"
  "counts_rejected (point_batch env (GrpcMetrics now d p m r)) (as_points st) (fst (export_metrics env now d p m r st))"
proof -
  have c: "k = length (kept_records env (point_content_bytes (ae_ser env)) lp)
      \<and> n = (if chan_send (kept_records env (point_content_bytes (ae_ser env)) lp) (ba_chan (as_points st)) = None then 0 else k)"
    if "accept_metric_points env ip now lp st = (Inr (k, n), st')" for ip now lp k n and st st' :: "'c app_state"
    using point_stream.accept_counts [OF that [unfolded accept_metric_points_def]] .
  note flow = otlp_flow_counts [where get_b = as_points and batch = "kept_records env (point_content_bytes (ae_ser env))"
      and accept = "accept_metric_points env", OF c]
  show "counts_rejected (point_batch env (PostMetrics q b)) (as_points st) (fst (ingest_metrics env q b st))"
    unfolding handler_defs point_batch_def point_parse.simps by (rule flow) simp_all
  show "counts_rejected (point_batch env (GrpcMetrics now d p m r)) (as_points st) (fst (export_metrics env now d p m r st))"
    unfolding handler_defs point_batch_def point_parse.simps by (rule counts_grpc, rule flow) simp_all
qed

lemma accepted_core [simp]: "accepted e (core b) = accepted e b"
  by (simp add: accepted_def split: batcher_event.split)

lemma accepted_task [simp]: "accepted (task_event t) b = []"
  by (cases t) (simp_all add: accepted_def)

lemma counts_ack_rejected:
  "counts_rejected batch b r \<Longrightarrow>
     accepted_run store bsize (if is_ok r then [Enqueue batch] else []) (core b) = (if r = Inr 0 then batch else [])"
  by (cases r) (auto simp: counts_rejected_def accepted_def)

lemma accepted_run_append:
  "accepted_run store bsize (xs @ ys) b
     = accepted_run store bsize xs b @ accepted_run store bsize ys (fold (\<lambda>e b. snd (batcher_step store bsize e b)) xs b)"
  by (induction xs arbitrary: b) simp_all

text \<open>A batcher that is a component of a machine which tells, step by step, what it acknowledged.\<close>

locale batcher_part = component part ev mstep "\<lambda>e b. snd (batcher_step store bsize e b)"
  for part :: "'s \<Rightarrow> ('r, 'db) batcher" and ev :: "'s \<Rightarrow> 'o \<Rightarrow> 'r batcher_event list"
    and mstep :: "'o \<Rightarrow> 's \<Rightarrow> 's" and store :: "'db \<Rightarrow> 'r list \<Rightarrow> nat option \<times> 'db" and bsize :: nat +
  fixes ack :: "'s \<Rightarrow> 'o \<Rightarrow> 'r list"
  assumes accepted_ack: "accepted_run store bsize (ev st op) (part st) = ack st op"
begin

lemma accepted_trace: "accepted_run store bsize (trace ev mstep ops st) (part st) = trace ack mstep ops st"
proof (induction ops arbitrary: st)
  case (Cons op ops)
  from Cons.IH [of "mstep op st"] show ?case
    by (simp add: accepted_run_append accepted_ack step_simulates)
qed simp

end

interpretation events_acks: batcher_part "\<lambda>st. core (as_events st)" "events_ev env" "api_step env so" "so_events so"
    "so_bsize so" "acked_events env" for env so
proof
  show "accepted_run (so_events so) (so_bsize so) (events_ev env st op) (core (as_events st)) = acked_events env st op" for st op
  proof (cases op)
    case (PostEvents q b)
    then show ?thesis
      using ingest_events_counts [of q env b st]
      by (cases "fst (ingest_events env q b st)") (simp_all add: acked_events_def counts_events_def accepted_def)
  qed (simp_all add: acked_events_def)
qed

interpretation logs_acks: batcher_part "\<lambda>st. core (as_logs st)" "logs_ev env" "api_step env so" "so_logs so"
    "so_bsize so" "acked_logs env" for env so
proof
  have other: "log_batch env op = []" if "request_on op \<noteq> ''logs''" for op
    using that by (cases op) (simp_all add: log_batch_def)
  show "accepted_run (so_logs so) (so_bsize so) (logs_ev env st op) (core (as_logs st)) = acked_logs env st op" for st op
    by (cases op) (simp_all add: acked_logs_def other
        counts_ack_rejected [OF log_counts(1), simplified] counts_ack_rejected [OF log_counts(2), simplified])
qed

interpretation spans_acks: batcher_part "\<lambda>st. core (as_spans st)" "spans_ev env" "api_step env so" "so_spans so"
    "so_bsize so" "acked_spans env" for env so
proof
  have other: "span_batch env op = []" if "request_on op \<noteq> ''traces''" for op
    using that by (cases op) (simp_all add: span_batch_def)
  show "accepted_run (so_spans so) (so_bsize so) (spans_ev env st op) (core (as_spans st)) = acked_spans env st op" for st op
    by (cases op) (simp_all add: acked_spans_def other
        counts_ack_rejected [OF span_counts(1), simplified] counts_ack_rejected [OF span_counts(2), simplified])
qed

interpretation points_acks: batcher_part "\<lambda>st. core (as_points st)" "points_ev env" "api_step env so" "so_points so"
    "so_bsize so" "acked_points env" for env so
proof
  have other: "point_batch env op = []" if "request_on op \<noteq> ''metrics''" for op
    using that by (cases op) (simp_all add: point_batch_def)
  show "accepted_run (so_points so) (so_bsize so) (points_ev env st op) (core (as_points st)) = acked_points env st op" for st op
    by (cases op) (simp_all add: acked_points_def other
        counts_ack_rejected [OF point_counts(1), simplified] counts_ack_rejected [OF point_counts(2), simplified])
qed

subsection \<open>The tables the batchers write\<close>

text \<open>The flush of a batcher whose database answers: the copy of the batch, then the drain.\<close>

definition write_batch :: "('r, 'k) table_kind \<Rightarrow> 'r list \<Rightarrow> 'r part_table \<Rightarrow> nat option \<times> 'r part_table" where
  "write_batch k batch t = drain (True, True) k (table_step k t (CopyIn batch))"

definition postgres :: "nat \<Rightarrow> database stores" where
  "postgres bsize =
     \<lparr>so_events = \<lambda>db batch. let (n, t) = write_batch events_table batch (db_events db) in (n, db\<lparr>db_events := t\<rparr>),
      so_logs = \<lambda>db batch. let (n, t) = write_batch logs_table batch (db_logs db) in (n, db\<lparr>db_logs := t\<rparr>),
      so_spans = \<lambda>db batch. let (n, t) = write_batch spans_table batch (db_spans db) in (n, db\<lparr>db_spans := t\<rparr>),
      so_points = \<lambda>db batch. let (n, t) = write_batch points_table batch (db_points db) in (n, db\<lparr>db_points := t\<rparr>),
      so_bsize = bsize\<rparr>"

text \<open>
  A table that holds the rows \<open>R\<close>: nothing waits, every row is one of them and has its partition, and
  every key of theirs has exactly one row.
\<close>

definition holds :: "('r, 'k) table_kind \<Rightarrow> 'r set \<Rightarrow> 'r part_table \<Rightarrow> bool" where
  "holds k R t \<longleftrightarrow> table_ok k t \<and> pt_staging t = [] \<and> set (pt_rows t) \<subseteq> R \<and> tk_key k ` set (pt_rows t) = tk_key k ` R"

lemma holds_itself: "table_ok k t \<Longrightarrow> pt_staging t = [] \<Longrightarrow> holds k (set (pt_rows t)) t"
  by (simp add: holds_def)

lemma drain_rows: "set (pt_rows (snd (drain reach k t))) \<subseteq> set (pt_rows t) \<union> set (pt_staging t)"
proof -
  have "set (snd (merge_staging key received rows batch)) \<subseteq> set rows \<union> set batch" for key :: "'a \<Rightarrow> 'b" and received rows batch
    using keep_first_subset [of key "[]" "sort_key received batch"] by (auto simp: merge_staging_def Let_def)
  then show ?thesis
    using partitions_for_staging_result [of k t]
    by (simp add: drain_def Let_def merge_table_def split_beta)
qed

lemma write_batch_holds:
  assumes "holds k R t"
  shows "holds k (R \<union> set batch) (snd (write_batch k batch t))"
proof -
  have ok: "table_ok k (table_step k t (CopyIn batch))"
    using assms by (intro table_step_ok) (simp add: holds_def)
  have "set (pt_rows (snd (write_batch k batch t))) \<subseteq> R \<union> set batch"
    using drain_rows [of "(True, True)" k "table_step k t (CopyIn batch)"] assms
    unfolding write_batch_def holds_def by fastforce
  with drain_result [OF ok] assms show ?thesis
    by (auto simp: write_batch_def holds_def)
qed

locale table_store =
  fixes store :: "'db \<Rightarrow> 'r list \<Rightarrow> nat option \<times> 'db"
    and tab :: "'db \<Rightarrow> 'r part_table"
    and kind :: "('r, 'k) table_kind"
  assumes store_writes: "tab (snd (store db batch)) = snd (write_batch kind batch (tab db))"
begin

lemma step_stores:
  assumes "batcher_step store bsize e b = (out, b')" and "holds kind R (tab (ba_db b))"
  shows "holds kind (R \<union> set out) (tab (ba_db b'))"
proof -
  have f: "holds kind (R \<union> set (fst (flush store c))) (tab (ba_db (snd (flush store c))))"
    if "ba_db c = ba_db b" for c
    using assms(2) that write_batch_holds [of kind R "tab (ba_db b)" "ba_buf c"]
    by (auto simp: flush_def Let_def split_beta store_writes)
  have t: "holds kind (R \<union> set (fst (take_batch store bsize batch c b))) (tab (ba_db (snd (take_batch store bsize batch c b))))"
    for batch c
    using assms(2) by (simp add: take_batch_def Let_def f)
  have q: "ba_db (snd (try_enqueue batch b)) = ba_db b" for batch
    by (auto simp: try_enqueue_def Let_def split: option.split)
  have "holds kind (R \<union> set (fst (batcher_step store bsize e b))) (tab (ba_db (snd (batcher_step store bsize e b))))"
    by (cases e) (simp_all add: assms(2) f t q split_beta split: option.split)
  then show ?thesis using assms(1) by simp
qed

lemma run_stores:
  "batcher_run store bsize es b = (out, b') \<Longrightarrow> holds kind R (tab (ba_db b)) \<Longrightarrow>
     holds kind (R \<union> set out) (tab (ba_db b'))"
proof (induction es arbitrary: b R out)
  case (Cons e es)
  obtain o1 b1 where e: "batcher_step store bsize e b = (o1, b1)" by fastforce
  obtain o2 where r: "batcher_run store bsize es b1 = (o2, b')" and out: "out = o1 @ o2"
    using Cons.prems(1) e by (auto split: prod.splits)
  from Cons.IH [OF r step_stores [OF e Cons.prems(2)]] out show ?case by (simp add: Un_assoc)
qed simp

lemma stopped_stores:
  assumes "quiet_after_shutdown es" and "b' = snd (batcher_run store bsize es (spawn_batcher cap db))"
    and "ba_phase b' = Stopped" and "holds kind R (tab db)"
  shows "holds kind (R \<union> set (accepted_run store bsize es (spawn_batcher cap db))) (tab (ba_db b'))"
proof -
  obtain out where r: "batcher_run store bsize es (spawn_batcher cap db) = (out, b')"
    using assms(2) by (metis prod.collapse)
  from run_stores [OF r, of R] assms(4) batcher_stopped [OF assms(1) r assms(3)] show ?thesis
    by (simp add: spawn_batcher_def)
qed

end

interpretation events_pg: table_store "so_events (postgres bsize)" db_events events_table for bsize
  by unfold_locales (simp add: postgres_def split_beta)

interpretation logs_pg: table_store "so_logs (postgres bsize)" db_logs logs_table for bsize
  by unfold_locales (simp add: postgres_def split_beta)

interpretation spans_pg: table_store "so_spans (postgres bsize)" db_spans spans_table for bsize
  by unfold_locales (simp add: postgres_def split_beta)

interpretation points_pg: table_store "so_points (postgres bsize)" db_points points_table for bsize
  by unfold_locales (simp add: postgres_def split_beta)

text \<open>A batcher of the service over its table: once stopped, its table holds what it acknowledged.\<close>

locale stored_part = batcher_part part ev mstep store bsize ack + table_store store tab kind
  for part :: "'s \<Rightarrow> ('r, 'db) batcher" and ev :: "'s \<Rightarrow> 'o \<Rightarrow> 'r batcher_event list"
    and mstep :: "'o \<Rightarrow> 's \<Rightarrow> 's" and store :: "'db \<Rightarrow> 'r list \<Rightarrow> nat option \<times> 'db" and bsize :: nat
    and ack :: "'s \<Rightarrow> 'o \<Rightarrow> 'r list" and tab :: "'db \<Rightarrow> 'r part_table" and kind :: "('r, 'k) table_kind"
begin

lemma acknowledged_stored:
  assumes "quiet_after_shutdown (trace ev mstep ops st0)" and "part st0 = spawn_batcher cap db"
    and "ba_phase (part (fold mstep ops st0)) = Stopped" and "holds kind R (tab db)"
  shows "holds kind (R \<union> set (trace ack mstep ops st0)) (tab (ba_db (part (fold mstep ops st0))))"
  using stopped_stores [OF assms(1) _ assms(3,4), of bsize cap] accepted_trace [of ops st0]
  by (simp add: run_simulates batcher_run_fold assms(2))

end

interpretation events_stored: stored_part "\<lambda>st. core (as_events st)" "events_ev env" "api_step env (postgres bsize)"
    "so_events (postgres bsize)" "so_bsize (postgres bsize)" "acked_events env" db_events events_table for env bsize
  by (intro stored_part.intro events_acks.batcher_part_axioms events_pg.table_store_axioms)

interpretation logs_stored: stored_part "\<lambda>st. core (as_logs st)" "logs_ev env" "api_step env (postgres bsize)"
    "so_logs (postgres bsize)" "so_bsize (postgres bsize)" "acked_logs env" db_logs logs_table for env bsize
  by (intro stored_part.intro logs_acks.batcher_part_axioms logs_pg.table_store_axioms)

interpretation spans_stored: stored_part "\<lambda>st. core (as_spans st)" "spans_ev env" "api_step env (postgres bsize)"
    "so_spans (postgres bsize)" "so_bsize (postgres bsize)" "acked_spans env" db_spans spans_table for env bsize
  by (intro stored_part.intro spans_acks.batcher_part_axioms spans_pg.table_store_axioms)

interpretation points_stored: stored_part "\<lambda>st. core (as_points st)" "points_ev env" "api_step env (postgres bsize)"
    "so_points (postgres bsize)" "so_bsize (postgres bsize)" "acked_points env" db_points points_table for env bsize
  by (intro stored_part.intro points_acks.batcher_part_axioms points_pg.table_store_axioms)

subsection \<open>Stopping the service\<close>

text \<open>
  The stop of a batcher: the signal, a drain per waiting batch, the final flush and the end of the
  task. \<^verbatim>\<open>main\<close> stops the four batchers one after the other, once the servers have ended and no
  request is being handled.
\<close>

definition shutdown_steps :: "('r, 'db) batcher \<Rightarrow> task_step list" where
  "shutdown_steps b = TaskShutdown # replicate (Suc (length (ch_batches (ba_chan b)))) TaskDrain @ [TaskClose]"

definition stop_ops :: "nanos \<Rightarrow> 'db app_state \<Rightarrow> api_op list" where
  "stop_ops now st =
     map (EventsTask now) (shutdown_steps (as_events st)) @ map (LogsTask now) (shutdown_steps (as_logs st))
     @ map (SpansTask now) (shutdown_steps (as_spans st)) @ map (PointsTask now) (shutdown_steps (as_points st))"

definition stop_service :: "api_env \<Rightarrow> 'db stores \<Rightarrow> nanos \<Rightarrow> 'db app_state \<Rightarrow> 'db app_state" where
  "stop_service env so now st = api_run env so (stop_ops now st) st"

text \<open>The signal of a stop; a run in which no request is handled after the first one.\<close>

fun is_stop :: "api_op \<Rightarrow> bool" where
  "is_stop (EventsTask now t) = (t = TaskShutdown)"
| "is_stop (LogsTask now t) = (t = TaskShutdown)"
| "is_stop (SpansTask now t) = (t = TaskShutdown)"
| "is_stop (PointsTask now t) = (t = TaskShutdown)"
| "is_stop _ = False"

fun orderly :: "api_op list \<Rightarrow> bool" where
  "orderly [] = True"
| "orderly (op # ops) = (if is_stop op then list_all (\<lambda>o'. request_on o' = '''') ops else orderly ops)"

lemma quiet_of_none: "list_all (\<lambda>e. \<not> is_enqueue e) es \<Longrightarrow> quiet_after_shutdown es"
  by (induction es rule: quiet_after_shutdown.induct) auto

lemma quiet_before: "Shutdown \<notin> set xs \<Longrightarrow> quiet_after_shutdown (xs @ ys) = quiet_after_shutdown ys"
  by (induction xs rule: quiet_after_shutdown.induct) auto

lemma orderly_quiet:
  assumes "\<And>st op. request_on op = '''' \<Longrightarrow> list_all (\<lambda>e. \<not> is_enqueue e) (ev st op)"
    and "\<And>st op. \<not> is_stop op \<Longrightarrow> Shutdown \<notin> set (ev st op)" and "orderly ops"
  shows "quiet_after_shutdown (trace ev stp ops st)"
proof -
  have none: "list_all (\<lambda>e. \<not> is_enqueue e) (trace ev stp os st)" if "list_all (\<lambda>o'. request_on o' = '''') os" for os st
    using that by (induction os arbitrary: st) (use assms(1) in simp_all)
  show ?thesis using assms(3)
  proof (induction ops arbitrary: st)
    case (Cons op ops)
    show ?case
    proof (cases "is_stop op")
      case True
      then have "request_on op = ''''" by (cases op) simp_all
      with True Cons.prems have "list_all (\<lambda>e. \<not> is_enqueue e) (ev st op)"
        "list_all (\<lambda>e. \<not> is_enqueue e) (trace ev stp ops (stp op st))"
        using assms(1) none by simp_all
      then show ?thesis by (intro quiet_of_none) simp
    next
      case False
      with Cons show ?thesis by (simp add: quiet_before assms(2))
    qed
  qed simp
qed

lemma task_not_enqueue [simp]: "\<not> is_enqueue (task_event t)" "task_event t = Shutdown \<longleftrightarrow> t = TaskShutdown"
    "Shutdown = task_event t \<longleftrightarrow> t = TaskShutdown"
  by (cases t; simp)+

lemma streams_quiet:
  assumes "orderly ops"
  shows "quiet_after_shutdown (trace (events_ev env) stp ops st)" "quiet_after_shutdown (trace (logs_ev env) stp ops st)"
    "quiet_after_shutdown (trace (spans_ev env) stp ops st)" "quiet_after_shutdown (trace (points_ev env) stp ops st)"
proof -
  have "list_all (\<lambda>e. \<not> is_enqueue e) (events_ev env st op)" "list_all (\<lambda>e. \<not> is_enqueue e) (logs_ev env st op)"
    "list_all (\<lambda>e. \<not> is_enqueue e) (spans_ev env st op)" "list_all (\<lambda>e. \<not> is_enqueue e) (points_ev env st op)"
    if "request_on op = ''''" for op st
    using that by (cases op; simp)+
  moreover have "Shutdown \<notin> set (events_ev env st op)" "Shutdown \<notin> set (logs_ev env st op)"
    "Shutdown \<notin> set (spans_ev env st op)" "Shutdown \<notin> set (points_ev env st op)"
    if "\<not> is_stop op" for op st
    using that by (cases op; simp)+
  ultimately show "quiet_after_shutdown (trace (events_ev env) stp ops st)" "quiet_after_shutdown (trace (logs_ev env) stp ops st)"
    "quiet_after_shutdown (trace (spans_ev env) stp ops st)" "quiet_after_shutdown (trace (points_ev env) stp ops st)"
    using assms by (metis (lifting) orderly_quiet)+
qed

lemma drain_step_phase:
  "ba_phase b = Draining \<Longrightarrow>
     ba_phase (snd (batcher_step store bsize Drain b)) = (if ch_batches (ba_chan b) = [] then Closing else Draining)
     \<and> length (ch_batches (ba_chan (snd (batcher_step store bsize Drain b)))) = length (ch_batches (ba_chan b)) - 1"
  "ba_phase b \<noteq> Draining \<Longrightarrow> snd (batcher_step store bsize Drain b) = b"
  by (cases "ch_batches (ba_chan b)"; simp add: chan_recv_def split_beta)+

lemma drains_end:
  "ba_phase b \<noteq> Running \<Longrightarrow> length (ch_batches (ba_chan b)) \<le> n \<or> ba_phase b \<noteq> Draining \<Longrightarrow>
     ba_phase (fold (\<lambda>e b. snd (batcher_step store bsize e b)) (replicate (Suc n) Drain) b) \<in> {Closing, Stopped}"
proof (induction n arbitrary: b)
  case 0
  then show ?case using drain_step_phase [of b store bsize]
    by (cases "ba_phase b") auto
next
  case (Suc n)
  let ?b = "snd (batcher_step store bsize Drain b)"
  have "ba_phase ?b \<noteq> Running" "length (ch_batches (ba_chan ?b)) \<le> n \<or> ba_phase ?b \<noteq> Draining"
    using Suc.prems drain_step_phase [of b store bsize] by (cases "ba_phase b = Draining"; auto)+
  from Suc.IH [OF this] show ?case by simp
qed

lemma close_stops:
  "ba_phase b \<in> {Closing, Stopped} \<Longrightarrow> ba_phase (snd (batcher_step store bsize Close b)) = Stopped"
  by auto

lemma batcher_stops:
  fixes b b' :: "('r, 'db) batcher"
  assumes that: "ba_chan b' = ba_chan b"
  shows "ba_phase (fold (\<lambda>e b. snd (batcher_step store bsize e b)) (map task_event (shutdown_steps b')) b) = Stopped"
proof -
  let ?b1 = "snd (batcher_step store bsize Shutdown b)"
  let ?b2 = "fold (\<lambda>e b. snd (batcher_step store bsize e b)) (replicate (Suc (length (ch_batches (ba_chan b)))) Drain) ?b1"
  have "ba_phase ?b1 \<noteq> Running" "ba_chan ?b1 = ba_chan b" by auto
  then have "ba_phase ?b2 \<in> {Closing, Stopped}" by (intro drains_end) simp_all
  then have c: "ba_phase (snd (batcher_step store bsize Close ?b2)) = Stopped" by (rule close_stops)
  have "(map task_event (shutdown_steps b') :: 'r batcher_event list) = Shutdown # replicate (Suc (length (ch_batches (ba_chan b)))) Drain @ [Close]"
    unfolding shutdown_steps_def that by (simp only: list.map map_append map_replicate task_event.simps)
  then show ?thesis using c by (simp only: fold.simps fold_append o_apply id_apply)
qed

lemma trace_tasks:
  "trace (events_ev env) stp (map (EventsTask now) ts) st = map task_event ts"
  "trace (logs_ev env) stp (map (LogsTask now) ts) st = map task_event ts"
  "trace (spans_ev env) stp (map (SpansTask now) ts) st = map task_event ts"
  "trace (points_ev env) stp (map (PointsTask now) ts) st = map task_event ts"
  "trace (events_ev env) stp (map (LogsTask now) ts) st = []"
  "trace (events_ev env) stp (map (SpansTask now) ts) st = []"
  "trace (events_ev env) stp (map (PointsTask now) ts) st = []"
  "trace (logs_ev env) stp (map (EventsTask now) ts) st = []"
  "trace (logs_ev env) stp (map (SpansTask now) ts) st = []"
  "trace (logs_ev env) stp (map (PointsTask now) ts) st = []"
  "trace (spans_ev env) stp (map (EventsTask now) ts) st = []"
  "trace (spans_ev env) stp (map (LogsTask now) ts) st = []"
  "trace (spans_ev env) stp (map (PointsTask now) ts) st = []"
  "trace (points_ev env) stp (map (EventsTask now) ts) st = []"
  "trace (points_ev env) stp (map (LogsTask now) ts) st = []"
  "trace (points_ev env) stp (map (SpansTask now) ts) st = []"
  by (induction ts arbitrary: st; simp)+

lemma stop_service_stops:
  "ba_phase (as_events (stop_service env so now st)) = Stopped"
  "ba_phase (as_logs (stop_service env so now st)) = Stopped"
  "ba_phase (as_spans (stop_service env so now st)) = Stopped"
  "ba_phase (as_points (stop_service env so now st)) = Stopped"
proof -
  note part = events_part.run_simulates [of env so "stop_ops now st" st] logs_part.run_simulates [of env so "stop_ops now st" st]
    spans_part.run_simulates [of env so "stop_ops now st" st] points_part.run_simulates [of env so "stop_ops now st" st]
  note stop = batcher_stops [where b = "core b" and b' = b for b, OF core_simps(1) [symmetric]]
  have ph: "ba_phase b = ba_phase (core b)" for b :: "('x, 'y) batcher" by simp
  show "ba_phase (as_events (stop_service env so now st)) = Stopped"
    unfolding stop_service_def api_run_def ph [of "as_events _"] part by (simp add: stop_ops_def trace_append trace_tasks stop)
  show "ba_phase (as_logs (stop_service env so now st)) = Stopped"
    unfolding stop_service_def api_run_def ph [of "as_logs _"] part by (simp add: stop_ops_def trace_append trace_tasks stop)
  show "ba_phase (as_spans (stop_service env so now st)) = Stopped"
    unfolding stop_service_def api_run_def ph [of "as_spans _"] part by (simp add: stop_ops_def trace_append trace_tasks stop)
  show "ba_phase (as_points (stop_service env so now st)) = Stopped"
    unfolding stop_service_def api_run_def ph [of "as_points _"] part by (simp add: stop_ops_def trace_append trace_tasks stop)
qed

definition database_ready :: "database \<Rightarrow> bool" where
  "database_ready db \<longleftrightarrow>
     table_ok events_table (db_events db) \<and> pt_staging (db_events db) = []
     \<and> table_ok logs_table (db_logs db) \<and> pt_staging (db_logs db) = []
     \<and> table_ok spans_table (db_spans db) \<and> pt_staging (db_spans db) = []
     \<and> table_ok points_table (db_points db) \<and> pt_staging (db_points db) = []"

lemma no_stop_orderly:
  "list_all (\<lambda>op. \<not> is_stop op) ops \<Longrightarrow> list_all (\<lambda>op. request_on op = '''') stops \<Longrightarrow> orderly (ops @ stops)"
proof (induction ops)
  case Nil
  then show ?case by (induction stops) simp_all
qed simp

lemma stop_ops_quiet: "list_all (\<lambda>op. request_on op = '''') (stop_ops now st)"
  by (auto simp: stop_ops_def list_all_iff)

text \<open>The table of a stream after a run that stopped: what it held, and what the run acknowledged.\<close>

definition stored :: "('r, 'k) table_kind \<Rightarrow> ('db \<Rightarrow> 'r part_table) \<Rightarrow> 'db \<Rightarrow> 'r list \<Rightarrow> ('r, 'db) batcher \<Rightarrow> bool" where
  "stored k tab db rows b \<longleftrightarrow> ba_phase b = Stopped \<and> holds k (set (pt_rows (tab db)) \<union> set rows) (tab (ba_db b))"

lemma streams_stored:
  fixes bsize :: nat
  assumes "orderly ops" "database_ready db" and "st0 = app_state_new env t0 db"
  defines "so \<equiv> postgres bsize"
  defines "st \<equiv> fold (api_step env so) ops st0"
  shows "ba_phase (as_events st) = Stopped \<Longrightarrow>
      stored events_table db_events db (trace (acked_events env) (api_step env so) ops st0) (as_events st)"
    "ba_phase (as_logs st) = Stopped \<Longrightarrow>
      stored logs_table db_logs db (trace (acked_logs env) (api_step env so) ops st0) (as_logs st)"
    "ba_phase (as_spans st) = Stopped \<Longrightarrow>
      stored spans_table db_spans db (trace (acked_spans env) (api_step env so) ops st0) (as_spans st)"
    "ba_phase (as_points st) = Stopped \<Longrightarrow>
      stored points_table db_points db (trace (acked_points env) (api_step env so) ops st0) (as_points st)"
proof -
  have init: "core (as_events st0) = spawn_batcher (channel_capacity (ae_cfg env)) db"
    "core (as_logs st0) = spawn_batcher (channel_capacity (ae_cfg env)) db"
    "core (as_spans st0) = spawn_batcher (channel_capacity (ae_cfg env)) db"
    "core (as_points st0) = spawn_batcher (channel_capacity (ae_cfg env)) db"
    by (simp_all add: assms(3) app_state_new_def)
  note ready = assms(2) [unfolded database_ready_def]
  note quiet = streams_quiet [OF assms(1)]
  show "ba_phase (as_events st) = Stopped \<Longrightarrow>
      stored events_table db_events db (trace (acked_events env) (api_step env so) ops st0) (as_events st)"
    using events_stored.acknowledged_stored [OF quiet(1) init(1)] ready
    by (simp add: stored_def st_def so_def holds_itself)
  show "ba_phase (as_logs st) = Stopped \<Longrightarrow>
      stored logs_table db_logs db (trace (acked_logs env) (api_step env so) ops st0) (as_logs st)"
    using logs_stored.acknowledged_stored [OF quiet(2) init(2)] ready
    by (simp add: stored_def st_def so_def holds_itself)
  show "ba_phase (as_spans st) = Stopped \<Longrightarrow>
      stored spans_table db_spans db (trace (acked_spans env) (api_step env so) ops st0) (as_spans st)"
    using spans_stored.acknowledged_stored [OF quiet(3) init(3)] ready
    by (simp add: stored_def st_def so_def holds_itself)
  show "ba_phase (as_points st) = Stopped \<Longrightarrow>
      stored points_table db_points db (trace (acked_points env) (api_step env so) ops st0) (as_points st)"
    using points_stored.acknowledged_stored [OF quiet(4) init(4)] ready
    by (simp add: stored_def st_def so_def holds_itself)
qed

lemma trace_none: "list_all (\<lambda>op. request_on op = '''') ops \<Longrightarrow>
    (\<And>st op. request_on op = '''' \<Longrightarrow> ack st op = []) \<Longrightarrow> trace ack stp ops st = []"
  by (induction ops arbitrary: st) simp_all

lemma acked_none:
  "request_on op = '''' \<Longrightarrow> acked_events env st op = []" "request_on op = '''' \<Longrightarrow> acked_logs env st op = []"
  "request_on op = '''' \<Longrightarrow> acked_spans env st op = []" "request_on op = '''' \<Longrightarrow> acked_points env st op = []"
  by (cases op; simp add: acked_events_def acked_logs_def acked_spans_def acked_points_def)+

subsection \<open>Properties\<close>



text \<open>C4. Each of the four batchers runs in the service as it runs alone: the state of the service after any
  run, read at a stream, is that of its batcher over the sends that the run answered without an error
  and the steps of its task, in their order, up to the counters of skewed and oversized records.\<close>
theorem service_refines_batchers:
  "core (as_events (api_run env so ops st))
       = snd (batcher_run (so_events so) (so_bsize so) (trace (events_ev env) (api_step env so) ops st) (core (as_events st)))
   \<and> core (as_logs (api_run env so ops st))
       = snd (batcher_run (so_logs so) (so_bsize so) (trace (logs_ev env) (api_step env so) ops st) (core (as_logs st)))
   \<and> core (as_spans (api_run env so ops st))
       = snd (batcher_run (so_spans so) (so_bsize so) (trace (spans_ev env) (api_step env so) ops st) (core (as_spans st)))
   \<and> core (as_points (api_run env so ops st))
       = snd (batcher_run (so_points so) (so_bsize so) (trace (points_ev env) (api_step env so) ops st) (core (as_points st)))"
  unfolding api_run_def batcher_run_fold
  by (intro conjI events_part.run_simulates logs_part.run_simulates spans_part.run_simulates points_part.run_simulates)

subsection \<open>What the service keeps in memory\<close>

text \<open>The states the service can be in: from its start, by requests, purges and steps of the batchers.\<close>

inductive reachable :: "api_env \<Rightarrow> 'db stores \<Rightarrow> 'db app_state \<Rightarrow> 'db app_state \<Rightarrow> bool"
  for env so st0 where
  at_start: "reachable env so st0 st0"
| after_step: "reachable env so st0 st \<Longrightarrow> reachable env so st0 (api_step env so op st)"

lemma reachable_run: "reachable env so st0 st \<longleftrightarrow> (\<exists>ops. st = api_run env so ops st0)"
proof
  show "reachable env so st0 st \<Longrightarrow> \<exists>ops. st = api_run env so ops st0"
  proof (induction rule: reachable.induct)
    case at_start
    show ?case by (rule exI [of _ "[]"]) (simp add: api_run_def)
  next
    case (after_step st op)
    then obtain ops where "st = api_run env so ops st0" by blast
    then show ?case by (intro exI [of _ "ops @ [op]"]) (simp add: api_run_def)
  qed
  have "reachable env so st0 (api_run env so ops st0)" for ops
    by (induction ops rule: rev_induct) (simp_all add: api_run_def reachable.intros)
  then show "\<exists>ops. st = api_run env so ops st0 \<Longrightarrow> reachable env so st0 st" by blast
qed

text \<open>A queue within its capacity, of batches of at most \<open>mx\<close> records, and a buffer below the flush size.\<close>

definition batcher_fits :: "nat \<Rightarrow> nat \<Rightarrow> nat \<Rightarrow> ('r, 'db) batcher \<Rightarrow> bool" where
  "batcher_fits cap mx bsize b \<longleftrightarrow>
     ch_capacity (ba_chan b) = cap \<and> length (ch_batches (ba_chan b)) \<le> cap
     \<and> (\<forall>x\<in>set (ch_batches (ba_chan b)). length x \<le> mx) \<and> length (ba_buf b) < max 1 bsize"

lemma batcher_fits_core [simp]: "batcher_fits cap mx bsize (core b) = batcher_fits cap mx bsize b"
  by (simp add: batcher_fits_def)

lemma chan_fits:
  "chan_send x c = Some c' \<Longrightarrow> ch_capacity c' = ch_capacity c \<and> length (ch_batches c') \<le> ch_capacity c'
     \<and> set (ch_batches c') = insert x (set (ch_batches c))"
  "chan_recv c = Some (x, c') \<Longrightarrow> ch_capacity c' = ch_capacity c \<and> length (ch_batches c') \<le> length (ch_batches c)
     \<and> set (ch_batches c') \<subseteq> set (ch_batches c)"
  by (auto simp: chan_send_def chan_recv_def split: if_splits list.splits)

lemma batcher_fits_step:
  assumes "batcher_fits cap mx bsize b" and "\<And>x. e = Enqueue x \<Longrightarrow> length x \<le> mx"
  shows "batcher_fits cap mx bsize (snd (batcher_step store bsize e b))"
proof -
  have buf: "length (ba_buf (snd (batcher_step store bsize e b))) < max 1 bsize"
    using step_buffer [of b bsize store e] assms(1) by (simp add: batcher_fits_def)
  have q: "ba_chan (snd (try_enqueue x b)) = (case chan_send x (ba_chan b) of Some c \<Rightarrow> c | None \<Rightarrow> ba_chan b)" for x
    by (simp add: try_enqueue_def Let_def split: option.split)
  let ?c = "ba_chan (snd (batcher_step store bsize e b))"
  have "ch_capacity ?c = cap \<and> length (ch_batches ?c) \<le> cap \<and> (\<forall>x\<in>set (ch_batches ?c). length x \<le> mx)"
    using assms by (cases e) (auto simp: batcher_fits_def q split_beta split: option.split dest!: chan_fits)
  with buf show ?thesis by (simp add: batcher_fits_def)
qed

lemma batcher_fits_fold:
  "batcher_fits cap mx bsize b \<Longrightarrow> (\<And>x. Enqueue x \<in> set es \<Longrightarrow> length x \<le> mx) \<Longrightarrow>
     batcher_fits cap mx bsize (fold (\<lambda>e b. snd (batcher_step store bsize e b)) es b)"
  by (induction es arbitrary: b) (simp_all add: batcher_fits_step)

context component
begin

lemma invariant_run:
  assumes "\<And>st op b. P b \<Longrightarrow> P (fold pstep (ev st op) b)" and "P (part st)"
  shows "P (part (fold mstep ops st))"
  using assms(2) by (induction ops arbitrary: st) (simp_all add: step_simulates assms(1))

end

subsubsection \<open>The size of an accepted batch\<close>

lemma ingest_events_ok_size:
  "is_ok (fst (ingest_events env q b st)) \<Longrightarrow> length (fresh_events q (ae_limits env) b) \<le> max_batch_events (ae_limits env)"
proof -
  assume ok: "is_ok (fst (ingest_events env q b st))"
  then obtain body where b: "b = Some body" "length (ib_events body) \<le> max_batch_events (ae_limits env)"
    by (cases b) (auto simp: ingest_events_def Let_def split_beta not_less split: if_splits)
  show ?thesis using b(2)
    by (simp add: b(1) fresh_events_def) (meson le_trans length_filter_le)
qed

lemma accept_ok_size:
  "is_ok (fst (accept_records env size_of service_of get_b set_b ip now p st)) \<Longrightarrow>
     length (kept_records env size_of p) \<le> max_logs_records (ae_cfg env)"
proof -
  assume "is_ok (fst (accept_records env size_of service_of get_b set_b ip now p st))"
  then have "length (pa_stored p) \<le> max_logs_records (ae_cfg env)"
    by (auto simp: accept_records_def Let_def split: if_splits)
  then show ?thesis unfolding kept_records_def by (meson le_trans length_filter_le)
qed

lemma otlp_flow_ok_size:
  assumes "\<And>p st. is_ok (fst (accept ip now p st)) \<Longrightarrow> length (batch p) \<le> mx"
    and "is_ok (fst (otlp_flow env ip now token body accept st))"
  shows "length (case body of Some p \<Rightarrow> batch p | None \<Rightarrow> []) \<le> mx"
proof -
  obtain banned guard where b: "is_banned ip now (as_anomaly st) = (banned, guard)" by fastforce
  obtain r st2 where a: "authorize_logs env ip now token (st\<lparr>as_anomaly := guard\<rparr>) = (r, st2)" by fastforce
  show ?thesis
  proof (cases body)
    case (Some p)
    have "is_ok (fst (accept ip now p st2))"
    proof (cases "accept ip now p st2")
      case (Pair res st3)
      with assms(2) show ?thesis
        by (cases res; cases r) (simp_all add: otlp_flow_def b a Let_def Some split: if_splits)
    qed
    with assms(1) Some show ?thesis by simp
  qed simp
qed

lemma ok_sizes:
  "is_ok (fst (ingest_logs env q lb st)) \<Longrightarrow> length (log_batch env (PostLogs q lb)) \<le> max_logs_records (ae_cfg env)"
  "is_ok (fst (export_logs env now d p m lr st)) \<Longrightarrow> length (log_batch env (GrpcLogs now d p m lr)) \<le> max_logs_records (ae_cfg env)"
  "is_ok (fst (ingest_traces env q sb st)) \<Longrightarrow> length (span_batch env (PostTraces q sb)) \<le> max_logs_records (ae_cfg env)"
  "is_ok (fst (export_traces env now d p m sr st)) \<Longrightarrow> length (span_batch env (GrpcTraces now d p m sr)) \<le> max_logs_records (ae_cfg env)"
  "is_ok (fst (ingest_metrics env q mb st)) \<Longrightarrow> length (point_batch env (PostMetrics q mb)) \<le> max_logs_records (ae_cfg env)"
  "is_ok (fst (export_metrics env now d p m mr st)) \<Longrightarrow> length (point_batch env (GrpcMetrics now d p m mr)) \<le> max_logs_records (ae_cfg env)"
  unfolding handler_defs grpc_answer_ok log_batch_def log_parse.simps span_batch_def span_parse.simps point_batch_def point_parse.simps
    accept_logs_def accept_spans_def accept_metric_points_def
  by (erule otlp_flow_ok_size [rotated]; erule accept_ok_size)+

lemma ev_sizes:
  "Enqueue x \<in> set (events_ev env st op) \<Longrightarrow> length x \<le> max_batch_events (ae_limits env)"
  "Enqueue y \<in> set (logs_ev env st op) \<Longrightarrow> length y \<le> max_logs_records (ae_cfg env)"
  "Enqueue z \<in> set (spans_ev env st op) \<Longrightarrow> length z \<le> max_logs_records (ae_cfg env)"
  "Enqueue w \<in> set (points_ev env st op) \<Longrightarrow> length w \<le> max_logs_records (ae_cfg env)"
proof -
  have task: "Enqueue v \<noteq> task_event t" for v :: "'x list" and t by (cases t) simp_all
  show "Enqueue x \<in> set (events_ev env st op) \<Longrightarrow> length x \<le> max_batch_events (ae_limits env)"
    by (cases op) (auto simp: task dest: ingest_events_ok_size split: if_splits)
  show "Enqueue y \<in> set (logs_ev env st op) \<Longrightarrow> length y \<le> max_logs_records (ae_cfg env)"
    by (cases op) (auto simp: task dest: ok_sizes split: if_splits)
  show "Enqueue z \<in> set (spans_ev env st op) \<Longrightarrow> length z \<le> max_logs_records (ae_cfg env)"
    by (cases op) (auto simp: task dest: ok_sizes split: if_splits)
  show "Enqueue w \<in> set (points_ev env st op) \<Longrightarrow> length w \<le> max_logs_records (ae_cfg env)"
    by (cases op) (auto simp: task dest: ok_sizes split: if_splits)
qed

subsubsection \<open>The guard of the service\<close>

definition guards :: "'db app_state \<Rightarrow> 'db app_state \<Rightarrow> bool" where
  "guards st st' \<longleftrightarrow> (\<exists>xs. as_anomaly st' = guard_run xs (as_anomaly st))"

lemma guards_refl [simp]: "guards st st"
  unfolding guards_def by (rule exI [of _ "[]"]) (simp add: guard_run_def)

lemma guards_same: "as_anomaly st' = as_anomaly st \<Longrightarrow> guards st st'"
  unfolding guards_def by (rule exI [of _ "[]"]) (simp add: guard_run_def)

lemma guards_trans: "guards st st' \<Longrightarrow> guards st' st'' \<Longrightarrow> guards st st''"
proof -
  assume "guards st st'" "guards st' st''"
  then obtain xs ys where "as_anomaly st' = guard_run xs (as_anomaly st)" "as_anomaly st'' = guard_run ys (as_anomaly st')"
    by (auto simp: guards_def)
  then have "as_anomaly st'' = guard_run (xs @ ys) (as_anomaly st)" by (simp add: guard_run_def)
  then show "guards st st''" unfolding guards_def by (rule exI)
qed

lemma guards_blame: "as_anomaly st' = as_anomaly st \<Longrightarrow> guards st (blame ip now st')"
  unfolding guards_def by (rule exI [of _ "[RecordBad ip now]"]) (simp add: guard_run_def blame_def)

lemma guards_banned: "as_anomaly st' = snd (is_banned ip now (as_anomaly st)) \<Longrightarrow> guards st st'"
  unfolding guards_def by (rule exI [of _ "[IsBanned ip now]"]) (simp add: guard_run_def)

lemma guards_prune: "as_anomaly st' = anomaly_prune now (as_anomaly st) \<Longrightarrow> guards st st'"
  unfolding guards_def by (rule exI [of _ "[PruneGuard now]"]) (simp add: guard_run_def)

lemma guards_ingest_events: "guards st (snd (ingest_events env q body st))"
proof (rule guards_trans [of _ "st\<lparr>as_anomaly := snd (is_banned (request_ip env q) (rq_now q) (as_anomaly st))\<rparr>"])
  show "guards st (st\<lparr>as_anomaly := snd (is_banned (request_ip env q) (rq_now q) (as_anomaly st))\<rparr>)"
    by (rule guards_banned) simp
  show "guards (st\<lparr>as_anomaly := snd (is_banned (request_ip env q) (rq_now q) (as_anomaly st))\<rparr>) (snd (ingest_events env q body st))"
    by (simp add: ingest_events_def Let_def split_beta guards_blame guards_same split: option.split sum.split decision.split)
qed

lemma guards_accept:
  "(\<And>b st. as_anomaly (set_b b st) = as_anomaly st) \<Longrightarrow>
     guards st (snd (accept_records env size_of service_of get_b set_b ip now p st))"
  by (simp add: accept_records_def Let_def split_beta guards_blame guards_same split: decision.split)

lemma guards_otlp_flow:
  assumes "\<And>p st. guards st (snd (accept ip now p st))"
  shows "guards st (snd (otlp_flow env ip now token body accept st))"
proof (rule guards_trans [of _ "st\<lparr>as_anomaly := snd (is_banned ip now (as_anomaly st))\<rparr>"])
  show "guards st (st\<lparr>as_anomaly := snd (is_banned ip now (as_anomaly st))\<rparr>)"
    by (rule guards_banned) simp
  show "guards (st\<lparr>as_anomaly := snd (is_banned ip now (as_anomaly st))\<rparr>) (snd (otlp_flow env ip now token body accept st))"
    using assms
    by (simp add: otlp_flow_def Let_def authorize_logs_def split_beta guards_blame split: option.split sum.split)
qed

lemma guards_step: "guards st (api_step env so op st)"
  by (cases op) (simp_all add: handler_defs accept_logs_def accept_spans_def accept_metric_points_def guards_ingest_events
      guards_otlp_flow guards_accept guards_same guards_prune heartbeat_def Let_def split: sum.split)

lemma guards_run: "guards st (fold (api_step env so) ops st)"
  by (induction ops arbitrary: st) (simp_all, metis guards_step guards_trans)

subsubsection \<open>The bounds\<close>

lemma concat_bound: "(\<forall>x\<in>set xss. length x \<le> n) \<Longrightarrow> length (concat xss) \<le> length xss * n"
  by (induction xss) auto

lemma fits_held:
  assumes "batcher_fits cap mx bsize b"
  shows "length (held b) < cap * mx + max 1 bsize"
proof -
  have "length (concat (ch_batches (ba_chan b))) \<le> length (ch_batches (ba_chan b)) * mx"
    using assms by (intro concat_bound) (simp add: batcher_fits_def)
  also have "\<dots> \<le> cap * mx" using assms by (simp add: batcher_fits_def)
  finally show ?thesis using assms by (simp add: batcher_fits_def held_def)
qed

lemma streams_fit:
  fixes env so ops t0 db
  defines "st0 \<equiv> app_state_new env t0 db" and "c \<equiv> ae_cfg env"
  defines "st \<equiv> api_run env so ops st0"
  shows "batcher_fits (channel_capacity c) (max_batch_events (cfg_limits c)) (so_bsize so) (as_events st)"
    and "batcher_fits (channel_capacity c) (max_logs_records c) (so_bsize so) (as_logs st)"
    and "batcher_fits (channel_capacity c) (max_logs_records c) (so_bsize so) (as_spans st)"
    and "batcher_fits (channel_capacity c) (max_logs_records c) (so_bsize so) (as_points st)"
proof -
  have init: "batcher_fits (channel_capacity c) mx (so_bsize so) (spawn_batcher (channel_capacity c) db)" for mx
    by (simp add: batcher_fits_def spawn_batcher_def)
  have "batcher_fits (channel_capacity c) (max_batch_events (cfg_limits c)) (so_bsize so) (core (as_events st))"
    unfolding st_def api_run_def
    by (rule events_part.invariant_run)
      (simp_all add: st0_def app_state_new_def init c_def [symmetric] batcher_fits_fold ev_sizes [of _ env, folded c_def])
  moreover have "batcher_fits (channel_capacity c) (max_logs_records c) (so_bsize so) (core (as_logs st))"
    unfolding st_def api_run_def
    by (rule logs_part.invariant_run)
      (simp_all add: st0_def app_state_new_def init c_def [symmetric] batcher_fits_fold ev_sizes [of _ env, folded c_def])
  moreover have "batcher_fits (channel_capacity c) (max_logs_records c) (so_bsize so) (core (as_spans st))"
    unfolding st_def api_run_def
    by (rule spans_part.invariant_run)
      (simp_all add: st0_def app_state_new_def init c_def [symmetric] batcher_fits_fold ev_sizes [of _ env, folded c_def])
  moreover have "batcher_fits (channel_capacity c) (max_logs_records c) (so_bsize so) (core (as_points st))"
    unfolding st_def api_run_def
    by (rule points_part.invariant_run)
      (simp_all add: st0_def app_state_new_def init c_def [symmetric] batcher_fits_fold ev_sizes [of _ env, folded c_def])
  ultimately show
    "batcher_fits (channel_capacity c) (max_batch_events (cfg_limits c)) (so_bsize so) (as_events st)"
    "batcher_fits (channel_capacity c) (max_logs_records c) (so_bsize so) (as_logs st)"
    "batcher_fits (channel_capacity c) (max_logs_records c) (so_bsize so) (as_spans st)"
    "batcher_fits (channel_capacity c) (max_logs_records c) (so_bsize so) (as_points st)"
    by simp_all
qed



end
