(* ===== verification/Outage.thy ===== *)
theory Outage
  imports Service
begin

text \<open>
  The batchers over a database that fails. Every statement of a flush (\<^verbatim>\<open>flush_inner\<close> of
  \<^verbatim>\<open>backend/src/ingest/mod.rs\<close>) can fail before it is executed, or lose its answer afterwards; the cleaning of
  the staging table that \<^verbatim>\<open>flush\<close> attempts after an error can fail as well; and the hourly maintenance of
  \<^verbatim>\<open>backend/src/main.rs\<close> creates and drops partitions between the flushes and inside them. What the
  database answers is given from outside, flush by flush. The locale follows one batcher over its table
  and accounts for every record it flushed.
\<close>

subsection \<open>A flush and its failures\<close>

text \<open>A statement was executed and answered, executed without an answer, or not executed.\<close>

datatype outcome = Done | Unheard | NotDone

datatype upkeep = KeepWindow "int \<Rightarrow> bool" int int int | KeepRetention bool int int

fun upkeep_op :: "upkeep \<Rightarrow> 'r table_op" where
  "upkeep_op (KeepWindow reach today past_days future_days) = EnsureWindow reach today past_days future_days"
| "upkeep_op (KeepRetention reach today retention) = Purge reach today retention"

definition upkeep_run :: "('r, 'k) table_kind \<Rightarrow> upkeep list \<Rightarrow> 'r part_table \<Rightarrow> 'r part_table" where
  "upkeep_run k us t = fold (\<lambda>u t. table_step k t (upkeep_op u)) us t"

text \<open>What happens around one flush: the maintenance since the one before, the connection, the copy, the
  creation of the partitions, the maintenance that runs in between, the merge, and the cleaning if it is
  asked for.\<close>

record write_answers =
  wa_before :: "upkeep list"
  wa_connects :: bool
  wa_copy :: outcome
  wa_ensure :: outcome
  wa_between :: "upkeep list"
  wa_merge :: outcome
  wa_truncates :: bool

definition flush_inner ::
    "('r, 'k) table_kind \<Rightarrow> write_answers \<Rightarrow> 'r list \<Rightarrow> 'r part_table \<Rightarrow> nat option \<times> 'r part_table" where
  "flush_inner k a batch t =
     (if \<not> wa_connects a then (None, t)
      else
        (let t1 = (if wa_copy a = NotDone then t else table_step k t (CopyIn batch)) in
         if wa_copy a \<noteq> Done then (None, t1)
         else
           (let t2 = (if wa_ensure a = NotDone then t1 else partitions_for_staging k t1) in
            if wa_ensure a \<noteq> Done then (None, t2)
            else
              (let t3 = upkeep_run k (wa_between a) t2 in
               if wa_merge a = NotDone then (None, t3)
               else (case merge_table k t3 of
                       None \<Rightarrow> (None, t3)
                     | Some (n, t4) \<Rightarrow> (if wa_merge a = Done then Some n else None, t4))))))"

definition flush_write ::
    "('r, 'k) table_kind \<Rightarrow> write_answers \<Rightarrow> 'r list \<Rightarrow> 'r part_table \<Rightarrow> nat option \<times> 'r part_table" where
  "flush_write k a batch t =
     (case flush_inner k a batch (upkeep_run k (wa_before a) t) of
        (Some n, t') \<Rightarrow> (Some n, t')
      | (None, t') \<Rightarrow> (None, if wa_truncates a then t'\<lparr>pt_staging := []\<rparr> else t'))"

text \<open>When everything answers and no maintenance runs, this is the write of \<open>Service\<close>.\<close>

definition calm :: write_answers where
  "calm = \<lparr>wa_before = [], wa_connects = True, wa_copy = Done, wa_ensure = Done, wa_between = [], wa_merge = Done,
     wa_truncates = True\<rparr>"

lemma flush_write_calm: "table_ok k t \<Longrightarrow> flush_write k calm batch t = write_batch k batch t"
proof -
  assume "table_ok k t"
  then have "table_ok k (table_step k t (CopyIn batch))" by (rule table_step_ok)
  from drain_result [OF this] show ?thesis
    by (auto simp: flush_write_def flush_inner_def calm_def upkeep_run_def write_batch_def drain_def Let_def
        split: option.splits)
qed

subsection \<open>What is accounted for\<close>

text \<open>The table holds records that it held before, \<open>B\<close>, or that were flushed, \<open>R\<close>, each key once. Of those whose day is
  not before \<open>day0\<close>, the ones of \<open>B\<close> are in the table, and the ones of \<open>R\<close> are there or in one of the batches
  \<open>lost\<close>.\<close>

definition has_from :: "('r, 'k) table_kind \<Rightarrow> int \<Rightarrow> 'r part_table \<Rightarrow> 'r \<Rightarrow> bool" where
  "has_from k day0 t r \<longleftrightarrow> (day0 \<le> tk_day k r \<longrightarrow> tk_key k r \<in> tk_key k ` set (pt_rows t))"

definition accounts ::
    "('r, 'k) table_kind \<Rightarrow> int \<Rightarrow> 'r set \<Rightarrow> 'r set \<Rightarrow> 'r list list \<Rightarrow> 'r part_table \<Rightarrow> bool" where
  "accounts k day0 B R lost t \<longleftrightarrow> table_ok k t \<and> set (pt_rows t) \<union> set (pt_staging t) \<subseteq> B \<union> R
     \<and> (\<forall>r\<in>B. has_from k day0 t r) \<and> (\<forall>r\<in>R. has_from k day0 t r \<or> r \<in> set (concat lost))"

definition purges_before :: "int \<Rightarrow> upkeep list \<Rightarrow> bool" where
  "purges_before day0 us \<longleftrightarrow> (\<forall>reach today retention. KeepRetention reach today retention \<in> set us \<longrightarrow> today - retention \<le> day0)"

definition same_day :: "('r, 'k) table_kind \<Rightarrow> bool" where
  "same_day k \<longleftrightarrow> (\<forall>r r'. tk_key k r = tk_key k r' \<longrightarrow> tk_day k r = tk_day k r')"

lemma same_microsecond:
  fixes a b :: int
  assumes "a div 1000 = b div 1000"
  shows "utc_day a = utc_day b"
proof -
  have "x div (86400 * 1000000000) = x div 1000 div 86400000000" for x :: int
    by (simp add: zdiv_zmult2_eq [symmetric])
  with assms show ?thesis unfolding utc_day_def by metis
qed

lemma tables_same_day: "same_day events_table" "same_day logs_table" "same_day spans_table" "same_day points_table"
  by (auto simp: same_day_def events_table_def logs_table_def spans_table_def points_table_def dest: same_microsecond)

lemma accounts_kept:
  assumes "accounts k day0 B R lost t" and "table_ok k t'" and "\<And>r. has_from k day0 t r \<Longrightarrow> has_from k day0 t' r"
    and "set (pt_rows t') \<subseteq> set (pt_rows t)" "set (pt_staging t') \<subseteq> set (pt_staging t)"
  shows "accounts k day0 B R lost t'"
  using assms unfolding accounts_def by blast

lemma upkeep_step_accounts:
  assumes "accounts k day0 B R lost t" and "same_day k" and "purges_before day0 [u]"
  defines "t' \<equiv> table_step k t (upkeep_op u)"
  shows "accounts k day0 B R lost t' \<and> pt_staging t' = pt_staging t"
proof (cases u)
  case (KeepWindow reach today p f)
  obtain e t1 where e: "ensure_window reach today p f t = (e, t1)" by fastforce
  from ensure_days_result [where k = k, OF e [unfolded ensure_window_def]] assms(1) show ?thesis
    by (simp add: t'_def KeepWindow e accounts_def has_from_def)
next
  case (KeepRetention reach today retention)
  have ok: "table_ok k t'" using assms(1) table_step_ok by (auto simp: t'_def accounts_def)
  show ?thesis
  proof (cases reach)
    case False
    with assms(1) show ?thesis by (simp add: t'_def KeepRetention purge_old_def)
  next
    case True
    have c: "today - retention \<le> day0" using assms(3) by (simp add: purges_before_def KeepRetention)
    have t': "t' = snd (drop_before k (today - retention) t)"
      by (simp add: t'_def KeepRetention True purge_old_def split_beta)
    have kept: "has_from k day0 t' r" if "has_from k day0 t r" for r
    proof -
      have "tk_key k r \<in> tk_key k ` set (pt_rows t')" if "day0 \<le> tk_day k r"
      proof -
        from \<open>has_from k day0 t r\<close> that obtain r' where r': "tk_key k r = tk_key k r'" "r' \<in> set (pt_rows t)"
          unfolding has_from_def by blast
        then have "day0 \<le> tk_day k r'" using assms(2) that by (metis same_day_def)
        with r' c show ?thesis by (auto simp: t' drop_before_def)
      qed
      then show ?thesis by (simp add: has_from_def)
    qed
    have "set (pt_rows t') \<subseteq> set (pt_rows t)" "pt_staging t' = pt_staging t" by (auto simp: t' drop_before_def)
    then show ?thesis using accounts_kept [OF assms(1) ok kept] by simp
  qed
qed

lemma upkeep_accounts:
  "accounts k day0 B R lost t \<Longrightarrow> same_day k \<Longrightarrow> purges_before day0 us \<Longrightarrow>
     accounts k day0 B R lost (upkeep_run k us t) \<and> pt_staging (upkeep_run k us t) = pt_staging t"
proof (induction us arbitrary: t)
  case (Cons u us)
  have u: "purges_before day0 [u]" "purges_before day0 us" using Cons.prems(3) by (auto simp: purges_before_def)
  from Cons.IH [OF conjunct1 [OF upkeep_step_accounts [OF Cons.prems(1,2) u(1)]] Cons.prems(2) u(2)]
    upkeep_step_accounts [OF Cons.prems(1,2) u(1)]
  show ?case by (simp add: upkeep_run_def)
qed (simp add: upkeep_run_def)

lemma copy_accounts:
  "accounts k day0 B R lost t \<Longrightarrow> accounts k day0 B (R \<union> set batch) (batch # lost) (table_step k t (CopyIn batch))"
  by (auto simp: accounts_def table_ok_def has_from_def)

lemma unwritten_accounts: "accounts k day0 B R lost t \<Longrightarrow> accounts k day0 B (R \<union> set batch) (batch # lost) t"
  by (auto simp: accounts_def)

lemma partitions_accounts: "accounts k day0 B R lost t \<Longrightarrow> accounts k day0 B R lost (partitions_for_staging k t)"
  using partitions_for_staging_result [of k t] by (simp add: accounts_def has_from_def)

text \<open>A merge that goes through writes all that waits.\<close>

lemma merge_accounts:
  assumes "merge_table k t = Some (n, t')" and "accounts k day0 B R lost t"
  shows "accounts k day0 B R lost t' \<and> pt_staging t' = []
    \<and> (set batch \<subseteq> set (pt_staging t) \<longrightarrow> lost = batch # rest \<longrightarrow> accounts k day0 B R rest t')"
proof -
  let ?kept = "keep_first (tk_key k) [] (sort_key (tk_received k) (pt_staging t))"
  obtain m rows where m: "merge_staging (tk_key k) (tk_received k) (pt_rows t) (pt_staging t) = (m, rows)" by fastforce
  from assms(1) have days: "\<forall>r\<in>set ?kept. tk_day k r \<in> set (pt_days t)"
    and t': "t' = t\<lparr>pt_rows := rows, pt_staging := []\<rparr>"
    by (auto simp: merge_table_def m split: if_splits)
  have rows: "set rows \<subseteq> set (pt_rows t) \<union> set ?kept" using m by (auto simp: merge_staging_def Let_def)
  have kept: "set ?kept \<subseteq> set (pt_staging t)"
    using keep_first_subset [of "tk_key k" "[]" "sort_key (tk_received k) (pt_staging t)"] by simp
  have ok: "table_ok k t" using assms(2) by (simp add: accounts_def)
  then have "distinct (map (tk_key k) (pt_rows t))" by (simp add: table_ok_def)
  note keys = merge_keys [OF this m]
  have "tk_day k ` set rows \<subseteq> set (pt_days t)" using rows days ok unfolding table_ok_def by blast
  then have ok': "table_ok k t'" using keys ok by (simp add: t' table_ok_def)
  have sub: "set rows \<subseteq> B \<union> R" using rows kept assms(2) by (auto simp: accounts_def)
  have all: "tk_key k ` set rows = tk_key k ` set (pt_rows t) \<union> tk_key k ` set (pt_staging t)" using keys by blast
  have a: "accounts k day0 B R lost t'"
    using assms(2) ok' sub all by (auto simp: accounts_def has_from_def t')
  moreover have "accounts k day0 B R rest t'" if "set batch \<subseteq> set (pt_staging t)" "lost = batch # rest"
    using a that all by (auto simp: accounts_def has_from_def t')
  ultimately show ?thesis by (simp add: t')
qed

lemma flush_inner_accounts:
  assumes "accounts k day0 B R lost t" and "same_day k" and "purges_before day0 (wa_between a)"
    and "flush_inner k a batch t = (r, t')"
  shows "accounts k day0 B (R \<union> set batch) (if r = None then batch # lost else lost) t'"
proof -
  define t1 where "t1 = (if wa_copy a = NotDone then t else table_step k t (CopyIn batch))"
  define t2 where "t2 = (if wa_ensure a = NotDone then t1 else partitions_for_staging k t1)"
  define t3 where "t3 = upkeep_run k (wa_between a) t2"
  have a0: "accounts k day0 B (R \<union> set batch) (batch # lost) t" by (rule unwritten_accounts [OF assms(1)])
  have a1: "accounts k day0 B (R \<union> set batch) (batch # lost) t1"
    unfolding t1_def using a0 copy_accounts [OF assms(1)] by simp
  have a2: "accounts k day0 B (R \<union> set batch) (batch # lost) t2"
    unfolding t2_def using a1 partitions_accounts by auto
  have a3: "accounts k day0 B (R \<union> set batch) (batch # lost) t3" "pt_staging t3 = pt_staging t2"
    unfolding t3_def using upkeep_accounts [OF a2 assms(2,3)] by simp_all
  note eq = assms(4) [unfolded flush_inner_def Let_def, folded t1_def, folded t2_def, folded t3_def]
  show ?thesis
  proof (cases "wa_connects a \<and> wa_copy a = Done \<and> wa_ensure a = Done \<and> wa_merge a \<noteq> NotDone")
    case False
    then have "r = None" "t' \<in> {t, t1, t2, t3}" using eq by (auto split: if_splits)
    with a0 a1 a2 a3 show ?thesis by auto
  next
    case True
    show ?thesis
    proof (cases "merge_table k t3")
      case None
      with True eq a3 show ?thesis by simp
    next
      case (Some p)
      obtain n t4 where p: "p = (n, t4)" by fastforce
      have "set batch \<subseteq> set (pt_staging t3)"
        using True partitions_for_staging_result [of k t1] by (simp add: a3(2) t2_def t1_def)
      with merge_accounts [OF Some [unfolded p] a3(1), of batch lost] True eq Some p show ?thesis
        by (auto split: if_splits)
    qed
  qed
qed

lemma flush_write_accounts:
  assumes "accounts k day0 B R lost t" and "same_day k" and "purges_before day0 (wa_before a)" "purges_before day0 (wa_between a)"
    and "flush_write k a batch t = (r, t')"
  shows "accounts k day0 B (R \<union> set batch) (if r = None then batch # lost else lost) t'"
proof -
  obtain r1 t1 where f: "flush_inner k a batch (upkeep_run k (wa_before a) t) = (r1, t1)" by fastforce
  have "accounts k day0 B (R \<union> set batch) (if r1 = None then batch # lost else lost) t1"
    using flush_inner_accounts [OF conjunct1 [OF upkeep_accounts [OF assms(1-3)]] assms(2,4) f] .
  moreover have "accounts k day0 B R' lost' (t1\<lparr>pt_staging := []\<rparr>)" if "accounts k day0 B R' lost' t1" for R' lost'
    using that by (auto simp: accounts_def table_ok_def has_from_def)
  ultimately show ?thesis
    using assms(5) f by (cases r1) (auto simp: flush_write_def split: if_splits)
qed

subsection \<open>Interface: a store that fails\<close>

text \<open>A store that counts its flushes and answers the \<open>i\<close>-th as it is told.\<close>

locale faulty_store =
  fixes store :: "nat \<times> 'd \<Rightarrow> 'r list \<Rightarrow> nat option \<times> nat \<times> 'd"
    and tab :: "'d \<Rightarrow> 'r part_table"
    and kind :: "('r, 'k) table_kind"
    and answers :: "nat \<Rightarrow> write_answers"
  assumes store_writes: "store (i, d) batch = (r, j, d') \<Longrightarrow> (r, tab d') = flush_write kind (answers i) batch (tab d)"
    and key_day: "same_day kind"
begin

text \<open>The batcher accounts for what it flushed, with one lost batch for every failure it counted beside those
  that were lost before it started, \<open>base\<close>.\<close>

definition accountable :: "int \<Rightarrow> nat \<Rightarrow> 'r set \<Rightarrow> 'r list list \<Rightarrow> 'r set \<Rightarrow> 'r list list \<Rightarrow> ('r, nat \<times> 'd) batcher \<Rightarrow> bool" where
  "accountable day0 big B base R lost b \<longleftrightarrow> accounts kind day0 B R (lost @ base) (tab (snd (ba_db b)))
     \<and> length lost = flush_failures_total (ba_metrics b) \<and> (\<forall>batch\<in>set lost. length batch < big)"

lemma flush_accountable:
  assumes "accountable day0 big B base R lost b" and "\<And>i. purges_before day0 (wa_before (answers i) @ wa_between (answers i))"
    and "length (ba_buf b) < big" and "flush store b = (out, b')"
  shows "\<exists>lost'. accountable day0 big B base (R \<union> set out) lost' b'"
proof (cases "ba_buf b = []")
  case True
  with assms(1,4) show ?thesis by (auto simp: flush_def)
next
  case False
  obtain i d where db: "ba_db b = (i, d)" by fastforce
  obtain r j d' where s: "store (i, d) (ba_buf b) = (r, j, d')" by (metis prod.collapse)
  have p: "purges_before day0 (wa_before (answers i))" "purges_before day0 (wa_between (answers i))"
    using assms(2) [of i] by (auto simp: purges_before_def)
  have "accounts kind day0 B R (lost @ base) (tab d)" using assms(1) by (simp add: accountable_def db)
  from flush_write_accounts [OF this key_day p store_writes [OF s, symmetric]]
  have a: "accounts kind day0 B (R \<union> set (ba_buf b)) (if r = None then ba_buf b # lost @ base else lost @ base) (tab d')" .
  have b': "out = ba_buf b" "ba_db b' = (j, d')"
    "flush_failures_total (ba_metrics b') = flush_failures_total (ba_metrics b) + (if r = None then 1 else 0)"
    using assms(4) False by (auto simp: flush_def db s Let_def split: option.splits)
  have "accountable day0 big B base (R \<union> set out) (if r = None then ba_buf b # lost else lost) b'"
    using a assms(1,3) by (cases r) (simp_all add: accountable_def b')
  then show ?thesis by blast
qed

lemma accountable_frame:
  "accountable day0 big B base R lost b \<Longrightarrow> ba_db b' = ba_db b \<Longrightarrow>
     flush_failures_total (ba_metrics b') = flush_failures_total (ba_metrics b) \<Longrightarrow> accountable day0 big B base R lost b'"
  by (simp add: accountable_def)

lemma take_accountable:
  assumes "accountable day0 big B base R lost b" and "\<And>i. purges_before day0 (wa_before (answers i) @ wa_between (answers i))"
    and "length (ba_buf b) + length batch < big" and "take_batch store bsize batch c b = (out, b')"
  shows "\<exists>lost'. accountable day0 big B base (R \<union> set out) lost' b'"
proof -
  define b1 where "b1 = b\<lparr>ba_chan := c, ba_buf := ba_buf b @ batch\<rparr>"
  have b1: "accountable day0 big B base R lost b1" "length (ba_buf b1) < big"
    using assms(1,3) by (simp_all add: b1_def accountable_def)
  note eq = assms(4) [unfolded take_batch_def Let_def, folded b1_def]
  show ?thesis
  proof (cases "bsize \<le> length (ba_buf b1)")
    case True
    with eq flush_accountable [OF b1(1) assms(2) b1(2)] show ?thesis by simp
  next
    case False
    with eq b1 show ?thesis by auto
  qed
qed

lemma step_accountable:
  assumes "accountable day0 big B base R lost b" and "\<And>i. purges_before day0 (wa_before (answers i) @ wa_between (answers i))"
    and "batcher_fits cap mx bsize b" "max 1 bsize + mx \<le> big" and "batcher_step store bsize e b = (out, b')"
  shows "\<exists>lost'. accountable day0 big B base (R \<union> set out) lost' b'"
proof -
  have buf: "length (ba_buf b) < big" using assms(3,4) by (simp add: batcher_fits_def)
  have taken: "length (ba_buf b) + length batch < big" if "chan_recv (ba_chan b) = Some (batch, c)" for batch c
  proof -
    have "batch \<in> set (ch_batches (ba_chan b))" using that by (auto simp: chan_recv_def split: list.splits)
    then have "length batch \<le> mx" "length (ba_buf b) < max 1 bsize" using assms(3) by (auto simp: batcher_fits_def)
    with assms(4) show ?thesis by linarith
  qed
  have same: ?thesis if "out = []" "ba_db b' = ba_db b" "flush_failures_total (ba_metrics b') = flush_failures_total (ba_metrics b)"
    using accountable_frame [OF assms(1) that(2,3)] that(1) by auto
  have flushed: ?thesis if f: "flush store b = (out, b1)" "ba_db b' = ba_db b1" "ba_metrics b' = ba_metrics b1" for b1
  proof -
    from flush_accountable [OF assms(1,2) buf f(1)] obtain lost' where "accountable day0 big B base (R \<union> set out) lost' b1" by blast
    from accountable_frame [OF this f(2)] f(3) show ?thesis by auto
  qed
  obtain fo fb where f: "flush store b = (fo, fb)" by fastforce
  have recv: ?thesis if r: "chan_recv (ba_chan b) = Some (batch, c)" "take_batch store bsize batch c b = (out, b')" for batch c
    by (rule take_accountable [OF assms(1,2) taken [OF r(1)] r(2)])
  have idle: ?thesis if "(out, b') = ([], b)" using that assms(1) by auto
  show ?thesis
  proof (cases e)
    case (Enqueue batch)
    with assms(5) show ?thesis
      by (intro same) (auto simp: try_enqueue_def Let_def split: option.splits)
  next
    case Recv
    show ?thesis
    proof (cases "ba_phase b = Running \<and> chan_recv (ba_chan b) \<noteq> None")
      case True
      then obtain batch c where r: "chan_recv (ba_chan b) = Some (batch, c)" by auto
      with assms(5) True show ?thesis by (intro recv [OF r]) (simp add: Recv)
    next
      case False
      with assms(5) show ?thesis by (intro idle) (auto simp: Recv split: if_splits option.splits)
    qed
  next
    case Hangup
    show ?thesis
    proof (cases "ba_phase b = Running \<and> ch_batches (ba_chan b) = []")
      case True
      with assms(5) f show ?thesis by (intro flushed [of fb]) (auto simp: Hangup)
    next
      case False
      with assms(5) show ?thesis by (intro idle) (simp add: Hangup split: if_splits)
    qed
  next
    case FlushTick
    show ?thesis
    proof (cases "ba_phase b = Running")
      case True
      with assms(5) f show ?thesis by (intro flushed [of fb]) (auto simp: FlushTick)
    next
      case False
      with assms(5) show ?thesis by (intro idle) (simp add: FlushTick)
    qed
  next
    case Shutdown
    with assms(5) show ?thesis by (intro same) (auto split: if_splits)
  next
    case Drain
    show ?thesis
    proof (cases "ba_phase b = Draining")
      case False
      with assms(5) show ?thesis by (intro idle) (simp add: Drain)
    next
      case True
      show ?thesis
      proof (cases "chan_recv (ba_chan b)")
        case None
        with assms(5) f True show ?thesis by (intro flushed [of fb]) (auto simp: Drain)
      next
        case (Some p)
        then obtain batch c where r: "chan_recv (ba_chan b) = Some (batch, c)" by (cases p) auto
        with assms(5) True show ?thesis by (intro recv [OF r]) (simp add: Drain)
      qed
    qed
  next
    case Close
    with assms(5) show ?thesis by (intro same) (auto split: if_splits)
  qed
qed

lemma run_accountable:
  assumes "\<And>i. purges_before day0 (wa_before (answers i) @ wa_between (answers i))" and "max 1 bsize + mx \<le> big"
  shows "batcher_run store bsize es b = (out, b') \<Longrightarrow> accountable day0 big B base R lost b \<Longrightarrow> batcher_fits cap mx bsize b \<Longrightarrow>
     (\<And>x. Enqueue x \<in> set es \<Longrightarrow> length x \<le> mx) \<Longrightarrow> \<exists>lost'. accountable day0 big B base (R \<union> set out) lost' b'"
proof (induction es arbitrary: b R lost out)
  case Nil
  then show ?case by auto
next
  case (Cons e es)
  obtain o1 b1 where e: "batcher_step store bsize e b = (o1, b1)" by fastforce
  obtain o2 where r: "batcher_run store bsize es b1 = (o2, b')" and out: "out = o1 @ o2"
    using Cons.prems(1) e by (auto split: prod.splits)
  obtain lost1 where "accountable day0 big B base (R \<union> set o1) lost1 b1"
    using step_accountable [OF Cons.prems(2) assms(1) Cons.prems(3) assms(2) e] by blast
  moreover have "batcher_fits cap mx bsize b1"
    using batcher_fits_step [OF Cons.prems(3), of e store] e Cons.prems(4) by simp
  ultimately have "\<exists>lost'. accountable day0 big B base ((R \<union> set o1) \<union> set o2) lost' b'"
    using Cons.prems(4) by (intro Cons.IH [OF r]) simp_all
  then show ?case by (simp add: out Un_assoc)
qed

end

subsection \<open>The service over a database that fails\<close>

record weather =
  we_events :: "nat \<Rightarrow> write_answers"
  we_logs :: "nat \<Rightarrow> write_answers"
  we_spans :: "nat \<Rightarrow> write_answers"
  we_points :: "nat \<Rightarrow> write_answers"

definition faulty_postgres :: "weather \<Rightarrow> nat \<Rightarrow> (nat \<times> database) stores" where
  "faulty_postgres w bsize =
     \<lparr>so_events = \<lambda>(i, db) batch. let (r, t) = flush_write events_table (we_events w i) batch (db_events db)
                                  in (r, Suc i, db\<lparr>db_events := t\<rparr>),
      so_logs = \<lambda>(i, db) batch. let (r, t) = flush_write logs_table (we_logs w i) batch (db_logs db)
                                in (r, Suc i, db\<lparr>db_logs := t\<rparr>),
      so_spans = \<lambda>(i, db) batch. let (r, t) = flush_write spans_table (we_spans w i) batch (db_spans db)
                                 in (r, Suc i, db\<lparr>db_spans := t\<rparr>),
      so_points = \<lambda>(i, db) batch. let (r, t) = flush_write points_table (we_points w i) batch (db_points db)
                                  in (r, Suc i, db\<lparr>db_points := t\<rparr>),
      so_bsize = bsize\<rparr>"

text \<open>No purge of the maintenance drops a day from \<open>day0\<close> on.\<close>

definition keeps_from :: "int \<Rightarrow> weather \<Rightarrow> bool" where
  "keeps_from day0 w \<longleftrightarrow> (\<forall>ans\<in>{we_events w, we_logs w, we_spans w, we_points w}. \<forall>i.
     purges_before day0 (wa_before (ans i) @ wa_between (ans i)))"

locale outlasting_part = batcher_part part ev mstep store bsize ack + faulty_store store tab kind answers
  for part :: "'s \<Rightarrow> ('r, nat \<times> 'd) batcher" and ev :: "'s \<Rightarrow> 'o \<Rightarrow> 'r batcher_event list"
    and mstep :: "'o \<Rightarrow> 's \<Rightarrow> 's" and store :: "nat \<times> 'd \<Rightarrow> 'r list \<Rightarrow> nat option \<times> nat \<times> 'd" and bsize :: nat
    and ack :: "'s \<Rightarrow> 'o \<Rightarrow> 'r list" and tab :: "'d \<Rightarrow> 'r part_table" and kind :: "('r, 'k) table_kind"
    and answers :: "nat \<Rightarrow> write_answers"
begin

lemma run_accounted:
  assumes "quiet_after_shutdown (trace ev mstep ops st0)" and "part st0 = spawn_batcher cap (0, d)"
    and "accounts kind day0 B R base (tab d)"
    and "\<And>i. purges_before day0 (wa_before (answers i) @ wa_between (answers i))"
    and "\<And>st op x. Enqueue x \<in> set (ev st op) \<Longrightarrow> length x \<le> mx"
  defines "b \<equiv> part (fold mstep ops st0)"
  shows "\<exists>flushed lost. flushed @ held b = trace ack mstep ops st0 \<and> batcher_fits cap mx bsize b
    \<and> (running_ok b \<or> stopping_ok b) \<and> accountable day0 (max 1 bsize + mx) B base (R \<union> set flushed) lost b"
proof -
  let ?es = "trace ev mstep ops st0" and ?b0 = "spawn_batcher cap (0, d)"
  have b: "b = snd (batcher_run store bsize ?es ?b0)"
    by (simp add: b_def run_simulates batcher_run_fold assms(2))
  then obtain out where r: "batcher_run store bsize ?es ?b0 = (out, b)"
    by (metis prod.collapse)
  note flows = quiet_run [OF running_spawn(1) assms(1) r]
  have out: "out @ held b = trace ack mstep ops st0"
    using flows accepted_trace [of ops st0] by (simp add: assms(2) running_spawn(2))
  have start: "accountable day0 (max 1 bsize + mx) B base R [] ?b0"
    using assms(3) by (simp add: accountable_def spawn_batcher_def metrics_zero_def)
  have fits: "batcher_fits cap mx bsize ?b0"
    by (simp add: batcher_fits_def spawn_batcher_def)
  have sizes: "length x \<le> mx" if "Enqueue x \<in> set ?es" for x
    using that assms(5) by (induction ops arbitrary: st0) auto
  have "\<exists>lost. accountable day0 (max 1 bsize + mx) B base (R \<union> set out) lost b"
    using run_accountable [OF assms(4) order_refl r start fits] sizes by blast
  moreover have "batcher_fits cap mx bsize b"
    using batcher_fits_fold [OF fits sizes, where store = store] by (simp add: b batcher_run_fold)
  ultimately show ?thesis using out flows by blast
qed

lemma acknowledged_accounted:
  assumes "quiet_after_shutdown (trace ev mstep ops st0)" and "part st0 = spawn_batcher cap (0, d)"
    and "ba_phase (part (fold mstep ops st0)) = Stopped" and "table_ok kind (tab d)" "pt_staging (tab d) = []"
    and "\<And>i. purges_before day0 (wa_before (answers i) @ wa_between (answers i))"
    and "\<And>st op x. Enqueue x \<in> set (ev st op) \<Longrightarrow> length x \<le> mx"
  shows "\<exists>lost. accountable day0 (max 1 bsize + mx) (set (pt_rows (tab d))) [] (set (trace ack mstep ops st0)) lost
    (part (fold mstep ops st0))"
proof -
  have "accounts kind day0 (set (pt_rows (tab d))) {} [] (tab d)"
    using assms(4,5) by (simp add: accounts_def has_from_def)
  from run_accounted [OF assms(1,2) this assms(6,7)] stopped_holds_nothing [OF _ assms(3)] show ?thesis by fastforce
qed

text \<open>A batcher that is stopped at any moment loses, beside, what it held in memory.\<close>

lemma crash_accounted:
  assumes "quiet_after_shutdown (trace ev mstep ops st0)" and "part st0 = spawn_batcher cap (0, d)"
    and "accounts kind day0 B R base (tab d)"
    and "\<And>i. purges_before day0 (wa_before (answers i) @ wa_between (answers i))"
    and "\<And>st op x. Enqueue x \<in> set (ev st op) \<Longrightarrow> length x \<le> mx"
  defines "b \<equiv> part (fold mstep ops st0)"
  shows "\<exists>lost. accounts kind day0 B (R \<union> set (trace ack mstep ops st0)) (held b # lost @ base) (tab (snd (ba_db b)))
    \<and> length lost = flush_failures_total (ba_metrics b) \<and> (\<forall>batch\<in>set lost. length batch < max 1 bsize + mx)
    \<and> length (held b) < cap * mx + max 1 bsize"
proof -
  obtain flushed lost where f: "flushed @ held b = trace ack mstep ops st0" "batcher_fits cap mx bsize b"
      "accountable day0 (max 1 bsize + mx) B base (R \<union> set flushed) lost b"
    using run_accounted [OF assms(1-4)] assms(5) unfolding b_def by blast
  have "R \<union> set (trace ack mstep ops st0) = (R \<union> set flushed) \<union> set (held b)" by (auto simp: f(1) [symmetric])
  then show ?thesis
    using f(3) unwritten_accounts [of kind day0 B "R \<union> set flushed" "lost @ base"] fits_held [OF f(2)]
    unfolding accountable_def by (metis (lifting))
qed

end

interpretation events_outlast: outlasting_part "\<lambda>st. core (as_events st)" "events_ev env" "api_step env (faulty_postgres w bsize)"
    "so_events (faulty_postgres w bsize)" "so_bsize (faulty_postgres w bsize)" "acked_events env" db_events events_table "we_events w"
  for env w bsize
  by (intro outlasting_part.intro events_acks.batcher_part_axioms faulty_store.intro)
    (auto simp: faulty_postgres_def tables_same_day split: prod.splits)

interpretation logs_outlast: outlasting_part "\<lambda>st. core (as_logs st)" "logs_ev env" "api_step env (faulty_postgres w bsize)"
    "so_logs (faulty_postgres w bsize)" "so_bsize (faulty_postgres w bsize)" "acked_logs env" db_logs logs_table "we_logs w"
  for env w bsize
  by (intro outlasting_part.intro logs_acks.batcher_part_axioms faulty_store.intro)
    (auto simp: faulty_postgres_def tables_same_day split: prod.splits)

interpretation spans_outlast: outlasting_part "\<lambda>st. core (as_spans st)" "spans_ev env" "api_step env (faulty_postgres w bsize)"
    "so_spans (faulty_postgres w bsize)" "so_bsize (faulty_postgres w bsize)" "acked_spans env" db_spans spans_table "we_spans w"
  for env w bsize
  by (intro outlasting_part.intro spans_acks.batcher_part_axioms faulty_store.intro)
    (auto simp: faulty_postgres_def tables_same_day split: prod.splits)

interpretation points_outlast: outlasting_part "\<lambda>st. core (as_points st)" "points_ev env" "api_step env (faulty_postgres w bsize)"
    "so_points (faulty_postgres w bsize)" "so_bsize (faulty_postgres w bsize)" "acked_points env" db_points points_table "we_points w"
  for env w bsize
  by (intro outlasting_part.intro points_acks.batcher_part_axioms faulty_store.intro)
    (auto simp: faulty_postgres_def tables_same_day split: prod.splits)

text \<open>A stopped batcher and its table: what the table held at the start and what was acknowledged is accounted
  for, the latter with one lost batch, of less than \<open>big\<close> records, for every failed flush that the metrics report.\<close>

definition outlasted ::
    "('r, 'k) table_kind \<Rightarrow> ('d \<Rightarrow> 'r part_table) \<Rightarrow> int \<Rightarrow> nat \<Rightarrow> 'd \<Rightarrow> 'r list \<Rightarrow> ('r, nat \<times> 'd) batcher \<Rightarrow> bool" where
  "outlasted k tab day0 big d rows b \<longleftrightarrow> ba_phase b = Stopped
     \<and> (\<exists>lost. accounts k day0 (set (pt_rows (tab d))) (set rows) lost (tab (snd (ba_db b)))
          \<and> length lost = flush_failures_total (ba_metrics b) \<and> (\<forall>batch\<in>set lost. length batch < big))"

lemma streams_outlast:
  fixes bsize :: nat and w :: weather
  assumes "orderly ops" "database_ready db" and "st0 = app_state_new env t0 (0, db)" and "keeps_from day0 w"
  defines "so \<equiv> faulty_postgres w bsize"
  defines "st \<equiv> fold (api_step env so) ops st0"
  shows "ba_phase (as_events st) = Stopped \<Longrightarrow>
      outlasted events_table db_events day0 (max 1 bsize + max_batch_events (ae_limits env)) db
        (trace (acked_events env) (api_step env so) ops st0) (as_events st)"
    "ba_phase (as_logs st) = Stopped \<Longrightarrow>
      outlasted logs_table db_logs day0 (max 1 bsize + max_logs_records (ae_cfg env)) db
        (trace (acked_logs env) (api_step env so) ops st0) (as_logs st)"
    "ba_phase (as_spans st) = Stopped \<Longrightarrow>
      outlasted spans_table db_spans day0 (max 1 bsize + max_logs_records (ae_cfg env)) db
        (trace (acked_spans env) (api_step env so) ops st0) (as_spans st)"
    "ba_phase (as_points st) = Stopped \<Longrightarrow>
      outlasted points_table db_points day0 (max 1 bsize + max_logs_records (ae_cfg env)) db
        (trace (acked_points env) (api_step env so) ops st0) (as_points st)"
proof -
  have init: "core (as_events st0) = spawn_batcher (channel_capacity (ae_cfg env)) (0, db)"
    "core (as_logs st0) = spawn_batcher (channel_capacity (ae_cfg env)) (0, db)"
    "core (as_spans st0) = spawn_batcher (channel_capacity (ae_cfg env)) (0, db)"
    "core (as_points st0) = spawn_batcher (channel_capacity (ae_cfg env)) (0, db)"
    by (simp_all add: assms(3) app_state_new_def)
  have size: "so_bsize (faulty_postgres w bsize) = bsize" by (simp add: faulty_postgres_def)
  have keeps: "purges_before day0 (wa_before (we_events w i) @ wa_between (we_events w i))"
    "purges_before day0 (wa_before (we_logs w i) @ wa_between (we_logs w i))"
    "purges_before day0 (wa_before (we_spans w i) @ wa_between (we_spans w i))"
    "purges_before day0 (wa_before (we_points w i) @ wa_between (we_points w i))" for i
    using assms(4) by (simp_all add: keeps_from_def)
  have fails: "flush_failures_total (ba_metrics (core b)) = flush_failures_total (ba_metrics b)"
    for b :: "('x, 'y) batcher" by (simp add: core_def)
  note ready = assms(2) [unfolded database_ready_def]
  note quiet = streams_quiet [OF assms(1)]
  show "ba_phase (as_events st) = Stopped \<Longrightarrow>
      outlasted events_table db_events day0 (max 1 bsize + max_batch_events (ae_limits env)) db
        (trace (acked_events env) (api_step env so) ops st0) (as_events st)"
    using events_outlast.acknowledged_accounted [OF quiet(1) init(1) _ _ _ keeps(1), where mx = "max_batch_events (ae_limits env)" and bsize = bsize and env = env] ready
    by (simp add: outlasted_def events_outlast.accountable_def st_def so_def fails size ev_sizes(1))
  show "ba_phase (as_logs st) = Stopped \<Longrightarrow>
      outlasted logs_table db_logs day0 (max 1 bsize + max_logs_records (ae_cfg env)) db
        (trace (acked_logs env) (api_step env so) ops st0) (as_logs st)"
    using logs_outlast.acknowledged_accounted [OF quiet(2) init(2) _ _ _ keeps(2), where mx = "max_logs_records (ae_cfg env)" and bsize = bsize and env = env] ready
    by (simp add: outlasted_def logs_outlast.accountable_def st_def so_def fails size ev_sizes(2))
  show "ba_phase (as_spans st) = Stopped \<Longrightarrow>
      outlasted spans_table db_spans day0 (max 1 bsize + max_logs_records (ae_cfg env)) db
        (trace (acked_spans env) (api_step env so) ops st0) (as_spans st)"
    using spans_outlast.acknowledged_accounted [OF quiet(3) init(3) _ _ _ keeps(3), where mx = "max_logs_records (ae_cfg env)" and bsize = bsize and env = env] ready
    by (simp add: outlasted_def spans_outlast.accountable_def st_def so_def fails size ev_sizes(3))
  show "ba_phase (as_points st) = Stopped \<Longrightarrow>
      outlasted points_table db_points day0 (max 1 bsize + max_logs_records (ae_cfg env)) db
        (trace (acked_points env) (api_step env so) ops st0) (as_points st)"
    using points_outlast.acknowledged_accounted [OF quiet(4) init(4) _ _ _ keeps(4), where mx = "max_logs_records (ae_cfg env)" and bsize = bsize and env = env] ready
    by (simp add: outlasted_def points_outlast.accountable_def st_def so_def fails size ev_sizes(4))
qed

subsection \<open>Property\<close>

text \<open>C2. Whatever the database does, failed and unanswered statements and maintenance between them included,
  once the service is stopped each of its four tables holds each key once, in existing partitions, and
  only records that it held or that were acknowledged. From the days that no purge reached, a record that
  the table held is still in it, and an acknowledged one is in it or in one of the batches of the failed
  flushes, which are as many as the metrics report and of less than the flush size and one request
  together.\<close>

theorem service_outlasts_the_database:
  assumes "list_all (\<lambda>op. \<not> is_stop op) ops" and "database_ready db" and "keeps_from day0 w"
    and "st0 = app_state_new env t0 (0, db)" and "so = faulty_postgres w bsize"
    and "st = stop_service env so now (api_run env so ops st0)"
  shows "outlasted events_table db_events day0 (max 1 bsize + max_batch_events (ae_limits env)) db
        (trace (acked_events env) (api_step env so) ops st0) (as_events st)
    \<and> outlasted logs_table db_logs day0 (max 1 bsize + max_logs_records (ae_cfg env)) db
        (trace (acked_logs env) (api_step env so) ops st0) (as_logs st)
    \<and> outlasted spans_table db_spans day0 (max 1 bsize + max_logs_records (ae_cfg env)) db
        (trace (acked_spans env) (api_step env so) ops st0) (as_spans st)
    \<and> outlasted points_table db_points day0 (max 1 bsize + max_logs_records (ae_cfg env)) db
        (trace (acked_points env) (api_step env so) ops st0) (as_points st)"
proof -
  define stops where "stops = stop_ops now (api_run env so ops st0)"
  have quiet: "list_all (\<lambda>op. request_on op = '''') stops" unfolding stops_def by (rule stop_ops_quiet)
  have st: "st = fold (api_step env (faulty_postgres w bsize)) (ops @ stops) st0"
    by (simp add: assms(5,6) stop_service_def api_run_def stops_def)
  note ended = stop_service_stops [where env = env and now = now and so = so and st = "api_run env so ops st0", folded assms(6), unfolded st]
  note tables = streams_outlast [OF no_stop_orderly [OF assms(1) quiet] assms(2,4,3), where bsize = bsize]
  have none: "trace (acked_events env) stp stops s = []" "trace (acked_logs env) stp stops s = []"
    "trace (acked_spans env) stp stops s = []" "trace (acked_points env) stp stops s = []"
    for stp and s :: "(nat \<times> database) app_state"
    by (rule trace_none [OF quiet]; rule acked_none; assumption)+
  show ?thesis
    using tables(1) [OF ended(1)] tables(2) [OF ended(2)] tables(3) [OF ended(3)] tables(4) [OF ended(4)]
    unfolding st assms(5) trace_append none append_Nil2 by (intro conjI)
qed

text \<open>A flush whose merge fails after a purge; then everything answers.\<close>

definition storm :: "nat \<Rightarrow> write_answers" where
  "storm i = (if i = 0 then calm\<lparr>wa_before := [KeepRetention True 100 90], wa_merge := NotDone\<rparr> else calm)"

definition demo_weather :: weather where
  "demo_weather = \<lparr>we_events = storm, we_logs = storm, we_spans = storm, we_points = storm\<rparr>"

definition demo_ops :: "api_op list" where
  "demo_ops = [PostEvents demo_request (Some \<lparr>ib_token = None, ib_events = [demo_event]\<rparr>), EventsTask 3 TaskRecv]"

lemma demo_acks:
  fixes db :: "nat \<times> database"
  shows "trace (acked_events demo_api) (api_step demo_api so) demo_ops (app_state_new demo_api 0 db) = [normalised demo_event 7]"
proof -
  have ack: "acked demo_api (PostEvents demo_request (Some \<lparr>ib_token = None, ib_events = [demo_event]\<rparr>)) (app_state_new demo_api 0 db)"
    using demo_acknowledged [of db] by simp
  have batch: "event_batch demo_api (PostEvents demo_request (Some \<lparr>ib_token = None, ib_events = [demo_event]\<rparr>))
      = [normalised demo_event 7]"
    by (simp add: fresh_events_def out_of_skew_def past_limit_def future_limit_def demo_event_def demo_request_def
        demo_api_def demo_service_def)
  show ?thesis
    unfolding demo_ops_def trace.simps acked_events_def batch using ack by (simp add: acked_events_def)
qed

lemma demo_ready: "database_ready database_new"
  by (simp add: database_ready_def database_new_def table_new_def table_ok_def)

lemma demo_keeps: "keeps_from 10 demo_weather"
  by (auto simp: keeps_from_def demo_weather_def storm_def calm_def purges_before_def)

lemma service_outlasts_the_database_witness:
  "outlasted events_table db_events 10 (2 + 500) database_new [normalised demo_event 7]
     (as_events (stop_service demo_api (faulty_postgres demo_weather 2) 9
        (api_run demo_api (faulty_postgres demo_weather 2) demo_ops (app_state_new demo_api 0 (0, database_new)))))"
proof -
  define st where "st = stop_service demo_api (faulty_postgres demo_weather 2) 9
    (api_run demo_api (faulty_postgres demo_weather 2) demo_ops (app_state_new demo_api 0 (0, database_new)))"
  have big: "max 1 2 + max_batch_events (ae_limits demo_api) = 2 + 500" by (simp add: demo_api_def demo_service_def)
  have "list_all (\<lambda>op. \<not> is_stop op) demo_ops" by (simp add: demo_ops_def)
  from service_outlasts_the_database [OF this demo_ready demo_keeps refl refl st_def] show ?thesis
    unfolding demo_acks big st_def by blast
qed

subsection \<open>A batcher that does not start\<close>

text \<open>
  What \<^verbatim>\<open>spawn\<close> does with settings that no guard refuses: the channel of tokio panics on a capacity of zero or
  beyond its limit, in the task that starts the service; the interval of tokio panics on a period of zero, in the task of the
  batcher, which drops the receiving end of the channel.
\<close>

definition max_permits :: nat where
  "max_permits = u64_max div 8"

definition batcher_spawn :: "nanos \<Rightarrow> nat \<Rightarrow> 'db \<Rightarrow> ('r, 'db) batcher option" where
  "batcher_spawn period capacity db =
     (if capacity = 0 \<or> capacity > max_permits then None
      else
        (let b = spawn_batcher capacity db in
         Some (if period = 0 then b\<lparr>ba_chan := (ba_chan b)\<lparr>ch_open := False\<rparr>, ba_phase := Stopped\<rparr> else b)))"

lemma batcher_spawn_runs:
  "0 < period \<Longrightarrow> 0 < capacity \<Longrightarrow> capacity \<le> max_permits \<Longrightarrow>
     batcher_spawn period capacity db = Some (spawn_batcher capacity db)"
  by (simp add: batcher_spawn_def Let_def)

text \<open>The duration of zero is read without an error.\<close>

lemma zero_interval_accepted: "env_duration (\<lambda>_. Some ''0s'') ''FLUSH_INTERVAL'' d = Inr 0"
  by (simp add: env_duration_def parse_duration_def str_trim_visible ascii_visible_def Let_def is_ascii_alphabetic_def
      parse_uint_def digit_val_def u64_max_def secs_def map_err_def)

lemma dead_step:
  assumes "\<not> ch_open (ba_chan b)" and "ba_phase b = Stopped" and "ch_batches (ba_chan b) = []"
  shows "accepted e b = [] \<and> fst (batcher_step store bsize e b) = [] \<and> ba_db (snd (batcher_step store bsize e b)) = ba_db b
    \<and> \<not> ch_open (ba_chan (snd (batcher_step store bsize e b))) \<and> ba_phase (snd (batcher_step store bsize e b)) = Stopped
    \<and> ch_batches (ba_chan (snd (batcher_step store bsize e b))) = []"
  using assms by (cases e) (auto simp: accepted_def try_enqueue_def chan_send_def Let_def)

lemma dead_run:
  "\<not> ch_open (ba_chan b) \<Longrightarrow> ba_phase b = Stopped \<Longrightarrow> ch_batches (ba_chan b) = [] \<Longrightarrow>
     accepted_run store bsize es b = [] \<and> fst (batcher_run store bsize es b) = []
     \<and> ba_db (snd (batcher_run store bsize es b)) = ba_db b"
proof (induction es arbitrary: b)
  case (Cons e es)
  note step = dead_step [OF Cons.prems, of e store bsize]
  obtain o1 b1 where e: "batcher_step store bsize e b = (o1, b1)" by fastforce
  with step Cons.IH [of b1] show ?case by (auto split: prod.split)
qed simp

text \<open>With a flush interval of zero the service runs, but nothing is ever accepted or written.\<close>

lemma zero_interval_stores_nothing:
  assumes "batcher_spawn 0 capacity db = Some b"
  shows "accepted_run store bsize es b = [] \<and> ba_db (snd (batcher_run store bsize es b)) = db"
proof -
  have "b = (spawn_batcher capacity db)\<lparr>ba_chan := (ba_chan (spawn_batcher capacity db))\<lparr>ch_open := False\<rparr>, ba_phase := Stopped\<rparr>"
    using assms by (simp add: batcher_spawn_def Let_def split: if_splits)
  then show ?thesis using dead_run [of b store bsize es] by (simp add: spawn_batcher_def)
qed

end
