(* ===== verification/Exporter.thy ===== *)
theory Exporter
  imports Config Events Logs "HOL-Library.Product_Lexorder" "HOL-Library.List_Lexorder" "HOL-Library.Char_ord" "HOL-Library.Multiset"
begin

text \<open>
  The cold export, \<^verbatim>\<open>exporter/src/export.rs\<close>, \<^verbatim>\<open>schema.rs\<close>,
  \<^verbatim>\<open>config.rs\<close> and \<^verbatim>\<open>main.rs\<close>: the rows of one UTC day
  of a table are read page by page, turned into record batches and uploaded as one object. A day is the
  number of days since the epoch; printing and reading it, the normalisation of a key to an object
  path, the Parquet writer, the outcome of an upload and the pages the database answers are parameters.
\<close>

subsection \<open>Schemas and record batches\<close>

datatype data_type = Utf8 | TimestampUtc | Int16

record column_field =
  cf_name :: string
  cf_type :: data_type
  cf_nullable :: bool

definition column_field :: "string \<Rightarrow> data_type \<Rightarrow> bool \<Rightarrow> column_field" where
  "column_field n t b = \<lparr>cf_name = n, cf_type = t, cf_nullable = b\<rparr>"

type_synonym schema = "column_field list"

definition events_schema :: schema where
  "events_schema =
     [column_field ''event_id'' Utf8 False, column_field ''event_name'' Utf8 False,
      column_field ''tenant_id'' Utf8 True, column_field ''actor_id'' Utf8 False,
      column_field ''session_id'' Utf8 False, column_field ''timestamp_client'' TimestampUtc False,
      column_field ''received_at'' TimestampUtc False, column_field ''properties'' Utf8 False]"

definition logs_schema :: schema where
  "logs_schema =
     [column_field ''log_id'' Utf8 False, column_field ''log_time'' TimestampUtc False,
      column_field ''observed_time'' TimestampUtc True, column_field ''received_at'' TimestampUtc False,
      column_field ''severity_number'' Int16 True, column_field ''severity_text'' Utf8 True,
      column_field ''body'' Utf8 True, column_field ''service_name'' Utf8 True,
      column_field ''scope_name'' Utf8 True, column_field ''trace_id'' Utf8 True,
      column_field ''span_id'' Utf8 True, column_field ''tenant_id'' Utf8 True,
      column_field ''actor_id'' Utf8 True, column_field ''session_id'' Utf8 True,
      column_field ''resource_attributes'' Utf8 False, column_field ''log_attributes'' Utf8 False]"

text \<open>A column of an Arrow array: its type and its values, none where it is null.\<close>

datatype array = StringArray "string option list" | TimestampArray "int option list" | Int16Array "int option list"

fun array_type :: "array \<Rightarrow> data_type" where
  "array_type (StringArray _) = Utf8"
| "array_type (TimestampArray _) = TimestampUtc"
| "array_type (Int16Array _) = Int16"

fun array_length :: "array \<Rightarrow> nat" where
  "array_length (StringArray xs) = length xs"
| "array_length (TimestampArray xs) = length xs"
| "array_length (Int16Array xs) = length xs"

fun array_has_null :: "array \<Rightarrow> bool" where
  "array_has_null (StringArray xs) \<longleftrightarrow> None \<in> set xs"
| "array_has_null (TimestampArray xs) \<longleftrightarrow> None \<in> set xs"
| "array_has_null (Int16Array xs) \<longleftrightarrow> None \<in> set xs"

datatype prefix_error = NotRelative | ParentSegment | ControlCharacter

datatype export_error = BadPrefix prefix_error | QueryFailed | BadBatch | UploadFailed

text \<open>\<^verbatim>\<open>RecordBatch::try_new\<close>: as many columns as fields, of one length, of the
  declared types, with nulls only where they are declared.\<close>

definition fits :: "nat \<Rightarrow> column_field \<Rightarrow> array \<Rightarrow> bool" where
  "fits n f a \<longleftrightarrow> array_length a = n \<and> array_type a = cf_type f \<and> (array_has_null a \<longrightarrow> cf_nullable f)"

definition record_batch_try_new :: "schema \<Rightarrow> array list \<Rightarrow> export_error + array list" where
  "record_batch_try_new sch cols =
     (if \<exists>n\<in>set (map array_length cols). list_all2 (fits n) sch cols then Inr cols else Inl BadBatch)"

subsection \<open>The rows read from the database\<close>

record event_export =
  xe_event_id :: string
  xe_event_name :: string
  xe_tenant_id :: "string option"
  xe_actor_id :: string
  xe_session_id :: string
  xe_timestamp_client_us :: int
  xe_received_at_us :: int
  xe_properties :: string

record log_export =
  xl_log_id :: string
  xl_log_time_us :: int
  xl_observed_time_us :: "int option"
  xl_received_at_us :: int
  xl_severity_number :: "int option"
  xl_severity_text :: "string option"
  xl_body :: "string option"
  xl_service_name :: "string option"
  xl_scope_name :: "string option"
  xl_trace_id :: "string option"
  xl_span_id :: "string option"
  xl_tenant_id :: "string option"
  xl_actor_id :: "string option"
  xl_session_id :: "string option"
  xl_resource_attributes :: string
  xl_log_attributes :: string

definition events_to_record_batch :: "schema \<Rightarrow> event_export list \<Rightarrow> export_error + array list" where
  "events_to_record_batch sch rows = record_batch_try_new sch
     [StringArray (map (Some \<circ> xe_event_id) rows), StringArray (map (Some \<circ> xe_event_name) rows),
      StringArray (map xe_tenant_id rows), StringArray (map (Some \<circ> xe_actor_id) rows),
      StringArray (map (Some \<circ> xe_session_id) rows), TimestampArray (map (Some \<circ> xe_timestamp_client_us) rows),
      TimestampArray (map (Some \<circ> xe_received_at_us) rows), StringArray (map (Some \<circ> xe_properties) rows)]"

definition logs_to_record_batch :: "schema \<Rightarrow> log_export list \<Rightarrow> export_error + array list" where
  "logs_to_record_batch sch rows = record_batch_try_new sch
     [StringArray (map (Some \<circ> xl_log_id) rows), TimestampArray (map (Some \<circ> xl_log_time_us) rows),
      TimestampArray (map xl_observed_time_us rows), TimestampArray (map (Some \<circ> xl_received_at_us) rows),
      Int16Array (map xl_severity_number rows), StringArray (map xl_severity_text rows),
      StringArray (map xl_body rows), StringArray (map xl_service_name rows),
      StringArray (map xl_scope_name rows), StringArray (map xl_trace_id rows),
      StringArray (map xl_span_id rows), StringArray (map xl_tenant_id rows),
      StringArray (map xl_actor_id rows), StringArray (map xl_session_id rows),
      StringArray (map (Some \<circ> xl_resource_attributes) rows), StringArray (map (Some \<circ> xl_log_attributes) rows)]"

subsection \<open>What the SQL selects\<close>

text \<open>
  The expression \<^verbatim>\<open>EXTRACT(EPOCH FROM t)::bigint * 1_000_000 + (EXTRACT(MICROSECONDS FROM t)::bigint % 1_000_000)\<close>
  over a timestamp of whole microseconds: the epoch is a numeric, whose cast to an integer rounds half
  away from zero, and the microseconds are those of the minute.
\<close>

definition round_div :: "int \<Rightarrow> int \<Rightarrow> int" where
  "round_div a b = (if a \<ge> 0 then (a + b div 2) div b else - ((- a + b div 2) div b))"

definition epoch_us :: "int \<Rightarrow> int" where
  "epoch_us us = round_div us 1000000 * 1000000 + (us mod 60000000) mod 1000000"

definition pg_us :: "datetime \<Rightarrow> int" where
  "pg_us t = t div 1000"

definition event_export_of :: "(json \<Rightarrow> string) \<Rightarrow> stored_event \<Rightarrow> event_export" where
  "event_export_of ser e =
     \<lparr>xe_event_id = se_event_id e, xe_event_name = se_event_name e, xe_tenant_id = se_tenant_id e,
      xe_actor_id = se_actor_id e, xe_session_id = se_session_id e,
      xe_timestamp_client_us = epoch_us (pg_us (se_timestamp_client e)),
      xe_received_at_us = epoch_us (pg_us (se_received_at e)), xe_properties = ser (se_properties e)\<rparr>"

definition log_export_of :: "(json \<Rightarrow> string) \<Rightarrow> stored_log \<Rightarrow> log_export" where
  "log_export_of ser l =
     \<lparr>xl_log_id = sl_log_id l, xl_log_time_us = epoch_us (pg_us (sl_log_time l)),
      xl_observed_time_us = map_option (\<lambda>t. epoch_us (pg_us t)) (sl_observed_time l),
      xl_received_at_us = epoch_us (pg_us (sl_received_at l)), xl_severity_number = sl_severity_number l,
      xl_severity_text = sl_severity_text l, xl_body = sl_body l, xl_service_name = sl_service_name l,
      xl_scope_name = sl_scope_name l, xl_trace_id = sl_trace_id l, xl_span_id = sl_span_id l,
      xl_tenant_id = sl_tenant_id l, xl_actor_id = sl_actor_id l, xl_session_id = sl_session_id l,
      xl_resource_attributes = ser (sl_resource_attributes l), xl_log_attributes = ser (sl_log_attributes l)\<rparr>"

definition day_ns :: int where
  "day_ns = 86400 * 1000000000"

definition day_start :: "int \<Rightarrow> datetime" where
  "day_start date = date * day_ns"

definition day_end :: "int \<Rightarrow> datetime" where
  "day_end date = (date + 1) * day_ns"

definition in_day :: "int \<Rightarrow> datetime \<Rightarrow> bool" where
  "in_day date t \<longleftrightarrow> day_start date \<le> t \<and> t < day_end date"

text \<open>\<^verbatim>\<open>WHERE t >= $1 AND t < $2 ORDER BY t, id\<close>, and one page of it.\<close>

definition events_of_day :: "int \<Rightarrow> stored_event list \<Rightarrow> stored_event list" where
  "events_of_day date table =
     sort_key (\<lambda>e. (se_timestamp_client e, se_event_id e)) (filter (in_day date \<circ> se_timestamp_client) table)"

definition logs_of_day :: "int \<Rightarrow> stored_log list \<Rightarrow> stored_log list" where
  "logs_of_day date table =
     sort_key (\<lambda>l. (sl_log_time l, sl_log_id l)) (filter (in_day date \<circ> sl_log_time) table)"

definition batch_size :: nat where
  "batch_size = 10000"

definition page :: "'r list \<Rightarrow> nat \<Rightarrow> export_error + 'r list" where
  "page rows offset = Inr (take batch_size (drop offset rows))"

subsection \<open>Keys\<close>

text \<open>\<^verbatim>\<open>char::is_control\<close> over UTF-8: C0, delete and C1.\<close>

fun has_control :: "string \<Rightarrow> bool" where
  "has_control [] = False"
| "has_control (c # s) =
     ((of_char c :: nat) < 32 \<or> c = CHR 0x7F
      \<or> (c = CHR 0xC2 \<and> (case s of d # _ \<Rightarrow> 128 \<le> (of_char d :: nat) \<and> (of_char d :: nat) < 160 | [] \<Rightarrow> False))
      \<or> has_control s)"

definition validate_prefix :: "string option \<Rightarrow> prefix_error + unit" where
  "validate_prefix pre =
     (case opt_filter (\<lambda>p. p \<noteq> []) pre of
        None \<Rightarrow> Inr ()
      | Some p \<Rightarrow>
          if hd p = CHR ''/'' \<or> CHR 0x5C \<in> set p then Inl NotRelative
          else if ''..'' \<in> set (split_on (CHR ''/'') p) then Inl ParentSegment
          else if has_control p then Inl ControlCharacter
          else Inr ())"

definition pad4 :: "nat \<Rightarrow> string" where
  "pad4 n = replicate (4 - length (show_nat n)) (CHR ''0'') @ show_nat n"

definition hive_path :: "string option \<Rightarrow> string \<Rightarrow> string \<Rightarrow> nat \<Rightarrow> string" where
  "hive_path pre table date_str part =
     (let rest = table @ ''/date='' @ date_str @ ''/part-'' @ pad4 part @ ''.parquet''
      in case pre of
           Some p \<Rightarrow> if p \<noteq> [] then p @ ''/'' @ rest else rest
         | None \<Rightarrow> rest)"

subsection \<open>The export of a day\<close>

text \<open>
  The loop over the pages, from an offset, with the batches written so far and the number of rows. It
  ends with a page that is not full, so that it is a partial function of the answers of the database.
\<close>

partial_function (option) export_loop ::
    "(nat \<Rightarrow> export_error + 'r list) \<Rightarrow> ('r list \<Rightarrow> export_error + 'b) \<Rightarrow> nat \<Rightarrow> 'b list \<Rightarrow> nat
       \<Rightarrow> (export_error + 'b list \<times> nat) option" where
  "export_loop fetch to_batch offset written total_rows =
     (case fetch offset of
        Inl e \<Rightarrow> Some (Inl e)
      | Inr rows \<Rightarrow>
          (let n = length rows in
           if n = 0 then Some (Inr (written, total_rows))
           else (case to_batch rows of
                   Inl e \<Rightarrow> Some (Inl e)
                 | Inr batch \<Rightarrow>
                     if n < batch_size then Some (Inr (written @ [batch], total_rows + n))
                     else export_loop fetch to_batch (offset + n) (written @ [batch]) (total_rows + n))))"

text \<open>
  The environment of an export: how a day is printed (\<^verbatim>\<open>NaiveDate\<close>), the path of a
  key (\<^verbatim>\<open>Path::from\<close>), the Parquet writer, whether the upload succeeds.
\<close>

record ('p, 'o) export_env =
  xv_show_date :: "int \<Rightarrow> string"
  xv_path :: "string \<Rightarrow> 'p"
  xv_encode :: "schema \<Rightarrow> array list list \<Rightarrow> 'o"
  xv_upload_ok :: bool

definition export_day ::
    "('p, 'o) export_env \<Rightarrow> schema \<Rightarrow> string \<Rightarrow> ('r list \<Rightarrow> export_error + array list)
       \<Rightarrow> (nat \<Rightarrow> export_error + 'r list) \<Rightarrow> int \<Rightarrow> string option \<Rightarrow> ('p \<times> 'o) list
       \<Rightarrow> ((export_error + nat) \<times> ('p \<times> 'o) list) option" where
  "export_day xv sch table to_batch fetch date pre store =
     (case validate_prefix pre of
        Inl e \<Rightarrow> Some (Inl (BadPrefix e), store)
      | Inr _ \<Rightarrow>
          Option.bind (export_loop fetch to_batch 0 [] 0) (\<lambda>r.
            Some (case r of
                    Inl e \<Rightarrow> (Inl e, store)
                  | Inr (batches, total_rows) \<Rightarrow>
                      if xv_upload_ok xv
                      then (Inr total_rows,
                            al_put (xv_path xv (hive_path pre table (xv_show_date xv date) 0))
                                   (xv_encode xv sch batches) store)
                      else (Inl UploadFailed, store))))"

definition export_events ::
    "('p, 'o) export_env \<Rightarrow> (nat \<Rightarrow> export_error + event_export list) \<Rightarrow> int \<Rightarrow> string option
       \<Rightarrow> ('p \<times> 'o) list \<Rightarrow> ((export_error + nat) \<times> ('p \<times> 'o) list) option" where
  "export_events xv fetch date pre store =
     export_day xv events_schema ''events'' (events_to_record_batch events_schema) fetch date pre store"

definition export_logs ::
    "('p, 'o) export_env \<Rightarrow> (nat \<Rightarrow> export_error + log_export list) \<Rightarrow> int \<Rightarrow> string option
       \<Rightarrow> ('p \<times> 'o) list \<Rightarrow> ((export_error + nat) \<times> ('p \<times> 'o) list) option" where
  "export_logs xv fetch date pre store =
     export_day xv logs_schema ''logs'' (logs_to_record_batch logs_schema) fetch date pre store"

subsection \<open>The command line\<close>

record export_config =
  xc_database_url :: string
  xc_s3_endpoint :: "string option"
  xc_s3_region :: string
  xc_aws_access_key_id :: "string option"
  xc_aws_secret_access_key :: "string option"
  xc_s3_allow_http :: bool

datatype export_setup_error = MissingVariable string | BadDate | BuildFailed | ConnectFailed | ExportFailed export_error

definition s3_flag :: "env \<Rightarrow> string \<Rightarrow> bool" where
  "s3_flag env key = unwrap_or False (map_option (\<lambda>v. ascii_lower v = ''true'' \<or> v = ''1'') (env key))"

definition export_config_from_env :: "env \<Rightarrow> export_setup_error + export_config" where
  "export_config_from_env env =
     and_then (ok_or (MissingVariable ''DATABASE_URL'') (env ''DATABASE_URL'')) (\<lambda>database_url.
       Inr \<lparr>xc_database_url = database_url, xc_s3_endpoint = env ''S3_ENDPOINT'',
            xc_s3_region = env_str env ''S3_REGION'' ''eu-west-1'',
            xc_aws_access_key_id = env ''AWS_ACCESS_KEY_ID'',
            xc_aws_secret_access_key = env ''AWS_SECRET_ACCESS_KEY'',
            xc_s3_allow_http = s3_flag env ''S3_ALLOW_HTTP''\<rparr>)"

text \<open>The settings handed to the builder of the S3 client; what it makes of them is a parameter.\<close>

record s3_settings =
  s3_bucket_name :: string
  s3_region_name :: string
  s3_endpoint_url :: "string option"
  s3_access_key :: string
  s3_secret :: string
  s3_http_allowed :: bool

definition build_export_store :: "(s3_settings \<Rightarrow> 's option) \<Rightarrow> export_config \<Rightarrow> string \<Rightarrow> export_setup_error + 's" where
  "build_export_store build cfg bucket =
     and_then (ok_or (MissingVariable ''AWS_ACCESS_KEY_ID'') (xc_aws_access_key_id cfg)) (\<lambda>key_id.
       and_then (ok_or (MissingVariable ''AWS_SECRET_ACCESS_KEY'') (xc_aws_secret_access_key cfg)) (\<lambda>secret.
         ok_or BuildFailed (build
           \<lparr>s3_bucket_name = bucket, s3_region_name = xc_s3_region cfg, s3_endpoint_url = xc_s3_endpoint cfg,
            s3_access_key = key_id, s3_secret = secret, s3_http_allowed = xc_s3_allow_http cfg\<rparr>)))"

datatype export_target = Table_Events | Table_Logs

record export_cli =
  cli_table :: export_target
  cli_date :: string
  cli_bucket :: string
  cli_prefix :: string

text \<open>
  The main function: the object store as a builder, a day as its reader, the database as whether it can
  be reached and the pages it answers for either table, both for the given day.
\<close>

record ('p, 'o) export_world =
  xw_parse_date :: "string \<Rightarrow> int option"
  xw_build :: "s3_settings \<Rightarrow> ('p, 'o) export_env option"
  xw_connects :: "string \<Rightarrow> bool"
  xw_events :: "int \<Rightarrow> nat \<Rightarrow> export_error + event_export list"
  xw_logs :: "int \<Rightarrow> nat \<Rightarrow> export_error + log_export list"

definition cli_prefix_option :: "export_cli \<Rightarrow> string option" where
  "cli_prefix_option cli = (if cli_prefix cli = [] then None else Some (cli_prefix cli))"

definition export_main ::
    "('p, 'o) export_world \<Rightarrow> env \<Rightarrow> export_cli \<Rightarrow> ('p \<times> 'o) list
       \<Rightarrow> ((export_setup_error + nat) \<times> ('p \<times> 'o) list) option" where
  "export_main xw env cli store =
     (case and_then (export_config_from_env env) (\<lambda>cfg.
             and_then (ok_or BadDate (xw_parse_date xw (cli_date cli))) (\<lambda>date.
               and_then (build_export_store (xw_build xw) cfg (cli_bucket cli)) (\<lambda>xv.
                 if xw_connects xw (xc_database_url cfg) then Inr (date, xv) else Inl ConnectFailed))) of
        Inl e \<Rightarrow> Some (Inl e, store)
      | Inr (date, xv) \<Rightarrow>
          map_option (\<lambda>(out, store'). (map_err ExportFailed out, store'))
            (case cli_table cli of
               Table_Events \<Rightarrow> export_events xv (xw_events xw date) date (cli_prefix_option cli) store
             | Table_Logs \<Rightarrow> export_logs xv (xw_logs xw date) date (cli_prefix_option cli) store))"


subsection \<open>A day of any table is a permutation of its rows\<close>

function pages :: "'r list \<Rightarrow> 'r list list" where
  "pages rs = (if rs = [] then [] else take batch_size rs # pages (drop batch_size rs))"
  by pat_completeness auto
termination by (relation "measure length") (auto simp: batch_size_def)

declare pages.simps [simp del]

lemma batch_size_pos [simp]: "0 < batch_size" "batch_size \<noteq> 0"
  by (simp_all add: batch_size_def)

lemma concat_pages: "concat (pages rs) = rs"
proof (induction rs rule: pages.induct)
  case (1 rs)
  then show ?case by (cases "rs = []") (simp_all add: pages.simps [of rs] pages.simps [of "[]"])
qed

lemma pages_bounded: "p \<in> set (pages rs) \<Longrightarrow> p \<noteq> [] \<and> length p \<le> batch_size"
proof (induction rs arbitrary: p rule: pages.induct)
  case (1 rs)
  then show ?case by (cases "rs = []") (auto simp: pages.simps [of rs] pages.simps [of "[]"])
qed

lemma pages_short: "rs \<noteq> [] \<Longrightarrow> length rs \<le> batch_size \<Longrightarrow> pages rs = [rs]"
  by (simp add: pages.simps [of rs]) (simp add: pages.simps [of "[]"])

text \<open>The loop over the pages of a table that does not change ends, with every page converted once.\<close>

lemma export_loop_over_pages:
  assumes f: "\<And>rows. to_batch rows = Inr (f rows)"
  shows "export_loop (page rs) to_batch off written n0 =
           Some (Inr (written @ map f (pages (drop off rs)), n0 + length (drop off rs)))"
proof (induction "drop off rs" arbitrary: off written n0 rule: pages.induct)
  case 1
  let ?now = "take batch_size (drop off rs)"
  show ?case
  proof (cases "length (drop off rs) < batch_size")
    case True
    then show ?thesis
      by (subst export_loop.simps)
         (cases "drop off rs = []"; simp add: page_def f pages.simps [of "[]"] pages_short Let_def)
  next
    case False
    then have full: "length ?now = batch_size" and ne: "drop off rs \<noteq> []" by auto
    have step: "drop batch_size (drop off rs) = drop (off + batch_size) rs" by (simp add: add.commute)
    have "export_loop (page rs) to_batch off written n0 =
            export_loop (page rs) to_batch (off + batch_size) (written @ [f ?now]) (n0 + batch_size)"
      by (subst export_loop.simps) (simp add: page_def f full Let_def del: length_take)
    also have "\<dots> = Some (Inr ((written @ [f ?now]) @ map f (pages (drop (off + batch_size) rs)),
                               n0 + batch_size + length (drop (off + batch_size) rs)))"
      by (rule 1 [OF ne step])
    also have "\<dots> = Some (Inr (written @ map f (pages (drop off rs)), n0 + length (drop off rs)))"
      using False ne by (simp add: pages.simps [of "drop off rs"] add.commute)
    finally show ?thesis .
  qed
qed

lemma day_rows_mset:
  "mset (events_of_day date table) = filter_mset (\<lambda>e. in_day date (se_timestamp_client e)) (mset table)"
  "mset (logs_of_day date ltable) = filter_mset (\<lambda>l. in_day date (sl_log_time l)) (mset ltable)"
  by (simp_all add: events_of_day_def logs_of_day_def)

lemma day_rows_length [simp]:
  "length (events_of_day date table) = length (filter (in_day date \<circ> se_timestamp_client) table)"
  "length (logs_of_day date ltable) = length (filter (in_day date \<circ> sl_log_time) ltable)"
  by (simp_all add: events_of_day_def logs_of_day_def)

lemma in_day_iff: "in_day date t \<longleftrightarrow> date = t div day_ns"
proof -
  have "date = t div day_ns \<longleftrightarrow> date * day_ns \<le> t \<and> t < (date + 1) * day_ns"
    by (auto simp: day_ns_def)
  then show ?thesis by (simp add: in_day_def day_start_def day_end_def)
qed

subsection \<open>Record batches\<close>

lemma events_batch_ok:
  "\<exists>cols. events_to_record_batch events_schema rows = Inr cols"
  by (auto simp: events_to_record_batch_def record_batch_try_new_def events_schema_def column_field_def
      fits_def)

lemma logs_batch_ok:
  "\<exists>cols. logs_to_record_batch logs_schema rows = Inr cols"
  by (auto simp: logs_to_record_batch_def record_batch_try_new_def logs_schema_def column_field_def
      fits_def)

text \<open>The rows a reader sees in the columns of a batch.\<close>

fun strings :: "array \<Rightarrow> string option list" where
  "strings (StringArray xs) = xs"
| "strings _ = []"

fun timestamps :: "array \<Rightarrow> int option list" where
  "timestamps (TimestampArray xs) = xs"
| "timestamps _ = []"

fun int16s :: "array \<Rightarrow> int option list" where
  "int16s (Int16Array xs) = xs"
| "int16s _ = []"

definition events_of_batch :: "array list \<Rightarrow> event_export list" where
  "events_of_batch cols =
     map (\<lambda>i. \<lparr>xe_event_id = the (strings (cols ! 0) ! i),
               xe_event_name = the (strings (cols ! 1) ! i), xe_tenant_id = strings (cols ! 2) ! i,
               xe_actor_id = the (strings (cols ! 3) ! i),
               xe_session_id = the (strings (cols ! 4) ! i),
               xe_timestamp_client_us = the (timestamps (cols ! 5) ! i),
               xe_received_at_us = the (timestamps (cols ! 6) ! i),
               xe_properties = the (strings (cols ! 7) ! i)\<rparr>)
       [0..<array_length (cols ! 0)]"

definition logs_of_batch :: "array list \<Rightarrow> log_export list" where
  "logs_of_batch cols =
     map (\<lambda>i. \<lparr>xl_log_id = the (strings (cols ! 0) ! i),
               xl_log_time_us = the (timestamps (cols ! 1) ! i),
               xl_observed_time_us = timestamps (cols ! 2) ! i,
               xl_received_at_us = the (timestamps (cols ! 3) ! i),
               xl_severity_number = int16s (cols ! 4) ! i,
               xl_severity_text = strings (cols ! 5) ! i, xl_body = strings (cols ! 6) ! i,
               xl_service_name = strings (cols ! 7) ! i, xl_scope_name = strings (cols ! 8) ! i,
               xl_trace_id = strings (cols ! 9) ! i, xl_span_id = strings (cols ! 10) ! i,
               xl_tenant_id = strings (cols ! 11) ! i, xl_actor_id = strings (cols ! 12) ! i,
               xl_session_id = strings (cols ! 13) ! i,
               xl_resource_attributes = the (strings (cols ! 14) ! i),
               xl_log_attributes = the (strings (cols ! 15) ! i)\<rparr>)
       [0..<array_length (cols ! 0)]"

lemma events_batch_reads_back:
  "events_to_record_batch events_schema rows = Inr cols \<Longrightarrow> events_of_batch cols = rows"
  by (auto simp: events_to_record_batch_def record_batch_try_new_def events_of_batch_def split: if_splits
      intro!: nth_equalityI event_export.equality)

lemma logs_batch_reads_back:
  "logs_to_record_batch logs_schema rows = Inr cols \<Longrightarrow> logs_of_batch cols = rows"
  by (auto simp: logs_to_record_batch_def record_batch_try_new_def logs_of_batch_def split: if_splits
      intro!: nth_equalityI log_export.equality)


subsection \<open>A day is exported whole\<close>

lemma export_day_outcome:
  assumes ok: "\<And>rows. \<exists>cols. to_batch rows = Inr cols"
    and reads: "\<And>rows cols. to_batch rows = Inr cols \<Longrightarrow> of_batch cols = rows"
  shows "\<exists>out store'. export_day xv sch table to_batch (page rs) date pre store = Some (out, store')
     \<and> (is_ok out \<longleftrightarrow> is_ok (validate_prefix pre) \<and> xv_upload_ok xv)
     \<and> (case out of
           Inl e \<Rightarrow> store' = store
         | Inr n \<Rightarrow> n = length rs \<and>
             (\<exists>batches. concat (map of_batch batches) = rs \<and>
               store' = al_put (xv_path xv (hive_path pre table (xv_show_date xv date) 0))
                          (xv_encode xv sch batches) store))"
proof -
  obtain f where f: "\<And>rows. to_batch rows = Inr (f rows)" using ok by metis
  have r: "export_loop (page rs) to_batch 0 [] 0 = Some (Inr (map f (pages rs), length rs))"
    using export_loop_over_pages [where f = f and rs = rs and off = 0 and written = "[]" and ?n0.0 = 0, OF f] by simp
  have "map (of_batch \<circ> f) (pages rs) = pages rs" by (simp add: reads [OF f] map_idI)
  then have c: "concat (map of_batch (map f (pages rs))) = rs" by (simp add: concat_pages)
  then show ?thesis
    by (cases "validate_prefix pre")
       (auto simp: export_day_def r simp del: map_map intro!: exI [of _ "map f (pages rs)"])
qed

lemma export_day_written:
  assumes "\<And>rows. \<exists>cols. to_batch rows = Inr cols" "\<And>rows cols. to_batch rows = Inr cols \<Longrightarrow> of_batch cols = rows"
    and "is_ok (validate_prefix pre)" "xv_upload_ok xv"
  shows "\<exists>batches. concat (map of_batch batches) = rs \<and>
     export_day xv sch table to_batch (page rs) date pre store =
       Some (Inr (length rs), al_put (xv_path xv (hive_path pre table (xv_show_date xv date) 0)) (xv_encode xv sch batches) store)"
proof -
  obtain out store' where x: "export_day xv sch table to_batch (page rs) date pre store = Some (out, store')"
      "is_ok out"
      "case out of Inl e \<Rightarrow> store' = store
       | Inr n \<Rightarrow> n = length rs \<and>
           (\<exists>batches. concat (map of_batch batches) = rs \<and>
             store' = al_put (xv_path xv (hive_path pre table (xv_show_date xv date) 0)) (xv_encode xv sch batches) store)"
    using export_day_outcome [where to_batch = to_batch and of_batch = of_batch and xv = xv and sch = sch
        and table = table and date = date and pre = pre and store = store and rs = rs, OF assms(1,2)] assms(3,4) by auto
  then show ?thesis by (cases out) auto
qed


lemma partition_by_key:
  assumes "distinct ds" "\<forall>x\<in>set xs. k x \<in> set ds"
  shows "(\<Sum>d\<leftarrow>ds. filter_mset (\<lambda>x. d = k x) (mset xs)) = mset xs"
  using assms(2)
proof (induction xs)
  case (Cons x xs)
  have none: "(\<Sum>d\<leftarrow>ds. if d = k x then {#x#} else {#}) = {#}" if "k x \<notin> set ds" for ds
    using that by (induction ds) auto
  have one: "(\<Sum>d\<leftarrow>ds. if d = k x then {#x#} else {#}) = {#x#}" if "k x \<in> set ds"
    using assms(1) that by (induction ds) (auto simp: none)
  have "(\<Sum>d\<leftarrow>ds. filter_mset (\<lambda>y. d = k y) (mset (x # xs))) =
          (\<Sum>d\<leftarrow>ds. (if d = k x then {#x#} else {#}) + filter_mset (\<lambda>y. d = k y) (mset xs))"
    by (rule arg_cong [where f = sum_list], rule map_cong) auto
  also have "\<dots> = {#x#} + mset xs" using Cons one by (simp add: sum_list_addf)
  finally show ?case by simp
qed (simp add: sum_list_0)

text \<open>The exports of different days share no row, and over days that cover the table they hold every
  event and every log of it exactly once.\<close>
theorem exports_partition_the_table:
  assumes "distinct days"
    and "\<forall>e\<in>set table. se_timestamp_client e div day_ns \<in> set days"
    and "\<forall>l\<in>set ltable. sl_log_time l div day_ns \<in> set days"
  shows "mset (concat (map (\<lambda>d. events_of_day d table) days)) = mset table
    \<and> mset (concat (map (\<lambda>d. logs_of_day d ltable) days)) = mset ltable"
  using partition_by_key [OF assms(1,2)] partition_by_key [OF assms(1,3)]
  by (simp_all add: mset_concat comp_def day_rows_mset in_day_iff)


subsection \<open>Where the objects are\<close>

lemma pad4_zero: "pad4 0 = ''0000''"
  by code_simp

lemma hive_segments:
  assumes "CHR ''/'' \<notin> set table" "CHR ''/'' \<notin> set d"
  shows "split_on (CHR ''/'') (table @ ''/date='' @ d @ ''/part-'' @ pad4 0 @ ''.parquet'')
           = [table, ''date='' @ d, ''part-0000.parquet'']"
proof -
  have "split_on (CHR ''/'') ((''date='' @ d) @ CHR ''/'' # (''part-'' @ pad4 0 @ ''.parquet''))
          = [''date='' @ d, ''part-0000.parquet'']"
    using assms(2) by (subst split_on_sep) (simp add: split_on_free pad4_zero)
  then show ?thesis
    using split_on_sep [of "CHR ''/''" table "''date='' @ d @ ''/part-'' @ pad4 0 @ ''.parquet''"]
      split_on_free [OF assms(1)] by simp
qed

text \<open>A prefix that passes the validation keeps the objects under it: the key is relative, none of its
  segments goes up, and after the segments of the prefix come the table, the day and the part.\<close>
theorem export_key_confined:
  assumes "is_ok (validate_prefix pre)" "table \<in> {''events'', ''logs''}" "CHR ''/'' \<notin> set d"
  shows "hd (hive_path pre table d 0) \<noteq> CHR ''/''
     \<and> ''..'' \<notin> set (split_on (CHR ''/'') (hive_path pre table d 0))
     \<and> suffix [table, ''date='' @ d, ''part-0000.parquet''] (split_on (CHR ''/'') (hive_path pre table d 0))"
proof -
  have t: "CHR ''/'' \<notin> set table" "table \<noteq> []" "hd table \<noteq> CHR ''/''" "table \<noteq> ''..''" using assms(2) by auto
  note seg = hive_segments [OF t(1) assms(3)]
  show ?thesis
  proof (cases "opt_filter (\<lambda>p. p \<noteq> []) pre")
    case None
    then have "hive_path pre table d 0 = table @ ''/date='' @ d @ ''/part-'' @ pad4 0 @ ''.parquet''"
      by (cases pre) (auto simp: hive_path_def opt_filter_def split: if_splits)
    then show ?thesis using t seg by (simp add: hd_append)
  next
    case (Some p)
    then have p: "p \<noteq> []" "hive_path pre table d 0 = p @ CHR ''/'' # (table @ ''/date='' @ d @ ''/part-'' @ pad4 0 @ ''.parquet'')"
      by (auto simp: hive_path_def)
    have "hd p \<noteq> CHR ''/''" "''..'' \<notin> set (split_on (CHR ''/'') p)"
      using assms(1) Some by (auto simp: validate_prefix_def is_ok_def split: if_splits)
    then show ?thesis using t p seg by (simp add: split_on_sep suffix_def)
  qed
qed

lemma export_key_confined_witness:
  "hd (hive_path (Some ''prod/eu'') ''logs'' ''2024-06-15'' 0) \<noteq> CHR ''/''
   \<and> ''..'' \<notin> set (split_on (CHR ''/'') (hive_path (Some ''prod/eu'') ''logs'' ''2024-06-15'' 0))
   \<and> suffix [''logs'', ''date='' @ ''2024-06-15'', ''part-0000.parquet'']
       (split_on (CHR ''/'') (hive_path (Some ''prod/eu'') ''logs'' ''2024-06-15'' 0))"
proof -
  have "is_ok (validate_prefix (Some ''prod/eu''))" by code_simp
  then show ?thesis by (intro export_key_confined) simp_all
qed

subsection \<open>The timestamps of the export\<close>

lemma epoch_us_value: "0 \<le> us \<Longrightarrow> epoch_us us = us + (if 500000 \<le> us mod 1000000 then 1000000 else 0)"
proof -
  assume "0 \<le> us"
  have m: "us mod 60000000 mod 1000000 = us mod 1000000" by (rule mod_mod_cancel) simp
  define q r where "q = us div 1000000" and "r = us mod 1000000"
  have us: "us = q * 1000000 + r" "0 \<le> r" "r < 1000000" by (simp_all add: q_def r_def)
  then have "(us + 500000) div 1000000 = q + (r + 500000) div 1000000" by simp
  moreover have "(r + 500000) div 1000000 = (if 500000 \<le> r then 1 else 0)"
    using us by (auto simp: div_pos_pos_trivial intro!: int_div_pos_eq [of _ _ _ "r - 500000"])
  ultimately have "round_div us 1000000 = q + (if 500000 \<le> r then 1 else 0)"
    using \<open>0 \<le> us\<close> by (simp add: round_div_def)
  then have "epoch_us us = (q + (if 500000 \<le> r then 1 else 0)) * 1000000 + r"
    by (simp only: epoch_us_def m r_def)
  then show ?thesis unfolding r_def [symmetric] by (subst (2) us(1)) simp
qed

text \<open>The exported client time of an event is the stored one exactly when its fraction of a second is below
  one half; otherwise it is one second later, so that the last half second of a day is exported as the
  day after.\<close>
theorem exported_time_rounds_up:
  assumes "0 \<le> se_timestamp_client e"
  shows "xe_timestamp_client_us (event_export_of ser e) =
      pg_us (se_timestamp_client e)
        + (if 500000 \<le> pg_us (se_timestamp_client e) mod 1000000 then 1000000 else 0)"
  using assms by (simp add: event_export_of_def epoch_us_value pg_us_def)


definition sample_event :: "string \<Rightarrow> datetime \<Rightarrow> stored_event" where
  "sample_event i t = \<lparr>se_event_id = i, se_event_name = ''open'', se_tenant_id = None, se_actor_id = ''a'',
     se_session_id = ''s'', se_timestamp_client = t, se_received_at = t, se_properties = JNull\<rparr>"

lemma exports_partition_the_table_witness:
  "mset (concat (map (\<lambda>d. events_of_day d [sample_event ''x'' (day_ns + 5), sample_event ''y'' 7]) [0, 1]))
     = mset [sample_event ''x'' (day_ns + 5), sample_event ''y'' 7]
   \<and> mset (concat (map (\<lambda>d. logs_of_day d []) [0, 1 :: int])) = mset []"
  by (intro exports_partition_the_table) (simp_all add: sample_event_def day_ns_def)

lemma exported_time_rounds_up_witness:
  "xe_timestamp_client_us (event_export_of (\<lambda>_. ''{}'') (sample_event ''x'' 1500000000)) = 2500000"
  using exported_time_rounds_up [of "sample_event ''x'' 1500000000" "\<lambda>_. ''{}''"]
  by (simp add: sample_event_def pg_us_def)


text \<open>Exporting a day again, over the same rows, leaves the store as the first export left it.\<close>

lemma al_put_twice: "al_put k v (al_put k v m) = al_put k v m"
  unfolding al_put_def by (induction m) auto

lemma export_idempotent:
  "export_events xv fetch date pre store = Some (out, store') \<Longrightarrow>
     export_events xv fetch date pre store' = Some (out, store')"
  "export_logs xv lfetch date pre store = Some (out, store') \<Longrightarrow>
     export_logs xv lfetch date pre store' = Some (out, store')"
  by (auto simp: export_events_def export_logs_def export_day_def al_put_twice
      split: sum.splits bind_splits if_splits)

end
