(* ===== verification/Settings.thy ===== *)
theory Settings
  imports Companion
begin

text \<open>
  \<^verbatim>\<open>backend/src/settings.rs\<close>: the TOML configuration file, the expansion of secrets from the
  environment, the sections with their defaults, and the construction of the runtime settings and
  of the projects. The TOML and serde crates are parameters (\<open>toml_parse\<close> and the decoders of a
  value into a typed file), as are the file system and the parsers of addresses and floats.
\<close>

subsection \<open>Expansion of the environment\<close>

datatype toml =
    TomlString string
  | TomlInteger int
  | TomlFloat real
  | TomlBoolean bool
  | TomlDatetime string
  | TomlArray "toml list"
  | TomlTable "(string \<times> toml) list"

definition placeholder :: "string \<Rightarrow> string \<times> string option" where
  "placeholder inner =
     (case split_once '':-'' inner of
        Some (n, d) \<Rightarrow> (str_trim n, Some d)
      | None \<Rightarrow> (str_trim inner, None))"

definition placeholder_value :: "env \<Rightarrow> string \<Rightarrow> config_error + string" where
  "placeholder_value env inner =
     (let (name, default) = placeholder inner in
      if name = [] then Inl EmptyPlaceholder
      else ok_or (UnsetVariable name) (opt_or (env name) default))"

function expand_str :: "env \<Rightarrow> string \<Rightarrow> config_error + string" where
  "expand_str env rest =
     (case str_find ''${'' rest of
        None \<Rightarrow> Inr rest
      | Some pos \<Rightarrow>
          (let after = drop (pos + 2) rest in
           case str_find ''}'' after of
             None \<Rightarrow> Inl UnterminatedPlaceholder
           | Some e \<Rightarrow>
               and_then (placeholder_value env (take e after)) (\<lambda>v.
               and_then (expand_str env (drop (e + 1) after)) (\<lambda>out.
               Inr (take pos rest @ v @ out)))))"
  by pat_completeness auto
termination
  by (relation "measure (\<lambda>(env, rest). length rest)") (auto dest: str_find_Some_bound)

declare expand_str.simps [simp del]

fun expand_env :: "env \<Rightarrow> toml \<Rightarrow> config_error + toml"
  and expand_list :: "env \<Rightarrow> toml list \<Rightarrow> config_error + toml list"
  and expand_table :: "env \<Rightarrow> (string \<times> toml) list \<Rightarrow> config_error + (string \<times> toml) list" where
  "expand_env env (TomlString s) = and_then (expand_str env s) (\<lambda>t. Inr (TomlString t))"
| "expand_env env (TomlArray a) = and_then (expand_list env a) (\<lambda>b. Inr (TomlArray b))"
| "expand_env env (TomlTable t) = and_then (expand_table env t) (\<lambda>u. Inr (TomlTable u))"
| "expand_env env (TomlInteger i) = Inr (TomlInteger i)"
| "expand_env env (TomlFloat r) = Inr (TomlFloat r)"
| "expand_env env (TomlBoolean b) = Inr (TomlBoolean b)"
| "expand_env env (TomlDatetime d) = Inr (TomlDatetime d)"
| "expand_list env [] = Inr []"
| "expand_list env (v # vs) =
     and_then (expand_env env v) (\<lambda>w. and_then (expand_list env vs) (\<lambda>ws. Inr (w # ws)))"
| "expand_table env [] = Inr []"
| "expand_table env ((k, v) # t) =
     and_then (expand_env env v) (\<lambda>w. and_then (expand_table env t) (\<lambda>u. Inr ((k, w) # u)))"

subsection \<open>Sections of the file, with their defaults\<close>

record companion_entry =
  ce_id :: string
  ce_timeout :: string
  ce_severity :: string

record companions_section =
  cs_check_interval :: string
  cs_expected :: "companion_entry list"

definition companions_default :: companions_section where
  "companions_default = \<lparr>cs_check_interval = ''30s'', cs_expected = []\<rparr>"

record grpc_section =
  gs_enabled :: bool
  gs_bind_addr :: string

definition grpc_default :: grpc_section where
  "grpc_default = \<lparr>gs_enabled = False, gs_bind_addr = ''0.0.0.0:4317''\<rparr>"

record server_section =
  sv_bind_addr :: string
  sv_request_timeout :: string
  sv_trust_forwarded_for :: bool
  sv_grpc :: grpc_section
  sv_allowed_origins :: "string list"

definition server_default :: server_section where
  "server_default = \<lparr>sv_bind_addr = ''0.0.0.0:8080'', sv_request_timeout = ''15s'',
     sv_trust_forwarded_for = False, sv_grpc = grpc_default, sv_allowed_origins = []\<rparr>"

record database_section =
  db_url :: string
  db_max_conn :: nat

definition database_default :: database_section where
  "database_default = \<lparr>db_url = [], db_max_conn = 10\<rparr>"

record limits_section =
  li_max_batch_events :: nat
  li_max_payload_bytes :: nat
  li_max_properties_bytes :: nat
  li_max_string_len :: nat
  li_max_json_depth :: nat
  li_max_past_skew :: string
  li_max_future_skew :: string
  li_max_otlp_record_bytes :: nat

definition limits_default :: limits_section where
  "limits_default = \<lparr>li_max_batch_events = 500, li_max_payload_bytes = 1048576,
     li_max_properties_bytes = 16384, li_max_string_len = 200, li_max_json_depth = 16,
     li_max_past_skew = ''31d'', li_max_future_skew = ''24h'', li_max_otlp_record_bytes = 65536\<rparr>"

record rate_limit_section =
  rs_global_per_sec :: real
  rs_global_burst :: real
  rs_session_per_sec :: real
  rs_session_burst :: real
  rs_ip_session_cap :: nat
  rs_ip_session_window :: string
  rs_max_tracked_sessions :: nat
  rs_max_tracked_ips :: nat

definition rate_limit_default :: rate_limit_section where
  "rate_limit_default = \<lparr>rs_global_per_sec = 50000, rs_global_burst = 100000,
     rs_session_per_sec = 100, rs_session_burst = 1000, rs_ip_session_cap = 200,
     rs_ip_session_window = ''30m'', rs_max_tracked_sessions = 500000,
     rs_max_tracked_ips = 200000\<rparr>"

record anomaly_section =
  as_bad_requests_threshold :: nat
  as_window :: string
  as_ban_duration :: string
  as_max_tracked_ips :: nat

definition anomaly_section_default :: anomaly_section where
  "anomaly_section_default = \<lparr>as_bad_requests_threshold = 100, as_window = ''60s'',
     as_ban_duration = ''5m'', as_max_tracked_ips = 200000\<rparr>"

record ingest_section =
  in_flush_interval :: string
  in_flush_batch_size :: nat
  in_channel_capacity :: nat
  in_retention_days :: int
  in_partition_future_days :: int
  in_max_logs_records :: nat
  in_max_logs_payload_bytes :: nat
  in_limits :: limits_section
  in_rate_limit :: rate_limit_section
  in_anomaly :: anomaly_section

definition ingest_default :: ingest_section where
  "ingest_default = \<lparr>in_flush_interval = ''200ms'', in_flush_batch_size = 5000,
     in_channel_capacity = 100000, in_retention_days = 90, in_partition_future_days = 2,
     in_max_logs_records = 2048, in_max_logs_payload_bytes = 4194304,
     in_limits = limits_default, in_rate_limit = rate_limit_default,
     in_anomaly = anomaly_section_default\<rparr>"

record token_section =
  ts_enabled :: bool
  ts_algorithms :: "string list"
  ts_issuer :: "string option"
  ts_audience :: "string option"
  ts_leeway :: string
  ts_jwks_refresh :: string
  ts_jwks_url :: "string option"
  ts_public_key_pem :: "string option"
  ts_public_key_file :: "string option"
  ts_alg :: string
  ts_kid :: "string option"

definition token_section_default :: token_section where
  "token_section_default = \<lparr>ts_enabled = True, ts_algorithms = [''EdDSA'', ''RS256''],
     ts_issuer = None, ts_audience = None, ts_leeway = ''60s'', ts_jwks_refresh = ''1h'',
     ts_jwks_url = None, ts_public_key_pem = None, ts_public_key_file = None,
     ts_alg = ''EdDSA'', ts_kid = None\<rparr>"

record auth_entry =
  ae_mode :: string
  ae_static_token :: "string option"

definition auth_default :: auth_entry where
  "auth_default = \<lparr>ae_mode = ''auto'', ae_static_token = None\<rparr>"

record export_section =
  xs_enabled :: bool
  xs_schedule :: string
  xs_bucket :: string
  xs_prefix :: string
  xs_region :: string
  xs_endpoint :: "string option"
  xs_access_key_id :: "string option"
  xs_secret_access_key :: "string option"
  xs_allow_http :: bool
  xs_tables :: "string list"

definition export_default :: export_section where
  "export_default = \<lparr>xs_enabled = False, xs_schedule = ''24h'', xs_bucket = [], xs_prefix = [],
     xs_region = ''eu-west-1'', xs_endpoint = None, xs_access_key_id = None,
     xs_secret_access_key = None, xs_allow_http = False, xs_tables = [''events'', ''logs'']\<rparr>"

record email_section =
  es_smtp_host :: string
  es_smtp_port :: nat
  es_username :: "string option"
  es_password :: "string option"
  es_from :: string
  es_to :: "string list"

record slack_section =
  sl_bot_token :: string
  sl_channel :: string

record notifications_section =
  no_slack :: "slack_section option"
  no_email :: "email_section option"

record projects_section =
  ps_dir :: "string option"
  ps_files :: "string list"

record file_config =
  fc_server :: server_section
  fc_database :: database_section
  fc_ingest :: ingest_section
  fc_token :: token_section
  fc_auth_logs :: auth_entry
  fc_auth_query :: auth_entry
  fc_mcp_enabled :: bool
  fc_export :: "export_section option"
  fc_notifications :: notifications_section
  fc_projects :: projects_section
  fc_companions :: companions_section

record project_file =
  pf_id :: string
  pf_name :: "string option"
  pf_service :: "string option"
  pf_tenant :: "string option"
  pf_eval_interval :: string
  pf_rules :: "rule list"
  pf_notifications :: notifications_section

subsection \<open>Resolved settings\<close>

datatype export_table = ExpEvents | ExpLogs

record export_settings =
  ex_schedule :: nanos
  ex_bucket :: string
  ex_prefix :: "string option"
  ex_region :: string
  ex_endpoint :: "string option"
  ex_access_key_id :: "string option"
  ex_secret_access_key :: "string option"
  ex_allow_http :: bool
  ex_tables :: "export_table list"

record companion_monitor =
  mo_check_interval :: nanos
  mo_expected :: "expected_companion list"

record project =
  pj_id :: string
  pj_name :: string
  pj_eval_interval :: nanos
  pj_rules :: "rule list"
  pj_slack :: "slack_bot option"
  pj_email :: "email_config option"

record settings =
  st_config :: config
  st_projects :: "project list"
  st_export :: "export_settings option"
  st_companions :: companion_monitor

definition dur :: "string \<Rightarrow> string \<Rightarrow> config_error + nanos" where
  "dur s field = map_err (InField field) (parse_duration s)"

subsection \<open>Building the runtime configuration\<close>

definition build_token ::
    "(string \<Rightarrow> string option) \<Rightarrow> token_section \<Rightarrow> config_error + token_config" where
  "build_token read_file t =
     and_then (try_map parse_alg (ts_algorithms t)) (\<lambda>algs.
     if algs = [] then Inl EmptyAlgorithms
     else
       (let pem_alg = and_then (parse_alg (ts_alg t)) (\<lambda>alg.
              if alg \<notin> set algs then Inl (AlgNotAccepted alg) else Inr alg)
        in and_then
             (case ts_jwks_url t of
                Some url \<Rightarrow> Inr (Some (Jwks url))
              | None \<Rightarrow>
                  (case ts_public_key_pem t of
                     Some pm \<Rightarrow> and_then pem_alg (\<lambda>alg. Inr (Some (Pem pm alg (ts_kid t))))
                   | None \<Rightarrow>
                       (case ts_public_key_file t of
                          Some file \<Rightarrow>
                            and_then pem_alg (\<lambda>alg.
                            and_then (ok_or (UnreadableFile file) (read_file file)) (\<lambda>pm.
                            Inr (Some (Pem pm alg (ts_kid t)))))
                        | None \<Rightarrow> Inr None)))
             (\<lambda>ks.
                if ts_enabled t \<and> ks = None then Inl NoTokenKey
                else
                and_then (dur (ts_leeway t) ''token.leeway'') (\<lambda>lw.
                and_then (dur (ts_jwks_refresh t) ''token.jwks_refresh'') (\<lambda>rf.
                Inr \<lparr>token_enabled = ts_enabled t, key_source = ks, algorithms = algs,
                     issuer = ts_issuer t, audience = ts_audience t,
                     leeway_secs = as_secs lw, jwks_refresh = rf\<rparr>)))))"

definition build_cors :: "string list \<Rightarrow> cors_origins" where
  "build_cors origins =
     (if ''*'' \<in> set origins then CorsAny
      else CorsList (filter (\<lambda>s. s \<noteq> []) (map str_trim origins)))"

definition build_global_alerting :: "notifications_section \<Rightarrow> alerting_config" where
  "build_global_alerting n =
     \<lparr>rules_file = None, eval_interval = secs 60,
      slack_bot_token = map_option sl_bot_token (no_slack n),
      slack_channel = map_option sl_channel (no_slack n),
      smtp_host = map_option es_smtp_host (no_email n),
      smtp_port = unwrap_or 587 (map_option es_smtp_port (no_email n)),
      smtp_username = Option.bind (no_email n) es_username,
      smtp_password = Option.bind (no_email n) es_password,
      email_from = map_option es_from (no_email n),
      email_to = unwrap_or [] (map_option es_to (no_email n))\<rparr>"

definition build_limits :: "limits_section \<Rightarrow> config_error + validation_limits" where
  "build_limits l =
     and_then (dur (li_max_past_skew l) ''ingest.limits.max_past_skew'') (\<lambda>past.
     and_then (dur (li_max_future_skew l) ''ingest.limits.max_future_skew'') (\<lambda>future.
     Inr \<lparr>max_batch_events = li_max_batch_events l, max_payload_bytes = li_max_payload_bytes l,
          max_properties_bytes = li_max_properties_bytes l, max_string_len = li_max_string_len l,
          max_json_depth = li_max_json_depth l, max_past_skew = past, max_future_skew = future,
          max_otlp_record_bytes = li_max_otlp_record_bytes l\<rparr>))"

definition build_rate_limit :: "rate_limit_section \<Rightarrow> config_error + rate_limit_config" where
  "build_rate_limit r =
     and_then (dur (rs_ip_session_window r) ''ingest.rate_limit.ip_session_window'') (\<lambda>w.
     Inr \<lparr>global_per_sec = rs_global_per_sec r, global_burst = rs_global_burst r,
          session_per_sec = rs_session_per_sec r, session_burst = rs_session_burst r,
          ip_session_cap = rs_ip_session_cap r, ip_session_window = w,
          max_tracked_sessions = rs_max_tracked_sessions r, max_tracked_ips = rs_max_tracked_ips r\<rparr>)"

definition build_anomaly :: "anomaly_section \<Rightarrow> config_error + anomaly_config" where
  "build_anomaly a =
     and_then (dur (as_window a) ''ingest.anomaly.window'') (\<lambda>w.
     and_then (dur (as_ban_duration a) ''ingest.anomaly.ban_duration'') (\<lambda>b.
     Inr \<lparr>bad_requests_threshold = as_bad_requests_threshold a, bad_window = w, ban_duration = b,
          anomaly_max_tracked_ips = as_max_tracked_ips a\<rparr>))"

definition build_config ::
    "(string \<Rightarrow> string option) \<Rightarrow> (string \<Rightarrow> string option) \<Rightarrow> file_config \<Rightarrow> config_error + config" where
  "build_config read_file parse_addr file =
     (let s = fc_server file; i = fc_ingest file in
     and_then (if db_url (fc_database file) = [] then Inl (MissingField ''database.url'')
               else Inr (db_url (fc_database file))) (\<lambda>url.
     and_then (build_limits (in_limits i)) (\<lambda>lim.
     and_then (build_rate_limit (in_rate_limit i)) (\<lambda>rl.
     and_then (build_anomaly (in_anomaly i)) (\<lambda>an.
     and_then (build_token read_file (fc_token file)) (\<lambda>tok.
     and_then (map_err (InField ''auth.logs'') (resolve (ae_mode (fc_auth_logs file))
                 (ae_static_token (fc_auth_logs file)) (token_enabled tok))) (\<lambda>la.
     and_then (map_err (InField ''auth.query'') (resolve (ae_mode (fc_auth_query file))
                 (ae_static_token (fc_auth_query file)) (token_enabled tok))) (\<lambda>qa.
     and_then (ok_or (MissingField ''server.bind_addr'') (parse_addr (sv_bind_addr s))) (\<lambda>ba.
     and_then (ok_or (MissingField ''server.grpc.bind_addr'') (parse_addr (gs_bind_addr (sv_grpc s)))) (\<lambda>ga.
     and_then (dur (in_flush_interval i) ''ingest.flush_interval'') (\<lambda>fi.
     and_then (dur (sv_request_timeout s) ''server.request_timeout'') (\<lambda>rt.
     Inr \<lparr>bind_addr = ba, grpc_enabled = gs_enabled (sv_grpc s), grpc_bind_addr = ga,
          database_url = url, db_max_connections = db_max_conn (fc_database file),
          flush_interval = fi, flush_batch_size = in_flush_batch_size i,
          channel_capacity = in_channel_capacity i, retention_days = in_retention_days i,
          partition_future_days = in_partition_future_days i,
          max_logs_records = in_max_logs_records i,
          max_logs_payload_bytes = in_max_logs_payload_bytes i, request_timeout = rt,
          trust_forwarded_for = sv_trust_forwarded_for s, cfg_limits = lim,
          cfg_rate_limit = rl, cfg_anomaly = an, cfg_token = tok, cfg_logs_auth = la,
          cfg_query_auth = qa, mcp_enabled = fc_mcp_enabled file,
          cfg_cors = build_cors (sv_allowed_origins s),
          cfg_alerting = build_global_alerting (fc_notifications file)\<rparr>))))))))))))"

subsection \<open>Export and companions\<close>

definition non_empty :: "string option \<Rightarrow> string option" where
  "non_empty v = opt_filter (\<lambda>s. str_trim s \<noteq> []) v"

definition export_table_of :: "string \<Rightarrow> config_error + export_table" where
  "export_table_of t =
     (let l = ascii_lower t in
      if l = ''events'' then Inr ExpEvents
      else if l = ''logs'' then Inr ExpLogs
      else Inl (UnknownTable l))"

definition build_export :: "export_section \<Rightarrow> config_error + export_settings" where
  "build_export e =
     (if str_trim (xs_bucket e) = [] then Inl (MissingField ''export.bucket'')
      else
      and_then (try_map export_table_of (xs_tables e)) (\<lambda>tables.
      if tables = [] then Inl EmptyTables
      else
      and_then (dur (xs_schedule e) ''export.schedule'') (\<lambda>sched.
      Inr \<lparr>ex_schedule = sched, ex_bucket = xs_bucket e,
           ex_prefix = opt_filter (\<lambda>p. p \<noteq> []) (Some (xs_prefix e)), ex_region = xs_region e,
           ex_endpoint = non_empty (xs_endpoint e),
           ex_access_key_id = non_empty (xs_access_key_id e),
           ex_secret_access_key = non_empty (xs_secret_access_key e),
           ex_allow_http = xs_allow_http e, ex_tables = tables\<rparr>)))"

definition env_flag :: "env \<Rightarrow> string \<Rightarrow> bool" where
  "env_flag env key =
     (case env key of Some v \<Rightarrow> ascii_lower v = ''true'' \<or> v = ''1'' | None \<Rightarrow> False)"

definition export_from_env :: "env \<Rightarrow> config_error + export_settings option" where
  "export_from_env env =
     (if \<not> env_flag env ''EXPORT_ENABLED'' then Inr None
      else
      and_then (ok_or (MissingVariable ''S3_BUCKET'') (env ''S3_BUCKET'')) (\<lambda>bucket.
      let tables = List.map_filter
            (\<lambda>t. case export_table_of (str_trim t) of Inr x \<Rightarrow> Some x | Inl _ \<Rightarrow> None)
            (split_on (CHR '','') (env_str env ''EXPORT_TABLES'' ''events,logs''))
      in if tables = [] then Inl EmptyTables
         else
         and_then (parse_duration (env_str env ''EXPORT_SCHEDULE'' ''24h'')) (\<lambda>sched.
         Inr (Some \<lparr>ex_schedule = sched, ex_bucket = bucket,
              ex_prefix = env_nonempty env ''S3_PREFIX'',
              ex_region = env_str env ''S3_REGION'' ''eu-west-1'',
              ex_endpoint = non_empty (env ''S3_ENDPOINT''),
              ex_access_key_id = non_empty (env ''AWS_ACCESS_KEY_ID''),
              ex_secret_access_key = non_empty (env ''AWS_SECRET_ACCESS_KEY''),
              ex_allow_http = env_flag env ''S3_ALLOW_HTTP'', ex_tables = tables\<rparr>))))"

fun build_expected :: "companion_entry list \<Rightarrow> config_error + expected_companion list" where
  "build_expected [] = Inr []"
| "build_expected (e # es) =
     (if str_trim (ce_id e) = [] then Inl (MissingField ''companions.expected.id'')
      else
      and_then (dur (ce_timeout e) ''companions.expected.timeout'') (\<lambda>t.
      and_then (build_expected es) (\<lambda>cs.
      Inr (\<lparr>xc_id = ce_id e, xc_timeout = t, xc_severity = ce_severity e\<rparr> # cs))))"

definition build_companions :: "companions_section \<Rightarrow> config_error + companion_monitor" where
  "build_companions s =
     and_then (build_expected (cs_expected s)) (\<lambda>expected.
     and_then (dur (cs_check_interval s) ''companions.check_interval'') (\<lambda>ci.
     Inr \<lparr>mo_check_interval = ci, mo_expected = expected\<rparr>))"

subsection \<open>Projects\<close>

fun apply_project_filter :: "string option \<Rightarrow> string option \<Rightarrow> rule \<Rightarrow> rule" where
  "apply_project_filter service tenant (Rule f cs) =
     Rule (f\<lparr>ru_service := opt_or (ru_service f) service, ru_tenant := opt_or (ru_tenant f) tenant\<rparr>)
          (map (apply_project_filter service tenant) cs)"

definition to_email_config :: "email_section \<Rightarrow> email_config" where
  "to_email_config e =
     \<lparr>ec_smtp_host = es_smtp_host e, ec_smtp_port = es_smtp_port e, ec_username = es_username e,
      ec_password = es_password e, ec_from = es_from e, ec_to = es_to e\<rparr>"

record file_system =
  fs_read :: "string \<Rightarrow> string option"
  fs_dir :: "string \<Rightarrow> string option list option"
  fs_is_file :: "string \<Rightarrow> bool"

record decoders =
  de_toml :: "string \<Rightarrow> toml option"
  de_file :: "toml \<Rightarrow> file_config option"
  de_project :: "toml \<Rightarrow> project_file option"
  de_rules :: "string \<Rightarrow> rule list option"

definition load_project ::
    "file_system \<Rightarrow> decoders \<Rightarrow> env \<Rightarrow> notifications_section \<Rightarrow> string \<Rightarrow> config_error + project" where
  "load_project fs de env global path =
     and_then (ok_or (UnreadableFile path) (fs_read fs path)) (\<lambda>raw.
     and_then (ok_or InvalidToml (de_toml de raw)) (\<lambda>value.
     and_then (expand_env env value) (\<lambda>value'.
     and_then (ok_or InvalidStructure (de_project de value')) (\<lambda>pf.
     (let rules = map (apply_project_filter (pf_service pf) (pf_tenant pf)) (pf_rules pf) in
      and_then (map_err (\<lambda>_. InvalidRule) (try_map validate_rule rules)) (\<lambda>_.
      (let notify = (if no_slack (pf_notifications pf) \<noteq> None \<or> no_email (pf_notifications pf) \<noteq> None
                     then pf_notifications pf else global)
       in and_then (dur (pf_eval_interval pf) ''alerting.eval_interval'') (\<lambda>ei.
          Inr \<lparr>pj_id = pf_id pf, pj_name = unwrap_or (pf_id pf) (pf_name pf), pj_eval_interval = ei,
               pj_rules = rules,
               pj_slack = map_option (\<lambda>s. \<lparr>sb_token = sl_bot_token s, sb_default_channel = sl_channel s\<rparr>)
                            (no_slack notify),
               pj_email = map_option to_email_config (no_email notify)\<rparr>))))))))"

fun load_projects ::
    "(string \<Rightarrow> config_error + project) \<Rightarrow> string list \<Rightarrow> string list \<Rightarrow> project list" where
  "load_projects load seen [] = []"
| "load_projects load seen (p # ps) =
     (case load p of
        Inl _ \<Rightarrow> load_projects load seen ps
      | Inr pj \<Rightarrow>
          if pj_id pj \<in> set seen then load_projects load seen ps
          else pj # load_projects load (pj_id pj # seen) ps)"

definition path_join :: "string \<Rightarrow> string \<Rightarrow> string" where
  "path_join base f =
     (if prefix ''/'' f \<or> base = [] then f
      else if suffix ''/'' base then base @ f else base @ ''/'' @ f)"

definition has_toml_extension :: "string \<Rightarrow> bool" where
  "has_toml_extension p =
     (let name = last (split_on (CHR ''/'') p) in suffix ''.toml'' name \<and> name \<noteq> ''.toml'')"

definition build_projects ::
    "file_system \<Rightarrow> decoders \<Rightarrow> env \<Rightarrow> projects_section \<Rightarrow> string \<Rightarrow> notifications_section
       \<Rightarrow> config_error + project list" where
  "build_projects fs de env section base global =
     and_then
       (case ps_dir section of
          None \<Rightarrow> Inr []
        | Some dir \<Rightarrow>
            and_then (ok_or (UnreadableFile dir) (fs_dir fs (path_join base dir))) (\<lambda>entries.
            and_then (try_map (ok_or (UnreadableFile dir)) entries) (\<lambda>ps.
            Inr (sort (filter has_toml_extension ps)))))
       (\<lambda>in_dir.
          Inr (load_projects (load_project fs de env global) []
                 (in_dir @ map (path_join base) (ps_files section))))"

definition project_from_env :: "file_system \<Rightarrow> decoders \<Rightarrow> alerting_config \<Rightarrow> project list" where
  "project_from_env fs de ac =
     (case rules_file ac of
        None \<Rightarrow> []
      | Some file \<Rightarrow>
          (case load_rules (fs_read fs) (de_rules de) file of
             Inl _ \<Rightarrow> []
           | Inr rules \<Rightarrow>
               if rules = [] then []
               else [\<lparr>pj_id = ''default'', pj_name = ''default'', pj_eval_interval = eval_interval ac,
                      pj_rules = rules,
                      pj_slack =
                        (case (slack_bot_token ac, slack_channel ac) of
                           (Some token, Some channel) \<Rightarrow>
                             Some \<lparr>sb_token = token, sb_default_channel = channel\<rparr>
                         | _ \<Rightarrow> None),
                      pj_email =
                        (case (smtp_host ac, email_from ac) of
                           (Some host, Some from) \<Rightarrow>
                             Some \<lparr>ec_smtp_host = host, ec_smtp_port = smtp_port ac,
                                   ec_username = smtp_username ac, ec_password = smtp_password ac,
                                   ec_from = from, ec_to = email_to ac\<rparr>
                         | _ \<Rightarrow> None)\<rparr>]))"

subsection \<open>Loading\<close>

definition parse_file :: "decoders \<Rightarrow> env \<Rightarrow> string \<Rightarrow> config_error + file_config" where
  "parse_file de env raw =
     and_then (ok_or InvalidToml (de_toml de raw)) (\<lambda>value.
     and_then (expand_env env value) (\<lambda>value'.
     ok_or InvalidStructure (de_file de value')))"

definition from_toml_file ::
    "file_system \<Rightarrow> decoders \<Rightarrow> (string \<Rightarrow> string option) \<Rightarrow> (string \<Rightarrow> string) \<Rightarrow> env \<Rightarrow> string
       \<Rightarrow> config_error + settings" where
  "from_toml_file fs de parse_addr parent env path =
     and_then (ok_or (UnreadableFile path) (fs_read fs path)) (\<lambda>raw.
     and_then (parse_file de env raw) (\<lambda>file.
     and_then (build_config (fs_read fs) parse_addr file) (\<lambda>c.
     and_then (build_projects fs de env (fc_projects file) (parent path) (fc_notifications file)) (\<lambda>ps.
     and_then (case fc_export file of
                 Some e \<Rightarrow> if xs_enabled e then and_then (build_export e) (\<lambda>x. Inr (Some x)) else Inr None
               | None \<Rightarrow> Inr None) (\<lambda>ex.
     and_then (build_companions (fc_companions file)) (\<lambda>co.
     Inr \<lparr>st_config = c, st_projects = ps, st_export = ex, st_companions = co\<rparr>))))))"

definition from_env_fallback ::
    "file_system \<Rightarrow> decoders \<Rightarrow> (string \<Rightarrow> string option) \<Rightarrow> (string \<Rightarrow> real option) \<Rightarrow> env
       \<Rightarrow> config_error + settings" where
  "from_env_fallback fs de parse_addr parse_f64 env =
     and_then (from_env (fs_read fs) parse_addr parse_f64 env) (\<lambda>c.
     and_then (export_from_env env) (\<lambda>ex.
     Inr \<lparr>st_config = c, st_projects = project_from_env fs de (cfg_alerting c), st_export = ex,
          st_companions = \<lparr>mo_check_interval = secs 30, mo_expected = []\<rparr>\<rparr>))"

definition config_path :: "file_system \<Rightarrow> env \<Rightarrow> string option" where
  "config_path fs env =
     (case env_nonempty env ''DATACAT_CONFIG'' of
        Some p \<Rightarrow> Some p
      | None \<Rightarrow> find (fs_is_file fs) [''datacat.toml'', ''/etc/datacat/datacat.toml''])"

definition load_settings ::
    "file_system \<Rightarrow> decoders \<Rightarrow> (string \<Rightarrow> string option) \<Rightarrow> (string \<Rightarrow> real option)
       \<Rightarrow> (string \<Rightarrow> string) \<Rightarrow> env \<Rightarrow> config_error + settings" where
  "load_settings fs de parse_addr parse_f64 parent env =
     (case config_path fs env of
        Some path \<Rightarrow> from_toml_file fs de parse_addr parent env path
      | None \<Rightarrow> from_env_fallback fs de parse_addr parse_f64 env)"

subsection \<open>Lemmas\<close>

lemma str_find_None_iff: "p \<noteq> [] \<Longrightarrow> str_find p s = None \<longleftrightarrow> \<not> sublist p s"
  by (induction s) (auto simp: sublist_Cons_right)

lemma str_find_char: "str_find [c] s = None \<longleftrightarrow> c \<notin> set s"
  by (induction s) (auto simp: prefix_def)

lemma str_find_char_append: "c \<notin> set s \<Longrightarrow> str_find [c] (s @ c # t) = Some (length s)"
  by (induction s) (auto simp: prefix_def)

lemma str_find_dollar:
  "str_find ''${'' pre = None \<Longrightarrow> str_find ''${'' (pre @ ''${'' @ r) = Some (length pre)"
proof (induction pre)
  case Nil
  then show ?case by (simp add: prefix_def)
next
  case (Cons c pre)
  have "\<not> prefix ''${'' (c # pre @ ''${'' @ r)"
    using Cons.prems by (cases pre) (auto split: if_splits)
  with Cons show ?case by (simp split: if_splits)
qed

lemma expand_str_step:
  assumes "str_find ''${'' pre = None" and "CHR ''}'' \<notin> set inner"
  shows "expand_str env (pre @ ''${'' @ inner @ ''}'' @ post)
    = and_then (placeholder_value env inner) (\<lambda>v.
      and_then (expand_str env post) (\<lambda>out. Inr (pre @ v @ out)))"
proof -
  have "str_find ''${'' (pre @ ''${'' @ inner @ ''}'' @ post) = Some (length pre)"
    using str_find_dollar [OF assms(1)] by simp
  moreover have "str_find ''}'' (inner @ ''}'' @ post) = Some (length inner)"
    using str_find_char_append [OF assms(2), of post] by simp
  ultimately show ?thesis
    by (subst expand_str.simps) (simp add: Let_def)
qed

lemma build_token_sound:
  assumes "build_token read_file t = Inr tc"
  shows "set (algorithms tc) \<subseteq> {EdDSA, RS256} \<and> algorithms tc \<noteq> []
    \<and> (token_enabled tc \<longrightarrow> key_source tc \<noteq> None)
    \<and> (\<forall>p a k. key_source tc = Some (Pem p a k) \<longrightarrow> a \<in> set (algorithms tc))"
proof -
  have algs: "set algs \<subseteq> {EdDSA, RS256}" if "try_map parse_alg xs = Inr algs" for xs algs
    using that
  proof (induction xs arbitrary: algs)
    case Nil
    then show ?case by simp
  next
    case (Cons x xs)
    then show ?case by (auto split: sum.splits dest: parse_alg_asymmetric)
  qed
  have "try_map parse_alg (ts_algorithms t) = Inr (algorithms tc)"
    using assms by (auto simp: build_token_def Let_def split: option.splits if_splits)
  from algs [OF this] assms show ?thesis
    by (auto simp: build_token_def Let_def split: option.splits if_splits)
qed

lemma build_config_parts:
  assumes "build_config read_file parse_addr file = Inr c"
  shows "build_token read_file (fc_token file) = Inr (cfg_token c)"
    and "resolve (ae_mode (fc_auth_logs file)) (ae_static_token (fc_auth_logs file))
           (token_enabled (cfg_token c)) = Inr (cfg_logs_auth c)"
    and "resolve (ae_mode (fc_auth_query file)) (ae_static_token (fc_auth_query file))
           (token_enabled (cfg_token c)) = Inr (cfg_query_auth c)"
    and "database_url c \<noteq> []"
  using assms unfolding build_config_def Let_def by (auto split: if_splits)

lemma load_projects_ids:
  "pj_id ` set (load_projects load seen ps)
     = {pj_id pj | p pj. p \<in> set ps \<and> load p = Inr pj} - set seen
   \<and> distinct (map pj_id (load_projects load seen ps))
   \<and> (\<forall>pj \<in> set (load_projects load seen ps). \<exists>p \<in> set ps. load p = Inr pj)"
proof (induction ps arbitrary: seen)
  case Nil
  then show ?case by simp
next
  case (Cons p ps)
  show ?case
  proof (cases "load p")
    case (Inl e)
    with Cons [of seen] show ?thesis by auto
  next
    case (Inr pj)
    show ?thesis
    proof (cases "pj_id pj \<in> set seen")
      case True
      with Inr Cons [of seen] show ?thesis by auto
    next
      case False
      from Cons [of "pj_id pj # seen"] have IH:
        "pj_id ` set (load_projects load (pj_id pj # seen) ps)
           = {pj_id q | p q. p \<in> set ps \<and> load p = Inr q} - insert (pj_id pj) (set seen)"
        "distinct (map pj_id (load_projects load (pj_id pj # seen) ps))"
        "\<forall>q \<in> set (load_projects load (pj_id pj # seen) ps). \<exists>p \<in> set ps. load p = Inr q"
        by auto
      have eq: "load_projects load seen (p # ps) = pj # load_projects load (pj_id pj # seen) ps"
        using Inr False by simp
      have "pj_id pj \<notin> pj_id ` set (load_projects load (pj_id pj # seen) ps)"
        unfolding IH(1) by simp
      moreover have "insert (pj_id pj) ({pj_id q | p q. p \<in> set ps \<and> load p = Inr q} - insert (pj_id pj) (set seen))
          = {pj_id q | r q. r \<in> set (p # ps) \<and> load r = Inr q} - set seen"
        using Inr False by auto
      ultimately show ?thesis unfolding eq using IH Inr by auto
    qed
  qed
qed

lemma load_project_valid:
  assumes "load_project fs de env global path = Inr pj"
  shows "list_all rule_ok (pj_rules pj)"
proof -
  have "list_all rule_ok rs" if "try_map validate_rule rs = Inr us" for rs us
    using that
  proof (induction rs arbitrary: us)
    case Nil
    then show ?case by simp
  next
    case (Cons r rs)
    then show ?case by (auto simp: validate_rule_iff [symmetric] split: sum.splits)
  qed
  with assms show ?thesis by (auto simp: load_project_def Let_def)
qed

subsection \<open>Properties\<close>

text \<open>Secrets are expanded once and fail closed: the first placeholder of a string is replaced
  by the value of its variable or by its default, the value is not expanded again, the text after
  it is expanded in turn, and a required variable that is not set is an error.\<close>

theorem secret_expansion:
  assumes "str_find ''${'' pre = None" and "CHR ''}'' \<notin> set inner"
  shows "expand_str env (pre @ ''${'' @ inner @ ''}'' @ post)
      = and_then (placeholder_value env inner) (\<lambda>v.
        and_then (expand_str env post) (\<lambda>out. Inr (pre @ v @ out)))
    \<and> (str_find '':-'' inner = None \<longrightarrow> env (str_trim inner) = None \<longrightarrow>
         (\<exists>e. expand_str env (pre @ ''${'' @ inner @ ''}'' @ post) = Inl e))"
  using expand_str_step [OF assms]
  by (simp add: placeholder_value_def placeholder_def split_once_def)

lemma secret_expansion_witness:
  "expand_str [''V'' \<mapsto> ''${V}''] ''a${V}b'' = Inr ''a${V}b''"
proof -
  have t: "str_trim ''V'' = ''V''" by (rule str_trim_visible) (simp_all add: ascii_visible_def)
  have "expand_str [''V'' \<mapsto> ''${V}''] ''b'' = Inr ''b''" by (subst expand_str.simps) simp
  with secret_expansion [of "''a''" "''V''" "[''V'' \<mapsto> ''${V}'']" "''b''"] t show ?thesis
    by (simp add: placeholder_value_def placeholder_def split_once_def)
qed

text \<open>A deployment file accepted by a production build is closed: tokens are verified with
  asymmetric algorithms, an inline key is of an accepted algorithm, and no endpoint is open unless
  its mode is the explicit word none.\<close>

theorem toml_config_closed:
  assumes "build_config read_file parse_addr file = Inr c"
    and "enforce_runtime_guards False c = Inr ()"
  shows "''*'' \<notin> set (sv_allowed_origins (fc_server file))
    \<and> key_source (cfg_token c) \<noteq> None \<and> set (algorithms (cfg_token c)) \<subseteq> {EdDSA, RS256}
    \<and> (\<forall>p a k. key_source (cfg_token c) = Some (Pem p a k) \<longrightarrow> a \<in> set (algorithms (cfg_token c)))
    \<and> cfg_logs_auth c \<noteq> Static [] \<and> cfg_query_auth c \<noteq> Static []
    \<and> (cfg_logs_auth c = NoAuth \<longrightarrow> ascii_lower (str_trim (ae_mode (fc_auth_logs file))) = ''none'')
    \<and> (cfg_query_auth c = NoAuth \<longrightarrow> ascii_lower (str_trim (ae_mode (fc_auth_query file))) = ''none'')"
proof -
  note p = build_config_parts [OF assms(1)]
  from assms(2) have g: "cfg_cors c \<noteq> CorsAny" "token_enabled (cfg_token c)"
    by (auto simp: enforce_runtime_guards_def split: if_splits)
  have "cfg_cors c = build_cors (sv_allowed_origins (fc_server file))"
    using assms(1) unfolding build_config_def Let_def by (auto split: if_splits)
  with g(1) have "''*'' \<notin> set (sv_allowed_origins (fc_server file))"
    by (auto simp: build_cors_def)
  moreover have "key_source (cfg_token c) \<noteq> None"
    using build_token_sound [OF p(1)] g(2) by blast
  ultimately show ?thesis
    using build_token_sound [OF p(1)] p(2,3) g(2) resolve_no_empty_secret [of _ _ True]
      resolve_open_only_on_demand by (metis (full_types))
qed


lemma default_durations:
  "parse_duration ''31d'' = Inr (secs 2678400)" "parse_duration ''24h'' = Inr (secs 86400)"
  "parse_duration ''30m'' = Inr (secs 1800)" "parse_duration ''60s'' = Inr (secs 60)"
  "parse_duration ''5m'' = Inr (secs 300)" "parse_duration ''1h'' = Inr (secs 3600)"
  "parse_duration ''200ms'' = Inr (millis 200)" "parse_duration ''15s'' = Inr (secs 15)"
  "parse_duration ''30s'' = Inr (secs 30)"
  by (simp_all add: parse_duration_def str_trim_visible ascii_visible_def Let_def
      is_ascii_alphabetic_def parse_uint_def digit_val_def u64_max_def mul_u64_def)

definition file_demo :: file_config where
  "file_demo = \<lparr>fc_server = server_default, fc_database = database_default\<lparr>db_url := ''d''\<rparr>,
     fc_ingest = ingest_default, fc_token = token_section_default\<lparr>ts_public_key_pem := Some ''p''\<rparr>,
     fc_auth_logs = auth_default, fc_auth_query = auth_default, fc_mcp_enabled = True,
     fc_export = None, fc_notifications = \<lparr>no_slack = None, no_email = None\<rparr>,
     fc_projects = \<lparr>ps_dir = None, ps_files = [''a.toml'']\<rparr>, fc_companions = companions_default\<rparr>"

lemma file_demo_token:
  "is_ok (build_token (\<lambda>_. None) (fc_token file_demo))
   \<and> (\<forall>t. build_token (\<lambda>_. None) (fc_token file_demo) = Inr t \<longrightarrow> token_enabled t)"
  by (auto simp: build_token_def file_demo_def token_section_default_def parse_alg_def dur_def
      default_durations)

lemma resolve_auto: "resolve ''auto'' None True = Inr Jwt"
  by (simp add: resolve_def trim_examples ascii_lower_def ascii_lower_char_def)

lemma file_demo_built:
  "\<exists>c. build_config (\<lambda>_. None) Some file_demo = Inr c \<and> enforce_runtime_guards False c = Inr ()"
proof -
  obtain t where t: "build_token (\<lambda>_. None) (fc_token file_demo) = Inr t" "token_enabled t"
    using file_demo_token by (auto simp: is_ok_iff)
  have l: "is_ok (build_limits (in_limits (fc_ingest file_demo)))"
    "is_ok (build_rate_limit (in_rate_limit (fc_ingest file_demo)))"
    "is_ok (build_anomaly (in_anomaly (fc_ingest file_demo)))"
    by (simp_all add: build_limits_def build_rate_limit_def build_anomaly_def file_demo_def
        ingest_default_def limits_default_def rate_limit_default_def anomaly_section_default_def
        dur_def default_durations)
  then obtain a b c where s: "build_limits (in_limits (fc_ingest file_demo)) = Inr a"
    "build_rate_limit (in_rate_limit (fc_ingest file_demo)) = Inr b"
    "build_anomaly (in_anomaly (fc_ingest file_demo)) = Inr c"
    by (auto simp: is_ok_iff)
  have "''*'' \<notin> set (sv_allowed_origins (fc_server file_demo))"
    by (simp add: file_demo_def server_default_def)
  with t s have "case build_config (\<lambda>_. None) Some file_demo of Inl _ \<Rightarrow> False
      | Inr k \<Rightarrow> cfg_cors k \<noteq> CorsAny \<and> token_enabled (cfg_token k)"
    by (simp add: build_config_def resolve_auto build_cors_def)
      (simp add: file_demo_def server_default_def database_default_def ingest_default_def
        auth_default_def grpc_default_def dur_def default_durations resolve_auto)
  then show ?thesis by (auto simp: enforce_runtime_guards_def split: sum.splits)
qed

lemma toml_config_closed_witness:
  "\<exists>c. build_config (\<lambda>_. None) Some file_demo = Inr c \<and> key_source (cfg_token c) \<noteq> None
     \<and> set (algorithms (cfg_token c)) \<subseteq> {EdDSA, RS256}"
  using file_demo_built toml_config_closed by blast


text \<open>The environment variant does not compare the algorithm of the key with the accepted ones:
  this configuration is accepted and can verify no token.\<close>

lemma env_key_never_selected:
  "\<exists>t. token_from_env (\<lambda>_. None) [''TOKEN_PUBLIC_KEY_PEM'' \<mapsto> ''p'', ''TOKEN_ALGORITHMS'' \<mapsto> ''RS256''] = Inr t
     \<and> key_source t = Some (Pem ''p'' EdDSA None) \<and> algorithms t = [RS256]"
  by (simp add: token_from_env_def env_bool_def env_str_def env_parse_def env_duration_def
      trim_examples parse_alg_def key_source_from_env_def read_pem_from_env_def)

end
