(* ===== verification/Startup.thy ===== *)
theory Startup
  imports Api Partitions Exporter Settings Notify Companion
begin

text \<open>
  The service around its components, \<^verbatim>\<open>backend/src/main.rs\<close>: the preparation of the
  database, the maintenance of partitions and limiters, the choice of the notification channels of the
  projects and of the companion monitor, and the scheduled export. The database, the mail library and
  the object store are parameters; a loop is run over the list of its ticks.
\<close>

subsection \<open>The window of partitions\<close>

definition past_days :: "config \<Rightarrow> int" where
  "past_days c = int (as_secs (max_past_skew (cfg_limits c)) div 86400) + 1"

definition future_days :: "config \<Rightarrow> int" where
  "future_days c = max (partition_future_days c) (int (as_secs (max_future_skew (cfg_limits c)) div 86400) + 1)"

text \<open>The answers of the database to the calls of one pass, each with the day it is made on.\<close>

record db_answers =
  da_today :: int
  da_ensure :: "int \<Rightarrow> bool"
  da_drain :: "bool \<times> bool"
  da_purge :: bool

type_synonym pass = "nat \<Rightarrow> db_answers"

text \<open>At startup a window that cannot be created is fatal; drains and purges are only reported.\<close>

definition ensure_or_stop ::
    "(db_answers \<Rightarrow> database \<Rightarrow> int option \<times> database) \<Rightarrow> db_answers \<Rightarrow> database \<Rightarrow> int + database" where
  "ensure_or_stop ensure a db = (case ensure a db of (Some d, _) \<Rightarrow> Inl d | (None, db') \<Rightarrow> Inr db')"

definition prepare_database :: "config \<Rightarrow> pass \<Rightarrow> database \<Rightarrow> int + database" where
  "prepare_database c a db =
     (let win = (\<lambda>f x. f (da_ensure x) (da_today x) (past_days c) (future_days c)) in
      and_then (ensure_or_stop (win ensure_partition_window) (a 0) db) (\<lambda>db.
      and_then (ensure_or_stop (win ensure_log_partition_window) (a 1) db) (\<lambda>db.
      and_then (ensure_or_stop (win ensure_span_partition_window) (a 2) db) (\<lambda>db.
      and_then (ensure_or_stop (win ensure_metric_partition_window) (a 3) db) (\<lambda>db.
        let db = snd (drain_staging (da_drain (a 0)) db);
            db = snd (drain_log_staging (da_drain (a 1)) db);
            db = snd (drain_span_staging (da_drain (a 2)) db);
            db = snd (drain_metric_staging (da_drain (a 3)) db);
            db = snd (purge_old_partitions (da_purge (a 4)) (da_today (a 4)) (retention_days c) db);
            db = snd (purge_old_log_partitions (da_purge (a 5)) (da_today (a 5)) (retention_days c) db);
            db = snd (purge_old_span_partitions (da_purge (a 6)) (da_today (a 6)) (retention_days c) db);
            db = snd (purge_old_metric_partitions (da_purge (a 7)) (da_today (a 7)) (retention_days c) db)
        in Inr db)))))"

text \<open>The hourly tick: all errors are only reported.\<close>

definition maintenance_tick :: "config \<Rightarrow> pass \<Rightarrow> database \<Rightarrow> database" where
  "maintenance_tick c a db =
     (let win = (\<lambda>f x db. snd (f (da_ensure x) (da_today x) (past_days c) (future_days c) db));
          db = win ensure_partition_window (a 0) db;
          db = win ensure_log_partition_window (a 1) db;
          db = win ensure_span_partition_window (a 2) db;
          db = win ensure_metric_partition_window (a 3) db;
          db = snd (purge_old_partitions (da_purge (a 4)) (da_today (a 4)) (retention_days c) db);
          db = snd (purge_old_log_partitions (da_purge (a 5)) (da_today (a 5)) (retention_days c) db);
          db = snd (purge_old_span_partitions (da_purge (a 6)) (da_today (a 6)) (retention_days c) db)
      in snd (purge_old_metric_partitions (da_purge (a 7)) (da_today (a 7)) (retention_days c) db))"

text \<open>Every minute the limiters forget what is stale.\<close>

definition memory_tick :: "nanos \<Rightarrow> rate_limiter \<times> anomaly_guard \<Rightarrow> rate_limiter \<times> anomaly_guard" where
  "memory_tick now s = (limiter_prune now (fst s), anomaly_prune now (snd s))"

subsection \<open>Notification channels\<close>

definition project_default ::
    "(email_config \<Rightarrow> email_error + 'box email_notifier) \<Rightarrow> project \<Rightarrow> 'box notifier list" where
  "project_default email_new p =
     (case pj_slack p of Some sbot \<Rightarrow> [SlackNotifier (sb_token sbot) (sb_default_channel sbot)] | None \<Rightarrow> [])
     @ (case pj_email p of
          Some email \<Rightarrow>
            if ec_to email \<noteq> []
            then (case email_new email of Inr n \<Rightarrow> [EmailNotifier n] | Inl _ \<Rightarrow> [])
            else []
        | None \<Rightarrow> [])"

text \<open>The dispatcher of the project's loop, none when it has no loop.\<close>

definition spawn_project_alerting ::
    "(email_config \<Rightarrow> email_error + 'box email_notifier) \<Rightarrow> project \<Rightarrow> 'box dispatcher option" where
  "spawn_project_alerting email_new p =
     (if pj_rules p = [] then None
      else (let has_actions = (\<exists>r\<in>set (pj_rules p). ru_actions (rule_data r) \<noteq> []);
                has_channel = (pj_slack p \<noteq> None \<or> (case pj_email p of Some e \<Rightarrow> ec_to e \<noteq> [] | None \<Rightarrow> False))
            in if \<not> has_channel \<and> \<not> has_actions then None
               else Some (dispatcher_build email_new (pj_rules p) \<lparr>ds_slack = pj_slack p, ds_email = pj_email p\<rparr>
                            (project_default email_new p))))"

definition spawn_alerting ::
    "(email_config \<Rightarrow> email_error + 'box email_notifier) \<Rightarrow> project list \<Rightarrow> (project \<times> 'box dispatcher) list" where
  "spawn_alerting email_new ps =
     concat (map (\<lambda>p. case spawn_project_alerting email_new p of Some d \<Rightarrow> [(p, d)] | None \<Rightarrow> []) ps)"

definition global_notifiers ::
    "(email_config \<Rightarrow> email_error + 'box email_notifier) \<Rightarrow> alerting_config \<Rightarrow> 'box notifier list" where
  "global_notifiers email_new ac =
     (case (slack_bot_token ac, slack_channel ac) of
        (Some token, Some channel) \<Rightarrow> [SlackNotifier token channel]
      | _ \<Rightarrow> [])
     @ (case (smtp_host ac, email_from ac) of
          (Some host, Some sender) \<Rightarrow>
            if email_to ac \<noteq> []
            then (case email_new \<lparr>ec_smtp_host = host, ec_smtp_port = smtp_port ac, ec_username = smtp_username ac,
                         ec_password = smtp_password ac, ec_from = sender, ec_to = email_to ac\<rparr> of
                    Inr n \<Rightarrow> [EmailNotifier n]
                  | Inl _ \<Rightarrow> [])
            else []
        | _ \<Rightarrow> [])"

definition spawn_companion_monitor ::
    "(email_config \<Rightarrow> email_error + 'box email_notifier) \<Rightarrow> config \<Rightarrow> companion_monitor
       \<Rightarrow> (expected_companion list \<times> 'box notifier list \<times> nanos) option" where
  "spawn_companion_monitor email_new c m =
     (if mo_expected m = [] then None
      else (let ns = global_notifiers email_new (cfg_alerting c)
            in if ns = [] then None else Some (mo_expected m, ns, mo_check_interval m)))"

subsection \<open>The scheduled export\<close>

text \<open>A tick of the export: its time, whether uploads succeed, and the pages of both tables.\<close>

record export_tick =
  et_now :: datetime
  et_upload_ok :: bool
  et_events :: "int \<Rightarrow> nat \<Rightarrow> export_error + event_export list"
  et_logs :: "int \<Rightarrow> nat \<Rightarrow> export_error + log_export list"

definition spawn_export :: "bool \<Rightarrow> export_settings option \<Rightarrow> export_settings option" where
  "spawn_export feature ex = (if feature then ex else None)"

definition tick_jobs :: "datetime \<Rightarrow> export_table list \<Rightarrow> (int \<times> export_table) list" where
  "tick_jobs now tables =
     concat (map (\<lambda>ago. map (\<lambda>table. (utc_day (now - ago * day_ns), table)) tables) [1, 2])"

text \<open>Errors are reported and the next export goes on.\<close>

fun run_jobs ::
    "('p, 'o) export_env \<Rightarrow> export_tick \<Rightarrow> string option \<Rightarrow> (int \<times> export_table) list \<Rightarrow> ('p \<times> 'o) list
       \<Rightarrow> ('p \<times> 'o) list option" where
  "run_jobs xv tk pre [] store = Some store"
| "run_jobs xv tk pre ((date, table) # jobs) store =
     Option.bind (case table of
                    ExpEvents \<Rightarrow> Exporter.export_events xv (et_events tk date) date pre store
                  | ExpLogs \<Rightarrow> Exporter.export_logs xv (et_logs tk date) date pre store)
       (\<lambda>(out, store'). run_jobs xv tk pre jobs store')"

fun run_ticks ::
    "('p, 'o) export_env \<Rightarrow> export_settings \<Rightarrow> export_tick list \<Rightarrow> ('p \<times> 'o) list \<Rightarrow> ('p \<times> 'o) list option" where
  "run_ticks xv ex [] store = Some store"
| "run_ticks xv ex (tk # tks) store =
     Option.bind (run_jobs (xv\<lparr>xv_upload_ok := et_upload_ok tk\<rparr>) tk (ex_prefix ex)
                    (tick_jobs (et_now tk) (ex_tables ex)) store)
       (run_ticks xv ex tks)"

definition loop_config :: "export_settings \<Rightarrow> export_config" where
  "loop_config ex =
     \<lparr>xc_database_url = [], xc_s3_endpoint = ex_endpoint ex, xc_s3_region = ex_region ex,
      xc_aws_access_key_id = ex_access_key_id ex, xc_aws_secret_access_key = ex_secret_access_key ex,
      xc_s3_allow_http = ex_allow_http ex\<rparr>"

definition run_export_loop ::
    "(s3_settings \<Rightarrow> ('p, 'o) export_env option) \<Rightarrow> export_settings \<Rightarrow> export_tick list \<Rightarrow> ('p \<times> 'o) list
       \<Rightarrow> ('p \<times> 'o) list option" where
  "run_export_loop build ex ticks store =
     (case build_export_store build (loop_config ex) (ex_bucket ex) of
        Inl _ \<Rightarrow> Some store
      | Inr xv \<Rightarrow> run_ticks xv ex ticks store)"


subsection \<open>The start of the service\<close>

datatype start_error =
    SettingsFailed config_error
  | GuardsFailed config_error
  | DatabaseUnreachable
  | MigrationsFailed
  | WindowFailed int
  | VerifierFailed key_error
  | BindFailed string

text \<open>
  The surroundings of the main function: the settings as they were loaded, the database, the verifier of
  tokens, the addresses that can be bound, the mail library.
\<close>

record ('key, 'box) surroundings =
  su_dev :: bool
  su_export_feature :: bool
  su_loaded :: "config_error + settings"
  su_connects :: "string \<Rightarrow> bool"
  su_migrates :: bool
  su_answers :: pass
  su_verifier :: "token_config \<Rightarrow> key_error + 'key token_verifier"
  su_binds :: "string \<Rightarrow> bool"
  su_email_new :: "email_config \<Rightarrow> email_error + 'box email_notifier"

record ('key, 'box) service =
  sv_config :: config
  sv_database :: database
  sv_verifier :: "'key token_verifier"
  sv_state :: "unit app_state"
  sv_alerting :: "(project \<times> 'box dispatcher) list"
  sv_export :: "export_settings option"
  sv_monitor :: "(expected_companion list \<times> 'box notifier list \<times> nanos) option"

definition bind_to :: "('key, 'box) surroundings \<Rightarrow> bool \<Rightarrow> string \<Rightarrow> start_error + unit" where
  "bind_to su wanted addr = (if wanted \<and> \<not> su_binds su addr then Inl (BindFailed addr) else Inr ())"

definition start_service ::
    "('key, 'box) surroundings \<Rightarrow> nanos \<Rightarrow> database \<Rightarrow> start_error + ('key, 'box) service" where
  "start_service su now db =
     and_then (map_err SettingsFailed (su_loaded su)) (\<lambda>st.
     let c = st_config st in
     and_then (map_err GuardsFailed (enforce_runtime_guards (su_dev su) c)) (\<lambda>_.
     if \<not> su_connects su (database_url c) then Inl DatabaseUnreachable
     else if \<not> su_migrates su then Inl MigrationsFailed
     else and_then (map_err WindowFailed (prepare_database c (su_answers su) db)) (\<lambda>db'.
     and_then (map_err VerifierFailed (su_verifier su (cfg_token c))) (\<lambda>v.
     and_then (bind_to su (grpc_enabled c) (grpc_bind_addr c)) (\<lambda>_.
     and_then (bind_to su True (bind_addr c)) (\<lambda>_.
       Inr \<lparr>sv_config = c, sv_database = db', sv_verifier = v,
            sv_state = \<lparr>as_events = spawn_batcher (channel_capacity c) (), as_logs = spawn_batcher (channel_capacity c) (),
              as_spans = spawn_batcher (channel_capacity c) (), as_points = spawn_batcher (channel_capacity c) (),
              as_limiter = rate_limiter_new (cfg_rate_limit c) now, as_anomaly = anomaly_guard_new (cfg_anomaly c),
              as_companions = []\<rparr>,
            sv_alerting = spawn_alerting (su_email_new su) (st_projects st),
            sv_export = spawn_export (su_export_feature su) (st_export st),
            sv_monitor = spawn_companion_monitor (su_email_new su) c (st_companions st)\<rparr>))))))"

subsection \<open>The window covers what is accepted\<close>

lemma skew_days: "int s < (int (as_secs s div 86400) + 1) * day_ns"
proof -
  have "s div 1000000000 div 86400 = s div (1000000000 * 86400)" by (rule div_mult2_eq [symmetric])
  then have "s < (as_secs s div 86400 + 1) * (86400 * 1000000000)"
    using dividend_less_div_times [of "86400 * 1000000000" s] by (simp add: as_secs_def mult.commute)
  then have "int s < int ((as_secs s div 86400 + 1) * (86400 * 1000000000))" by (simp only: of_nat_less_iff)
  then show ?thesis by (simp add: day_ns_def)
qed

lemma utc_day_shift: "utc_day (t + n * day_ns) = utc_day t + n"
  by (simp add: utc_day_def day_ns_def)

lemma utc_day_mono: "s \<le> t \<Longrightarrow> utc_day s \<le> utc_day t"
  by (simp add: utc_day_def zdiv_mono1)

lemma accepted_day_in_window:
  assumes "\<not> out_of_skew (cfg_limits c) now t"
  shows "utc_day now - past_days c \<le> utc_day t" "utc_day t \<le> utc_day now + future_days c"
proof -
  let ?l = "cfg_limits c"
  have b: "now - int (max_past_skew ?l) \<le> t" "t \<le> now + int (max_future_skew ?l)"
    using assms by (auto simp: out_of_skew_def past_limit_def future_limit_def)
  have "now + (- past_days c) * day_ns \<le> t"
    using b(1) skew_days [of "max_past_skew ?l"] by (simp add: past_days_def algebra_simps)
  from utc_day_mono [OF this] show "utc_day now - past_days c \<le> utc_day t" unfolding utc_day_shift by simp
  have "t \<le> now + (int (as_secs (max_future_skew ?l) div 86400) + 1) * day_ns"
    using b(2) skew_days [of "max_future_skew ?l"] by simp
  from utc_day_mono [OF this] show "utc_day t \<le> utc_day now + future_days c"
    unfolding utc_day_shift future_days_def by simp
qed

lemma ensure_window_all:
  "set (pt_days (snd (ensure_window (\<lambda>_. True) today p f t))) = {today - p..today + f} \<union> set (pt_days t)"
proof -
  obtain e t' where e: "ensure_window (\<lambda>_. True) today p f t = (e, t')" by fastforce
  have none: "fst (ensure_days (\<lambda>_. True) ds u) = None" for ds and u :: "'a part_table"
    by (induction ds arbitrary: u) auto
  have "ensure_days (\<lambda>_. True) (map (\<lambda>off. today + off) [- p..f]) t = (None, t')"
    using e none [of "map (\<lambda>off. today + off) [- p..f]" t] by (simp add: ensure_window_def)
  note r = ensure_days_result [OF this, where k = "undefined :: ('a, unit) table_kind"]
  have w: "set (map (\<lambda>off. today + off) [- p..f]) = {today - p..today + f}"
  proof -
    have "x \<in> (\<lambda>off. today + off) ` {- p..f}" if "x \<in> {today - p..today + f}" for x
      using that by (intro image_eqI [of _ _ "x - today"]) auto
    then show ?thesis by auto
  qed
  have "set (pt_days t') = {today - p..today + f} \<union> set (pt_days t)" using r unfolding w by blast
  then show ?thesis by (simp add: e)
qed

lemma window_survives:
  assumes "fst (ensure_window reach today p f t) = None" "today - p \<le> d" "d \<le> today + f" "today - retention \<le> d"
  shows "d \<in> set (pt_days (snd (purge_old rp k today retention (snd (drain rd k (snd (ensure_window reach today p f t)))))))"
proof -
  obtain t' where t': "ensure_window reach today p f t = (None, t')" using assms(1) by (metis prod.collapse)
  have r: "set (map (\<lambda>off. today + off) [- p..f]) \<subseteq> set (pt_days t')"
    using ensure_days_result [of reach "map (\<lambda>off. today + off) [- p..f]" t None t' k] t'
    by (simp add: ensure_window_def)
  have "d = today + (d - today)" "d - today \<in> set [- p..f]" using assms(2,3) by auto
  then have d: "d \<in> set (pt_days t')" using r by (metis (no_types, lifting) image_eqI list.set_map subsetD)
  have "set (pt_days t') \<subseteq> set (pt_days (partitions_for_staging k t'))"
    using create_partitions [where k = k and ds = "remdups (map (tk_day k) (pt_staging t'))" and t = t']
    by (auto simp: partitions_for_staging_def)
  then have "d \<in> set (pt_days (snd (drain rd k t')))"
    using d by (auto simp: drain_def Let_def merge_table_def split: option.split prod.split)
  then show ?thesis using assms(4) t' by (auto simp: purge_old_def drop_before_def)
qed

lemma ensure_or_stop_Inr: "ensure_or_stop ensure a db = Inr db' \<longleftrightarrow> ensure a db = (None, db')"
  by (auto simp: ensure_or_stop_def split: prod.splits option.splits)

lemmas window_defs = ensure_partition_window_def ensure_log_partition_window_def
  ensure_span_partition_window_def ensure_metric_partition_window_def

lemmas drain_defs = drain_staging_def drain_log_staging_def drain_span_staging_def drain_metric_staging_def

lemmas purge_defs = purge_old_partitions_def purge_old_log_partitions_def
  purge_old_span_partitions_def purge_old_metric_partitions_def

lemma prepared_tables:
  assumes "prepare_database c a db = Inr db'"
  shows "fst (ensure_window (da_ensure (a 0)) (da_today (a 0)) (past_days c) (future_days c) (db_events db)) = None
   \<and> db_events db' = snd (purge_old (da_purge (a 4)) events_table (da_today (a 4)) (retention_days c)
       (snd (drain (da_drain (a 0)) events_table (snd (ensure_window (da_ensure (a 0)) (da_today (a 0)) (past_days c) (future_days c) (db_events db))))))
   \<and> fst (ensure_window (da_ensure (a 1)) (da_today (a 1)) (past_days c) (future_days c) (db_logs db)) = None
   \<and> db_logs db' = snd (purge_old (da_purge (a 5)) logs_table (da_today (a 5)) (retention_days c)
       (snd (drain (da_drain (a 1)) logs_table (snd (ensure_window (da_ensure (a 1)) (da_today (a 1)) (past_days c) (future_days c) (db_logs db))))))
   \<and> fst (ensure_window (da_ensure (a 2)) (da_today (a 2)) (past_days c) (future_days c) (db_spans db)) = None
   \<and> db_spans db' = snd (purge_old (da_purge (a 6)) spans_table (da_today (a 6)) (retention_days c)
       (snd (drain (da_drain (a 2)) spans_table (snd (ensure_window (da_ensure (a 2)) (da_today (a 2)) (past_days c) (future_days c) (db_spans db))))))
   \<and> fst (ensure_window (da_ensure (a 3)) (da_today (a 3)) (past_days c) (future_days c) (db_points db)) = None
   \<and> db_points db' = snd (purge_old (da_purge (a 7)) points_table (da_today (a 7)) (retention_days c)
       (snd (drain (da_drain (a 3)) points_table (snd (ensure_window (da_ensure (a 3)) (da_today (a 3)) (past_days c) (future_days c) (db_points db))))))"
  using assms unfolding prepare_database_def Let_def and_then_Inr_iff ensure_or_stop_Inr
  by (auto simp: window_defs drain_defs purge_defs split_beta simp del: One_nat_def)

text \<open>C22. A service that starts outside of development verifies tokens and does not open its routes to every origin, and
  whatever record its limits accept on the day it starts finds the partition of its day in the table of
  its kind, as long as that day is within the retention.\<close>
theorem started_service_is_ready:
  assumes "start_service su t0 db = Inr sv" and "\<And>i. da_today (su_answers su i) = utc_day now"
    and "\<not> out_of_skew (cfg_limits (sv_config sv)) now t" "utc_day now - retention_days (sv_config sv) \<le> utc_day t"
  shows "(su_dev su \<or> cfg_cors (sv_config sv) \<noteq> CorsAny \<and> token_enabled (cfg_token (sv_config sv)))
     \<and> utc_day t \<in> set (pt_days (db_events (sv_database sv))) \<inter> set (pt_days (db_logs (sv_database sv)))
         \<inter> set (pt_days (db_spans (sv_database sv))) \<inter> set (pt_days (db_points (sv_database sv)))"
proof -
  let ?c = "sv_config sv"
  have g: "enforce_runtime_guards (su_dev su) ?c = Inr ()"
    and p: "prepare_database ?c (su_answers su) db = Inr (sv_database sv)"
    using assms(1) by (auto simp: start_service_def Let_def split: if_splits)
  have today: "da_today (su_answers su i) = utc_day now" for i by (rule assms(2))
  note d = accepted_day_in_window [OF assms(3)]
  note w = window_survives [OF _ d assms(4)]
  from prepared_tables [OF p, unfolded today] have
    "utc_day t \<in> set (pt_days (db_events (sv_database sv)))" "utc_day t \<in> set (pt_days (db_logs (sv_database sv)))"
    "utc_day t \<in> set (pt_days (db_spans (sv_database sv)))" "utc_day t \<in> set (pt_days (db_points (sv_database sv)))"
    by (simp_all add: w)
  with g show ?thesis by (auto simp: enforce_runtime_guards_def split: if_splits)
qed

text \<open>A project's alerting is left out only when none of its rules would reach anyone.\<close>

lemma build_per_rule_no_actions:
  "\<forall>r\<in>set rs. ru_actions (rule_data r) = [] \<Longrightarrow> build_per_rule email_new st rs m = m"
  by (induction rs arbitrary: m) auto

text \<open>A project is left without alerting only when none of its rules would reach anyone, and the companion monitor
  runs, with at least one channel, exactly when companions are expected and a global channel is complete.\<close>
theorem alerting_left_out_only_if_mute:
  "(spawn_project_alerting email_new p = None \<and> r \<in> set (pj_rules p) \<longrightarrow>
      for_rule (dispatcher_build email_new (pj_rules p) st (project_default email_new p)) r = [])
   \<and> (spawn_companion_monitor email_new c m \<noteq> None \<longleftrightarrow> mo_expected m \<noteq> [] \<and> global_notifiers email_new (cfg_alerting c) \<noteq> [])
   \<and> (slack_bot_token (cfg_alerting c) \<noteq> None \<and> slack_channel (cfg_alerting c) \<noteq> None
        \<longrightarrow> global_notifiers email_new (cfg_alerting c) \<noteq> [])"
  by (auto simp: spawn_project_alerting_def Let_def for_rule_def dispatcher_build_def project_default_def
      build_per_rule_no_actions spawn_companion_monitor_def global_notifiers_def split: if_splits option.splits)


subsection \<open>No day is skipped\<close>

text \<open>A tick over two tables that do not change while it lasts.\<close>

definition table_tick ::
    "(json \<Rightarrow> string) \<Rightarrow> datetime \<times> stored_event list \<times> stored_log list \<Rightarrow> export_tick" where
  "table_tick ser = (\<lambda>(now, evs, lgs).
     \<lparr>et_now = now, et_upload_ok = True,
      et_events = (\<lambda>d. page (map (event_export_of ser) (events_of_day d evs))),
      et_logs = (\<lambda>d. page (map (log_export_of ser) (logs_of_day d lgs)))\<rparr>)"

fun table_name :: "export_table \<Rightarrow> string" where
  "table_name ExpEvents = ''events''"
| "table_name ExpLogs = ''logs''"

definition object_path :: "('p, 'o) export_env \<Rightarrow> string option \<Rightarrow> int \<times> export_table \<Rightarrow> 'p" where
  "object_path xv pre = (\<lambda>(d, t). xv_path xv (hive_path pre (table_name t) (xv_show_date xv d) 0))"

definition day_object ::
    "('p, 'o) export_env \<Rightarrow> (json \<Rightarrow> string) \<Rightarrow> datetime \<times> stored_event list \<times> stored_log list \<Rightarrow> int \<times> export_table \<Rightarrow> 'o" where
  "day_object xv ser = (\<lambda>(now, evs, lgs) (d, t).
     case t of
       ExpEvents \<Rightarrow> xv_encode xv events_schema (map (\<lambda>rows. projr (events_to_record_batch events_schema rows))
                      (pages (map (event_export_of ser) (events_of_day d evs))))
     | ExpLogs \<Rightarrow> xv_encode xv logs_schema (map (\<lambda>rows. projr (logs_to_record_batch logs_schema rows))
                    (pages (map (log_export_of ser) (logs_of_day d lgs)))))"

lemma export_one:
  assumes "is_ok (validate_prefix pre)" "xv_upload_ok xv"
  shows "\<exists>n. (case snd job of
            ExpEvents \<Rightarrow> Exporter.export_events xv (et_events (table_tick ser w) (fst job)) (fst job) pre store
          | ExpLogs \<Rightarrow> Exporter.export_logs xv (et_logs (table_tick ser w) (fst job)) (fst job) pre store)
       = Some (Inr n, al_put (object_path xv pre job) (day_object xv ser w job) store)"
proof -
  obtain now evs lgs where w: "w = (now, evs, lgs)" by (cases w)
  obtain d t where job: "job = (d, t)" by fastforce
  have ev: "events_to_record_batch events_schema rows = Inr (projr (events_to_record_batch events_schema rows))" for rows
    using events_batch_ok [of rows] by auto
  have lg: "logs_to_record_batch logs_schema rows = Inr (projr (logs_to_record_batch logs_schema rows))" for rows
    using logs_batch_ok [of rows] by auto
  note loops = export_loop_over_pages [where off = 0 and written = "[]" and ?n0.0 = 0, OF ev]
    export_loop_over_pages [where off = 0 and written = "[]" and ?n0.0 = 0, OF lg]
  show ?thesis
    using assms by (cases t) (auto simp: w job table_tick_def Exporter.export_events_def Exporter.export_logs_def export_day_def
        loops is_ok_iff object_path_def day_object_def)
qed

lemma run_jobs_result:
  assumes "is_ok (validate_prefix pre)" "xv_upload_ok xv"
  shows "run_jobs xv (table_tick ser w) pre jobs store =
           Some (fold (\<lambda>job. al_put (object_path xv pre job) (day_object xv ser w job)) jobs store)"
proof (induction jobs arbitrary: store)
  case (Cons job jobs)
  obtain d t where job: "job = (d, t)" by fastforce
  from export_one [OF assms, where job = "(d, t)" and ser = ser and w = w and store = store, unfolded fst_conv snd_conv]
  show ?case using Cons by (elim exE) (simp add: job)
qed simp

lemma fold_puts_get:
  assumes "inj f"
  shows "al_get (fold (\<lambda>j. al_put (f j) (g j)) js store) (f j) = (if j \<in> set js then Some (g j) else al_get store (f j))"
  using assms by (induction js arbitrary: store) (auto simp: store_simps inj_eq)

definition covers :: "export_table list \<Rightarrow> int \<times> export_table \<Rightarrow> datetime \<times> stored_event list \<times> stored_log list \<Rightarrow> bool" where
  "covers tables job w \<longleftrightarrow> snd job \<in> set tables \<and> fst job \<in> {utc_day (fst w) - 2, utc_day (fst w) - 1}"

lemma tick_jobs_iff: "job \<in> set (tick_jobs (fst w) tables) \<longleftrightarrow> covers tables job w"
  using utc_day_shift [of "fst w" "-1"] utc_day_shift [of "fst w" "-2"]
  by (cases job) (auto simp: tick_jobs_def covers_def)

lemma find_snoc: "find P (xs @ [x]) = (case find P xs of Some y \<Rightarrow> Some y | None \<Rightarrow> if P x then Some x else None)"
  by (induction xs) auto

lemma run_ticks_result:
  assumes "is_ok (validate_prefix (ex_prefix ex))" "inj (object_path xv (ex_prefix ex))"
  shows "\<exists>final. run_ticks xv ex (map (table_tick ser) ws) store = Some final \<and>
     (\<forall>job. al_get final (object_path xv (ex_prefix ex) job) =
        (case find (covers (ex_tables ex) job) (rev ws) of
           Some w \<Rightarrow> Some (day_object xv ser w job)
         | None \<Rightarrow> al_get store (object_path xv (ex_prefix ex) job)))"
proof (induction ws arbitrary: store)
  case (Cons w ws)
  let ?pre = "ex_prefix ex" and ?xv = "xv\<lparr>xv_upload_ok := True\<rparr>"
  have same: "object_path ?xv ?pre = object_path xv ?pre" "day_object ?xv ser = day_object xv ser"
    by (auto simp: object_path_def day_object_def fun_eq_iff split: export_table.splits)
  define mid where "mid = fold (\<lambda>job. al_put (object_path xv ?pre job) (day_object xv ser w job))
      (tick_jobs (fst w) (ex_tables ex)) store"
  have jobs: "run_jobs ?xv (table_tick ser w) ?pre (tick_jobs (fst w) (ex_tables ex)) store = Some mid"
    using run_jobs_result [OF assms(1), of ?xv ser w "tick_jobs (fst w) (ex_tables ex)" store]
    by (simp add: same mid_def)
  have mid: "al_get mid (object_path xv ?pre job) =
      (if covers (ex_tables ex) job w then Some (day_object xv ser w job) else al_get store (object_path xv ?pre job))" for job
    unfolding mid_def fold_puts_get [OF assms(2)] tick_jobs_iff ..
  have tick: "et_now (table_tick ser w) = fst w" "et_upload_ok (table_tick ser w)"
    by (auto simp: table_tick_def split: prod.split)
  from Cons.IH [of mid] obtain final where r: "run_ticks xv ex (map (table_tick ser) ws) mid = Some final"
    and f: "\<And>job. al_get final (object_path xv ?pre job) =
        (case find (covers (ex_tables ex) job) (rev ws) of
           Some w \<Rightarrow> Some (day_object xv ser w job) | None \<Rightarrow> al_get mid (object_path xv ?pre job))" by blast
  have "run_ticks xv ex (map (table_tick ser) (w # ws)) store = Some final" by (simp add: jobs tick r)
  moreover have "al_get final (object_path xv ?pre job) =
        (case find (covers (ex_tables ex) job) (rev (w # ws)) of
           Some w \<Rightarrow> Some (day_object xv ser w job) | None \<Rightarrow> al_get store (object_path xv ?pre job))" for job
    unfolding f mid rev.simps find_snoc by (cases "find (covers (ex_tables ex) job) (rev ws)") simp_all
  ultimately show ?case by blast
qed simp

definition sample_xv :: "(string, nat) export_env" where
  "sample_xv = \<lparr>xv_show_date = show_int, xv_path = id, xv_encode = (\<lambda>_ bs. length bs), xv_upload_ok = True\<rparr>"


lemma find_in: "find P xs = Some x \<Longrightarrow> x \<in> set xs \<and> P x"
  by (induction xs) (auto split: if_splits)

lemma gapless_cover:
  assumes "ws \<noteq> []" "successively (\<lambda>v w. utc_day (fst w) \<le> utc_day (fst v) + 2) ws"
    and "utc_day (fst (hd ws)) - 2 \<le> d" "d < utc_day (fst (last ws))"
  shows "\<exists>w\<in>set ws. d \<in> {utc_day (fst w) - 2, utc_day (fst w) - 1}"
  using assms
proof (induction ws)
  case (Cons w ws)
  show ?case
  proof (cases "d < utc_day (fst w)")
    case True
    then have "d \<in> {utc_day (fst w) - 2, utc_day (fst w) - 1}" using Cons.prems(3) by simp presburger
    then show ?thesis by simp
  next
    case False
    then have ne: "ws \<noteq> []" using Cons.prems(4) by auto
    then have s: "utc_day (fst (hd ws)) \<le> utc_day (fst w) + 2"
        "successively (\<lambda>v w. utc_day (fst w) \<le> utc_day (fst v) + 2) ws"
      using Cons.prems(2) by (auto simp: successively_Cons)
    then show ?thesis using Cons.IH [OF ne s(2)] False Cons.prems(4) ne by fastforce
  qed
qed simp


text \<open>What is stored for a day after its two exports never reaches the object store.\<close>

lemma late_rows_not_exported:
  assumes "is_ok (validate_prefix (ex_prefix ex))" "inj (object_path xv (ex_prefix ex))"
    and "\<forall>w\<in>set ws. d + 2 < utc_day (fst w)"
  shows "\<exists>final. run_ticks xv ex (map (table_tick ser) ws) store = Some final \<and>
     al_get final (object_path xv (ex_prefix ex) (d, table)) = al_get store (object_path xv (ex_prefix ex) (d, table))"
proof -
  have "find (covers (ex_tables ex) (d, table)) (rev ws) = None"
    using assms(3) by (auto simp: find_None_iff covers_def)
  then show ?thesis using run_ticks_result [OF assms(1,2), of ser ws store] by fastforce
qed

lemma show_int_no_slash: "CHR ''/'' \<notin> set (show_int d)"
proof -
  have "CHR ''/'' \<notin> set (show_nat n)" for n using show_nat_digits [of "CHR ''/''" n] by auto
  then show ?thesis by (simp add: show_int_def)
qed

lemma show_nat_inj: "show_nat m = show_nat n \<Longrightarrow> m = n"
proof -
  assume "show_nat m = show_nat n"
  then have "digits_val 0 (show_nat m) = digits_val 0 (show_nat n)" by (rule arg_cong)
  then show ?thesis by (simp only: digits_val_show_nat option.inject)
qed

lemma show_int_sign: "CHR ''-'' \<in> set (show_int a) \<longleftrightarrow> a < 0"
proof -
  have "CHR ''-'' \<notin> set (show_nat n)" for n using show_nat_digits [of "CHR ''-''" n] by auto
  then show ?thesis by (simp add: show_int_def)
qed

lemma show_int_inj: "show_int a = show_int b \<Longrightarrow> a = b"
proof -
  assume e: "show_int a = show_int b"
  then have "a < 0 \<longleftrightarrow> b < 0" using show_int_sign [of a] show_int_sign [of b] by simp
  with e show ?thesis by (cases "a < 0") (auto simp: show_int_def dest!: show_nat_inj)
qed

lemma sample_paths_inj: "inj (object_path sample_xv None)"
proof (rule injI)
  fix j j' :: "int \<times> export_table"
  obtain d t d' t' where j: "j = (d, t)" "j' = (d', t')" by (cases j, cases j')
  have seg: "split_on (CHR ''/'') (object_path sample_xv None (e, u)) = [table_name u, ''date='' @ show_int e, ''part-0000.parquet'']" for e u
    using hive_segments [of "table_name u" "show_int e"] show_int_no_slash [of e]
    by (cases u) (simp_all add: object_path_def sample_xv_def hive_path_def)
  assume "object_path sample_xv None j = object_path sample_xv None j'"
  then have "table_name t = table_name t'" "show_int d = show_int d'" using seg [of d t] seg [of d' t'] by (auto simp: j)
  then show "j = j'" using show_int_inj by (cases t; cases t') (auto simp: j)
qed

definition sample_export_settings :: export_settings where
  "sample_export_settings =
     \<lparr>ex_schedule = secs 86400, ex_bucket = ''cold'', ex_prefix = None, ex_region = ''eu-west-1'', ex_endpoint = None,
      ex_access_key_id = Some ''k'', ex_secret_access_key = Some ''z'', ex_allow_http = False, ex_tables = [ExpEvents, ExpLogs]\<rparr>"



definition sample_service_config :: config where
  "sample_service_config = demo_service\<lparr>cfg_token := (cfg_token demo_service)\<lparr>token_enabled := True\<rparr>\<rparr>"

definition sample_su :: "(nat, string) surroundings" where
  "sample_su = \<lparr>su_dev = False, su_export_feature = True,
     su_loaded = Inr \<lparr>st_config = sample_service_config, st_projects = [], st_export = None,
       st_companions = \<lparr>mo_check_interval = secs 60, mo_expected = []\<rparr>\<rparr>,
     su_connects = (\<lambda>u. u = ''postgres://db''), su_migrates = True,
     su_answers = (\<lambda>_. \<lparr>da_today = 19000, da_ensure = (\<lambda>_. True), da_drain = (True, True), da_purge = True\<rparr>),
     su_verifier = (\<lambda>tc. Inr \<lparr>tv_enabled = token_enabled tc, tv_algorithms = algorithms tc, tv_issuer = None,
       tv_audience = None, tv_leeway = 60, tv_keys = [], tv_jwks = None\<rparr>),
     su_binds = (\<lambda>_. True), su_email_new = (\<lambda>_. Inl BadRelay)\<rparr>"

lemma ensure_window_reached: "fst (ensure_window (\<lambda>_. True) today p f t) = None"
proof -
  have "fst (ensure_days (\<lambda>_. True) ds t) = None" for ds by (induction ds arbitrary: t) simp_all
  then show ?thesis by (simp add: ensure_window_def)
qed

lemma prepare_database_reached:
  assumes "\<And>i. da_ensure (a i) = (\<lambda>_. True)"
  shows "\<exists>db'. prepare_database c a db = Inr db'"
  unfolding prepare_database_def Let_def and_then_Inr_iff ensure_or_stop_Inr
  by (auto simp: window_defs assms split_beta ensure_window_reached)

lemma started_service_is_ready_witness:
  "\<exists>sv. start_service sample_su 0 database_new = Inr sv
     \<and> token_enabled (cfg_token (sv_config sv)) \<and> 18999 \<in> set (pt_days (db_logs (sv_database sv)))"
proof -
  have s: "start_service sample_su 0 database_new = Inr (projr (start_service sample_su 0 database_new))"
  proof -
    obtain db' where "prepare_database sample_service_config (su_answers sample_su) database_new = Inr db'"
      using prepare_database_reached [of "su_answers sample_su"] by (auto simp: sample_su_def)
    then show ?thesis
      by (simp add: start_service_def sample_su_def sample_service_config_def demo_service_def bind_to_def
          enforce_runtime_guards_def Let_def)
  qed
  have c: "sv_config (projr (start_service sample_su 0 database_new)) = sample_service_config"
  proof -
    have "\<And>sv. start_service sample_su 0 database_new = Inr sv \<Longrightarrow> sv_config sv = sample_service_config"
      by (auto simp: start_service_def sample_su_def Let_def split: if_splits)
    then show ?thesis using s .
  qed
  have a: "da_today (su_answers sample_su i) = utc_day (day_ns * 19000)" for i
    by (simp add: sample_su_def utc_day_def day_ns_def)
  have "\<not> out_of_skew (cfg_limits sample_service_config) (day_ns * 19000) (day_ns * 19000 - 7)"
    by (simp add: out_of_skew_def past_limit_def future_limit_def sample_service_config_def demo_service_def)
  moreover have "utc_day (day_ns * 19000) - retention_days sample_service_config \<le> utc_day (day_ns * 19000 - 7)"
    by (simp add: utc_day_def day_ns_def sample_service_config_def demo_service_def)
  moreover have "utc_day (day_ns * 19000 - 7) = 18999" by (simp add: utc_day_def day_ns_def)
  ultimately show ?thesis
    using started_service_is_ready [OF s a, unfolded c, of "day_ns * 19000 - 7"] s c
    by (auto simp: sample_su_def)
qed

end
