(* ===== verification/Recovery.thy ===== *)
theory Recovery
  imports Outage Startup
begin

text \<open>
  The service over several lives. A life ends when its process does, whatever was under way: the channels and
  the buffers of the batchers are gone, the database stays as it was, with what a flush has left in the
  staging tables. The next one starts with the preparation of the database of \<^verbatim>\<open>backend/src/main.rs\<close>. A
  process that ends in the middle of a flush is a flush that fails there and is not cleaned, followed by
  the end.
\<close>

subsection \<open>The preparation of a table\<close>

definition restarted :: "('r, 'k) table_kind \<Rightarrow> config \<Rightarrow> db_answers \<Rightarrow> db_answers \<Rightarrow> 'r part_table \<Rightarrow> 'r part_table" where
  "restarted k c a p t =
     table_step k
       (table_step k
         (table_step k t (EnsureWindow (da_ensure a) (da_today a) (past_days c) (future_days c)))
         (DrainOp (da_drain a)))
       (Purge (da_purge p) (da_today p) (retention_days c))"

lemma prepared_restarted:
  assumes "prepare_database c a db = Inr db'"
  shows "db_events db' = restarted events_table c (a 0) (a 4) (db_events db)"
    "db_logs db' = restarted logs_table c (a 1) (a 5) (db_logs db)"
    "db_spans db' = restarted spans_table c (a 2) (a 6) (db_spans db)"
    "db_points db' = restarted points_table c (a 3) (a 7) (db_points db)"
  using prepared_tables [OF assms] by (simp_all only: restarted_def table_step.simps)

text \<open>A drain writes what waits, however far it gets.\<close>

lemma drain_accounts:
  fixes reach :: "bool \<times> bool"
  assumes "accounts k day0 B R lost t"
  defines "t' \<equiv> table_step k t (DrainOp reach)"
  shows "accounts k day0 B R lost t'
    \<and> (reach = (True, True) \<longrightarrow> pt_staging t' = []
        \<and> (lost = batch # rest \<longrightarrow> set batch \<subseteq> set (pt_staging t) \<longrightarrow> accounts k day0 B R rest t'))"
proof -
  define t1 where "t1 = partitions_for_staging k t"
  have a1: "accounts k day0 B R lost t1" unfolding t1_def by (rule partitions_accounts [OF assms(1)])
  have stage: "pt_staging t1 = pt_staging t" "tk_day k ` set (pt_staging t1) \<subseteq> set (pt_days t1)"
    using partitions_for_staging_result [of k t] by (simp_all add: t1_def)
  have "table_ok k t1" using a1 by (simp add: accounts_def)
  from merge_table_result [OF this stage(2)] obtain n t2 where m: "merge_table k t1 = Some (n, t2)" by blast
  have t': "t' = (if fst reach then if snd reach then t2 else t1 else t)"
    by (simp add: t'_def drain_def t1_def [symmetric] m Let_def)
  show ?thesis
    using merge_accounts [OF m a1, of batch rest] a1 assms(1) by (auto simp: t' stage(1))
qed

lemma restarted_accounts:
  assumes "accounts k day0 B R lost t" and "same_day k" and "da_today p - retention_days c \<le> day0"
  shows "accounts k day0 B R lost (restarted k c a p t)
    \<and> (da_drain a = (True, True) \<longrightarrow> pt_staging (restarted k c a p t) = []
        \<and> (lost = batch # rest \<longrightarrow> set batch \<subseteq> set (pt_staging t) \<longrightarrow> accounts k day0 B R rest (restarted k c a p t)))"
proof -
  let ?w = "KeepWindow (da_ensure a) (da_today a) (past_days c) (future_days c)"
  let ?p = "KeepRetention (da_purge p) (da_today p) (retention_days c)"
  define t1 where "t1 = table_step k t (upkeep_op ?w)"
  define t2 where "t2 = table_step k t1 (DrainOp (da_drain a))"
  have t: "restarted k c a p t = table_step k t2 (upkeep_op ?p)"
    by (simp only: restarted_def t1_def t2_def upkeep_op.simps)
  have w: "purges_before day0 [?w]" "purges_before day0 [?p]" using assms(3) by (simp_all add: purges_before_def)
  have a1: "accounts k day0 B R lost t1" "pt_staging t1 = pt_staging t"
    unfolding t1_def using upkeep_step_accounts [OF assms(1,2) w(1)] by simp_all
  note drained = drain_accounts [OF a1(1), of "da_drain a" batch rest, folded t2_def, unfolded a1(2)]
  have purged: "accounts k day0 B R l (restarted k c a p t) \<and> pt_staging (restarted k c a p t) = pt_staging t2"
    if "accounts k day0 B R l t2" for l
    unfolding t by (rule upkeep_step_accounts [OF that assms(2) w(2)])
  show ?thesis using drained purged [of lost] purged [of rest] by auto
qed

text \<open>After a preparation that reaches the database, no record that was in a staging table is missing.\<close>

lemma restart_writes_the_staging:
  assumes "table_ok k t" and "same_day k" and "da_today p - retention_days c \<le> day0" and "da_drain a = (True, True)"
    and "r \<in> set (pt_rows t) \<union> set (pt_staging t)"
  shows "has_from k day0 (restarted k c a p t) r"
proof -
  have "accounts k day0 (set (pt_rows t)) (set (pt_staging t)) [pt_staging t] t"
    using assms(1) by (simp add: accounts_def has_from_def)
  from restarted_accounts [OF this assms(2,3), of a "pt_staging t" "[]"] assms(4,5)
  show ?thesis by (auto simp: accounts_def)
qed

subsection \<open>Lives\<close>

record life =
  li_start :: nanos
  li_ops :: "api_op list"
  li_weather :: weather
  li_pass :: pass

text \<open>Each of the four streams writes to its own table.\<close>

definition left_behind :: "(nat \<times> database) app_state \<Rightarrow> database" where
  "left_behind st =
     \<lparr>db_events = db_events (snd (ba_db (as_events st))), db_logs = db_logs (snd (ba_db (as_logs st))),
      db_spans = db_spans (snd (ba_db (as_spans st))), db_points = db_points (snd (ba_db (as_points st)))\<rparr>"

text \<open>The lives over a database, with the state each begins and ends with; the start after every one gets
  through.\<close>

type_synonym lived = "life \<times> (nat \<times> database) app_state \<times> (nat \<times> database) app_state"

fun lives :: "api_env \<Rightarrow> nat \<Rightarrow> life list \<Rightarrow> database \<Rightarrow> (lived list \<times> database) option" where
  "lives env bsize [] db = Some ([], db)"
| "lives env bsize (l # ls) db =
     (let st0 = app_state_new env (li_start l) (0, db);
          st = api_run env (faulty_postgres (li_weather l) bsize) (li_ops l) st0
      in case prepare_database (ae_cfg env) (li_pass l) (left_behind st) of
           Inl _ \<Rightarrow> None
         | Inr db' \<Rightarrow> map_option (\<lambda>(h, db''). ((l, st0, st) # h, db'')) (lives env bsize ls db'))"

text \<open>What the lives acknowledged on a stream, and the failures they counted.\<close>

definition lived_acks ::
    "((nat \<times> database) app_state \<Rightarrow> api_op \<Rightarrow> 'r list) \<Rightarrow> api_env \<Rightarrow> nat \<Rightarrow> lived list \<Rightarrow> 'r list" where
  "lived_acks ack env bsize h =
     concat (map (\<lambda>(l, st0, st). trace ack (api_step env (faulty_postgres (li_weather l) bsize)) (li_ops l) st0) h)"

definition lived_failures :: "((nat \<times> database) app_state \<Rightarrow> ('r, nat \<times> database) batcher) \<Rightarrow> lived list \<Rightarrow> nat" where
  "lived_failures part h = sum_list (map (\<lambda>(l, st0, st). flush_failures_total (ba_metrics (part st))) h)"

definition keeps_life :: "int \<Rightarrow> api_env \<Rightarrow> life \<Rightarrow> bool" where
  "keeps_life day0 env l \<longleftrightarrow> orderly (li_ops l) \<and> keeps_from day0 (li_weather l)
     \<and> (\<forall>i. da_today (li_pass l i) - retention_days (ae_cfg env) \<le> day0)"

text \<open>The table is accounted for with \<open>n\<close> batches of less than \<open>big\<close> records that failed, and with less than
  \<open>hold\<close> records in memory at each of \<open>m\<close> ends.\<close>

definition accounted ::
    "('r, 'k) table_kind \<Rightarrow> int \<Rightarrow> nat \<Rightarrow> nat \<Rightarrow> 'r set \<Rightarrow> 'r set \<Rightarrow> nat \<Rightarrow> nat \<Rightarrow> 'r part_table \<Rightarrow> bool" where
  "accounted k day0 big hold B R n m t \<longleftrightarrow>
     (\<exists>lost unwritten. accounts k day0 B R (unwritten @ lost) t
        \<and> length lost = n \<and> (\<forall>batch\<in>set lost. length batch < big)
        \<and> length unwritten = m \<and> (\<forall>batch\<in>set unwritten. length batch < hold))"

lemma accounts_same_lost:
  assumes "accounts k day0 B R lost t" and "set (concat lost) = set (concat lost')"
  shows "accounts k day0 B R lost' t"
  using assms(1) unfolding accounts_def assms(2) .

lemma accounted_more:
  assumes "accounts k day0 B R (last_held # new @ unwritten @ lost) t" and "length last_held < hold"
    and "\<forall>batch\<in>set (new @ lost). length batch < big" "\<forall>batch\<in>set unwritten. length batch < hold"
  shows "accounted k day0 big hold B R (length lost + length new) (Suc (length unwritten)) t"
proof -
  have "accounts k day0 B R ((last_held # unwritten) @ (new @ lost)) t"
    using assms(1) by (rule accounts_same_lost) auto
  then show ?thesis
    unfolding accounted_def using assms(2-4)
    by (intro exI [of _ "new @ lost"] exI [of _ "last_held # unwritten"]) auto
qed

lemma accounted_restarted:
  "accounted k day0 big hold B R n m t \<Longrightarrow> same_day k \<Longrightarrow> da_today p - retention_days c \<le> day0 \<Longrightarrow>
     accounted k day0 big hold B R n m (restarted k c a p t)"
  unfolding accounted_def
  by (elim exE conjE, intro exI conjI) (rule conjunct1 [OF restarted_accounts], assumption+)

context outlasting_part begin

lemma life_accounted:
  assumes "accounted kind day0 (max 1 bsize + mx) (cap * mx + max 1 bsize) B R n m (tab d)"
    and "quiet_after_shutdown (trace ev mstep ops st0)" and "part st0 = spawn_batcher cap (0, d)"
    and "\<And>i. purges_before day0 (wa_before (answers i) @ wa_between (answers i))"
    and "\<And>st op x. Enqueue x \<in> set (ev st op) \<Longrightarrow> length x \<le> mx"
  defines "b \<equiv> part (fold mstep ops st0)"
  shows "accounted kind day0 (max 1 bsize + mx) (cap * mx + max 1 bsize) B (R \<union> set (trace ack mstep ops st0))
    (n + flush_failures_total (ba_metrics b)) (Suc m) (tab (snd (ba_db b)))"
proof -
  from assms(1) obtain lost unwritten where u: "accounts kind day0 B R (unwritten @ lost) (tab d)"
      "n = length lost" "m = length unwritten" "\<forall>batch\<in>set lost. length batch < max 1 bsize + mx"
      "\<forall>batch\<in>set unwritten. length batch < cap * mx + max 1 bsize"
    unfolding accounted_def by blast
  obtain new where new: "accounts kind day0 B (R \<union> set (trace ack mstep ops st0)) (held b # new @ unwritten @ lost) (tab (snd (ba_db b)))"
      "length new = flush_failures_total (ba_metrics b)" "\<forall>batch\<in>set new. length batch < max 1 bsize + mx"
      "length (held b) < cap * mx + max 1 bsize"
    using crash_accounted [OF assms(2,3) u(1) assms(4)] assms(5) unfolding b_def by blast
  then show ?thesis
    using accounted_more [OF new(1,4), of "max 1 bsize + mx"] u by (simp add: ball_Un)
qed

end

text \<open>The four tables.\<close>

definition accounted_tables ::
    "int \<Rightarrow> api_env \<Rightarrow> nat \<Rightarrow> database \<Rightarrow> lived list \<Rightarrow> database \<Rightarrow> bool" where
  "accounted_tables day0 env bsize db0 h db \<longleftrightarrow>
     (let hold = (\<lambda>mx. channel_capacity (ae_cfg env) * mx + max 1 bsize);
          me = max_batch_events (ae_limits env);
          mr = max_logs_records (ae_cfg env)
      in accounted events_table day0 (max 1 bsize + me) (hold me) (set (pt_rows (db_events db0)))
           (set (lived_acks (acked_events env) env bsize h)) (lived_failures as_events h) (length h) (db_events db)
         \<and> accounted logs_table day0 (max 1 bsize + mr) (hold mr) (set (pt_rows (db_logs db0)))
           (set (lived_acks (acked_logs env) env bsize h)) (lived_failures as_logs h) (length h) (db_logs db)
         \<and> accounted spans_table day0 (max 1 bsize + mr) (hold mr) (set (pt_rows (db_spans db0)))
           (set (lived_acks (acked_spans env) env bsize h)) (lived_failures as_spans h) (length h) (db_spans db)
         \<and> accounted points_table day0 (max 1 bsize + mr) (hold mr) (set (pt_rows (db_points db0)))
           (set (lived_acks (acked_points env) env bsize h)) (lived_failures as_points h) (length h) (db_points db))"

lemma lived_snoc:
  "lived_acks ack env bsize (h @ [(l, st0, st)]) = lived_acks ack env bsize h
     @ trace ack (api_step env (faulty_postgres (li_weather l) bsize)) (li_ops l) st0"
  "lived_failures part (h @ [(l, st0, st)]) = lived_failures part h + flush_failures_total (ba_metrics (part st))"
  by (simp_all add: lived_acks_def lived_failures_def)

lemma life_accounted_tables:
  assumes "accounted_tables day0 env bsize db0 h db" and "keeps_life day0 env l"
    and "st0 = app_state_new env (li_start l) (0, db)"
    and "st = api_run env (faulty_postgres (li_weather l) bsize) (li_ops l) st0"
  shows "accounted_tables day0 env bsize db0 (h @ [(l, st0, st)]) (left_behind st)"
proof -
  let ?w = "li_weather l" and ?cap = "channel_capacity (ae_cfg env)"
  have init: "core (as_events st0) = spawn_batcher ?cap (0, db)" "core (as_logs st0) = spawn_batcher ?cap (0, db)"
    "core (as_spans st0) = spawn_batcher ?cap (0, db)" "core (as_points st0) = spawn_batcher ?cap (0, db)"
    by (simp_all add: assms(3) app_state_new_def)
  have size: "so_bsize (faulty_postgres ?w bsize) = bsize" by (simp add: faulty_postgres_def)
  have fails: "flush_failures_total (ba_metrics (core b)) = flush_failures_total (ba_metrics b)"
    for b :: "('x, 'y) batcher" by (simp add: core_def)
  have keeps: "purges_before day0 (wa_before (we_events ?w i) @ wa_between (we_events ?w i))"
    "purges_before day0 (wa_before (we_logs ?w i) @ wa_between (we_logs ?w i))"
    "purges_before day0 (wa_before (we_spans ?w i) @ wa_between (we_spans ?w i))"
    "purges_before day0 (wa_before (we_points ?w i) @ wa_between (we_points ?w i))" for i
    using assms(2) by (simp_all add: keeps_life_def keeps_from_def)
  have "orderly (li_ops l)" using assms(2) by (simp add: keeps_life_def)
  note quiet = streams_quiet [OF this]
  note before = assms(1) [unfolded accounted_tables_def Let_def]
  note defs = assms(4) api_run_def fails size
  show ?thesis
    unfolding accounted_tables_def Let_def lived_snoc length_append_singleton left_behind_def database.simps set_append
  proof (intro conjI)
    show "accounted events_table day0 (max 1 bsize + max_batch_events (ae_limits env))
        (?cap * max_batch_events (ae_limits env) + max 1 bsize) (set (pt_rows (db_events db0)))
        (set (lived_acks (acked_events env) env bsize h) \<union> set (trace (acked_events env) (api_step env (faulty_postgres ?w bsize)) (li_ops l) st0))
        (lived_failures as_events h + flush_failures_total (ba_metrics (as_events st))) (Suc (length h)) (db_events (snd (ba_db (as_events st))))"
      using events_outlast.life_accounted [where bsize = bsize and w = ?w and env = env and mx = "max_batch_events (ae_limits env)",
          unfolded size, OF _ quiet(1) init(1) keeps(1)] before
      by (simp add: defs ev_sizes(1))
  next
    show "accounted logs_table day0 (max 1 bsize + max_logs_records (ae_cfg env))
        (?cap * max_logs_records (ae_cfg env) + max 1 bsize) (set (pt_rows (db_logs db0)))
        (set (lived_acks (acked_logs env) env bsize h) \<union> set (trace (acked_logs env) (api_step env (faulty_postgres ?w bsize)) (li_ops l) st0))
        (lived_failures as_logs h + flush_failures_total (ba_metrics (as_logs st))) (Suc (length h)) (db_logs (snd (ba_db (as_logs st))))"
      using logs_outlast.life_accounted [where bsize = bsize and w = ?w and env = env and mx = "max_logs_records (ae_cfg env)",
          unfolded size, OF _ quiet(2) init(2) keeps(2)] before
      by (simp add: defs ev_sizes(2))
  next
    show "accounted spans_table day0 (max 1 bsize + max_logs_records (ae_cfg env))
        (?cap * max_logs_records (ae_cfg env) + max 1 bsize) (set (pt_rows (db_spans db0)))
        (set (lived_acks (acked_spans env) env bsize h) \<union> set (trace (acked_spans env) (api_step env (faulty_postgres ?w bsize)) (li_ops l) st0))
        (lived_failures as_spans h + flush_failures_total (ba_metrics (as_spans st))) (Suc (length h)) (db_spans (snd (ba_db (as_spans st))))"
      using spans_outlast.life_accounted [where bsize = bsize and w = ?w and env = env and mx = "max_logs_records (ae_cfg env)",
          unfolded size, OF _ quiet(3) init(3) keeps(3)] before
      by (simp add: defs ev_sizes(3))
  next
    show "accounted points_table day0 (max 1 bsize + max_logs_records (ae_cfg env))
        (?cap * max_logs_records (ae_cfg env) + max 1 bsize) (set (pt_rows (db_points db0)))
        (set (lived_acks (acked_points env) env bsize h) \<union> set (trace (acked_points env) (api_step env (faulty_postgres ?w bsize)) (li_ops l) st0))
        (lived_failures as_points h + flush_failures_total (ba_metrics (as_points st))) (Suc (length h)) (db_points (snd (ba_db (as_points st))))"
      using points_outlast.life_accounted [where bsize = bsize and w = ?w and env = env and mx = "max_logs_records (ae_cfg env)",
          unfolded size, OF _ quiet(4) init(4) keeps(4)] before
      by (simp add: defs ev_sizes(4))
  qed
qed

lemma restart_accounted_tables:
  assumes "accounted_tables day0 env bsize db0 h db" and "prepare_database (ae_cfg env) a db = Inr db'"
    and "\<And>i. da_today (a i) - retention_days (ae_cfg env) \<le> day0"
  shows "accounted_tables day0 env bsize db0 h db'"
  using assms(1) unfolding accounted_tables_def Let_def prepared_restarted [OF assms(2)]
  by (auto intro!: accounted_restarted tables_same_day assms(3))

lemma lives_accounted:
  "lives env bsize ls db = Some (h', db') \<Longrightarrow> list_all (keeps_life day0 env) ls \<Longrightarrow>
     accounted_tables day0 env bsize db0 h db \<Longrightarrow> accounted_tables day0 env bsize db0 (h @ h') db'"
proof (induction ls arbitrary: db h h')
  case (Cons l ls)
  define st0 where "st0 = app_state_new env (li_start l) (0 :: nat, db)"
  define st where "st = api_run env (faulty_postgres (li_weather l) bsize) (li_ops l) st0"
  obtain db1 h1 where p: "prepare_database (ae_cfg env) (li_pass l) (left_behind st) = Inr db1"
    and r: "lives env bsize ls db1 = Some (h1, db')" and h': "h' = (l, st0, st) # h1"
    using Cons.prems(1) by (auto simp: Let_def st0_def [symmetric] st_def [symmetric] split: sum.splits)
  have l: "keeps_life day0 env l" "list_all (keeps_life day0 env) ls" using Cons.prems(2) by simp_all
  then have "accounted_tables day0 env bsize db0 (h @ [(l, st0, st)]) db1"
    using restart_accounted_tables [OF life_accounted_tables [OF Cons.prems(3) l(1) st0_def st_def] p]
    by (simp add: keeps_life_def)
  from Cons.IH [OF r l(2) this] show ?case by (simp add: h')
qed simp

lemma accounted_ready: "table_ok k t \<Longrightarrow> pt_staging t = [] \<Longrightarrow> accounted k day0 big hold (set (pt_rows t)) {} 0 0 t"
  by (simp add: accounted_def accounts_def has_from_def)

lemma accounted_tables_ready: "database_ready db \<Longrightarrow> accounted_tables day0 env bsize db [] db"
  by (simp add: accounted_tables_def Let_def database_ready_def lived_acks_def lived_failures_def accounted_ready)

subsection \<open>Property\<close>


text \<open>Two lives with the same request, the first step of its batcher and a crash.\<close>

lemma lives_reached:
  assumes "\<And>l i. l \<in> set ls \<Longrightarrow> da_ensure (li_pass l i) = (\<lambda>_. True)"
  shows "\<exists>h db'. lives env bsize ls db = Some (h, db')"
  using assms
proof (induction ls arbitrary: db)
  case (Cons l ls)
  define st where "st = api_run env (faulty_postgres (li_weather l) bsize) (li_ops l) (app_state_new env (li_start l) (0 :: nat, db))"
  obtain db1 where "prepare_database (ae_cfg env) (li_pass l) (left_behind st) = Inr db1"
    using prepare_database_reached [of "li_pass l" "ae_cfg env" "left_behind st"] Cons.prems by auto
  then show ?case using Cons.IH [of db1] Cons.prems by (auto simp: Let_def st_def [symmetric])
qed simp

definition demo_life :: life where
  "demo_life = \<lparr>li_start = 0, li_ops = demo_ops, li_weather = demo_weather,
     li_pass = \<lambda>_. \<lparr>da_today = 100, da_ensure = \<lambda>_. True, da_drain = (True, False), da_purge = True\<rparr>\<rparr>"


end
