(* ===== verification/Interleave.thy ===== *)
theory Interleave
  imports Prelude
begin

text \<open>
  Programs that share a state. A handler of the service runs on many threads at once; each of its
  accesses to a lock, a concurrent map or a channel is one action, and between two of them the other
  threads may act. A program is the tree of its actions; a pool holds the programs in flight. The
  locale gives every program in flight a ledger, which its actions keep up to date, and keeps an
  invariant between the state and all the ledgers.
\<close>

subsection \<open>Programs\<close>

datatype ('s, 'a) prog = Ret 'a | Act "'s \<Rightarrow> 's \<times> ('s, 'a) prog"

primrec alone :: "('s, 'a) prog \<Rightarrow> 's \<Rightarrow> 'a \<times> 's" where
  "alone (Ret a) = (\<lambda>s. (a, s))"
| "alone (Act k) = (\<lambda>s. case map_prod id alone (k s) of (s', rest) \<Rightarrow> rest s')"

primrec seq :: "('s, 'a) prog \<Rightarrow> ('a \<Rightarrow> ('s, 'b) prog) \<Rightarrow> ('s, 'b) prog" where
  "seq (Ret a) = (\<lambda>f. f a)"
| "seq (Act k) = (\<lambda>f. Act (\<lambda>s. case map_prod id seq (k s) of (s', rest) \<Rightarrow> (s', rest f)))"

definition atomic :: "('s \<Rightarrow> 'a \<times> 's) \<Rightarrow> ('s, 'a) prog" where
  "atomic f = Act (\<lambda>s. let (a, s') = f s in (s', Ret a))"

text \<open>A program on a part of the state.\<close>

primrec focus :: "('s \<Rightarrow> 't) \<Rightarrow> ('t \<Rightarrow> 's \<Rightarrow> 's) \<Rightarrow> ('t, 'a) prog \<Rightarrow> ('s, 'a) prog" where
  "focus part update (Ret a) = Ret a"
| "focus part update (Act k) =
     Act (\<lambda>s. case map_prod id (focus part update) (k (part s)) of (t, rest) \<Rightarrow> (update t s, rest))"

lemma alone_Act [simp]: "alone (Act k) s = alone (snd (k s)) (fst (k s))"
  by (simp add: split_beta)

lemma seq_Act [simp]: "seq (Act k) f = Act (\<lambda>s. (fst (k s), seq (snd (k s)) f))"
  by (simp add: split_beta)

lemma focus_Act [simp]:
  "focus part update (Act k) = Act (\<lambda>s. (update (fst (k (part s))) s, focus part update (snd (k (part s)))))"
  by (simp add: split_beta)

declare alone.simps(2) [simp del] seq.simps(2) [simp del] focus.simps(2) [simp del]

lemma prog_acts [case_names Ret Act]:
  assumes "\<And>a. P (Ret a)" and "\<And>k. (\<And>s. P (snd (k s))) \<Longrightarrow> P (Act k)"
  shows "P p"
proof (induction p)
  case (Act k)
  then have "P (snd (k s))" for s by (simp add: prod_set_defs)
  then show ?case by (rule assms(2))
qed (rule assms(1))

lemma alone_seq [simp]: "alone (seq p f) s = (let (a, s') = alone p s in alone (f a) s')"
proof (induction p arbitrary: s rule: prog_acts)
  case (Act k)
  then show ?case by simp
qed simp

lemma alone_atomic [simp]: "alone (atomic f) s = f s"
  by (simp add: atomic_def split_beta)

locale part_of =
  fixes part :: "'s \<Rightarrow> 't" and update :: "'t \<Rightarrow> 's \<Rightarrow> 's"
  assumes part_update: "part (update t s) = t"
    and update_part: "update (part s) s = s"
    and update_update: "update t (update u s) = update t s"
begin

lemma alone_focus: "alone (focus part update p) s = (let (a, t) = alone p (part s) in (a, update t s))"
proof (induction p arbitrary: s rule: prog_acts)
  case (Ret a)
  then show ?case by (simp add: update_part)
next
  case (Act k)
  then show ?case by (simp add: part_update update_update split_beta)
qed

end

subsection \<open>Programs that keep a ledger\<close>

text \<open>
  \<open>obeys R p Q g\<close>: started with the ledger \<open>g\<close>, every action of \<open>p\<close>, whatever the state it finds, changes
  the state and the ledger as \<open>R\<close> allows, and the answer agrees with the last ledger as \<open>Q\<close> says.
\<close>

primrec obeys ::
    "('g \<Rightarrow> 'g \<Rightarrow> 's \<Rightarrow> 's \<Rightarrow> bool) \<Rightarrow> ('s, 'a) prog \<Rightarrow> ('a \<Rightarrow> 'g \<Rightarrow> bool) \<Rightarrow> 'g \<Rightarrow> bool" where
  "obeys R (Ret a) = (\<lambda>Q g. Q a g)"
| "obeys R (Act k) =
     (\<lambda>Q g. \<forall>s. case map_prod id (obeys R) (k s) of (s', rest) \<Rightarrow> \<exists>g'. R g g' s s' \<and> rest Q g')"

lemma obeys_Act [simp]: "obeys R (Act k) Q g \<longleftrightarrow> (\<forall>s. \<exists>g'. R g g' s (fst (k s)) \<and> obeys R (snd (k s)) Q g')"
  by (simp add: split_beta)

declare obeys.simps(2) [simp del]

lemma obeys_seq [simp]: "obeys R (seq p f) Q g \<longleftrightarrow> obeys R p (\<lambda>a. obeys R (f a) Q) g"
  by (induction p arbitrary: g rule: prog_acts) simp_all

lemma obeys_atomic [simp]:
  "obeys R (atomic f) Q g \<longleftrightarrow> (\<forall>s. \<exists>g'. R g g' s (snd (f s)) \<and> Q (fst (f s)) g')"
  by (simp add: atomic_def split_beta)

lemma obeys_mono: "obeys R p Q g \<Longrightarrow> (\<And>a h. Q a h \<Longrightarrow> Q' a h) \<Longrightarrow> obeys R p Q' g"
  by (induction p arbitrary: g rule: prog_acts) (simp, simp, blast)

lemma obeys_focus:
  assumes "obeys R p Q g" and "\<And>g g' s t. R g g' (part s) t \<Longrightarrow> R' g g' s (update t s)"
  shows "obeys R' (focus part update p) Q g"
  using assms(1) by (induction p arbitrary: g rule: prog_acts) (simp, simp, meson assms(2))

subsection \<open>Programs in flight\<close>

record ('o, 's, 'a) pool =
  pl_state :: 's
  pl_running :: "('o \<times> ('s, 'a) prog) list"
  pl_answered :: "('o \<times> 'a) list"

datatype 'o move = Arrive 'o | Advance nat

text \<open>A schedule is a list of moves: a request arrives, or a program in flight makes its next action,
  or gives its answer when it has none left.\<close>

fun pool_step :: "('o \<Rightarrow> ('s, 'a) prog) \<Rightarrow> 'o move \<Rightarrow> ('o, 's, 'a) pool \<Rightarrow> ('o, 's, 'a) pool" where
  "pool_step prog_of (Arrive op) c = c\<lparr>pl_running := pl_running c @ [(op, prog_of op)]\<rparr>"
| "pool_step prog_of (Advance i) c =
     (if i < length (pl_running c)
      then (case pl_running c ! i of
              (op, Ret a) \<Rightarrow>
                c\<lparr>pl_running := take i (pl_running c) @ drop (Suc i) (pl_running c),
                  pl_answered := pl_answered c @ [(op, a)]\<rparr>
            | (op, Act k) \<Rightarrow>
                (let (s, p) = k (pl_state c) in c\<lparr>pl_state := s, pl_running := (pl_running c)[i := (op, p)]\<rparr>))
      else c)"

definition pool_run :: "('o \<Rightarrow> ('s, 'a) prog) \<Rightarrow> 'o move list \<Rightarrow> ('o, 's, 'a) pool \<Rightarrow> ('o, 's, 'a) pool" where
  "pool_run prog_of ms c = fold (pool_step prog_of) ms c"

definition pool_start :: "'s \<Rightarrow> ('o, 's, 'a) pool" where
  "pool_start s = \<lparr>pl_state = s, pl_running = [], pl_answered = []\<rparr>"

text \<open>What an observer notes along a schedule, from the states before and after a move and the number of
  programs in flight after it.\<close>

fun noted ::
    "('o \<Rightarrow> ('s, 'a) prog) \<Rightarrow> (nat \<Rightarrow> 's \<Rightarrow> 's \<Rightarrow> 'm \<Rightarrow> 'm) \<Rightarrow> 'o move list \<Rightarrow> ('o, 's, 'a) pool \<Rightarrow> 'm \<Rightarrow> 'm" where
  "noted prog_of mark [] c m = m"
| "noted prog_of mark (mv # ms) c m =
     (let c' = pool_step prog_of mv c
      in noted prog_of mark ms c' (mark (length (pl_running c')) (pl_state c) (pl_state c') m))"

text \<open>A program that is not interrupted: it acts until it has answered.\<close>

lemma uninterrupted:
  "\<exists>ms. pool_run prog_of ms \<lparr>pl_state = s, pl_running = rs @ [(op, p)], pl_answered = as\<rparr>
     = \<lparr>pl_state = snd (alone p s), pl_running = rs, pl_answered = as @ [(op, fst (alone p s))]\<rparr>"
proof (induction p arbitrary: s rule: prog_acts)
  case (Ret a)
  show ?case by (rule exI [of _ "[Advance (length rs)]"]) (simp add: pool_run_def)
next
  case (Act k)
  obtain ms where "pool_run prog_of ms \<lparr>pl_state = fst (k s), pl_running = rs @ [(op, snd (k s))], pl_answered = as\<rparr>
      = \<lparr>pl_state = snd (alone (snd (k s)) (fst (k s))), pl_running = rs,
         pl_answered = as @ [(op, fst (alone (snd (k s)) (fst (k s))))]\<rparr>"
    using Act [of "fst (k s)" s] by blast
  then show ?case
    by (intro exI [of _ "Advance (length rs) # ms"]) (simp add: pool_run_def split_beta)
qed

subsection \<open>Interface: a discipline\<close>

locale discipline =
  fixes prog_of :: "'o \<Rightarrow> ('s, 'a) prog"
    and R :: "'g \<Rightarrow> 'g \<Rightarrow> 's \<Rightarrow> 's \<Rightarrow> bool"
    and Q :: "'o \<Rightarrow> 'a \<Rightarrow> 'g \<Rightarrow> bool"
    and g0 :: 'g
    and I :: "'m \<Rightarrow> 's \<Rightarrow> ('o \<times> 'a) list \<Rightarrow> 'g list \<Rightarrow> bool"
    and mark :: "nat \<Rightarrow> 's \<Rightarrow> 's \<Rightarrow> 'm \<Rightarrow> 'm"
  assumes start: "obeys R (prog_of op) (Q op) g0"
    and arrive: "I m s as gs \<Longrightarrow> I (mark (Suc (length gs)) s s m) s as (gs @ [g0])"
    and act: "I m s as (xs @ g # ys) \<Longrightarrow> R g g' s s' \<Longrightarrow>
      I (mark (Suc (length xs + length ys)) s s' m) s' as (xs @ g' # ys)"
    and leave: "I m s as (xs @ g # ys) \<Longrightarrow> Q op a g \<Longrightarrow>
      I (mark (length xs + length ys) s s m) s (as @ [(op, a)]) (xs @ ys)"
    and idle: "I m s as gs \<Longrightarrow> I (mark (length gs) s s m) s as gs"
begin

definition certified :: "('o, 's, 'a) pool \<Rightarrow> 'g list \<Rightarrow> bool" where
  "certified c gs \<longleftrightarrow> list_all2 (\<lambda>(op, p) g. obeys R p (Q op) g) (pl_running c) gs"

lemma step_keeps:
  fixes mv :: "'o move"
  assumes "I m (pl_state c) (pl_answered c) gs" and "certified c gs"
  defines "c' \<equiv> pool_step prog_of mv c"
  shows "\<exists>gs'. I (mark (length (pl_running c')) (pl_state c) (pl_state c') m) (pl_state c') (pl_answered c') gs'
    \<and> certified c' gs'"
proof -
  have len: "length gs = length (pl_running c)"
    using assms(2) by (simp add: certified_def list_all2_lengthD)
  show ?thesis
  proof (cases mv)
    case (Arrive op)
    with assms start [of op] arrive [OF assms(1)] len show ?thesis
      by (intro exI [of _ "gs @ [g0]"]) (simp add: certified_def list_all2_appendI)
  next
    case (Advance i)
    show ?thesis
    proof (cases "i < length (pl_running c)")
      case False
      with assms idle [OF assms(1)] len Advance show ?thesis by (intro exI [of _ gs]) simp
    next
      case True
      define xs where "xs = take i gs"
      define ys where "ys = drop (Suc i) gs"
      have gs: "gs = xs @ gs ! i # ys" and lens: "length xs = i" "Suc (i + length ys) = length (pl_running c)"
        using True len by (simp_all add: xs_def ys_def id_take_nth_drop)
      obtain op p where p: "pl_running c ! i = (op, p)" by fastforce
      have ob: "obeys R p (Q op) (gs ! i)"
        using assms(2) True p by (auto simp: certified_def dest!: list_all2_nthD)
      have rest: "list_all2 (\<lambda>(op, p) g. obeys R p (Q op) g) (take i (pl_running c)) xs"
        "list_all2 (\<lambda>(op, p) g. obeys R p (Q op) g) (drop (Suc i) (pl_running c)) ys"
        using assms(2) by (simp_all add: certified_def xs_def ys_def)
      show ?thesis
      proof (cases p)
        case (Ret a)
        with ob leave [of m "pl_state c" "pl_answered c" xs "gs ! i" ys op a] assms(1) gs
        have "I (mark (length xs + length ys) (pl_state c) (pl_state c) m) (pl_state c) (pl_answered c @ [(op, a)]) (xs @ ys)"
          by simp
        moreover have "length (pl_running c) - Suc 0 = length xs + length ys" using lens by simp
        ultimately show ?thesis using rest lens(1) True
          by (intro exI [of _ "xs @ ys"])
            (auto simp: c'_def Advance p Ret certified_def intro: list_all2_appendI)
      next
        case (Act k)
        obtain s' q where k: "k (pl_state c) = (s', q)" by fastforce
        from ob Act k obtain g' where g': "R (gs ! i) g' (pl_state c) s'" "obeys R q (Q op) g'"
          by (metis obeys_Act fst_conv snd_conv)
        from act [of m "pl_state c" "pl_answered c" xs "gs ! i" ys, OF _ g'(1)] assms(1) gs
        have "I (mark (Suc (length xs + length ys)) (pl_state c) s' m) s' (pl_answered c) (xs @ g' # ys)" by simp
        moreover have "(pl_running c)[i := (op, q)] = take i (pl_running c) @ (op, q) # drop (Suc i) (pl_running c)"
          using True by (rule upd_conv_take_nth_drop)
        moreover have "Suc (length (pl_running c) - Suc 0) = length (pl_running c)" using True by simp
        ultimately show ?thesis
          using rest lens g'(2) True
          by (intro exI [of _ "xs @ g' # ys"])
            (auto simp: c'_def Advance p Act k certified_def intro!: list_all2_appendI)
      qed
    qed
  qed
qed

lemma run_keeps:
  "I m (pl_state c) (pl_answered c) gs \<Longrightarrow> certified c gs \<Longrightarrow>
     \<exists>gs'. I (noted prog_of mark ms c m) (pl_state (pool_run prog_of ms c)) (pl_answered (pool_run prog_of ms c)) gs'
       \<and> length gs' = length (pl_running (pool_run prog_of ms c))"
proof (induction ms arbitrary: c m gs)
  case Nil
  then show ?case by (auto simp: pool_run_def certified_def list_all2_lengthD)
next
  case (Cons mv ms)
  obtain gs' where "I (mark (length (pl_running (pool_step prog_of mv c))) (pl_state c) (pl_state (pool_step prog_of mv c)) m)
      (pl_state (pool_step prog_of mv c)) (pl_answered (pool_step prog_of mv c)) gs'"
    "certified (pool_step prog_of mv c) gs'"
    using step_keeps [OF Cons.prems, of mv] by blast
  from Cons.IH [OF this] show ?case by (simp add: pool_run_def Let_def)
qed

lemma start_keeps:
  assumes "I m s [] []"
  shows "\<exists>gs. I (noted prog_of mark ms (pool_start s) m) (pl_state (pool_run prog_of ms (pool_start s)))
      (pl_answered (pool_run prog_of ms (pool_start s))) gs
    \<and> length gs = length (pl_running (pool_run prog_of ms (pool_start s)))"
  using run_keeps [of m "pool_start s" "[]" ms] assms by (simp add: pool_start_def certified_def)

end

end
