(* ===== verification/Concurrent.thy ===== *)
theory Concurrent
  imports Interleave Api
begin

text \<open>
  The handlers of the backend as programs that run side by side. Each access to a concurrent map, a
  lock or a channel is one action: the two looks that \<^verbatim>\<open>RateLimiter::check\<close> takes at a map before it
  enters a session, the bucket of the session under its lock, the global bucket under its own, the two
  accesses of \<^verbatim>\<open>is_banned\<close>, the send to a batcher. \<^verbatim>\<open>record_bad\<close> looks at
  its two maps, makes room in them and enters them in actions of their own. The purge of one map, or the
  choice of the entry to evict, is one action. Run without interruption each program is the handler of \<open>Api\<close>;
  interleaved, the limits hold up to what the model makes visible: the number of programs in flight,
  and how far the clock readings of the requests go back.
\<close>

subsection \<open>The limiter\<close>

definition session_take :: "nanos \<Rightarrow> string \<Rightarrow> real \<Rightarrow> rate_limiter \<Rightarrow> decision option \<times> rate_limiter" where
  "session_take now sid n rl =
     (let s = unwrap_or (session_entry (rl_cfg rl) now) (al_get (rl_sessions rl) sid);
          (r, b) = try_take n now (ss_bucket s);
          rl' = rl\<lparr>rl_sessions := al_put sid \<lparr>ss_bucket = b, ss_last_seen = now\<rparr> (rl_sessions rl)\<rparr>
      in case r of Inl wait \<Rightarrow> (Some (deny ''session'' wait), rl') | Inr _ \<Rightarrow> (None, rl'))"

definition session_check :: "nanos \<Rightarrow> string \<Rightarrow> real \<Rightarrow> (rate_limiter, decision option) prog" where
  "session_check now sid n =
     seq (atomic (\<lambda>rl. (al_get (rl_sessions rl) sid \<noteq> None, rl))) (\<lambda>known.
     seq (if known then Ret False
          else atomic (\<lambda>rl. (length (rl_sessions rl) \<ge> max_tracked_sessions (rl_cfg rl), rl))) (\<lambda>full.
     if full then Ret (Some (deny ''session'' 1)) else atomic (session_take now sid n)))"

definition ip_take :: "nanos \<Rightarrow> ip_addr \<Rightarrow> string \<Rightarrow> rate_limiter \<Rightarrow> decision option \<times> rate_limiter" where
  "ip_take now ip sid rl =
     (let w = unwrap_or \<lparr>iw_sessions = [], iw_last_seen = now\<rparr> (al_get (rl_ips rl) ip);
          (r, w') = ip_record sid now (ip_session_cap (rl_cfg rl)) (ip_session_window (rl_cfg rl)) w;
          rl' = rl\<lparr>rl_ips := al_put ip w' (rl_ips rl)\<rparr>
      in case r of Inl wait \<Rightarrow> (Some (deny ''ip_sessions'' wait), rl') | Inr _ \<Rightarrow> (None, rl'))"

definition ip_check :: "nanos \<Rightarrow> ip_addr \<Rightarrow> string \<Rightarrow> (rate_limiter, decision option) prog" where
  "ip_check now ip sid =
     (if is_unspecified ip then Ret None
      else
        seq (atomic (\<lambda>rl. (al_get (rl_ips rl) ip \<noteq> None, rl))) (\<lambda>known.
        seq (if known then Ret False
             else atomic (\<lambda>rl. (length (rl_ips rl) \<ge> max_tracked_ips (rl_cfg rl), rl))) (\<lambda>full.
        if full then Ret (Some (deny ''ip_sessions'' 1)) else atomic (ip_take now ip sid))))"

definition limiter_check :: "nanos \<Rightarrow> ip_addr \<Rightarrow> string \<Rightarrow> nat \<Rightarrow> (rate_limiter, decision) prog" where
  "limiter_check now ip sid k =
     seq (session_check now sid (real (max k 1))) (\<lambda>d. case d of
       Some d \<Rightarrow> Ret d
     | None \<Rightarrow> seq (ip_check now ip sid) (\<lambda>d. case d of
         Some d \<Rightarrow> Ret d
       | None \<Rightarrow> atomic (check_global now (real (max k 1)))))"

definition prune_sessions :: "nanos \<Rightarrow> rate_limiter \<Rightarrow> rate_limiter" where
  "prune_sessions now rl =
     rl\<lparr>rl_sessions := al_retain (\<lambda>_ s. now - ss_last_seen s < max (ip_session_window (rl_cfg rl)) (secs 300) * 2)
          (rl_sessions rl)\<rparr>"

definition prune_ips :: "nanos \<Rightarrow> rate_limiter \<Rightarrow> rate_limiter" where
  "prune_ips now rl =
     (let window = ip_session_window (rl_cfg rl);
          purge = (\<lambda>w. w\<lparr>iw_sessions := al_retain (\<lambda>_ seen. now - seen < window) (iw_sessions w)\<rparr>)
      in rl\<lparr>rl_ips := al_retain (\<lambda>_ w. iw_sessions w \<noteq> []) (map (\<lambda>(ip, w). (ip, purge w)) (rl_ips rl))\<rparr>)"

subsection \<open>The guard\<close>

definition change :: "('s \<Rightarrow> 's) \<Rightarrow> ('s, unit) prog" where
  "change f = atomic (\<lambda>s. ((), f s))"

definition banned_check :: "ip_addr \<Rightarrow> nanos \<Rightarrow> (anomaly_guard, bool) prog" where
  "banned_check ip now =
     (if is_unspecified ip then Ret False
      else
        seq (atomic (\<lambda>g. (al_get (ag_banned g) ip, g))) (\<lambda>ban. case ban of
          Some until \<Rightarrow>
            if until > now then Ret True
            else seq (atomic (\<lambda>g. ((), g\<lparr>ag_banned := al_del ip (ag_banned g)\<rparr>))) (\<lambda>_. Ret False)
        | None \<Rightarrow> Ret False))"

text \<open>The room for a window or for a ban: an expired entry, or else the one that expires first, makes place.\<close>

definition bad_room :: "ip_addr \<Rightarrow> nanos \<Rightarrow> (anomaly_guard, unit) prog" where
  "bad_room ip now =
     seq (atomic (\<lambda>g. (al_get (ag_bad g) ip \<noteq> None, g))) (\<lambda>known.
     seq (if known then Ret True
          else atomic (\<lambda>g. (length (ag_bad g) < anomaly_max_tracked_ips (ag_cfg g), g))) (\<lambda>room.
     if room then Ret ()
     else
       seq (change (\<lambda>g. g\<lparr>ag_bad := al_retain (\<lambda>_ w. now - bw_start w < bad_window (ag_cfg g)) (ag_bad g)\<rparr>)) (\<lambda>_.
       seq (atomic (\<lambda>g. (length (ag_bad g) < anomaly_max_tracked_ips (ag_cfg g), g))) (\<lambda>room.
       if room then Ret ()
       else
         seq (atomic (\<lambda>g. (min_by_key (\<lambda>(_, w). bw_start w) (ag_bad g), g))) (\<lambda>oldest. case oldest of
           Some (k, _) \<Rightarrow> change (\<lambda>g. g\<lparr>ag_bad := al_del k (ag_bad g)\<rparr>)
         | None \<Rightarrow> Ret ())))))"

definition banned_room :: "nanos \<Rightarrow> (anomaly_guard, unit) prog" where
  "banned_room now =
     seq (atomic (\<lambda>g. (length (ag_banned g) < anomaly_max_tracked_ips (ag_cfg g), g))) (\<lambda>room.
     if room then Ret ()
     else
       seq (change (\<lambda>g. g\<lparr>ag_banned := al_retain (\<lambda>_ until. until > now) (ag_banned g)\<rparr>)) (\<lambda>_.
       seq (atomic (\<lambda>g. (length (ag_banned g) < anomaly_max_tracked_ips (ag_cfg g), g))) (\<lambda>room.
       if room then Ret ()
       else
         seq (atomic (\<lambda>g. (min_by_key snd (ag_banned g), g))) (\<lambda>soonest. case soonest of
           Some (k, _) \<Rightarrow> change (\<lambda>g. g\<lparr>ag_banned := al_del k (ag_banned g)\<rparr>)
         | None \<Rightarrow> Ret ()))))"

text \<open>The window is counted under its lock; the answer says whether it reached the threshold.\<close>

definition bad_counted :: "ip_addr \<Rightarrow> nanos \<Rightarrow> anomaly_guard \<Rightarrow> bool \<times> anomaly_guard" where
  "bad_counted ip now g =
     (let w0 = unwrap_or \<lparr>bw_count = 0, bw_start = now\<rparr> (al_get (ag_bad g) ip);
          (ban, w) = count_bad (ag_cfg g) now w0
      in (ban, g\<lparr>ag_bad := al_put ip w (ag_bad g)\<rparr>))"

definition bad_request :: "ip_addr \<Rightarrow> nanos \<Rightarrow> (anomaly_guard, unit) prog" where
  "bad_request ip now =
     (if is_unspecified ip then Ret ()
      else
        seq (bad_room ip now) (\<lambda>_.
        seq (atomic (bad_counted ip now)) (\<lambda>ban.
        if ban
        then seq (banned_room now) (\<lambda>_.
             change (\<lambda>g. g\<lparr>ag_banned := al_put ip (now + ban_duration (ag_cfg g)) (ag_banned g)\<rparr>))
        else Ret ())))"

definition prune_banned :: "nanos \<Rightarrow> anomaly_guard \<Rightarrow> anomaly_guard" where
  "prune_banned now g = g\<lparr>ag_banned := al_retain (\<lambda>_ until. until > now) (ag_banned g)\<rparr>"

definition prune_bad :: "nanos \<Rightarrow> anomaly_guard \<Rightarrow> anomaly_guard" where
  "prune_bad now g = g\<lparr>ag_bad := al_retain (\<lambda>_ w. now - bw_start w < bad_window (ag_cfg g) * 2) (ag_bad g)\<rparr>"

subsection \<open>The handlers\<close>

definition on_limiter :: "(rate_limiter, 'a) prog \<Rightarrow> ('db app_state, 'a) prog" where
  "on_limiter = focus as_limiter (\<lambda>rl st. st\<lparr>as_limiter := rl\<rparr>)"

definition on_anomaly :: "(anomaly_guard, 'a) prog \<Rightarrow> ('db app_state, 'a) prog" where
  "on_anomaly = focus as_anomaly (\<lambda>g st. st\<lparr>as_anomaly := g\<rparr>)"

text \<open>An error answered after the request was held against its address.\<close>

definition refuse :: "ip_addr \<Rightarrow> nanos \<Rightarrow> app_error \<Rightarrow> ('db app_state, app_error + nat) prog" where
  "refuse ip now e = seq (on_anomaly (bad_request ip now)) (\<lambda>_. Ret (Inl e))"

text \<open>What follows the admission of a batch: its validation, and the send.\<close>

definition events_send :: "api_env \<Rightarrow> request \<Rightarrow> ingest_body \<Rightarrow> ('db app_state, app_error + nat) prog" where
  "events_send env q parsed =
     (case check_events (ae_ser env) (rq_received_at q) (ae_limits env) 0 (ib_events parsed) of
        Inl e \<Rightarrow> refuse (request_ip env q) (rq_now q) (BadRequest ''validation'' [e])
      | Inr (stored, skew) \<Rightarrow>
          seq (change (\<lambda>st. st\<lparr>as_events := add_skew skew (as_events st)\<rparr>)) (\<lambda>_.
          seq (atomic (\<lambda>st. let (n, b) = try_enqueue stored (as_events st) in (n, st\<lparr>as_events := b\<rparr>)))
            (\<lambda>n. Ret (Inr n))))"

definition events_request ::
    "api_env \<Rightarrow> request \<Rightarrow> ingest_body option \<Rightarrow> ('db app_state, app_error + nat) prog" where
  "events_request env q body =
     (let now = rq_now q; ip = request_ip env q in
      seq (on_anomaly (banned_check ip now)) (\<lambda>banned.
      if banned then Ret (Inl (RateLimited ''anomaly_ban'' 60))
      else case body of
        None \<Rightarrow> refuse ip now (BadRequest ''corps JSON invalide'' [])
      | Some parsed \<Rightarrow>
          if ib_events parsed = [] then Ret (Inl (BadRequest ''batch vide'' []))
          else if length (ib_events parsed) > max_batch_events (ae_limits env)
          then refuse ip now (PayloadTooLarge (length (ib_events parsed)) (max_batch_events (ae_limits env)))
          else (case session_key env ip (rq_headers q) parsed of
            Inl e \<Rightarrow> refuse ip now e
          | Inr sid \<Rightarrow>
              seq (on_limiter (limiter_check now ip sid (as_u32 (length (ib_events parsed))))) (\<lambda>d. case d of
                Deny scope retry \<Rightarrow> refuse ip now (RateLimited scope retry)
              | Allow \<Rightarrow> events_send env q parsed))))"

text \<open>The same for OpenTelemetry records: \<open>kept\<close> are those that are not oversized.\<close>

definition accept_send ::
    "('db app_state \<Rightarrow> ('r, 'db) batcher) \<Rightarrow> (('r, 'db) batcher \<Rightarrow> 'db app_state \<Rightarrow> 'db app_state) \<Rightarrow> nat \<Rightarrow> 'r list
       \<Rightarrow> ('db app_state, app_error + nat) prog" where
  "accept_send get_b set_b skew kept =
     seq (change (\<lambda>st. set_b (add_skew skew (get_b st)) st)) (\<lambda>_.
     seq (atomic (\<lambda>st. let (n, b) = try_enqueue kept (get_b st) in (n, set_b b st)))
       (\<lambda>n. Ret (Inr (length kept - n))))"

definition accept_request ::
    "api_env \<Rightarrow> ('r \<Rightarrow> nat) \<Rightarrow> ('r \<Rightarrow> string option) \<Rightarrow> ('db app_state \<Rightarrow> ('r, 'db) batcher)
       \<Rightarrow> (('r, 'db) batcher \<Rightarrow> 'db app_state \<Rightarrow> 'db app_state) \<Rightarrow> ip_addr \<Rightarrow> nanos \<Rightarrow> 'r parse
       \<Rightarrow> ('db app_state, app_error + nat) prog" where
  "accept_request env size_of service_of get_b set_b ip now p =
     (let submitted = length (pa_stored p) in
      if submitted > max_logs_records (ae_cfg env)
      then refuse ip now (PayloadTooLarge submitted (max_logs_records (ae_cfg env)))
      else
        seq (atomic (\<lambda>st. let (dropped, kept, m) = drop_oversized (max_otlp_record_bytes (ae_limits env)) size_of
                              (pa_stored p) (ba_metrics (get_b st))
                          in (kept, set_b ((get_b st)\<lparr>ba_metrics := m\<rparr>) st))) (\<lambda>kept.
        let service_key = unwrap_or (ae_show_ip env ip) (case kept of r # _ \<Rightarrow> service_of r | [] \<Rightarrow> None) in
        seq (on_limiter (limiter_check now ip service_key (as_u32 (max submitted 1)))) (\<lambda>d. case d of
          Deny scope retry \<Rightarrow> refuse ip now (RateLimited scope retry)
        | Allow \<Rightarrow> accept_send get_b set_b (pa_dropped_skew p) kept)))"

definition otlp_request ::
    "api_env \<Rightarrow> ip_addr \<Rightarrow> nanos \<Rightarrow> string option \<Rightarrow> 'r parse option
       \<Rightarrow> (ip_addr \<Rightarrow> nanos \<Rightarrow> 'r parse \<Rightarrow> ('db app_state, app_error + nat) prog)
       \<Rightarrow> ('db app_state, app_error + nat) prog" where
  "otlp_request env ip now token body accept =
     seq (on_anomaly (banned_check ip now)) (\<lambda>banned.
     if banned then Ret (Inl (RateLimited ''anomaly_ban'' 60))
     else case check_service_token (ae_verify env) (cfg_logs_auth (ae_cfg env)) token of
       Inl msg \<Rightarrow> refuse ip now (Unauthorized msg)
     | Inr _ \<Rightarrow>
         (case body of
            None \<Rightarrow> refuse ip now (BadRequest ''corps OTLP JSON invalide'' [])
          | Some p \<Rightarrow> accept ip now p))"

definition logs_accept :: "api_env \<Rightarrow> ip_addr \<Rightarrow> nanos \<Rightarrow> stored_log parse \<Rightarrow> ('db app_state, app_error + nat) prog" where
  "logs_accept env = accept_request env (log_content_bytes (ae_ser env)) sl_service_name as_logs
     (\<lambda>b st. st\<lparr>as_logs := b\<rparr>)"

definition spans_accept :: "api_env \<Rightarrow> ip_addr \<Rightarrow> nanos \<Rightarrow> stored_span parse \<Rightarrow> ('db app_state, app_error + nat) prog" where
  "spans_accept env = accept_request env (span_content_bytes (ae_ser env)) ss_service_name as_spans
     (\<lambda>b st. st\<lparr>as_spans := b\<rparr>)"

definition points_accept ::
    "api_env \<Rightarrow> ip_addr \<Rightarrow> nanos \<Rightarrow> stored_metric_point parse \<Rightarrow> ('db app_state, app_error + nat) prog" where
  "points_accept env = accept_request env (point_content_bytes (ae_ser env)) sm_service_name as_points
     (\<lambda>b st. st\<lparr>as_points := b\<rparr>)"

definition heartbeat_request ::
    "api_env \<Rightarrow> header_map \<Rightarrow> string \<Rightarrow> datetime \<Rightarrow> ('db app_state, app_error + nat) prog" where
  "heartbeat_request env headers hb_id now =
     (case check_service_token (ae_verify env) (cfg_logs_auth (ae_cfg env)) (bearer headers) of
        Inl msg \<Rightarrow> Ret (Inl (Unauthorized msg))
      | Inr _ \<Rightarrow>
          (let cid = str_trim hb_id in
           if cid = [] then Ret (Inl (BadRequest ''companion id requis'' []))
           else seq (change (\<lambda>st. st\<lparr>as_companions := registry_record cid now (as_companions st)\<rparr>)) (\<lambda>_. Ret (Inr 0))))"

text \<open>The periodic purge, map after map; the steps of a batcher, which alone reads its queue and its buffer.\<close>

definition maintenance :: "nanos \<Rightarrow> ('db app_state, app_error + nat) prog" where
  "maintenance now =
     seq (on_limiter (change (prune_sessions now))) (\<lambda>_.
     seq (on_limiter (change (prune_ips now))) (\<lambda>_.
     seq (on_anomaly (change (prune_banned now))) (\<lambda>_.
     seq (on_anomaly (change (prune_bad now))) (\<lambda>_. Ret (Inr 0)))))"

text \<open>The answer of a gRPC request is the one before \<open>app_err_to_status\<close>.\<close>

fun request_prog :: "api_env \<Rightarrow> 'db stores \<Rightarrow> api_op \<Rightarrow> ('db app_state, app_error + nat) prog" where
  "request_prog env so (PostEvents q b) = events_request env q b"
| "request_prog env so (PostLogs q b) =
     otlp_request env (request_ip env q) (rq_now q) (extract_token (rq_headers q) None)
       (map_option (\<lambda>req. otlp_to_logs (ae_ser env) (pe_digest (ae_encoding env)) req (rq_received_at q)
          (ae_limits env) (max_logs_records (ae_cfg env))) b) (logs_accept env)"
| "request_prog env so (PostTraces q b) =
     otlp_request env (request_ip env q) (rq_now q) (extract_token (rq_headers q) None)
       (map_option (\<lambda>req. otlp_to_spans (ae_rfc3339 env) req (rq_received_at q)
          (ae_limits env) (max_logs_records (ae_cfg env))) b) (spans_accept env)"
| "request_prog env so (PostMetrics q b) =
     otlp_request env (request_ip env q) (rq_now q) (extract_token (rq_headers q) None)
       (map_option (\<lambda>req. otlp_to_metrics (ae_encoding env) req (rq_received_at q)
          (ae_limits env) (max_logs_records (ae_cfg env))) b) (points_accept env)"
| "request_prog env so (GrpcLogs now d p m r) =
     otlp_request env (grpc_request_ip p) now (bearer m)
       (Some (proto_to_logs (ae_ser env) (pe_digest (ae_encoding env)) r d (ae_limits env)
          (max_logs_records (ae_cfg env)))) (logs_accept env)"
| "request_prog env so (GrpcTraces now d p m r) =
     otlp_request env (grpc_request_ip p) now (bearer m)
       (Some (proto_to_spans (ae_rfc3339 env) r d (ae_limits env) (max_logs_records (ae_cfg env)))) (spans_accept env)"
| "request_prog env so (GrpcMetrics now d p m r) =
     otlp_request env (grpc_request_ip p) now (bearer m)
       (Some (proto_to_metrics (ae_encoding env) r d (ae_limits env) (max_logs_records (ae_cfg env)))) (points_accept env)"
| "request_prog env so (PostHeartbeat now h i d) = heartbeat_request env h i d"
| "request_prog env so (Maintenance now) = maintenance now"
| "request_prog env so (EventsTask now t) = seq (change (api_step env so (EventsTask now t))) (\<lambda>_. Ret (Inr 0))"
| "request_prog env so (LogsTask now t) = seq (change (api_step env so (LogsTask now t))) (\<lambda>_. Ret (Inr 0))"
| "request_prog env so (SpansTask now t) = seq (change (api_step env so (SpansTask now t))) (\<lambda>_. Ret (Inr 0))"
| "request_prog env so (PointsTask now t) = seq (change (api_step env so (PointsTask now t))) (\<lambda>_. Ret (Inr 0))"

subsection \<open>Run alone, a program is the handler\<close>

lemma alone_change [simp]: "alone (change f) s = ((), f s)"
  by (simp add: change_def)

lemma alone_session_check: "alone (session_check now sid n) rl = check_session now sid n rl"
  by (simp add: session_check_def check_session_def session_take_def Let_def)

lemma alone_ip_check: "alone (ip_check now ip sid) rl = check_ip now ip sid rl"
  by (simp add: ip_check_def check_ip_def ip_take_def Let_def)

lemma alone_limiter_check: "alone (limiter_check now ip sid k) rl = check now ip sid k rl"
  by (simp add: limiter_check_def check_def alone_session_check alone_ip_check Let_def
      split: prod.split option.split)

lemma alone_banned_check: "alone (banned_check ip now) g = is_banned ip now g"
  by (simp add: banned_check_def is_banned_def split: option.split)

interpretation limiter_part: part_of as_limiter "\<lambda>rl st. st\<lparr>as_limiter := rl\<rparr>"
  by unfold_locales simp_all

interpretation anomaly_part: part_of as_anomaly "\<lambda>g st. st\<lparr>as_anomaly := g\<rparr>"
  by unfold_locales simp_all

lemma alone_on_limiter: "alone (on_limiter p) st = (let (a, rl) = alone p (as_limiter st) in (a, st\<lparr>as_limiter := rl\<rparr>))"
  unfolding on_limiter_def by (rule limiter_part.alone_focus)

lemma alone_on_anomaly: "alone (on_anomaly p) st = (let (a, g) = alone p (as_anomaly st) in (a, st\<lparr>as_anomaly := g\<rparr>))"
  unfolding on_anomaly_def by (rule anomaly_part.alone_focus)

lemma alone_bad_room: "alone (bad_room ip now) g = ((), ensure_bad_headroom ip now g)"
  by (simp add: bad_room_def ensure_bad_headroom_def Let_def split: option.split)

lemma alone_banned_room: "alone (banned_room now) g = ((), ensure_banned_headroom now g)"
  by (simp add: banned_room_def ensure_banned_headroom_def Let_def split: option.split)

lemma alone_bad_request: "alone (bad_request ip now) g = ((), record_bad ip now g)"
  by (simp add: bad_request_def record_bad_def bad_counted_def alone_bad_room alone_banned_room Let_def split_beta)

lemma alone_refuse [simp]: "alone (refuse ip now e) st = (Inl e, blame ip now st)"
  by (simp add: refuse_def alone_on_anomaly alone_bad_request blame_def)

lemmas alone_parts = alone_on_limiter alone_on_anomaly alone_limiter_check alone_banned_check

text \<open>The answer of a request in \<open>Api\<close>; a gRPC service translates its errors on the way out.\<close>

fun api_answer :: "api_env \<Rightarrow> api_op \<Rightarrow> 'db app_state \<Rightarrow> app_error + nat" where
  "api_answer env (PostEvents q b) st = fst (ingest_events env q b st)"
| "api_answer env (PostLogs q b) st = fst (ingest_logs env q b st)"
| "api_answer env (PostTraces q b) st = fst (ingest_traces env q b st)"
| "api_answer env (PostMetrics q b) st = fst (Api.ingest_metrics env q b st)"
| "api_answer env (GrpcLogs now d p m r) st =
     fst (otlp_flow env (grpc_request_ip p) now (bearer m)
       (Some (proto_to_logs (ae_ser env) (pe_digest (ae_encoding env)) r d (ae_limits env)
          (max_logs_records (ae_cfg env)))) (accept_logs env) st)"
| "api_answer env (GrpcTraces now d p m r) st =
     fst (otlp_flow env (grpc_request_ip p) now (bearer m)
       (Some (proto_to_spans (ae_rfc3339 env) r d (ae_limits env) (max_logs_records (ae_cfg env)))) (accept_spans env) st)"
| "api_answer env (GrpcMetrics now d p m r) st =
     fst (otlp_flow env (grpc_request_ip p) now (bearer m)
       (Some (proto_to_metrics (ae_encoding env) r d (ae_limits env) (max_logs_records (ae_cfg env))))
       (accept_metric_points env) st)"
| "api_answer env (PostHeartbeat now h i d) st = and_then (fst (heartbeat env h i d st)) (\<lambda>_. Inr 0)"
| "api_answer env _ st = Inr 0"

lemma grpc_answers:
  "fst (Api.export_logs env now d p m lr st) = map_err app_err_to_status (api_answer env (GrpcLogs now d p m lr) st)"
  "fst (export_traces env now d p m sr st) = map_err app_err_to_status (api_answer env (GrpcTraces now d p m sr) st)"
  "fst (export_metrics env now d p m mr st) = map_err app_err_to_status (api_answer env (GrpcMetrics now d p m mr) st)"
  by (simp_all add: Api.export_logs_def export_traces_def export_metrics_def grpc_answer_def)

lemma alone_events_request: "alone (events_request env q body) st = ingest_events env q body st"
  by (auto simp: events_request_def events_send_def ingest_events_def alone_parts blame_def Let_def
      split: prod.split option.split sum.split decision.split)

lemma alone_accept_request:
  assumes "stream get_b set_b" and "\<And>b b' st. set_b b (set_b b' st) = set_b b st"
  shows "alone (accept_request env size_of service_of get_b set_b ip now p) st
    = (case accept_records env size_of service_of get_b set_b ip now p st of
         (r, st') \<Rightarrow> (and_then r (\<lambda>(kept, n). Inr (kept - n)), st'))"
  using stream.get_set [OF assms(1)] stream.get_limiter [OF assms(1)] stream.set_limiter [OF assms(1)] assms(2)
  by (auto simp: accept_request_def accept_send_def accept_records_def alone_parts Let_def
      split: prod.split decision.split)

lemma alone_otlp_request:
  assumes "\<And>p st. alone (acc ip now p) st
    = (case accept ip now p st of (r, st') \<Rightarrow> (and_then r (\<lambda>(kept, n). Inr (kept - n)), st'))"
  shows "alone (otlp_request env ip now token body acc) st = otlp_flow env ip now token body accept st"
  by (auto simp: otlp_request_def otlp_flow_def authorize_logs_def alone_parts assms Let_def
      split: prod.split option.split sum.split)

lemma alone_accepts:
  "alone (logs_accept env ip now lp) st
     = (case accept_logs env ip now lp st of (r, st') \<Rightarrow> (and_then r (\<lambda>(kept, n). Inr (kept - n)), st'))"
  "alone (spans_accept env ip now sp) st
     = (case accept_spans env ip now sp st of (r, st') \<Rightarrow> (and_then r (\<lambda>(kept, n). Inr (kept - n)), st'))"
  "alone (points_accept env ip now pp) st
     = (case accept_metric_points env ip now pp st of (r, st') \<Rightarrow> (and_then r (\<lambda>(kept, n). Inr (kept - n)), st'))"
  unfolding logs_accept_def accept_logs_def spans_accept_def accept_spans_def points_accept_def accept_metric_points_def
  by (rule alone_accept_request, rule log_stream.stream_axioms span_stream.stream_axioms point_stream.stream_axioms, simp)+

lemma alone_heartbeat_request:
  "alone (heartbeat_request env h i d) st = (and_then (fst (heartbeat env h i d st)) (\<lambda>_. Inr 0), snd (heartbeat env h i d st))"
  by (simp add: heartbeat_request_def heartbeat_def Let_def split: sum.split)

lemma alone_maintenance: "alone (maintenance now) st = (Inr 0, api_step env so (Maintenance now) st)"
  by (simp add: maintenance_def alone_on_limiter alone_on_anomaly limiter_prune_def prune_sessions_def prune_ips_def
      anomaly_prune_def prune_banned_def prune_bad_def Let_def)

lemma alone_request: "alone (request_prog env so op) st = (api_answer env op st, api_step env so op st)"
  by (cases op)
    (simp_all add: alone_events_request alone_otlp_request alone_accepts alone_heartbeat_request alone_maintenance
      ingest_logs_def ingest_traces_def Api.ingest_metrics_def Api.export_logs_def export_traces_def export_metrics_def
      grpc_answer_def del: api_step.simps(9-))

fun api_answers :: "api_env \<Rightarrow> 'db stores \<Rightarrow> api_op list \<Rightarrow> 'db app_state \<Rightarrow> (api_op \<times> (app_error + nat)) list" where
  "api_answers env so [] st = []"
| "api_answers env so (op # ops) st = (op, api_answer env op st) # api_answers env so ops (api_step env so op st)"

lemma pool_run_append: "pool_run f (xs @ ys) c = pool_run f ys (pool_run f xs c)"
  by (simp add: pool_run_def)


subsection \<open>Interface: what a discipline asks of the admission\<close>

text \<open>
  The handlers reach the limiter through its check and the queues through one send; a ledger that follows
  these actions follows every handler. \<open>paid k g\<close>: the ledger \<open>g\<close> covers a send of \<open>k\<close> records.
\<close>

locale admission =
  fixes R :: "'g \<Rightarrow> 'g \<Rightarrow> 'db app_state \<Rightarrow> 'db app_state \<Rightarrow> bool" and g0 :: 'g and paid :: "nat \<Rightarrow> 'g \<Rightarrow> bool"
  assumes frame: "as_limiter s' = as_limiter s \<Longrightarrow> queued s' = queued s \<Longrightarrow> R g g s s'"
    and checked: "obeys R (on_limiter (limiter_check now ip sid k)) (\<lambda>d g. d = Allow \<longrightarrow> paid (max k 1) g) g0"
    and send: "paid k g \<Longrightarrow> as_limiter s' = as_limiter s \<Longrightarrow> queued s \<le> queued s' \<Longrightarrow> queued s' \<le> queued s + k \<Longrightarrow>
      \<exists>g'. R g g' s s'"
    and purge: "as_limiter s' \<in> {prune_sessions now (as_limiter s), prune_ips now (as_limiter s)} \<Longrightarrow>
      queued s' = queued s \<Longrightarrow> R g0 g0 s s'"
begin

lemma obeys_change: "(\<And>s. R g g s (f s)) \<Longrightarrow> Q () g \<Longrightarrow> obeys R (change f) Q g"
  by (auto simp: change_def)

lemma obeys_on_anomaly: "obeys R (on_anomaly p) (\<lambda>_ h. h = g) g"
  unfolding on_anomaly_def
  by (induction p rule: prog_acts) (auto intro!: exI [of _ g] frame)

lemma obeys_guarded:
  "(\<And>banned. obeys R (f banned) Q g) \<Longrightarrow> obeys R (seq (on_anomaly p) f) Q g"
  unfolding obeys_seq by (rule obeys_mono [OF obeys_on_anomaly]) simp

lemma obeys_refuse: "obeys R (refuse ip now e) (\<lambda>_ _. True) g"
  unfolding refuse_def by (rule obeys_guarded) simp

lemma obeys_checked:
  assumes "\<And>scope retry g. obeys R (f (Deny scope retry)) Q g" and "\<And>g. paid (max k 1) g \<Longrightarrow> obeys R (f Allow) Q g"
  shows "obeys R (seq (on_limiter (limiter_check now ip sid k)) f) Q g0"
  unfolding obeys_seq
proof (rule obeys_mono [OF checked])
  fix d g assume "d = Allow \<longrightarrow> paid (max k 1) g"
  with assms show "obeys R (f d) Q g" by (cases d) simp_all
qed

lemma obeys_send:
  assumes "paid k g"
    and "\<And>s. as_limiter (snd (f s)) = as_limiter s \<and> queued s \<le> queued (snd (f s)) \<and> queued (snd (f s)) \<le> queued s + k"
  shows "obeys R (seq (atomic f) (\<lambda>n. Ret (h n))) (\<lambda>_ _. True) g"
  using send [OF assms(1)] assms(2) by simp

lemma obeys_events_send:
  assumes "paid (max (as_u32 k) 1) g" "k = length (ib_events parsed)" "k \<noteq> 0" "k < 2 ^ 32"
  shows "obeys R (events_send env q parsed) (\<lambda>_ _. True) g"
proof -
  have k: "max (as_u32 k) 1 = k" using assms(3,4) by (simp add: as_u32_def)
  have "as_limiter (snd (let (n, b) = try_enqueue stored (as_events s) in (n, s\<lparr>as_events := b\<rparr>))) = as_limiter s
      \<and> queued s \<le> queued (snd (let (n, b) = try_enqueue stored (as_events s) in (n, s\<lparr>as_events := b\<rparr>)))
      \<and> queued (snd (let (n, b) = try_enqueue stored (as_events s) in (n, s\<lparr>as_events := b\<rparr>))) \<le> queued s + k"
    if "length stored \<le> k" for stored s
    using try_enqueue_count [of stored "as_events s"] that by (auto simp: queued_def split: prod.splits)
  then have send: "obeys R (seq (atomic (\<lambda>st. let (n, b) = try_enqueue stored (as_events st) in (n, st\<lparr>as_events := b\<rparr>)))
      (\<lambda>n. Ret (Inr n))) (\<lambda>_ _. True) g" if "length stored \<le> k" for stored
    using that by (intro obeys_send [OF assms(1) [unfolded k]]) blast
  show ?thesis
  proof (cases "check_events (ae_ser env) (rq_received_at q) (ae_limits env) 0 (ib_events parsed)")
    case (Inl e)
    then show ?thesis by (simp add: events_send_def obeys_refuse)
  next
    case (Inr r)
    obtain stored skew where r: "r = (stored, skew)" by fastforce
    have "length stored \<le> k" using check_events_length [OF Inr [unfolded r]] assms(2) by simp
    then show ?thesis
      unfolding events_send_def Inr r sum.case prod.case obeys_seq [of R "change _"]
      by (intro obeys_change send frame) (simp_all add: queued_def)
  qed
qed

lemma obeys_events_request:
  assumes "max_batch_events (ae_limits env) < 2 ^ 32"
  shows "obeys R (events_request env q body) (\<lambda>_ _. True) g0"
  unfolding events_request_def Let_def
  by (rule obeys_guarded) (use assms in \<open>auto simp: obeys_refuse simp del: obeys_seq
      intro!: obeys_checked obeys_events_send split: option.split sum.split\<close>)

lemma obeys_accept_send:
  assumes "stream get_b set_b" and "paid k g" "length kept \<le> k"
  shows "obeys R (accept_send get_b set_b skew kept) (\<lambda>_ _. True) g"
proof -
  have q: "queued (set_b b s) = queued s" if "received_total (ba_metrics b) = received_total (ba_metrics (get_b s))" for b s
    using stream.queued_same [OF assms(1) that] .
  have l: "as_limiter (set_b b s) = as_limiter s" for b s
    using stream.set_limiter [OF assms(1)] .
  have "as_limiter (snd (let (n, b) = try_enqueue kept (get_b s) in (n, set_b b s))) = as_limiter s
      \<and> queued s \<le> queued (snd (let (n, b) = try_enqueue kept (get_b s) in (n, set_b b s)))
      \<and> queued (snd (let (n, b) = try_enqueue kept (get_b s) in (n, set_b b s))) \<le> queued s + k" for s
  proof -
    obtain n b where t: "try_enqueue kept (get_b s) = (n, b)" by fastforce
    from try_enqueue_count [OF t] stream.set_queued [OF assms(1), of b s] assms(3) show ?thesis by (simp add: t l)
  qed
  note send = obeys_send [OF assms(2) this]
  show ?thesis
    unfolding accept_send_def obeys_seq [of R "change _"]
    by (intro obeys_change send frame) (simp_all add: l q)
qed

lemma obeys_accept_request:
  assumes "stream get_b set_b" and "max_logs_records (ae_cfg env) < 2 ^ 32"
  shows "obeys R (accept_request env size_of service_of get_b set_b ip now p) (\<lambda>_ _. True) g0"
proof -
  define k where "k = length (pa_stored p)"
  define drop where "drop = (\<lambda>st. let (dropped, kept, m) = drop_oversized (max_otlp_record_bytes (ae_limits env)) size_of
      (pa_stored p) (ba_metrics (get_b st)) in (kept, set_b ((get_b st)\<lparr>ba_metrics := m\<rparr>) st))"
  define after where "after = (\<lambda>kept. seq (on_limiter (limiter_check now ip
      (unwrap_or (ae_show_ip env ip) (case kept of r # _ \<Rightarrow> service_of r | [] \<Rightarrow> None)) (as_u32 (max k 1))))
    (\<lambda>d. case d of Deny scope retry \<Rightarrow> refuse ip now (RateLimited scope retry)
                | Allow \<Rightarrow> accept_send get_b set_b (pa_dropped_skew p) kept))"
  have d: "R g0 g0 s (snd (drop s)) \<and> length (fst (drop s)) \<le> k" for s
  proof -
    obtain dropped kept m where o: "drop_oversized (max_otlp_record_bytes (ae_limits env)) size_of (pa_stored p)
        (ba_metrics (get_b s)) = (dropped, kept, m)"
      by (cases "drop_oversized (max_otlp_record_bytes (ae_limits env)) size_of (pa_stored p) (ba_metrics (get_b s))")
    from drop_oversized_simps [OF o] show ?thesis
      by (auto simp: drop_def o k_def stream.set_limiter [OF assms(1)] stream.queued_same [OF assms(1)] intro!: frame)
  qed
  have "obeys R (after kept) (\<lambda>_ _. True) g0" if "length kept \<le> k" "k \<le> max_logs_records (ae_cfg env)" for kept
  proof -
    have k: "max (as_u32 (max k 1)) 1 = max k 1" using that(2) assms(2) by (simp add: as_u32_def)
    show ?thesis
      unfolding after_def
    proof (rule obeys_checked, unfold k decision.case)
      show "obeys R (refuse ip now (RateLimited scope retry)) (\<lambda>_ _. True) g" for scope retry g
        by (rule obeys_refuse)
      show "obeys R (accept_send get_b set_b (pa_dropped_skew p) kept) (\<lambda>_ _. True) g" if "paid (max k 1) g" for g
        using obeys_accept_send [OF assms(1) that] \<open>length kept \<le> k\<close> by simp
    qed
  qed
  moreover have "accept_request env size_of service_of get_b set_b ip now p
      = (if k > max_logs_records (ae_cfg env) then refuse ip now (PayloadTooLarge k (max_logs_records (ae_cfg env)))
         else seq (atomic drop) after)"
    by (simp add: accept_request_def k_def drop_def after_def Let_def)
  ultimately show ?thesis using d by (auto simp: obeys_refuse intro!: exI [of _ g0])
qed

lemma obeys_otlp_request:
  "(\<And>p. obeys R (acc ip now p) (\<lambda>_ _. True) g0) \<Longrightarrow> obeys R (otlp_request env ip now token body acc) (\<lambda>_ _. True) g0"
  unfolding otlp_request_def
  by (rule obeys_guarded) (auto simp: obeys_refuse split: option.split sum.split)

lemma obeys_accepts:
  assumes "max_logs_records (ae_cfg env) < 2 ^ 32"
  shows "obeys R (logs_accept env ip now lp) (\<lambda>_ _. True) g0" "obeys R (spans_accept env ip now sp) (\<lambda>_ _. True) g0"
    "obeys R (points_accept env ip now pp) (\<lambda>_ _. True) g0"
  unfolding logs_accept_def spans_accept_def points_accept_def
  by (rule obeys_accept_request [OF log_stream.stream_axioms assms] obeys_accept_request [OF span_stream.stream_axioms assms]
      obeys_accept_request [OF point_stream.stream_axioms assms])+

lemma obeys_prune:
  assumes "f \<in> {prune_sessions now, prune_ips now}" and "obeys R (h ()) Q g0"
  shows "obeys R (seq (on_limiter (change f)) h) Q g0"
proof -
  have "obeys R (on_limiter (change f)) (\<lambda>_ h. h = g0) g0"
    using assms(1) by (auto simp: on_limiter_def change_def atomic_def intro!: exI [of _ g0] purge [of _ now])
  then show ?thesis
    unfolding obeys_seq by (rule obeys_mono) (use assms(2) in simp)
qed

lemma obeys_maintenance: "obeys R (maintenance now) (\<lambda>_ _. True) g0"
proof -
  have a: "obeys R (seq (on_anomaly (change (prune_banned now))) (\<lambda>_.
      seq (on_anomaly (change (prune_bad now))) (\<lambda>_. Ret (Inr 0)))) (\<lambda>_ _. True) g0"
    by (rule obeys_guarded, rule obeys_guarded) simp
  show ?thesis
    unfolding maintenance_def by (rule obeys_prune [of _ now], simp, rule obeys_prune [of _ now], simp, rule a)
qed

lemma obeys_task: "(\<And>s. as_limiter (f s) = as_limiter s \<and> queued (f s) = queued s) \<Longrightarrow>
    obeys R (seq (change f) (\<lambda>_. Ret (Inr 0))) (\<lambda>_ _. True) g0"
  unfolding obeys_seq by (rule obeys_change) (simp_all add: frame)

lemma obeys_request:
  assumes "max_logs_records (ae_cfg env) < 2 ^ 32" and "max_batch_events (ae_limits env) < 2 ^ 32"
  shows "obeys R (request_prog env so op) (\<lambda>_ _. True) g0"
proof (cases op)
  case (PostHeartbeat now h i d)
  have "obeys R (seq (change (\<lambda>st. st\<lparr>as_companions := r st\<rparr>)) (\<lambda>_. Ret (Inr 0))) (\<lambda>_ _. True) g0" for r
    by (rule obeys_task) (simp add: queued_def)
  then show ?thesis by (auto simp: PostHeartbeat heartbeat_request_def Let_def simp del: obeys_seq split: sum.split)
qed (auto simp: obeys_events_request [OF assms(2)] obeys_accepts [OF assms(1)] obeys_maintenance
    simp: batcher_step_received queued_def simp del: obeys_seq intro!: obeys_otlp_request obeys_task)

end

subsection \<open>The global bucket\<close>

text \<open>The ledger of a program is the number of records it was granted and has not yet sent. Grants, queued
  records and tokens together grow only with the clock of the bucket.\<close>

definition funds :: "bucket \<Rightarrow> bucket \<Rightarrow> real" where
  "funds b b' = bk_tokens b + as_secs_f64 (bk_last b' - bk_last b) * bk_rate b - bk_tokens b'"

definition bucket_rel :: "nat \<Rightarrow> nat \<Rightarrow> rate_limiter \<Rightarrow> rate_limiter \<Rightarrow> bool" where
  "bucket_rel c c' rl rl' \<longleftrightarrow> (bucket_ok (rl_global rl) \<longrightarrow>
     bucket_ok (rl_global rl') \<and> bk_rate (rl_global rl') = bk_rate (rl_global rl)
     \<and> real c' \<le> real c + funds (rl_global rl) (rl_global rl'))"

definition flood_rel :: "nat \<Rightarrow> nat \<Rightarrow> 'db app_state \<Rightarrow> 'db app_state \<Rightarrow> bool" where
  "flood_rel c c' s s' \<longleftrightarrow> (bucket_ok (rl_global (as_limiter s)) \<longrightarrow>
     bucket_ok (rl_global (as_limiter s')) \<and> bk_rate (rl_global (as_limiter s')) = bk_rate (rl_global (as_limiter s))
     \<and> real c' + real (queued s') \<le> real c + real (queued s)
          + funds (rl_global (as_limiter s)) (rl_global (as_limiter s')))"

lemma funds_same [simp]: "funds b b = 0"
  by (simp add: funds_def as_secs_f64_def)

lemma bucket_rel_same: "rl_global rl' = rl_global rl \<Longrightarrow> bucket_rel c c rl rl'"
  by (simp add: bucket_rel_def)

lemma session_take_global: "rl_global (snd (session_take now sid n rl)) = rl_global rl"
  by (simp add: session_take_def Let_def split: prod.split sum.split)

lemma ip_take_global: "rl_global (snd (ip_take now ip sid rl)) = rl_global rl"
  by (simp add: ip_take_def Let_def split: prod.split sum.split)

lemma check_global_rel:
  "bucket_rel 0 (if fst (check_global now (real n) rl) = Allow then n else 0) rl (snd (check_global now (real n) rl))"
proof -
  define b where "b = rl_global rl"
  obtain r b' where t: "try_take (real n) now b = (r, b')" by fastforce
  have g: "check_global now (real n) rl = (case r of Inl wait \<Rightarrow> (deny ''global'' wait, rl\<lparr>rl_global := b'\<rparr>)
      | Inr _ \<Rightarrow> (Allow, rl\<lparr>rl_global := b'\<rparr>))"
    by (simp add: check_global_def t b_def [symmetric] Let_def)
  have "bk_tokens b' = refilled now b - (if r = Inr () then real n else 0)" "bk_last b' = now"
    "bk_rate b' = bk_rate b" "bucket_ok b \<Longrightarrow> bucket_ok b'"
    using t try_take_ok [of b "real n" now] by (auto simp: try_take_eq split: if_splits)
  moreover have "refilled now b \<le> bk_tokens b + as_secs_f64 (now - bk_last b) * bk_rate b"
    by (simp add: refilled_def)
  ultimately show ?thesis
    by (cases r) (simp_all add: g bucket_rel_def funds_def b_def deny_def)
qed

lemma obeys_limiter_check:
  assumes s: "obeys R (session_check now sid (real (max k 1))) (\<lambda>d g. g = g0 \<and> d \<noteq> Some Allow) g0"
    and i: "obeys R (ip_check now ip sid) (\<lambda>d g. g = g0 \<and> d \<noteq> Some Allow) g0"
    and g: "obeys R (atomic (check_global now (real (max k 1)))) (\<lambda>d g. d = Allow \<longrightarrow> P g) g0"
  shows "obeys R (limiter_check now ip sid k) (\<lambda>d g. d = Allow \<longrightarrow> P g) g0"
proof -
  define n where "n = real (max k 1)"
  have "obeys R (case d of Some d \<Rightarrow> Ret d | None \<Rightarrow> atomic (check_global now n)) (\<lambda>d g. d = Allow \<longrightarrow> P g) g"
    if "g = g0 \<and> d \<noteq> Some Allow" for d g
    using g [folded n_def] that by (cases d) auto
  then have "obeys R (seq (ip_check now ip sid) (\<lambda>d. case d of Some d \<Rightarrow> Ret d | None \<Rightarrow> atomic (check_global now n)))
      (\<lambda>d g. d = Allow \<longrightarrow> P g) g0"
    unfolding obeys_seq by (rule obeys_mono [OF i])
  then have "obeys R (case d of Some d \<Rightarrow> Ret d | None \<Rightarrow> seq (ip_check now ip sid) (\<lambda>d. case d of
      Some d \<Rightarrow> Ret d | None \<Rightarrow> atomic (check_global now n))) (\<lambda>d g. d = Allow \<longrightarrow> P g) g"
    if "g = g0 \<and> d \<noteq> Some Allow" for d g
    using that by (cases d) (auto simp del: obeys_seq)
  then show ?thesis
    unfolding limiter_check_def n_def [symmetric] obeys_seq [of R "session_check _ _ _"]
    by (rule obeys_mono [OF s [folded n_def]])
qed

lemma obeys_bucket:
  "obeys bucket_rel (limiter_check now ip sid k) (\<lambda>d c. d = Allow \<longrightarrow> max k 1 \<le> c) 0"
proof (rule obeys_limiter_check)
  show "obeys bucket_rel (session_check now sid n) (\<lambda>d c. c = 0 \<and> d \<noteq> Some Allow) 0" for n
    by (auto simp: session_check_def bucket_rel_same session_take_global deny_def session_take_def Let_def
        intro!: exI [of _ 0] split: prod.split sum.split)
  show "obeys bucket_rel (ip_check now ip sid) (\<lambda>d c. c = 0 \<and> d \<noteq> Some Allow) 0"
    by (auto simp: ip_check_def bucket_rel_same ip_take_global deny_def ip_take_def Let_def
        intro!: exI [of _ 0] split: prod.split sum.split)
  show "obeys bucket_rel (atomic (check_global now (real (max k 1)))) (\<lambda>d c. d = Allow \<longrightarrow> max k 1 \<le> c) 0"
    unfolding obeys_atomic
  proof
    fix rl
    show "\<exists>c. bucket_rel 0 c rl (snd (check_global now (real (max k 1)) rl))
        \<and> (fst (check_global now (real (max k 1)) rl) = Allow \<longrightarrow> max k 1 \<le> c)"
      using check_global_rel [of now "max k 1" rl]
      by (intro exI [of _ "if fst (check_global now (real (max k 1)) rl) = Allow then max k 1 else 0"]) simp
  qed
qed

interpretation flood: admission flood_rel 0 "\<lambda>k c. k \<le> c"
proof
  fix c k now ip sid and s s' :: "'db app_state" and d :: decision
  show "as_limiter s' = as_limiter s \<Longrightarrow> queued s' = queued s \<Longrightarrow> flood_rel c c s s'"
    by (simp add: flood_rel_def)
  show "obeys (flood_rel :: nat \<Rightarrow> nat \<Rightarrow> 'db app_state \<Rightarrow> 'db app_state \<Rightarrow> bool) (on_limiter (limiter_check now ip sid k))
      (\<lambda>d c. d = Allow \<longrightarrow> max k 1 \<le> c) 0"
    unfolding on_limiter_def
    by (rule obeys_focus [OF obeys_bucket]) (simp add: bucket_rel_def flood_rel_def)
  show "as_limiter s' \<in> {prune_sessions now (as_limiter s), prune_ips now (as_limiter s)} \<Longrightarrow>
      queued s' = queued s \<Longrightarrow> flood_rel 0 0 s s'"
    by (auto simp: flood_rel_def prune_sessions_def prune_ips_def Let_def)
  show "k \<le> c \<Longrightarrow> as_limiter s' = as_limiter s \<Longrightarrow> queued s \<le> queued s' \<Longrightarrow> queued s' \<le> queued s + k \<Longrightarrow>
      \<exists>c'. flood_rel c c' s s'"
    by (rule exI [of _ "c - (queued s' - queued s)"]) (auto simp: flood_rel_def)
qed

definition flood_inv ::
    "real \<Rightarrow> real \<Rightarrow> nanos \<Rightarrow> 'db app_state \<Rightarrow> (api_op \<times> (app_error + nat)) list \<Rightarrow> nat list \<Rightarrow> bool" where
  "flood_inv burst rate elapsed s as cs \<longleftrightarrow>
     bucket_ok (rl_global (as_limiter s)) \<and> bk_rate (rl_global (as_limiter s)) = rate
     \<and> real (queued s) + real (sum_list cs) + bk_tokens (rl_global (as_limiter s)) \<le> burst + as_secs_f64 elapsed * rate"

text \<open>How far the clock of the global bucket was moved forward along a schedule, and how far back: a
  request reads the clock before its actions, so that readings can reach the bucket out of order.\<close>

abbreviation bucket_clock :: "'db app_state \<Rightarrow> nanos" where
  "bucket_clock s \<equiv> bk_last (rl_global (as_limiter s))"

definition clock_moved :: "nat \<Rightarrow> 'db app_state \<Rightarrow> 'db app_state \<Rightarrow> nanos \<Rightarrow> nanos" where
  "clock_moved n s s' elapsed = elapsed + (bucket_clock s' - bucket_clock s)"

definition clock_set_back :: "nat \<Rightarrow> 'db app_state \<Rightarrow> 'db app_state \<Rightarrow> nanos \<Rightarrow> nanos" where
  "clock_set_back n s s' back = back + (bucket_clock s - bucket_clock s')"

lemma clock_balance:
  "noted f clock_moved ms c m + bucket_clock (pl_state c) + b
     = bucket_clock (pl_state (pool_run f ms c)) + noted f clock_set_back ms c b + m"
proof (induction ms arbitrary: c m b)
  case (Cons mv ms)
  define c' where "c' = pool_step f mv c"
  from Cons [of c' "clock_moved (length (pl_running c')) (pl_state c) (pl_state c') m"
      "clock_set_back (length (pl_running c')) (pl_state c) (pl_state c') b"]
  show ?case
    by (simp add: pool_run_def c'_def [symmetric] clock_moved_def clock_set_back_def Let_def)
qed (simp add: pool_run_def)

lemma as_secs_f64_add: "as_secs_f64 (a + b) = as_secs_f64 a + as_secs_f64 b"
  by (simp add: as_secs_f64_def add_divide_distrib)

lemma flood_discipline:
  assumes "max_logs_records (ae_cfg env) < 2 ^ 32" and "max_batch_events (ae_limits env) < 2 ^ 32"
  shows "discipline (request_prog env so) flood_rel (\<lambda>_ _ _. True) 0 (flood_inv burst rate) clock_moved"
proof
  fix op m g g' a and s s' :: "'a app_state" and as and gs xs ys :: "nat list"
  show "obeys flood_rel (request_prog env so op) (\<lambda>_ _. True) 0" by (rule flood.obeys_request [OF assms])
  show "flood_inv burst rate m s as gs \<Longrightarrow> flood_inv burst rate (clock_moved (Suc (length gs)) s s m) s as (gs @ [0])"
    by (simp add: flood_inv_def clock_moved_def)
  show "flood_inv burst rate m s as gs \<Longrightarrow> flood_inv burst rate (clock_moved (length gs) s s m) s as gs"
    by (simp add: flood_inv_def clock_moved_def)
  show "flood_inv burst rate m s as (xs @ g # ys) \<Longrightarrow>
      flood_inv burst rate (clock_moved (length xs + length ys) s s m) s (as @ [(op, a)]) (xs @ ys)"
    by (simp add: flood_inv_def clock_moved_def)
  show "flood_inv burst rate m s as (xs @ g # ys) \<Longrightarrow> flood_rel g g' s s' \<Longrightarrow>
      flood_inv burst rate (clock_moved (Suc (length xs + length ys)) s s' m) s' as (xs @ g' # ys)"
    by (auto simp: flood_inv_def flood_rel_def clock_moved_def funds_def as_secs_f64_add distrib_right)
qed

text \<open>C7. The service holds its global rate whatever the threads do: in every interleaving of the actions of any
  requests, purges and steps of the batchers, the records queued since the start are at most the
  global burst plus the global rate times the time that elapsed on the clock of the bucket and the time
  by which requests set it back. When the requests reach the bucket in the order of their clock
  readings, this is the elapsed time.\<close>

theorem interleaved_flood_bound:
  assumes "max_logs_records (ae_cfg env) < 2 ^ 32" and "max_batch_events (ae_limits env) < 2 ^ 32"
    and "cfg_ok cfg" and "cfg = cfg_rate_limit (ae_cfg env)" and "c0 = pool_start (app_state_new env t0 db)"
    and "c = pool_run (request_prog env so) ms c0"
  shows "real (queued (pl_state c))
    \<le> global_burst cfg + as_secs_f64 (bucket_clock (pl_state c)
          + noted (request_prog env so) clock_set_back ms c0 0 - t0) * global_per_sec cfg"
proof -
  have "flood_inv (global_burst cfg) (global_per_sec cfg) 0 (app_state_new env t0 db) [] []"
    using assms(3)
    by (simp add: flood_inv_def app_state_new_def rate_limiter_new_def bucket_ok_new cfg_ok_def assms(4) queued_def
        spawn_batcher_def metrics_zero_def as_secs_f64_def) (simp add: bucket_new_def)
  from discipline.start_keeps [OF flood_discipline [OF assms(1,2)] this, of so ms]
  obtain cs where "flood_inv (global_burst cfg) (global_per_sec cfg) (noted (request_prog env so) clock_moved ms c0 0)
      (pl_state c) (pl_answered c) cs"
    unfolding assms(5,6) by blast
  moreover have "bucket_clock (pl_state c0) = t0"
    by (simp add: assms(5) pool_start_def app_state_new_def rate_limiter_new_def bucket_new_def)
  then have "noted (request_prog env so) clock_moved ms c0 0
      = bucket_clock (pl_state c) + noted (request_prog env so) clock_set_back ms c0 0 - t0"
    using clock_balance [of "request_prog env so" ms c0 0 0] assms(6) by simp
  ultimately show ?thesis by (simp add: flood_inv_def bucket_ok_def)
qed

subsection \<open>The maps of the limiter\<close>

text \<open>
  The look at the size of a map and the entry into it are two actions, so that several programs can find
  the same free place. The ledger of a program is the key it is about to enter.
\<close>

definition room_rel ::
    "('s \<Rightarrow> ('k \<times> 'v) list) \<Rightarrow> ('s \<Rightarrow> nat) \<Rightarrow> 'k set \<Rightarrow> 'k set \<Rightarrow> 's \<Rightarrow> 's \<Rightarrow> bool" where
  "room_rel m cap g g' s s' \<longleftrightarrow> cap s' = cap s \<and> (al_ok (m s) \<longrightarrow>
     al_ok (m s') \<and> fst ` set (m s') \<subseteq> fst ` set (m s) \<union> g
     \<and> (g' \<subseteq> g \<or> m s' = m s \<and> finite g' \<and> card g' \<le> 1 \<and> (g' \<subseteq> fst ` set (m s) \<or> length (m s) < cap s)))"

definition sessions_cap :: "rate_limiter \<Rightarrow> nat" where
  "sessions_cap rl = max_tracked_sessions (rl_cfg rl)"

definition ips_cap :: "rate_limiter \<Rightarrow> nat" where
  "ips_cap rl = max_tracked_ips (rl_cfg rl)"

lemma room_rel_same: "m s' = m s \<Longrightarrow> cap s' = cap s \<Longrightarrow> room_rel m cap g g s s'"
  by (auto simp: room_rel_def)

lemma room_rel_known:
  "k \<in> fst ` set (m s) \<or> length (m s) < cap s \<Longrightarrow> room_rel m cap {} {k} s s"
  by (auto simp: room_rel_def)

lemma keys_al_put: "fst ` set (al_put k v m) = insert k (fst ` set m)"
  by (auto simp: al_put_def dom_update simp flip: dom_map_of_conv_image_fst)
    (auto simp: update_conv' dom_map_of_conv_image_fst)

lemma session_take_sessions:
  "\<exists>st. rl_sessions (snd (session_take now sid n rl)) = al_put sid st (rl_sessions rl)
    \<and> rl_cfg (snd (session_take now sid n rl)) = rl_cfg rl \<and> rl_ips (snd (session_take now sid n rl)) = rl_ips rl"
  by (auto simp: session_take_def Let_def split: prod.split sum.split)

lemma ip_take_ips:
  "\<exists>w. rl_ips (snd (ip_take now ip sid rl)) = al_put ip w (rl_ips rl)
    \<and> rl_cfg (snd (ip_take now ip sid rl)) = rl_cfg rl \<and> rl_sessions (snd (ip_take now ip sid rl)) = rl_sessions rl"
  by (auto simp: ip_take_def Let_def split: prod.split sum.split)

lemma takes_never_allow:
  "fst (session_take now sid n rl) \<noteq> Some Allow" "fst (ip_take now ip sid rl) \<noteq> Some Allow"
  by (auto simp: session_take_def ip_take_def deny_def Let_def split: prod.split sum.split)

lemma check_global_frame':
  "rl_sessions (snd (check_global now n rl)) = rl_sessions rl" "rl_ips (snd (check_global now n rl)) = rl_ips rl"
  "rl_cfg (snd (check_global now n rl)) = rl_cfg rl"
  by (auto simp: check_global_def Let_def split: prod.split sum.split)

lemma room_rel_enter:
  assumes "m s' = al_put k v (m s)" and "cap s' = cap s"
  shows "room_rel m cap {k} {} s s'"
  using assms by (auto simp: room_rel_def keys_al_put)

text \<open>The three actions by which a program enters a key: two looks and the entry.\<close>

lemma obeys_entry:
  fixes m :: "'s \<Rightarrow> ('k \<times> 'v) list"
  assumes "\<And>s. \<exists>v. m (snd (enter s)) = al_put k v (m s)" and "\<And>s. cap (snd (enter s)) = cap s"
    and "\<And>s. fst (enter s) \<noteq> Some Allow" and "refusal \<noteq> Allow"
  shows "obeys (room_rel m cap)
    (seq (atomic (\<lambda>s. (al_get (m s) k \<noteq> None, s))) (\<lambda>known.
     seq (if known then Ret False else atomic (\<lambda>s. (length (m s) \<ge> cap s, s))) (\<lambda>full.
     if full then Ret (Some refusal) else atomic enter))) (\<lambda>d g. g = {} \<and> d \<noteq> Some Allow) {}"
proof -
  define R where "R = room_rel m cap"
  define Q where "Q = (\<lambda>(d :: decision option) (g :: 'k set). g = {} \<and> d \<noteq> Some Allow)"
  define last_look where "last_look full = (if full then Ret (Some refusal) else atomic enter)" for full
  have same: "R {} {} s s" and known: "k \<in> fst ` set (m s) \<or> length (m s) < cap s \<Longrightarrow> R {} {k} s s" for s
    unfolding R_def by (rule room_rel_same [OF refl refl], rule room_rel_known)
  have e: "obeys R (last_look False) Q {k}"
    unfolding last_look_def if_False obeys_atomic
  proof
    fix s
    obtain v where "m (snd (enter s)) = al_put k v (m s)" using assms(1) by blast
    then have "R {k} {} s (snd (enter s))" unfolding R_def by (rule room_rel_enter) (rule assms(2))
    then show "\<exists>g'. R {k} g' s (snd (enter s)) \<and> Q (fst (enter s)) g'" using assms(3) by (auto simp: Q_def)
  qed
  have r: "obeys R (last_look True) Q {}" using assms(4) by (simp add: last_look_def Q_def)
  have size: "obeys R (atomic (\<lambda>s. (length (m s) \<ge> cap s, s))) (\<lambda>full. obeys R (last_look full) Q) {}"
    unfolding obeys_atomic fst_conv snd_conv
  proof
    fix s
    show "\<exists>g. R {} g s s \<and> obeys R (last_look (cap s \<le> length (m s))) Q g"
      using e r same [of s] known [of s] by (cases "cap s \<le> length (m s)") (auto simp: not_le)
  qed
  define rest where
    "rest known = seq (if known then Ret False else atomic (\<lambda>s. (length (m s) \<ge> cap s, s))) last_look" for known
  have rest: "obeys R (rest True) Q {k}" "obeys R (rest False) Q {}"
    using e size by (simp_all only: rest_def if_True if_False obeys_seq seq.simps(1) obeys.simps(1))
  have "obeys R (seq (atomic (\<lambda>s. (al_get (m s) k \<noteq> None, s))) rest) Q {}"
    unfolding obeys_seq obeys_atomic fst_conv snd_conv
  proof
    fix s
    show "\<exists>g. R {} g s s \<and> obeys R (rest (al_get (m s) k \<noteq> None)) Q g"
      using rest same [of s] known [of s] al_get_None_iff [of "m s" k] by (cases "al_get (m s) k = None") auto
  qed
  then show ?thesis unfolding R_def Q_def rest_def last_look_def .
qed

lemma room_rel_frame: "m s' = m s \<Longrightarrow> cap s' = cap s \<Longrightarrow> room_rel m cap {} {} s s'"
  by (auto simp: room_rel_def)

lemma obeys_sessions_room:
  "obeys (room_rel rl_sessions sessions_cap) (limiter_check now ip sid k) (\<lambda>d g. d = Allow \<longrightarrow> True) {}"
proof (rule obeys_limiter_check)
  show "obeys (room_rel rl_sessions sessions_cap) (session_check now sid n) (\<lambda>d g. g = {} \<and> d \<noteq> Some Allow) {}" for n
    unfolding session_check_def sessions_cap_def [symmetric]
  proof (rule obeys_entry)
    fix rl
    show "\<exists>v. rl_sessions (snd (session_take now sid n rl)) = al_put sid v (rl_sessions rl)"
      using session_take_sessions [of now sid n rl] by blast
    show "sessions_cap (snd (session_take now sid n rl)) = sessions_cap rl"
      using session_take_sessions [of now sid n rl] by (auto simp: sessions_cap_def)
    show "fst (session_take now sid n rl) \<noteq> Some Allow" by (rule takes_never_allow)
  qed (simp add: deny_def)
  have i: "room_rel rl_sessions sessions_cap {} {} rl (snd (ip_take now ip sid rl))" for rl
    using ip_take_ips [of now ip sid rl] by (auto simp: sessions_cap_def intro!: room_rel_frame)
  show "obeys (room_rel rl_sessions sessions_cap) (ip_check now ip sid) (\<lambda>d g. g = {} \<and> d \<noteq> Some Allow) {}"
    using i takes_never_allow(2) by (auto simp: ip_check_def room_rel_same deny_def intro!: exI [of _ "{}"])
  show "obeys (room_rel rl_sessions sessions_cap) (atomic (check_global now n)) (\<lambda>d g. d = Allow \<longrightarrow> True) {}" for n
    by (auto simp: check_global_frame' sessions_cap_def intro!: exI [of _ "{}"] room_rel_frame)
qed

lemma obeys_ips_room:
  "obeys (room_rel rl_ips ips_cap) (limiter_check now ip sid k) (\<lambda>d g. d = Allow \<longrightarrow> True) {}"
proof (rule obeys_limiter_check)
  have s: "room_rel rl_ips ips_cap {} {} rl (snd (session_take now sid n rl))" for rl n
    using session_take_sessions [of now sid n rl] by (auto simp: ips_cap_def intro!: room_rel_frame)
  show "obeys (room_rel rl_ips ips_cap) (session_check now sid n) (\<lambda>d g. g = {} \<and> d \<noteq> Some Allow) {}" for n
    using s takes_never_allow(1) by (auto simp: session_check_def room_rel_same deny_def intro!: exI [of _ "{}"])
  have "obeys (room_rel rl_ips ips_cap) (seq (atomic (\<lambda>rl. (al_get (rl_ips rl) ip \<noteq> None, rl))) (\<lambda>known.
      seq (if known then Ret False else atomic (\<lambda>rl. (length (rl_ips rl) \<ge> ips_cap rl, rl))) (\<lambda>full.
      if full then Ret (Some (deny ''ip_sessions'' 1)) else atomic (ip_take now ip sid)))) (\<lambda>d g. g = {} \<and> d \<noteq> Some Allow) {}"
  proof (rule obeys_entry)
    fix rl
    show "\<exists>v. rl_ips (snd (ip_take now ip sid rl)) = al_put ip v (rl_ips rl)"
      using ip_take_ips [of now ip sid rl] by blast
    show "ips_cap (snd (ip_take now ip sid rl)) = ips_cap rl"
      using ip_take_ips [of now ip sid rl] by (auto simp: ips_cap_def)
    show "fst (ip_take now ip sid rl) \<noteq> Some Allow" by (rule takes_never_allow)
  qed (simp add: deny_def)
  then show "obeys (room_rel rl_ips ips_cap) (ip_check now ip sid) (\<lambda>d g. g = {} \<and> d \<noteq> Some Allow) {}"
    unfolding ip_check_def ips_cap_def [symmetric] by (cases "is_unspecified ip") (simp, simp only: if_False)
  show "obeys (room_rel rl_ips ips_cap) (atomic (check_global now n)) (\<lambda>d g. d = Allow \<longrightarrow> True) {}" for n
    by (auto simp: check_global_frame' ips_cap_def intro!: exI [of _ "{}"] room_rel_frame)
qed

lemma room_rel_part:
  "room_rel m cap g g' (as_limiter s) (as_limiter s') \<Longrightarrow> room_rel (m \<circ> as_limiter) (cap \<circ> as_limiter) g g' s s'"
  by (simp add: room_rel_def)

lemma prune_room:
  assumes "rl' \<in> {prune_sessions now rl, prune_ips now rl}"
  shows "room_rel rl_sessions sessions_cap {} {} rl rl'" and "room_rel rl_ips ips_cap {} {} rl rl'"
proof -
  have sub: "fst ` set (al_retain P xs) \<subseteq> fst ` set xs" for P and xs :: "('k \<times> 'v) list"
    by (auto simp: al_retain_def)
  have purged: "map fst (map (\<lambda>(ip, w). (ip, f w)) xs) = map fst xs" for f :: "ip_window \<Rightarrow> ip_window" and xs :: "(ip_addr \<times> ip_window) list"
    by (induction xs) auto
  have keys: "fst ` set (al_retain P (map (\<lambda>(ip, w). (ip, f w)) xs)) \<subseteq> fst ` set xs"
    for P and f :: "ip_window \<Rightarrow> ip_window" and xs :: "(ip_addr \<times> ip_window) list"
    using sub [of P "map (\<lambda>(ip, w). (ip, f w)) xs"] by (metis purged set_map)
  have ok: "al_ok (al_retain P (map (\<lambda>(ip, w). (ip, f w)) xs))" if "al_ok xs"
    for P and f :: "ip_window \<Rightarrow> ip_window" and xs :: "(ip_addr \<times> ip_window) list"
    using that by (intro al_ok_retain) (simp only: al_ok_def purged)
  from assms consider "rl' = prune_sessions now rl" | "rl' = prune_ips now rl" by auto
  then have "room_rel rl_sessions sessions_cap {} {} rl rl' \<and> room_rel rl_ips ips_cap {} {} rl rl'"
  proof cases
    case 1
    have "room_rel rl_sessions sessions_cap {} {} rl rl'"
      unfolding 1 prune_sessions_def room_rel_def sessions_cap_def by (simp add: sub)
    moreover have "room_rel rl_ips ips_cap {} {} rl rl'"
      by (rule room_rel_frame) (simp_all add: 1 prune_sessions_def ips_cap_def)
    ultimately show ?thesis ..
  next
    case 2
    have "room_rel rl_ips ips_cap {} {} rl rl'"
      unfolding 2 prune_ips_def room_rel_def ips_cap_def Let_def by (simp add: keys ok del: set_map)
    moreover have "room_rel rl_sessions sessions_cap {} {} rl rl'"
      by (rule room_rel_frame) (simp_all add: 2 prune_ips_def sessions_cap_def Let_def)
    ultimately show ?thesis by simp
  qed
  then show "room_rel rl_sessions sessions_cap {} {} rl rl'" and "room_rel rl_ips ips_cap {} {} rl rl'" by simp_all
qed

lemma room_admission:
  fixes m :: "rate_limiter \<Rightarrow> ('k \<times> 'v) list"
  assumes "\<And>now ip sid k. obeys (room_rel m cap) (limiter_check now ip sid k) (\<lambda>d g. d = Allow \<longrightarrow> True) {}"
    and "\<And>rl rl' now. rl' \<in> {prune_sessions now rl, prune_ips now rl} \<Longrightarrow> room_rel m cap {} {} rl rl'"
  shows "admission (room_rel (m \<circ> as_limiter) (cap \<circ> as_limiter)) {} (\<lambda>_ _. True)"
proof
  fix g k now ip sid and s s' :: "'db app_state"
  show same: "as_limiter s' = as_limiter s \<Longrightarrow> queued s' = queued s \<Longrightarrow>
      room_rel (m \<circ> as_limiter) (cap \<circ> as_limiter) g g s s'" for g
    by (intro room_rel_same) simp_all
  show "as_limiter s' = as_limiter s \<Longrightarrow> \<exists>g'. room_rel (m \<circ> as_limiter) (cap \<circ> as_limiter) g g' s s'"
    by (intro exI [of _ g] room_rel_same) simp_all
  show "obeys (room_rel (m \<circ> as_limiter) (cap \<circ> as_limiter) :: 'k set \<Rightarrow> 'k set \<Rightarrow> 'db app_state \<Rightarrow> 'db app_state \<Rightarrow> bool)
      (on_limiter (limiter_check now ip sid k)) (\<lambda>d g. d = Allow \<longrightarrow> True) {}"
    unfolding on_limiter_def by (rule obeys_focus [OF assms(1)]) (simp add: room_rel_def)
  show "as_limiter s' \<in> {prune_sessions now (as_limiter s), prune_ips now (as_limiter s)} \<Longrightarrow>
      room_rel (m \<circ> as_limiter) (cap \<circ> as_limiter) {} {} s s'"
    using assms(2) by (intro room_rel_part)
qed

interpretation sessions_room: admission "room_rel (rl_sessions \<circ> as_limiter) (sessions_cap \<circ> as_limiter)" "{}" "\<lambda>_ _. True"
  by (rule room_admission [OF obeys_sessions_room prune_room(1)])

interpretation ips_room: admission "room_rel (rl_ips \<circ> as_limiter) (ips_cap \<circ> as_limiter)" "{}" "\<lambda>_ _. True"
  by (rule room_admission [OF obeys_ips_room prune_room(2)])

text \<open>The most programs that were in flight at once.\<close>

definition peak :: "nat \<Rightarrow> 's \<Rightarrow> 's \<Rightarrow> nat \<Rightarrow> nat" where
  "peak n s s' most = max most n"

lemma peak_arrivals:
  "noted f peak ms c m \<le> max m (length (pl_running c) + length (filter (\<lambda>mv. \<exists>op. mv = Arrive op) ms))"
proof (induction ms arbitrary: c m)
  case (Cons mv ms)
  have "length (pl_running (pool_step f mv c))
      \<le> length (pl_running c) + (if \<exists>op. mv = Arrive op then 1 else 0)"
    by (cases mv) (auto split: prod.split prog.split)
  with Cons [of "pool_step f mv c" "peak (length (pl_running (pool_step f mv c))) (pl_state c)
      (pl_state (pool_step f mv c)) m"]
  show ?case by (auto simp: peak_def Let_def)
qed simp

definition room_inv ::
    "('s \<Rightarrow> ('k \<times> 'v) list) \<Rightarrow> ('s \<Rightarrow> nat) \<Rightarrow> nat \<Rightarrow> nat \<Rightarrow> 's \<Rightarrow> ('o \<times> 'a) list \<Rightarrow> 'k set list \<Rightarrow> bool" where
  "room_inv m cap limit most s as gs \<longleftrightarrow> al_ok (m s) \<and> cap s = limit \<and> length gs \<le> most
     \<and> (\<forall>g \<in> set gs. finite g \<and> card g \<le> 1)
     \<and> card (fst ` set (m s) \<union> \<Union> (set gs)) \<le> limit + (most - 1)"

lemma card_Union_ledgers: "\<forall>g \<in> set gs. finite g \<and> card g \<le> 1 \<Longrightarrow> card (\<Union> (set gs)) \<le> length gs"
proof (induction gs)
  case (Cons g gs)
  have "card (g \<union> \<Union> (set gs)) \<le> card g + card (\<Union> (set gs))" by (rule card_Un_le)
  with Cons show ?case by auto
qed simp

lemma room_inv_act:
  assumes inv: "room_inv m cap limit most s as (xs @ g # ys)" and rel: "room_rel m cap g g' s s'"
  shows "room_inv m cap limit (max most (Suc (length xs + length ys))) s' as (xs @ g' # ys)"
proof -
  let ?K = "\<lambda>s. fst ` set (m s)" and ?L = "\<lambda>g. \<Union> (set (xs @ g # ys))"
  from inv have raw: "al_ok (m s)" "cap s = limit" "length (xs @ g # ys) \<le> most"
    and led: "\<forall>g \<in> set (xs @ g # ys). finite g \<and> card g \<le> 1" and c: "card (?K s \<union> ?L g) \<le> limit + (most - 1)"
    unfolding room_inv_def by blast+
  then have ok: "al_ok (m s)" "cap s = limit" "Suc (length xs + length ys) \<le> most" by simp_all
  from rel ok have ok': "al_ok (m s')" "cap s' = limit" "?K s' \<subseteq> ?K s \<union> g"
    and g': "g' \<subseteq> g \<or> m s' = m s \<and> finite g' \<and> card g' \<le> 1 \<and> (g' \<subseteq> ?K s \<or> length (m s) < limit)"
    by (auto simp: room_rel_def)
  have fin: "finite (?K s \<union> ?L g)" using led by auto
  have g: "finite g" "card g \<le> 1" using led by simp_all
  have led': "finite g' \<and> card g' \<le> 1"
    using g' finite_subset [OF _ g(1)] card_mono [OF g(1)] g(2) by (meson order_trans)
  have "card (?K s' \<union> ?L g') \<le> limit + (most - 1)"
  proof (cases "g' \<subseteq> g \<or> g' \<subseteq> ?K s")
    case True
    then have "?K s' \<union> ?L g' \<subseteq> ?K s \<union> ?L g" using ok'(3) g' by auto
    from card_mono [OF fin this] c show ?thesis by simp
  next
    case False
    with g' have keys: "m s' = m s" "length (m s) < limit" by auto
    have "card (?K s) \<le> length (m s)" by (metis card_length length_map set_map)
    moreover have "\<forall>g \<in> set (xs @ g' # ys). finite g \<and> card g \<le> 1" using led led' by auto
    from card_Union_ledgers [OF this] have "card (?L g') \<le> Suc (length xs + length ys)" by simp
    moreover have "card (?K s \<union> ?L g') \<le> card (?K s) + card (?L g')" by (rule card_Un_le)
    ultimately show ?thesis using keys ok(3) by simp
  qed
  with ok ok' led led' show ?thesis by (auto simp: room_inv_def max_absorb1)
qed

lemma room_inv_leave:
  assumes "room_inv m cap limit most s as (xs @ g # ys)"
  shows "room_inv m cap limit (max most n) s as' (xs @ ys)"
proof -
  have "card (fst ` set (m s) \<union> \<Union> (set (xs @ ys))) \<le> card (fst ` set (m s) \<union> \<Union> (set (xs @ g # ys)))"
    using assms by (intro card_mono) (auto simp: room_inv_def)
  with assms show ?thesis by (auto simp: room_inv_def)
qed

lemma room_discipline:
  assumes start: "\<And>op. obeys (room_rel m cap) (prog_of op) (\<lambda>_ _. True) {}"
  shows "discipline prog_of (room_rel m cap) (\<lambda>_ _ _. True) {} (room_inv m cap limit) peak"
proof
  show "obeys (room_rel m cap) (prog_of op) (\<lambda>_ _. True) {}" for op by (rule start)
  show "room_inv m cap limit most s as gs \<Longrightarrow> room_inv m cap limit (peak (Suc (length gs)) s s most) s as (gs @ [{}])"
    for most s as gs by (auto simp: room_inv_def peak_def)
  show "room_inv m cap limit most s as gs \<Longrightarrow> room_inv m cap limit (peak (length gs) s s most) s as gs"
    for most s as gs by (auto simp: room_inv_def peak_def)
qed (simp_all add: peak_def room_inv_act room_inv_leave)

lemma room_inv_length:
  assumes "room_inv m cap limit most s as gs"
  shows "length (m s) \<le> limit + (most - 1)"
proof -
  have "length (m s) = card (fst ` set (m s))"
    using assms distinct_card [of "map fst (m s)"] by (simp add: room_inv_def al_ok_def)
  also have "\<dots> \<le> card (fst ` set (m s) \<union> \<Union> (set gs))"
    using assms by (intro card_mono) (auto simp: room_inv_def)
  also have "\<dots> \<le> limit + (most - 1)" using assms by (simp only: room_inv_def)
  finally show ?thesis .
qed

text \<open>C8. The memory of the limiter is bounded whatever the threads do: at any time the tracked sessions and the
  tracked addresses exceed their caps by fewer entries than the most requests that were in flight at once.\<close>

theorem interleaved_memory_bound:
  assumes "max_logs_records (ae_cfg env) < 2 ^ 32" and "max_batch_events (ae_limits env) < 2 ^ 32"
    and "cfg = cfg_rate_limit (ae_cfg env)" and "c0 = pool_start (app_state_new env t0 db)"
    and "rl = as_limiter (pl_state (pool_run (request_prog env so) ms c0))"
    and "most = noted (request_prog env so) peak ms c0 0"
  shows "tracked_sessions rl \<le> max_tracked_sessions cfg + (most - 1)
    \<and> tracked_ips rl \<le> max_tracked_ips cfg + (most - 1)"
proof
  have l: "as_limiter (app_state_new env t0 db) = rate_limiter_new cfg t0"
    by (simp add: app_state_new_def assms(3))
  have s: "room_inv (rl_sessions \<circ> as_limiter) (sessions_cap \<circ> as_limiter) (max_tracked_sessions cfg) 0
      (app_state_new env t0 db) [] []"
    by (simp add: room_inv_def l rate_limiter_new_def sessions_cap_def)
  from discipline.start_keeps [OF room_discipline [of _ _ "request_prog env so", OF sessions_room.obeys_request [OF assms(1,2)]] this, of ms]
  show "tracked_sessions rl \<le> max_tracked_sessions cfg + (most - 1)"
    unfolding assms(4-6) by (auto simp: tracked_sessions_def dest: room_inv_length)
  have i: "room_inv (rl_ips \<circ> as_limiter) (ips_cap \<circ> as_limiter) (max_tracked_ips cfg) 0
      (app_state_new env t0 db) [] []"
    by (simp add: room_inv_def l rate_limiter_new_def ips_cap_def)
  from discipline.start_keeps [OF room_discipline [of _ _ "request_prog env so", OF ips_room.obeys_request [OF assms(1,2)]] this, of ms]
  show "tracked_ips rl \<le> max_tracked_ips cfg + (most - 1)"
    unfolding assms(4-6) by (auto simp: tracked_ips_def dest: room_inv_length)
qed

definition demo_moves :: "api_op move list" where
  "demo_moves = [Arrive (PostEvents demo_request None), Arrive (Maintenance 7), Advance 1, Advance 0, Advance 1]"

lemma interleaved_flood_bound_witness:
  "real (queued (pl_state (pool_run (request_prog demo_api demo_stores) demo_moves (pool_start (app_state_new demo_api 5 ())))))
    \<le> global_burst rl_default + as_secs_f64 (bucket_clock (pl_state (pool_run (request_prog demo_api demo_stores) demo_moves
          (pool_start (app_state_new demo_api 5 ()))))
        + noted (request_prog demo_api demo_stores) clock_set_back demo_moves (pool_start (app_state_new demo_api 5 ())) 0
        - 5) * global_per_sec rl_default"
  by (rule interleaved_flood_bound [OF _ _ rl_default_ok(1) _ refl refl]) (simp_all add: demo_api_def demo_service_def)

lemma interleaved_memory_bound_witness:
  "tracked_sessions (as_limiter (pl_state (pool_run (request_prog demo_api demo_stores) demo_moves
      (pool_start (app_state_new demo_api 5 ()))))) \<le> 500000 + 1
    \<and> tracked_ips (as_limiter (pl_state (pool_run (request_prog demo_api demo_stores) demo_moves
      (pool_start (app_state_new demo_api 5 ()))))) \<le> 200000 + 1"
proof -
  have "noted (request_prog demo_api demo_stores) peak demo_moves (pool_start (app_state_new demo_api 5 ())) 0 \<le> 2"
    using peak_arrivals [of "request_prog demo_api demo_stores" demo_moves "pool_start (app_state_new demo_api 5 ())" 0]
    by (simp add: demo_moves_def pool_start_def)
  moreover have "max_logs_records (ae_cfg demo_api) < 2 ^ 32" "max_batch_events (ae_limits demo_api) < 2 ^ 32"
    "rl_default = cfg_rate_limit (ae_cfg demo_api)"
    by (simp_all add: demo_api_def demo_service_def)
  note interleaved_memory_bound [OF this refl refl refl, where so = demo_stores and ms = demo_moves and ?t0.0 = 5 and db = "()"]
  moreover have "max_tracked_sessions rl_default = 500000" "max_tracked_ips rl_default = 200000"
    by (simp_all add: rl_default_def)
  ultimately show ?thesis by linarith
qed

subsection \<open>Races\<close>

text \<open>Two sessions that both look before either enters: the cap of one session is exceeded by one, as the
  bound allows.\<close>

definition small_limiter :: rate_limiter where
  "small_limiter = rate_limiter_new (rl_default\<lparr>max_tracked_sessions := 1\<rparr>) 0"

lemma sessions_overrun:
  defines "c \<equiv> pool_run (\<lambda>sid. session_check 0 sid 1)
    [Arrive ''a'', Arrive ''b'', Advance 0, Advance 0, Advance 1, Advance 1, Advance 0, Advance 1]
    (pool_start small_limiter)"
  shows "tracked_sessions (pl_state c) = 2"
  by (simp add: c_def pool_run_def pool_start_def session_check_def session_take_def atomic_def small_limiter_def
      rate_limiter_new_def rl_default_def try_take_def session_entry_def bucket_new_def tracked_sessions_def
      as_secs_f64_def al_get_def al_put_def Let_def)

text \<open>\<^verbatim>\<open>is_banned\<close> reads the end of a ban and then removes the entry of the address, whatever it has
  become: a ban that is set between the two is lost.\<close>

lemma fresh_ban_lost:
  fixes g :: anomaly_guard
  assumes "al_get (ag_banned g) ip = Some until" "until \<le> now" "\<not> is_unspecified ip"
    and "al_get (ag_banned (record_bad ip now g)) ip = Some until'" "now < until'"
  defines "prog_of \<equiv> \<lambda>check. if check then banned_check ip now else seq (bad_request ip now) (\<lambda>_. Ret False)"
  shows "\<exists>ms. pool_run prog_of (Arrive True # Advance 0 # Arrive False # ms @ [Advance 0]) (pool_start g)
    = \<lparr>pl_state = (record_bad ip now g)\<lparr>ag_banned := al_del ip (ag_banned (record_bad ip now g))\<rparr>,
       pl_running = [(True, Ret False)], pl_answered = [(False, False)]\<rparr>"
proof -
  define rest where "rest = seq (atomic (\<lambda>g :: anomaly_guard. ((), g\<lparr>ag_banned := al_del ip (ag_banned g)\<rparr>))) (\<lambda>_. Ret False)"
  have looked: "pool_run prog_of [Arrive True, Advance 0, Arrive False] (pool_start g)
      = \<lparr>pl_state = g, pl_running = [(True, rest)] @ [(False, prog_of False)], pl_answered = []\<rparr>"
    using assms(1-3) by (simp add: prog_of_def pool_run_def pool_start_def banned_check_def atomic_def rest_def)
  obtain ms where "pool_run prog_of ms \<lparr>pl_state = g, pl_running = [(True, rest)] @ [(False, prog_of False)], pl_answered = []\<rparr>
      = \<lparr>pl_state = record_bad ip now g, pl_running = [(True, rest)], pl_answered = [(False, False)]\<rparr>"
    using uninterrupted [of prog_of g "[(True, rest)]" False "prog_of False" "[]"]
    by (auto simp: prog_of_def alone_bad_request)
  then have "pool_run prog_of ([Arrive True, Advance 0, Arrive False] @ ms @ [Advance 0]) (pool_start g)
      = pool_step prog_of (Advance 0) \<lparr>pl_state = record_bad ip now g, pl_running = [(True, rest)], pl_answered = [(False, False)]\<rparr>"
    unfolding pool_run_append looked by (simp add: pool_run_def)
  then show ?thesis by (intro exI [of _ ms]) (simp add: rest_def atomic_def)
qed

text \<open>The room made for one window is not kept for it: two addresses that find the map full choose the same
  entry to evict, and both enter. The map, however far past its cap it is already, is one longer
  than before; the same two actions make and use the room of a ban.\<close>

lemma suspects_overrun:
  assumes "al_ok (ag_bad g)" "anomaly_max_tracked_ips (ag_cfg g) \<le> length (ag_bad g)" "ag_bad g \<noteq> []"
    and "\<forall>(_, w) \<in> set (ag_bad g). now - bw_start w < bad_window (ag_cfg g)"
    and "al_get (ag_bad g) a = None" "al_get (ag_bad g) b = None" "a \<noteq> b" "\<not> is_unspecified a" "\<not> is_unspecified b"
    and "1 < bad_requests_threshold (ag_cfg g)"
  defines "c \<equiv> pool_run (\<lambda>ip. bad_request ip now) ([Arrive a, Arrive b] @ replicate 5 (Advance 0) @ replicate 5 (Advance 1)
      @ [Advance 0, Advance 0, Advance 1, Advance 1, Advance 0, Advance 0]) (pool_start g)"
  shows "length (ag_bad (pl_state c)) = Suc (length (ag_bad g)) \<and> pl_running c = []"
proof -
  define m where "m = ag_bad g"
  have fresh: "al_retain (\<lambda>_ w. now - bw_start w < bad_window (ag_cfg g)) m = m"
    using assms(4) by (auto simp: al_retain_def m_def intro: filter_True)
  obtain k w where k: "min_by_key (\<lambda>(_, w). bw_start w) m = Some (k, w)"
    using assms(3) by (cases "min_by_key (\<lambda>(_, w). bw_start w) m") (auto simp: m_def)
  then have km: "al_get m k = Some w" "k \<noteq> a" "k \<noteq> b"
    using assms(1,5,6) al_get_eq_SomeI [of m k w] min_by_key_in [OF k] by (auto simp: m_def)
  have len: "length (al_put b wb (al_del k (al_put a wa (al_del k m)))) = Suc (length m)" for wa wb
    using assms(1,3,5-7) km by (simp add: length_al_put length_al_del al_get_put al_get_del m_def)
  show ?thesis
    using assms(2,5-10) fresh k km len
    by (simp add: c_def pool_run_def pool_start_def bad_request_def bad_room_def bad_counted_def count_bad_def change_def
        atomic_def al_get_put al_get_del numeral_eq_Suc flip: m_def)
qed

text \<open>A bucket takes the clock of the latest call, not the latest clock: a reading that arrives late sets
  the bucket back, and the next one refills the same stretch of time again.\<close>

lemma late_reading_refills:
  assumes "bk_last b \<le> late" "late < now" "bk_tokens b + as_secs_f64 (now - bk_last b) * bk_rate b \<le> bk_burst b" "bucket_ok b"
  shows "bk_tokens (snd (try_take 0 now (snd (try_take 0 late (snd (try_take 0 now b))))))
    = min (bk_tokens b + as_secs_f64 (now - bk_last b) * bk_rate b + as_secs_f64 (now - late) * bk_rate b) (bk_burst b)"
  using assms by (simp add: try_take_def Let_def bucket_ok_def as_secs_f64_def min_absorb1)

end
