(* ===== verification/Wire.thy ===== *)
theory Wire
  imports Events Logs Traces Metrics
begin

text \<open>
  The JSON bodies of the ingestion routes: the structures that \<^verbatim>\<open>events/model.rs\<close>,
  \<^verbatim>\<open>otlp/json.rs\<close> and the \<^verbatim>\<open>model.rs\<close> of logs, traces and metrics derive
  \<^verbatim>\<open>Deserialize\<close> for, as decoders from a JSON value. The decoders follow the documented rules
  of serde: a structure is an object, or an array of its fields in order; unknown fields are ignored;
  a missing field is its default, an error when it has none; null is an absent option. Reading the
  text as a JSON value is the crate's work (it also refuses an object with a repeated field); a failed
  decoding is \<open>None\<close>, since the handlers give one answer to every failure.
\<close>

subsection \<open>Decoders\<close>

definition object_of :: "string list \<Rightarrow> json \<Rightarrow> json_map option" where
  "object_of names j =
     (case j of
        JObj m \<Rightarrow> Some m
      | JArr vs \<Rightarrow> if length vs \<le> length names then Some (zip names vs) else None
      | _ \<Rightarrow> None)"

definition field_of :: "'a option \<Rightarrow> (json \<Rightarrow> 'a option) \<Rightarrow> json_map \<Rightarrow> string \<Rightarrow> 'a option" where
  "field_of dflt d m k = (case al_get m k of None \<Rightarrow> dflt | Some j \<Rightarrow> d j)"

definition opt_of :: "(json \<Rightarrow> 'a option) \<Rightarrow> json \<Rightarrow> 'a option option" where
  "opt_of d j = (if j = JNull then Some None else map_option Some (d j))"

definition list_of :: "(json \<Rightarrow> 'a option) \<Rightarrow> json \<Rightarrow> 'a list option" where
  "list_of d j = (case j of JArr vs \<Rightarrow> those (map d vs) | _ \<Rightarrow> None)"

text \<open>A field of type \<^verbatim>\<open>Option\<close>, and one of type \<^verbatim>\<open>Vec\<close>, with their defaults.\<close>

abbreviation opt_field :: "(json \<Rightarrow> 'a option) \<Rightarrow> json_map \<Rightarrow> string \<Rightarrow> 'a option option" where
  "opt_field d \<equiv> field_of (Some None) (opt_of d)"

abbreviation list_field :: "(json \<Rightarrow> 'a option) \<Rightarrow> json_map \<Rightarrow> string \<Rightarrow> 'a list option" where
  "list_field d \<equiv> field_of (Some []) (list_of d)"

abbreviation req_field :: "(json \<Rightarrow> 'a option) \<Rightarrow> json_map \<Rightarrow> string \<Rightarrow> 'a option" where
  "req_field d \<equiv> field_of None d"

definition text_of :: "json \<Rightarrow> string option" where
  "text_of j = (case j of JStr s \<Rightarrow> Some s | _ \<Rightarrow> None)"

definition bool_of :: "json \<Rightarrow> bool option" where
  "bool_of j = (case j of JBool b \<Rightarrow> Some b | _ \<Rightarrow> None)"

definition f64_of :: "json \<Rightarrow> real option" where
  "f64_of j = (case j of JNum (PosInt n) \<Rightarrow> Some (real n) | JNum (NegInt i) \<Rightarrow> Some (real_of_int i)
     | JNum (JFloat f) \<Rightarrow> Some f | _ \<Rightarrow> None)"

definition i64_of :: "json \<Rightarrow> int option" where
  "i64_of j = (case j of JNum (PosInt n) \<Rightarrow> if n < 2 ^ 63 then Some (int n) else None
     | JNum (NegInt i) \<Rightarrow> Some i | _ \<Rightarrow> None)"

definition string_or_num_of :: "json \<Rightarrow> string_or_num option" where
  "string_or_num_of j = (case j of JStr s \<Rightarrow> Some (Str s) | JNum n \<Rightarrow> Some (Num n) | _ \<Rightarrow> None)"

subsection \<open>Values and attributes\<close>

definition value_fields :: "string list" where
  "value_fields = [''stringValue'', ''intValue'', ''doubleValue'', ''boolValue'', ''arrayValue'', ''kvlistValue'', ''bytesValue'']"

lemma al_get_size: "al_get m k = Some v \<Longrightarrow> size v < size (JObj m)"
proof -
  assume "al_get m k = Some v"
  then have "(k, v) \<in> set m" by (simp add: al_get_def map_of_SomeD)
  then show ?thesis
    by (induction m) auto
qed

lemma object_of_size:
  assumes "object_of names j = Some m" and "al_get m k = Some v"
  shows "size v < size j"
proof (cases j)
  case (JObj m')
  with assms al_get_size [of m k v] show ?thesis by (simp add: object_of_def)
next
  case (JArr vs)
  with assms have "(k, v) \<in> set (zip names vs)" by (auto simp: object_of_def al_get_def map_of_SomeD split: if_splits)
  then have "v \<in> set vs" by (rule set_zip_rightD)
  then have "size v < Suc (size_list size vs)" by (induction vs) auto
  with JArr show ?thesis by simp
qed (use assms in \<open>simp_all add: object_of_def\<close>)

lemma element_size: "v \<in> set vs \<Longrightarrow> size v < size (JArr vs)"
  by (induction vs) auto

lemma field_of_cong [fundef_cong]:
  "dflt = dflt' \<Longrightarrow> m = m' \<Longrightarrow> k = k' \<Longrightarrow> (\<And>j. al_get m' k' = Some j \<Longrightarrow> d j = d' j) \<Longrightarrow>
     field_of dflt d m k = field_of dflt' d' m' k'"
  by (simp add: field_of_def split: option.split)

lemma opt_of_cong [fundef_cong]: "j = j' \<Longrightarrow> d j' = d' j' \<Longrightarrow> opt_of d j = opt_of d' j'"
  by (simp add: opt_of_def)

lemma list_of_cong [fundef_cong]:
  "j = j' \<Longrightarrow> (\<And>vs v. j' = JArr vs \<Longrightarrow> v \<in> set vs \<Longrightarrow> d v = d' v) \<Longrightarrow> list_of d j = list_of d' j'"
  by (auto simp: list_of_def split: json.split cong: map_cong)

function value_of :: "json \<Rightarrow> any_value option" and pair_of :: "json \<Rightarrow> key_value option" where
  "value_of j =
     Option.bind (object_of value_fields j) (\<lambda>m.
     Option.bind (opt_field text_of m ''stringValue'') (\<lambda>s.
     Option.bind (opt_field string_or_num_of m ''intValue'') (\<lambda>i.
     Option.bind (opt_field f64_of m ''doubleValue'') (\<lambda>d.
     Option.bind (opt_field bool_of m ''boolValue'') (\<lambda>b.
     Option.bind (opt_field (\<lambda>a. Option.bind (object_of [''values''] a) (\<lambda>n. list_field value_of n ''values'')) m ''arrayValue'') (\<lambda>a.
     Option.bind (opt_field (\<lambda>a. Option.bind (object_of [''values''] a) (\<lambda>n. list_field pair_of n ''values'')) m ''kvlistValue'') (\<lambda>kv.
     Option.bind (opt_field text_of m ''bytesValue'') (\<lambda>bs.
     Some (AnyValue s i d b a kv bs)))))))))"
| "pair_of j =
     Option.bind (object_of [''key'', ''value''] j) (\<lambda>m.
     Option.bind (req_field text_of m ''key'') (\<lambda>k.
     Option.bind (opt_field value_of m ''value'') (\<lambda>v.
     Some (k, v))))"
  by pat_completeness auto
termination
  by (relation "measure (\<lambda>x. case x of Inl j \<Rightarrow> size j | Inr j \<Rightarrow> size j)")
    (auto dest!: object_of_size element_size intro: less_trans)

declare value_of.simps [simp del] pair_of.simps [simp del]

subsection \<open>Requests\<close>

definition attrs_field :: "json_map \<Rightarrow> key_value list option" where
  "attrs_field m = list_field pair_of m ''attributes''"

definition resource_of :: "json \<Rightarrow> key_value list option" where
  "resource_of j = Option.bind (object_of [''attributes''] j) attrs_field"

definition scope_of :: "json \<Rightarrow> string option option" where
  "scope_of j = Option.bind (object_of [''name''] j) (\<lambda>m. opt_field text_of m ''name'')"

definition scope_group_of :: "string \<Rightarrow> (json \<Rightarrow> 'r option) \<Rightarrow> json \<Rightarrow> (string option option \<times> 'r list) option" where
  "scope_group_of records d j =
     Option.bind (object_of [''scope'', records] j) (\<lambda>m.
     Option.bind (opt_field scope_of m ''scope'') (\<lambda>sc.
     Option.bind (list_field d m records) (\<lambda>rs.
     Some (sc, rs))))"

definition group_of ::
    "string \<Rightarrow> string \<Rightarrow> (json \<Rightarrow> 'r option) \<Rightarrow> json \<Rightarrow> (key_value, string option, 'r) resource_group option" where
  "group_of scopes records d j =
     Option.bind (object_of [''resource'', scopes] j) (\<lambda>m.
     Option.bind (opt_field resource_of m ''resource'') (\<lambda>r.
     Option.bind (list_field (scope_group_of records d) m scopes) (\<lambda>ss.
     Some \<lparr>rg_resource = r, rg_scopes = ss\<rparr>)))"

definition request_of ::
    "string \<Rightarrow> string \<Rightarrow> string \<Rightarrow> (json \<Rightarrow> 'r option) \<Rightarrow> json \<Rightarrow> (key_value, string option, 'r) resource_group list option" where
  "request_of groups scopes records d j =
     Option.bind (object_of [groups] j) (\<lambda>m. list_field (group_of scopes records d) m groups)"

subsubsection \<open>Logs\<close>

definition log_record_of :: "json \<Rightarrow> log_record option" where
  "log_record_of j =
     Option.bind (object_of [''timeUnixNano'', ''observedTimeUnixNano'', ''severityNumber'', ''severityText'', ''body'',
       ''attributes'', ''traceId'', ''spanId''] j) (\<lambda>m.
     Option.bind (opt_field string_or_num_of m ''timeUnixNano'') (\<lambda>t.
     Option.bind (opt_field string_or_num_of m ''observedTimeUnixNano'') (\<lambda>ot.
     Option.bind (opt_field i64_of m ''severityNumber'') (\<lambda>sn.
     Option.bind (opt_field text_of m ''severityText'') (\<lambda>st.
     Option.bind (opt_field value_of m ''body'') (\<lambda>b.
     Option.bind (attrs_field m) (\<lambda>a.
     Option.bind (opt_field text_of m ''traceId'') (\<lambda>ti.
     Option.bind (opt_field text_of m ''spanId'') (\<lambda>si.
     Some \<lparr>lr_time = t, lr_observed_time = ot, lr_severity_number = sn, lr_severity_text = st, lr_body = b,
           lr_attributes = a, lr_trace_id = ti, lr_span_id = si\<rparr>)))))))))"

definition logs_request_of :: "json \<Rightarrow> logs_request option" where
  "logs_request_of = request_of ''resourceLogs'' ''scopeLogs'' ''logRecords'' log_record_of"

subsubsection \<open>Spans\<close>

definition span_event_of :: "json \<Rightarrow> span_event option" where
  "span_event_of j =
     Option.bind (object_of [''timeUnixNano'', ''name'', ''attributes''] j) (\<lambda>m.
     Option.bind (opt_field string_or_num_of m ''timeUnixNano'') (\<lambda>t.
     Option.bind (opt_field text_of m ''name'') (\<lambda>n.
     Option.bind (attrs_field m) (\<lambda>a.
     Some \<lparr>ev_time = t, ev_name = n, ev_attributes = a\<rparr>))))"

definition span_link_of :: "json \<Rightarrow> span_link option" where
  "span_link_of j =
     Option.bind (object_of [''traceId'', ''spanId'', ''attributes''] j) (\<lambda>m.
     Option.bind (opt_field text_of m ''traceId'') (\<lambda>ti.
     Option.bind (opt_field text_of m ''spanId'') (\<lambda>si.
     Option.bind (attrs_field m) (\<lambda>a.
     Some \<lparr>ln_trace_id = ti, ln_span_id = si, ln_attributes = a\<rparr>))))"

definition span_status_of :: "json \<Rightarrow> span_status option" where
  "span_status_of j =
     Option.bind (object_of [''code'', ''message''] j) (\<lambda>m.
     Option.bind (opt_field i64_of m ''code'') (\<lambda>c.
     Option.bind (opt_field text_of m ''message'') (\<lambda>msg.
     Some \<lparr>st_code = c, st_message = msg\<rparr>)))"

definition span_of :: "json \<Rightarrow> span option" where
  "span_of j =
     Option.bind (object_of [''traceId'', ''spanId'', ''parentSpanId'', ''name'', ''kind'', ''startTimeUnixNano'',
       ''endTimeUnixNano'', ''attributes'', ''events'', ''links'', ''status''] j) (\<lambda>m.
     Option.bind (opt_field text_of m ''traceId'') (\<lambda>ti.
     Option.bind (opt_field text_of m ''spanId'') (\<lambda>si.
     Option.bind (opt_field text_of m ''parentSpanId'') (\<lambda>pi.
     Option.bind (opt_field text_of m ''name'') (\<lambda>n.
     Option.bind (opt_field i64_of m ''kind'') (\<lambda>k.
     Option.bind (opt_field string_or_num_of m ''startTimeUnixNano'') (\<lambda>t0.
     Option.bind (opt_field string_or_num_of m ''endTimeUnixNano'') (\<lambda>t1.
     Option.bind (attrs_field m) (\<lambda>a.
     Option.bind (list_field span_event_of m ''events'') (\<lambda>es.
     Option.bind (list_field span_link_of m ''links'') (\<lambda>ls.
     Option.bind (opt_field span_status_of m ''status'') (\<lambda>s.
     Some \<lparr>sp_trace_id = ti, sp_span_id = si, sp_parent_span_id = pi, sp_name = n, sp_kind = k, sp_start_time = t0,
           sp_end_time = t1, sp_attributes = a, sp_events = es, sp_links = ls, sp_status = s\<rparr>))))))))))))"

definition spans_request_of :: "json \<Rightarrow> spans_request option" where
  "spans_request_of = request_of ''resourceSpans'' ''scopeSpans'' ''spans'' span_of"

subsubsection \<open>Metrics\<close>

definition number_point_of :: "json \<Rightarrow> number_point option" where
  "number_point_of j =
     Option.bind (object_of [''timeUnixNano'', ''asDouble'', ''asInt'', ''attributes''] j) (\<lambda>m.
     Option.bind (opt_field string_or_num_of m ''timeUnixNano'') (\<lambda>t.
     Option.bind (opt_field f64_of m ''asDouble'') (\<lambda>d.
     Option.bind (opt_field string_or_num_of m ''asInt'') (\<lambda>i.
     Option.bind (attrs_field m) (\<lambda>a.
     Some \<lparr>np_time = t, np_as_double = d, np_as_int = i, np_attributes = a\<rparr>)))))"

definition histogram_point_of :: "json \<Rightarrow> histogram_point option" where
  "histogram_point_of j =
     Option.bind (object_of [''timeUnixNano'', ''count'', ''sum'', ''bucketCounts'', ''explicitBounds'', ''attributes''] j) (\<lambda>m.
     Option.bind (opt_field string_or_num_of m ''timeUnixNano'') (\<lambda>t.
     Option.bind (opt_field string_or_num_of m ''count'') (\<lambda>c.
     Option.bind (opt_field f64_of m ''sum'') (\<lambda>s.
     Option.bind (list_field string_or_num_of m ''bucketCounts'') (\<lambda>bc.
     Option.bind (list_field f64_of m ''explicitBounds'') (\<lambda>eb.
     Option.bind (attrs_field m) (\<lambda>a.
     Some \<lparr>hp_time = t, hp_count = c, hp_sum = s, hp_bucket_counts = bc, hp_explicit_bounds = eb, hp_attributes = a\<rparr>)))))))"

definition data_of :: "(json \<Rightarrow> 'p option) \<Rightarrow> json \<Rightarrow> 'p list option" where
  "data_of d j = Option.bind (object_of [''dataPoints''] j) (\<lambda>m. list_field d m ''dataPoints'')"

definition metric_of :: "json \<Rightarrow> metric option" where
  "metric_of j =
     Option.bind (object_of [''name'', ''unit'', ''gauge'', ''sum'', ''histogram''] j) (\<lambda>m.
     Option.bind (opt_field text_of m ''name'') (\<lambda>n.
     Option.bind (opt_field text_of m ''unit'') (\<lambda>u.
     Option.bind (opt_field (data_of number_point_of) m ''gauge'') (\<lambda>g.
     Option.bind (opt_field (data_of number_point_of) m ''sum'') (\<lambda>s.
     Option.bind (opt_field (data_of histogram_point_of) m ''histogram'') (\<lambda>h.
     Some \<lparr>me_name = n, me_unit = u, me_gauge = g, me_sum = s, me_histogram = h\<rparr>))))))"

definition metrics_request_of :: "json \<Rightarrow> metrics_request option" where
  "metrics_request_of = request_of ''resourceMetrics'' ''scopeMetrics'' ''metrics'' metric_of"

subsubsection \<open>Product events\<close>

text \<open>Reading an identifier and a date is the work of the uuid and chrono crates.\<close>

definition incoming_event_of ::
    "(string \<Rightarrow> uuid option) \<Rightarrow> (string \<Rightarrow> datetime option) \<Rightarrow> json \<Rightarrow> incoming_event option" where
  "incoming_event_of parse_uuid parse_date j =
     Option.bind (object_of [''event_id'', ''event_name'', ''tenant_id'', ''actor_id'', ''session_id'', ''timestamp_client'',
       ''properties''] j) (\<lambda>m.
     Option.bind (req_field (\<lambda>v. Option.bind (text_of v) parse_uuid) m ''event_id'') (\<lambda>i.
     Option.bind (req_field text_of m ''event_name'') (\<lambda>n.
     Option.bind (opt_field text_of m ''tenant_id'') (\<lambda>t.
     Option.bind (req_field text_of m ''actor_id'') (\<lambda>a.
     Option.bind (req_field text_of m ''session_id'') (\<lambda>s.
     Option.bind (req_field (\<lambda>v. Option.bind (text_of v) parse_date) m ''timestamp_client'') (\<lambda>d.
     Option.bind (opt_field Some m ''properties'') (\<lambda>p.
     Some \<lparr>ie_event_id = i, ie_event_name = n, ie_tenant_id = t, ie_actor_id = a, ie_session_id = s,
           ie_timestamp_client = d, ie_properties = p\<rparr>))))))))"

definition ingest_body_of ::
    "(string \<Rightarrow> uuid option) \<Rightarrow> (string \<Rightarrow> datetime option) \<Rightarrow> json \<Rightarrow> ingest_body option" where
  "ingest_body_of parse_uuid parse_date j =
     Option.bind (object_of [''token'', ''events''] j) (\<lambda>m.
     Option.bind (opt_field text_of m ''token'') (\<lambda>t.
     Option.bind (req_field (list_of (incoming_event_of parse_uuid parse_date)) m ''events'') (\<lambda>es.
     Some \<lparr>ib_token = t, ib_events = es\<rparr>)))"

subsection \<open>The JSON of a request\<close>

text \<open>
  The encoding that OTLP prescribes for the structures above, which the exporters write: what is
  absent is left out, lists are always written. The decoders read it back.
\<close>

definition put_opt :: "string \<Rightarrow> json option \<Rightarrow> json_map \<Rightarrow> json_map" where
  "put_opt k v m = (case v of None \<Rightarrow> m | Some j \<Rightarrow> map_insert k j m)"

lemma al_get_put_opt [simp]:
  "al_get (put_opt k v m) k' = (if k' = k then opt_or v (al_get m k') else al_get m k')"
  by (cases v) (simp_all add: put_opt_def al_get_map_insert)

lemma opt_or_None [simp]: "opt_or v None = v"
  by (cases v) simp_all

fun sn_json :: "string_or_num \<Rightarrow> json" where
  "sn_json (Str s) = JStr s"
| "sn_json (Num n) = JNum n"

fun value_json :: "any_value \<Rightarrow> json" and pair_json :: "key_value \<Rightarrow> json" where
  "value_json (AnyValue s i d b a kv bs) = JObj
     (put_opt ''stringValue'' (map_option JStr s)
     (put_opt ''intValue'' (map_option sn_json i)
     (put_opt ''doubleValue'' (map_option (\<lambda>f. JNum (JFloat f)) d)
     (put_opt ''boolValue'' (map_option JBool b)
     (put_opt ''arrayValue'' (map_option (\<lambda>vs. JObj [(''values'', JArr (map value_json vs))]) a)
     (put_opt ''kvlistValue'' (map_option (\<lambda>kvs. JObj [(''values'', JArr (map pair_json kvs))]) kv)
     (put_opt ''bytesValue'' (map_option JStr bs) [])))))))"
| "pair_json (k, v) = JObj (put_opt ''key'' (Some (JStr k)) (put_opt ''value'' (map_option value_json v) []))"

lemma decode_simps [simp]:
  "object_of names (JObj m) = Some m" "text_of (JStr s) = Some s" "bool_of (JBool b) = Some b"
  "f64_of (JNum (JFloat f)) = Some f" "string_or_num_of (sn_json n) = Some n"
  by (simp_all add: object_of_def text_of_def bool_of_def f64_of_def string_or_num_of_def) (cases n; simp)

lemma those_Some: "(\<And>x. x \<in> set xs \<Longrightarrow> d (e x) = Some x) \<Longrightarrow> those (map d (map e xs)) = Some xs"
  by (induction xs) simp_all

lemma list_of_json: "(\<And>x. x \<in> set xs \<Longrightarrow> d (e x) = Some x) \<Longrightarrow> list_of d (JArr (map e xs)) = Some xs"
  unfolding list_of_def by (simp add: those_Some del: map_map)

lemma opt_field_json:
  "al_get m k = map_option e v \<Longrightarrow> (\<And>x. v = Some x \<Longrightarrow> d (e x) = Some x \<and> e x \<noteq> JNull) \<Longrightarrow> opt_field d m k = Some v"
  by (cases v) (simp_all add: field_of_def opt_of_def)

lemma sn_not_null [simp]: "sn_json n \<noteq> JNull"
  by (cases n) simp_all

lemma value_not_null [simp]: "value_json v \<noteq> JNull"
  by (cases v) simp

lemma values_json:
  "(\<And>x. x \<in> set xs \<Longrightarrow> d (e x) = Some x) \<Longrightarrow>
     Option.bind (object_of [''values''] (JObj [(''values'', JArr (map e xs))])) (\<lambda>n. list_field d n ''values'') = Some xs"
  by (simp add: field_of_def al_get_def list_of_json)

lemma value_round_trip: "value_of (value_json v) = Some v" "pair_of (pair_json p) = Some p"
proof (induction v and p rule: value_json_pair_json.induct)
  case (1 s i d b a kv bs)
  let ?m = "(case value_json (AnyValue s i d b a kv bs) of JObj m \<Rightarrow> m | _ \<Rightarrow> [])"
  have "opt_field text_of ?m ''stringValue'' = Some s"
    by (rule opt_field_json [where e = JStr]) simp_all
  moreover have "opt_field string_or_num_of ?m ''intValue'' = Some i"
    by (rule opt_field_json [where e = sn_json]) simp_all
  moreover have "opt_field f64_of ?m ''doubleValue'' = Some d"
    by (rule opt_field_json [where e = "\<lambda>f. JNum (JFloat f)"]) simp_all
  moreover have "opt_field bool_of ?m ''boolValue'' = Some b"
    by (rule opt_field_json [where e = JBool]) simp_all
  moreover have "opt_field (\<lambda>a. Option.bind (object_of [''values''] a) (\<lambda>n. list_field value_of n ''values'')) ?m ''arrayValue'' = Some a"
    by (rule opt_field_json [where e = "\<lambda>vs. JObj [(''values'', JArr (map value_json vs))]"], simp)
      (use 1(1) in \<open>blast intro: values_json\<close>)
  moreover have "opt_field (\<lambda>a. Option.bind (object_of [''values''] a) (\<lambda>n. list_field pair_of n ''values'')) ?m ''kvlistValue'' = Some kv"
    by (rule opt_field_json [where e = "\<lambda>kvs. JObj [(''values'', JArr (map pair_json kvs))]"], simp)
      (use 1(2) in \<open>blast intro: values_json\<close>)
  moreover have "opt_field text_of ?m ''bytesValue'' = Some bs"
    by (rule opt_field_json [where e = JStr]) simp_all
  ultimately show ?case by (simp add: value_of.simps del: al_get_put_opt)
next
  case (2 k v)
  have "opt_field value_of (put_opt ''key'' (Some (JStr k)) (put_opt ''value'' (map_option value_json v) [])) ''value'' = Some v"
    by (rule opt_field_json [where e = value_json]) (use 2 in simp_all)
  then show ?case by (simp add: pair_of.simps field_of_def)
qed

definition attrs_json :: "key_value list \<Rightarrow> json" where
  "attrs_json kvs = JArr (map pair_json kvs)"

definition scope_group_json :: "string \<Rightarrow> ('r \<Rightarrow> json) \<Rightarrow> string option option \<times> 'r list \<Rightarrow> json" where
  "scope_group_json records e g = JObj
     (put_opt ''scope'' (map_option (\<lambda>n. JObj (put_opt ''name'' (map_option JStr n) [])) (fst g))
     (put_opt records (Some (JArr (map e (snd g)))) []))"

definition group_json :: "string \<Rightarrow> string \<Rightarrow> ('r \<Rightarrow> json) \<Rightarrow> (key_value, string option, 'r) resource_group \<Rightarrow> json" where
  "group_json scopes records e rg = JObj
     (put_opt ''resource'' (map_option (\<lambda>kvs. JObj [(''attributes'', attrs_json kvs)]) (rg_resource rg))
     (put_opt scopes (Some (JArr (map (scope_group_json records e) (rg_scopes rg)))) []))"

definition request_json ::
    "string \<Rightarrow> string \<Rightarrow> string \<Rightarrow> ('r \<Rightarrow> json) \<Rightarrow> (key_value, string option, 'r) resource_group list \<Rightarrow> json" where
  "request_json groups scopes records e req = JObj [(groups, JArr (map (group_json scopes records e) req))]"

lemma list_field_json:
  "al_get m k = Some (JArr (map e xs)) \<Longrightarrow> (\<And>x. x \<in> set xs \<Longrightarrow> d (e x) = Some x) \<Longrightarrow> list_field d m k = Some xs"
  by (simp add: field_of_def list_of_json)

lemma attrs_field_json: "al_get m ''attributes'' = Some (attrs_json kvs) \<Longrightarrow> attrs_field m = Some kvs"
  unfolding attrs_field_def attrs_json_def by (rule list_field_json [where e = pair_json]) (simp_all add: value_round_trip)

lemma resource_json: "resource_of (JObj [(''attributes'', attrs_json kvs)]) = Some kvs"
  unfolding resource_of_def by (simp add: attrs_field_json al_get_def)

lemma scope_json: "scope_of (JObj (put_opt ''name'' (map_option JStr n) [])) = Some n"
  unfolding scope_of_def by (simp add: opt_field_json [where e = JStr])

lemma request_round_trip:
  assumes "scopes \<noteq> ''resource''" "records \<noteq> ''scope''"
    and "\<And>rg sc rs r. rg \<in> set req \<Longrightarrow> (sc, rs) \<in> set (rg_scopes rg) \<Longrightarrow> r \<in> set rs \<Longrightarrow> d (e r) = Some r"
  shows "request_of groups scopes records d (request_json groups scopes records e req) = Some req"
proof -
  have sg: "scope_group_of records d (scope_group_json records e g) = Some g" if "\<And>r. r \<in> set (snd g) \<Longrightarrow> d (e r) = Some r" for g
  proof -
    let ?m = "(case scope_group_json records e g of JObj m \<Rightarrow> m | _ \<Rightarrow> [])"
    have "opt_field scope_of ?m ''scope'' = Some (fst g)"
      by (rule opt_field_json [where e = "\<lambda>n. JObj (put_opt ''name'' (map_option JStr n) [])"])
        (use assms(2) in \<open>simp_all add: scope_group_json_def scope_json\<close>)
    moreover have "list_field d ?m records = Some (snd g)"
      by (rule list_field_json [where e = e]) (use assms(2) that in \<open>simp_all add: scope_group_json_def\<close>)
    ultimately show ?thesis by (simp add: scope_group_of_def scope_group_json_def del: al_get_put_opt)
  qed
  have g: "group_of scopes records d (group_json scopes records e rg) = Some rg" if "rg \<in> set req" for rg
  proof -
    let ?m = "(case group_json scopes records e rg of JObj m \<Rightarrow> m | _ \<Rightarrow> [])"
    have "opt_field resource_of ?m ''resource'' = Some (rg_resource rg)"
      by (rule opt_field_json [where e = "\<lambda>kvs. JObj [(''attributes'', attrs_json kvs)]"])
        (use assms(1) in \<open>simp_all add: group_json_def resource_json\<close>)
    moreover have "list_field (scope_group_of records d) ?m scopes = Some (rg_scopes rg)"
    proof (rule list_field_json [where e = "scope_group_json records e"])
      show "al_get ?m scopes = Some (JArr (map (scope_group_json records e) (rg_scopes rg)))"
        using assms(1) by (simp add: group_json_def)
      show "scope_group_of records d (scope_group_json records e g) = Some g" if "g \<in> set (rg_scopes rg)" for g
        by (rule sg, rule assms(3) [OF \<open>rg \<in> set req\<close>, of "fst g" "snd g"]) (use that in simp_all)
    qed
    ultimately show ?thesis by (simp add: group_of_def group_json_def del: al_get_put_opt)
  qed
  show ?thesis
    unfolding request_of_def request_json_def
    by (simp add: list_field_json [where e = "group_json scopes records e"] al_get_def g)
qed

subsubsection \<open>Logs\<close>

definition log_record_json :: "log_record \<Rightarrow> json" where
  "log_record_json r = JObj
     (put_opt ''timeUnixNano'' (map_option sn_json (lr_time r))
     (put_opt ''observedTimeUnixNano'' (map_option sn_json (lr_observed_time r))
     (put_opt ''severityNumber'' (map_option json_of_int (lr_severity_number r))
     (put_opt ''severityText'' (map_option JStr (lr_severity_text r))
     (put_opt ''body'' (map_option value_json (lr_body r))
     (put_opt ''attributes'' (Some (attrs_json (lr_attributes r)))
     (put_opt ''traceId'' (map_option JStr (lr_trace_id r))
     (put_opt ''spanId'' (map_option JStr (lr_span_id r)) []))))))))"

definition logs_json :: "logs_request \<Rightarrow> json" where
  "logs_json = request_json ''resourceLogs'' ''scopeLogs'' ''logRecords'' log_record_json"

lemma i64_json: "n < 2 ^ 63 \<Longrightarrow> i64_of (json_of_int n) = Some n"
  by (auto simp: i64_of_def json_of_int_def)

lemma json_of_int_not_null [simp]: "json_of_int n \<noteq> JNull"
  by (simp add: json_of_int_def)

lemma text_field_json: "al_get m k = map_option JStr v \<Longrightarrow> opt_field text_of m k = Some v"
  by (rule opt_field_json [where e = JStr]) simp_all

lemma sn_field_json: "al_get m k = map_option sn_json v \<Longrightarrow> opt_field string_or_num_of m k = Some v"
  by (rule opt_field_json [where e = sn_json]) simp_all

lemma f64_field_json: "al_get m k = map_option (\<lambda>f. JNum (JFloat f)) v \<Longrightarrow> opt_field f64_of m k = Some v"
  by (rule opt_field_json [where e = "\<lambda>f. JNum (JFloat f)"]) simp_all

lemma i64_field_json: "al_get m k = map_option json_of_int v \<Longrightarrow> (\<And>n. v = Some n \<Longrightarrow> n < 2 ^ 63) \<Longrightarrow> opt_field i64_of m k = Some v"
  by (rule opt_field_json [where e = json_of_int]) (simp_all add: i64_json)

lemma value_field_json: "al_get m k = map_option value_json v \<Longrightarrow> opt_field value_of m k = Some v"
  by (rule opt_field_json [where e = value_json]) (simp_all add: value_round_trip)

lemmas field_json = text_field_json sn_field_json f64_field_json i64_field_json value_field_json attrs_field_json

lemma log_record_round_trip:
  "(\<And>n. lr_severity_number r = Some n \<Longrightarrow> n < 2 ^ 63) \<Longrightarrow> log_record_of (log_record_json r) = Some r"
  by (simp add: log_record_of_def log_record_json_def field_json)

subsubsection \<open>Spans\<close>

definition span_event_json :: "span_event \<Rightarrow> json" where
  "span_event_json e = JObj
     (put_opt ''timeUnixNano'' (map_option sn_json (ev_time e))
     (put_opt ''name'' (map_option JStr (ev_name e))
     (put_opt ''attributes'' (Some (attrs_json (ev_attributes e))) [])))"

definition span_link_json :: "span_link \<Rightarrow> json" where
  "span_link_json l = JObj
     (put_opt ''traceId'' (map_option JStr (ln_trace_id l))
     (put_opt ''spanId'' (map_option JStr (ln_span_id l))
     (put_opt ''attributes'' (Some (attrs_json (ln_attributes l))) [])))"

definition span_status_json :: "span_status \<Rightarrow> json" where
  "span_status_json s = JObj
     (put_opt ''code'' (map_option json_of_int (st_code s))
     (put_opt ''message'' (map_option JStr (st_message s)) []))"

definition span_json :: "span \<Rightarrow> json" where
  "span_json s = JObj
     (put_opt ''traceId'' (map_option JStr (sp_trace_id s))
     (put_opt ''spanId'' (map_option JStr (sp_span_id s))
     (put_opt ''parentSpanId'' (map_option JStr (sp_parent_span_id s))
     (put_opt ''name'' (map_option JStr (sp_name s))
     (put_opt ''kind'' (map_option json_of_int (sp_kind s))
     (put_opt ''startTimeUnixNano'' (map_option sn_json (sp_start_time s))
     (put_opt ''endTimeUnixNano'' (map_option sn_json (sp_end_time s))
     (put_opt ''attributes'' (Some (attrs_json (sp_attributes s)))
     (put_opt ''events'' (Some (JArr (map span_event_json (sp_events s))))
     (put_opt ''links'' (Some (JArr (map span_link_json (sp_links s))))
     (put_opt ''status'' (map_option span_status_json (sp_status s)) [])))))))))))"

definition spans_json :: "spans_request \<Rightarrow> json" where
  "spans_json = request_json ''resourceSpans'' ''scopeSpans'' ''spans'' span_json"

definition span_readable :: "span \<Rightarrow> bool" where
  "span_readable s \<longleftrightarrow> (\<forall>n. sp_kind s = Some n \<longrightarrow> n < 2 ^ 63)
     \<and> (\<forall>st n. sp_status s = Some st \<longrightarrow> st_code st = Some n \<longrightarrow> n < 2 ^ 63)"

lemma span_parts_round_trip:
  "span_event_of (span_event_json e) = Some e" "span_link_of (span_link_json l) = Some l"
  "(\<And>n. st_code s = Some n \<Longrightarrow> n < 2 ^ 63) \<Longrightarrow> span_status_of (span_status_json s) = Some s"
  by (simp_all add: span_event_of_def span_event_json_def span_link_of_def span_link_json_def
      span_status_of_def span_status_json_def field_json)

lemma span_round_trip: "span_readable s \<Longrightarrow> span_of (span_json s) = Some s"
proof -
  assume s: "span_readable s"
  have ev: "list_field span_event_of m ''events'' = Some xs" if "al_get m ''events'' = Some (JArr (map span_event_json xs))" for m xs
    by (rule list_field_json [OF that]) (simp add: span_parts_round_trip)
  have ln: "list_field span_link_of m ''links'' = Some xs" if "al_get m ''links'' = Some (JArr (map span_link_json xs))" for m xs
    by (rule list_field_json [OF that]) (simp add: span_parts_round_trip)
  have st: "opt_field span_status_of m ''status'' = Some (sp_status s)" if "al_get m ''status'' = map_option span_status_json (sp_status s)" for m
    by (rule opt_field_json [OF that])
      (use s in \<open>auto simp: span_readable_def span_status_json_def intro!: span_parts_round_trip(3) [unfolded span_status_json_def]\<close>)
  show ?thesis
    using s by (simp add: span_of_def span_json_def field_json ev ln st span_readable_def)
qed

subsubsection \<open>Metrics\<close>

definition number_point_json :: "number_point \<Rightarrow> json" where
  "number_point_json p = JObj
     (put_opt ''timeUnixNano'' (map_option sn_json (np_time p))
     (put_opt ''asDouble'' (map_option (\<lambda>f. JNum (JFloat f)) (np_as_double p))
     (put_opt ''asInt'' (map_option sn_json (np_as_int p))
     (put_opt ''attributes'' (Some (attrs_json (np_attributes p))) []))))"

definition histogram_point_json :: "histogram_point \<Rightarrow> json" where
  "histogram_point_json p = JObj
     (put_opt ''timeUnixNano'' (map_option sn_json (hp_time p))
     (put_opt ''count'' (map_option sn_json (hp_count p))
     (put_opt ''sum'' (map_option (\<lambda>f. JNum (JFloat f)) (hp_sum p))
     (put_opt ''bucketCounts'' (Some (JArr (map sn_json (hp_bucket_counts p))))
     (put_opt ''explicitBounds'' (Some (JArr (map (\<lambda>f. JNum (JFloat f)) (hp_explicit_bounds p))))
     (put_opt ''attributes'' (Some (attrs_json (hp_attributes p))) []))))))"

definition data_json :: "('p \<Rightarrow> json) \<Rightarrow> 'p list \<Rightarrow> json" where
  "data_json e ps = JObj [(''dataPoints'', JArr (map e ps))]"

definition metric_json :: "metric \<Rightarrow> json" where
  "metric_json m = JObj
     (put_opt ''name'' (map_option JStr (me_name m))
     (put_opt ''unit'' (map_option JStr (me_unit m))
     (put_opt ''gauge'' (map_option (data_json number_point_json) (me_gauge m))
     (put_opt ''sum'' (map_option (data_json number_point_json) (me_sum m))
     (put_opt ''histogram'' (map_option (data_json histogram_point_json) (me_histogram m)) [])))))"

definition metrics_json :: "metrics_request \<Rightarrow> json" where
  "metrics_json = request_json ''resourceMetrics'' ''scopeMetrics'' ''metrics'' metric_json"

lemma number_point_round_trip: "number_point_of (number_point_json p) = Some p"
  by (simp add: number_point_of_def number_point_json_def field_json)

lemma histogram_point_round_trip: "histogram_point_of (histogram_point_json p) = Some p"
proof -
  have bc: "list_field string_or_num_of m ''bucketCounts'' = Some xs" if "al_get m ''bucketCounts'' = Some (JArr (map sn_json xs))" for m xs
    by (rule list_field_json [OF that]) simp
  have eb: "list_field f64_of m ''explicitBounds'' = Some xs"
    if "al_get m ''explicitBounds'' = Some (JArr (map (\<lambda>f. JNum (JFloat f)) xs))" for m xs
    by (rule list_field_json [OF that]) simp
  show ?thesis by (simp add: histogram_point_of_def histogram_point_json_def field_json bc eb)
qed

lemma data_field_json:
  assumes "al_get m k = map_option (data_json e) v" and "\<And>p. d (e p) = Some p"
  shows "opt_field (data_of d) m k = Some v"
  by (rule opt_field_json [OF assms(1)])
    (simp add: data_of_def data_json_def list_field_json [where e = e] al_get_def assms(2))

lemma metric_round_trip: "metric_of (metric_json m) = Some m"
  by (simp add: metric_of_def metric_json_def field_json
      data_field_json [where e = number_point_json] data_field_json [where e = histogram_point_json]
      number_point_round_trip histogram_point_round_trip)

subsection \<open>Properties\<close>

text \<open>The 32-bit integers of a protobuf request fit the integers of the JSON structures.\<close>

definition logs_sendable :: "proto_logs_request \<Rightarrow> bool" where
  "logs_sendable req \<longleftrightarrow> (\<forall>rg\<in>set req. group_safe rg
     \<and> (\<forall>(sc, rs)\<in>set (rg_scopes rg). \<forall>r\<in>set rs. log_safe r \<and> pl_severity_number r < 2 ^ 31))"

definition spans_sendable :: "proto_spans_request \<Rightarrow> bool" where
  "spans_sendable req \<longleftrightarrow> (\<forall>rg\<in>set req. group_safe rg
     \<and> (\<forall>(sc, rs)\<in>set (rg_scopes rg). \<forall>r\<in>set rs. span_safe r \<and> ps_kind r < 2 ^ 31
          \<and> (\<forall>c m. ps_status r = Some (c, m) \<longrightarrow> c < 2 ^ 31)))"

definition metrics_sendable :: "proto_metrics_request \<Rightarrow> bool" where
  "metrics_sendable req \<longleftrightarrow> (\<forall>rg\<in>set req. group_safe rg \<and> (\<forall>(sc, ms)\<in>set (rg_scopes rg). \<forall>m\<in>set ms. metric_safe m))"

lemma wire_record:
  "rg \<in> set (map (group_to_wire enc) req) \<Longrightarrow> (sc, rs) \<in> set (rg_scopes rg) \<Longrightarrow> r \<in> set rs \<Longrightarrow>
     \<exists>rg'\<in>set req. \<exists>(sc', rs')\<in>set (rg_scopes rg'). \<exists>r'\<in>set rs'. r = enc r'"
  by (fastforce simp: group_to_wire_def)

lemma posted_logs_decoded:
  "logs_sendable req \<Longrightarrow> logs_request_of (logs_json (map (group_to_wire log_to_wire) req)) = Some (map (group_to_wire log_to_wire) req)"
  unfolding logs_request_of_def logs_json_def
proof (rule request_round_trip; (rule log_record_round_trip)?)
  fix rg sc rs r n
  assume s: "logs_sendable req" and r: "rg \<in> set (map (group_to_wire log_to_wire) req)" "(sc, rs) \<in> set (rg_scopes rg)" "r \<in> set rs"
    and n: "lr_severity_number r = Some n"
  from wire_record [OF r] s have "\<exists>r'. r = log_to_wire r' \<and> pl_severity_number r' < 2 ^ 31"
    by (fastforce simp: logs_sendable_def)
  with n show "n < 2 ^ 63" by (auto simp: log_to_wire_def split: if_splits)
qed simp_all

lemma posted_spans_decoded:
  "spans_sendable req \<Longrightarrow> spans_request_of (spans_json (map (group_to_wire span_to_wire) req)) = Some (map (group_to_wire span_to_wire) req)"
  unfolding spans_request_of_def spans_json_def
proof (rule request_round_trip; (rule span_round_trip)?)
  fix rg sc rs r
  assume s: "spans_sendable req" and r: "rg \<in> set (map (group_to_wire span_to_wire) req)" "(sc, rs) \<in> set (rg_scopes rg)" "r \<in> set rs"
  from wire_record [OF r] s
  have "\<exists>r'. r = span_to_wire r' \<and> ps_kind r' < 2 ^ 31 \<and> (\<forall>c m. ps_status r' = Some (c, m) \<longrightarrow> c < 2 ^ 31)"
    by (fastforce simp: spans_sendable_def)
  then show "span_readable r" by (auto simp: span_to_wire_def span_readable_def)
qed simp_all

lemma posted_metrics_decoded:
  "metrics_request_of (metrics_json (map (group_to_wire metric_to_wire) req)) = Some (map (group_to_wire metric_to_wire) req)"
  unfolding metrics_request_of_def metrics_json_def
  by (rule request_round_trip) (simp_all add: metric_round_trip)


definition wire_demo :: proto_logs_request where
  "wire_demo = [\<lparr>rg_resource = Some [(''service.name'', Some (PString ''api''))], rg_scopes = [(Some [],
     [\<lparr>pl_time = 5, pl_observed_time = 0, pl_severity_number = 9, pl_severity_text = [],
       pl_body = Some (PString ''x''), pl_attributes = [(''n'', Some (PInt 7))], pl_trace_id = [1], pl_span_id = []\<rparr>])]\<rparr>]"

definition wire_limits :: validation_limits where
  "wire_limits = \<lparr>max_batch_events = 1, max_payload_bytes = 1, max_properties_bytes = 1, max_string_len = 1,
     max_json_depth = 1, max_past_skew = 1, max_future_skew = 1, max_otlp_record_bytes = 1\<rparr>"


end
