(* ===== verification/Minting.thy ===== *)
theory Minting
  imports Api Wire
begin

text \<open>
  The two programs that issue tokens for the backend: the development tool of
  \<^verbatim>\<open>backend/src/bin/mint_dev_token.rs\<close> and the example application of
  \<^verbatim>\<open>examples/demo-backend/src/main.rs\<close>, which also posts a log per action. A token is signed by
  the JWT crate, the parameter \<open>encode\<close>; the claims are the JSON object that serde writes. Reading a
  file, a private key, the clock, a fresh trace identifier and the answer of the network are parameters.
\<close>

subsection \<open>The development tool\<close>

datatype mint_error =
    UnexpectedArgument string
  | ValueMissing string
  | OptionRequired string
  | AlgUnsupported string
  | KeyFile string
  | PrivateKey algorithm
  | BadTtl
  | Signature

record mint_claims =
  mc_iss :: "string option"
  mc_aud :: "string option"
  mc_sub :: string
  mc_actor_id :: string
  mc_session_id :: string
  mc_tenant_id :: "string option"
  mc_iat :: int
  mc_exp :: int

text \<open>The arguments after the program's name, \<^verbatim>\<open>--key value\<close> pairs; the last of a key wins.\<close>

fun parse_args :: "string list \<Rightarrow> (string \<times> string) list \<Rightarrow> mint_error + (string \<times> string) list" where
  "parse_args [] m = Inr m"
| "parse_args [arg] m =
     (case strip_prefix ''--'' arg of None \<Rightarrow> Inl (UnexpectedArgument arg) | Some k \<Rightarrow> Inl (ValueMissing k))"
| "parse_args (arg # v # args) m =
     (case strip_prefix ''--'' arg of None \<Rightarrow> Inl (UnexpectedArgument arg) | Some k \<Rightarrow> parse_args args (al_put k v m))"

text \<open>Fields of the claims that are absent are not written.\<close>

definition text_fields :: "(string \<times> string option) list \<Rightarrow> (string \<times> json) list" where
  "text_fields fs = concat (map (\<lambda>(k, v). case v of Some s \<Rightarrow> [(k, JStr s)] | None \<Rightarrow> []) fs)"

definition mint_claims_json :: "mint_claims \<Rightarrow> json" where
  "mint_claims_json c = json_obj
     (text_fields [(''iss'', mc_iss c), (''aud'', mc_aud c), (''sub'', Some (mc_sub c)),
        (''actor_id'', Some (mc_actor_id c)), (''session_id'', Some (mc_session_id c)), (''tenant_id'', mc_tenant_id c)]
      @ [(''iat'', json_of_int (mc_iat c)), (''exp'', json_of_int (mc_exp c))])"

text \<open>A 64-bit signed number, in the text of \<^verbatim>\<open>--ttl\<close> and in the sum with the date (which wraps in a
  release build).\<close>

definition parse_i64 :: "string \<Rightarrow> int option" where
  "parse_i64 s =
     (case s of
        [] \<Rightarrow> None
      | c # cs \<Rightarrow>
          if c = CHR ''-''
          then (case cs of [] \<Rightarrow> None | d # _ \<Rightarrow> if d = CHR ''+'' then None
                else map_option (\<lambda>n. - int n) (parse_uint (2 ^ 63) cs))
          else map_option int (parse_uint (2 ^ 63 - 1) s))"

definition i64_wrap :: "int \<Rightarrow> int" where
  "i64_wrap x = (x + 2 ^ 63) mod 2 ^ 64 - 2 ^ 63"

definition mint_alg :: "(string \<times> string) list \<Rightarrow> mint_error + algorithm" where
  "mint_alg args =
     (let a = unwrap_or ''EdDSA'' (al_get args ''alg'') in
      if a = ''EdDSA'' \<or> a = ''Ed25519'' then Inr EdDSA else if a = ''RS256'' then Inr RS256 else Inl (AlgUnsupported a))"

definition mint_ttl :: "(string \<times> string) list \<Rightarrow> mint_error + int" where
  "mint_ttl args = (case al_get args ''ttl'' of None \<Rightarrow> Inr 600 | Some s \<Rightarrow> ok_or BadTtl (parse_i64 s))"

definition mint_claims_of :: "(string \<times> string) list \<Rightarrow> string \<Rightarrow> string \<Rightarrow> int \<Rightarrow> int \<Rightarrow> mint_claims" where
  "mint_claims_of args actor session ttl now =
     \<lparr>mc_iss = al_get args ''iss'', mc_aud = al_get args ''aud'', mc_sub = unwrap_or actor (al_get args ''sub''),
      mc_actor_id = actor, mc_session_id = session, mc_tenant_id = al_get args ''tenant'', mc_iat = now,
      mc_exp = i64_wrap (now + ttl)\<rparr>"

definition mint_token ::
    "(string \<Rightarrow> 'f option) \<Rightarrow> (algorithm \<Rightarrow> 'f \<Rightarrow> 'ek option) \<Rightarrow> (jwt_header \<Rightarrow> json \<Rightarrow> 'ek \<Rightarrow> string option) \<Rightarrow> int
       \<Rightarrow> string list \<Rightarrow> mint_error + string" where
  "mint_token read_file private_key encode now argv =
     and_then (parse_args argv []) (\<lambda>args.
     and_then (ok_or (OptionRequired ''key'') (al_get args ''key'')) (\<lambda>path.
     and_then (mint_alg args) (\<lambda>alg.
     and_then (ok_or (KeyFile path) (read_file path)) (\<lambda>pem.
     and_then (ok_or (PrivateKey alg) (private_key alg pem)) (\<lambda>key.
     and_then (ok_or (OptionRequired ''actor'') (al_get args ''actor'')) (\<lambda>actor.
     and_then (ok_or (OptionRequired ''session'') (al_get args ''session'')) (\<lambda>session.
     and_then (mint_ttl args) (\<lambda>ttl.
     ok_or Signature (encode \<lparr>jh_alg = alg, jh_kid = al_get args ''kid''\<rparr>
       (mint_claims_json (mint_claims_of args actor session ttl now)) key)))))))))"

subsection \<open>The example application\<close>

record 'ek demo_state =
  ds_key :: 'ek
  ds_datacat_url :: string

definition ingest_claims_json :: "string \<Rightarrow> string \<Rightarrow> string \<Rightarrow> nat \<Rightarrow> json" where
  "ingest_claims_json actor_id session_id tenant_id now = json_obj
     [(''iss'', JStr ''demo-backend''), (''aud'', JStr ''datacat-ingest''), (''sub'', JStr actor_id),
      (''actor_id'', JStr actor_id), (''session_id'', JStr session_id), (''tenant_id'', JStr tenant_id),
      (''iat'', json_of_int (int now)), (''exp'', json_of_int (int (now + 600)))]"

definition demo_header :: jwt_header where
  "demo_header = \<lparr>jh_alg = EdDSA, jh_kid = Some ''2026-06-key-1''\<rparr>"

definition sign_token ::
    "(jwt_header \<Rightarrow> json \<Rightarrow> 'ek \<Rightarrow> string option) \<Rightarrow> nat \<Rightarrow> 'ek \<Rightarrow> string \<Rightarrow> string \<Rightarrow> string \<Rightarrow> string option" where
  "sign_token encode now key actor_id session_id tenant_id =
     encode demo_header (ingest_claims_json actor_id session_id tenant_id now) key"

definition analytics_token ::
    "(jwt_header \<Rightarrow> json \<Rightarrow> 'ek \<Rightarrow> string option) \<Rightarrow> nat \<Rightarrow> 'ek demo_state \<Rightarrow> nat \<times> json" where
  "analytics_token encode now s =
     (case sign_token encode now (ds_key s) ''demo-user-1'' ''demo-session-fixed'' ''demo-tenant'' of
        Some token \<Rightarrow> (200, json_obj [(''token'', JStr token)])
      | None \<Rightarrow> (500, json_obj [(''error'', JStr ''signing failed'')]))"

definition otlp_attr :: "string \<Rightarrow> string \<Rightarrow> json" where
  "otlp_attr k v = json_obj [(''key'', JStr k), (''value'', json_obj [(''stringValue'', JStr v)])]"

text \<open>\<open>now_ns\<close> is the clock in nanoseconds, \<open>trace_id\<close> the text of a fresh identifier.\<close>

definition build_otlp_log :: "nat \<Rightarrow> string \<Rightarrow> string \<Rightarrow> string \<Rightarrow> string \<Rightarrow> string \<Rightarrow> json" where
  "build_otlp_log now_ns trace_id session_id actor_id tenant_id body =
     (let now = show_nat (now_ns mod 2 ^ 64);
          attrs = [otlp_attr ''session_id'' session_id, otlp_attr ''actor_id'' actor_id, otlp_attr ''tenant_id'' tenant_id]
      in json_obj [(''resourceLogs'', JArr [json_obj
           [(''resource'', json_obj [(''attributes'', JArr (otlp_attr ''service.name'' ''demo-backend'' # attrs))]),
            (''scopeLogs'', JArr [json_obj
              [(''scope'', json_obj [(''name'', JStr ''demo-backend.actions'')]),
               (''logRecords'', JArr [json_obj
                 [(''timeUnixNano'', JStr now), (''observedTimeUnixNano'', JStr now), (''severityNumber'', JNum (PosInt 9)),
                  (''severityText'', JStr ''INFO''), (''body'', json_obj [(''stringValue'', JStr body)]),
                  (''traceId'', JStr trace_id), (''spanId'', JStr (take 16 trace_id)), (''attributes'', JArr attrs)]])]])]])])"

record action_request =
  ar_session_id :: string
  ar_actor_id :: string
  ar_name :: string

record posted =
  po_url :: string
  po_headers :: "(string \<times> string) list"
  po_body :: json

text \<open>The answer to the client, and the request that is sent to the backend before it; whether the
  backend accepts it does not change the answer.\<close>

definition apostrophes :: "string \<Rightarrow> string" where
  "apostrophes s = CHR 0x27 # s @ [CHR 0x27]"

definition handle_action ::
    "(jwt_header \<Rightarrow> json \<Rightarrow> 'ek \<Rightarrow> string option) \<Rightarrow> nat \<Rightarrow> nat \<Rightarrow> string \<Rightarrow> 'ek demo_state \<Rightarrow> action_request
       \<Rightarrow> (nat \<times> bool \<times> string) \<times> posted option" where
  "handle_action encode now now_ns trace_id s req =
     (case sign_token encode now (ds_key s) (ar_actor_id req) (ar_session_id req) ''demo-tenant'' of
        None \<Rightarrow> ((500, False, ''internal error''), None)
      | Some token \<Rightarrow>
          ((200, True, ''Action '' @ apostrophes (ar_name req) @ '' processed''),
           Some \<lparr>po_url = ds_datacat_url s @ ''/v1/logs'',
                 po_headers = [(''Content-Type'', ''application/json''), (''Authorization'', ''Bearer '' @ token)],
                 po_body = build_otlp_log now_ns trace_id (ar_session_id req) (ar_actor_id req) ''demo-tenant''
                   (''Action '' @ apostrophes (ar_name req) @ '' executed by actor '' @ ar_actor_id req)\<rparr>))"

text \<open>The start: the signing key, the address of the backend and the port, from the environment.\<close>

datatype demo_error = SigningKeyUnreadable string | SigningKeyInvalid | PortInvalid

definition demo_key_path :: "(string \<Rightarrow> string option) \<Rightarrow> string" where
  "demo_key_path env =
     unwrap_or (unwrap_or ''.'' (env ''CARGO_MANIFEST_DIR'') @ ''/../../backend/tests/fixtures/ed25519_private.pem'')
       (env ''SIGNING_KEY_FILE'')"

definition demo_main ::
    "(string \<Rightarrow> string option) \<Rightarrow> (string \<Rightarrow> string option) \<Rightarrow> (string \<Rightarrow> 'ek option)
       \<Rightarrow> demo_error + 'ek demo_state \<times> string" where
  "demo_main env read_file private_key =
     and_then (ok_or (SigningKeyUnreadable (demo_key_path env)) (read_file (demo_key_path env))) (\<lambda>pem.
     and_then (ok_or SigningKeyInvalid (private_key pem)) (\<lambda>key.
     and_then (ok_or PortInvalid (parse_uint 65535 (unwrap_or ''8091'' (env ''PORT'')))) (\<lambda>port.
     Inr (\<lparr>ds_key = key, ds_datacat_url = unwrap_or ''http://127.0.0.1:8090'' (env ''DATACAT_URL'')\<rparr>,
          ''0.0.0.0:'' @ show_nat port))))"

text \<open>The routes of the application; cross-origin requests are allowed from anywhere.\<close>

datatype demo_route = AnalyticsToken | Action | MethodNotAllowed | NotFound

definition demo_router :: "string \<Rightarrow> string \<Rightarrow> demo_route" where
  "demo_router meth path =
     (if path = ''/api/analytics-token'' then (if meth \<in> {''GET'', ''HEAD''} then AnalyticsToken else MethodNotAllowed)
      else if path = ''/api/action'' then (if meth = ''POST'' then Action else MethodNotAllowed)
      else NotFound)"

subsection \<open>The JWT crate\<close>

text \<open>The claims the verifier reads, as serde does.\<close>

definition claims_of :: "json \<Rightarrow> claims option" where
  "claims_of j =
     Option.bind (object_of [''actor_id'', ''session_id'', ''tenant_id'', ''iat''] j) (\<lambda>m.
     Option.bind (req_field text_of m ''actor_id'') (\<lambda>a.
     Option.bind (req_field text_of m ''session_id'') (\<lambda>s.
     Option.bind (opt_field text_of m ''tenant_id'') (\<lambda>t.
     Option.bind (req_field i64_of m ''iat'') (\<lambda>i.
     Some \<lparr>cl_actor_id = a, cl_session_id = s, cl_tenant_id = t, cl_iat = i\<rparr>)))))"

text \<open>What the crate documents: a token is a text of visible characters, its header is read back, and it decodes to the claims it
  was signed over under a key of the same pair, when the validation asked for holds at the instant \<open>now\<close>,
  in seconds.\<close>

definition claim_at :: "json \<Rightarrow> string \<Rightarrow> json option" where
  "claim_at j k = (case j of JObj m \<Rightarrow> al_get m k | _ \<Rightarrow> None)"

definition jwt_valid :: "validation \<Rightarrow> int \<Rightarrow> json \<Rightarrow> bool" where
  "jwt_valid va now j \<longleftrightarrow>
     (\<forall>c\<in>set (va_required va). claim_at j c \<noteq> None)
     \<and> (va_validate_exp va \<longrightarrow> (\<exists>e. claim_at j ''exp'' = Some (JNum (PosInt e)) \<and> now - int (va_leeway va) \<le> int e))
     \<and> (\<forall>i. va_issuer va = Some i \<longrightarrow> claim_at j ''iss'' = Some (JStr i))
     \<and> (\<forall>a. va_validate_aud va \<and> va_audience va = Some a \<longrightarrow> claim_at j ''aud'' = Some (JStr a))"

definition jwt_crate ::
    "(jwt_header \<Rightarrow> json \<Rightarrow> 'ek \<Rightarrow> string option) \<Rightarrow> (string \<Rightarrow> jwt_header option)
       \<Rightarrow> (string \<Rightarrow> 'dk \<Rightarrow> validation \<Rightarrow> jwt_error_kind + claims) \<Rightarrow> ('ek \<Rightarrow> 'dk \<Rightarrow> bool) \<Rightarrow> int \<Rightarrow> bool" where
  "jwt_crate encode decode_header decode same_pair now \<longleftrightarrow>
     (\<forall>h j ek tok. encode h j ek = Some tok \<longrightarrow>
        decode_header tok = Some h \<and> tok \<noteq> [] \<and> list_all (\<lambda>c. 33 \<le> (of_char c :: nat) \<and> (of_char c :: nat) < 127) tok
        \<and> (\<forall>dk va c. same_pair ek dk \<and> va_algorithm va = jh_alg h \<and> jwt_valid va now j \<and> claims_of j = Some c
             \<longrightarrow> decode tok dk va = Inr c))"

text \<open>A verifier that trusts the key of a signer for an algorithm and a key identifier.\<close>

definition trusts :: "('ek \<Rightarrow> 'dk \<Rightarrow> bool) \<Rightarrow> 'dk token_verifier \<Rightarrow> jwt_header \<Rightarrow> 'ek \<Rightarrow> bool" where
  "trusts same_pair v h ek \<longleftrightarrow> jh_alg h \<in> set (tv_algorithms v)
     \<and> (\<exists>e. select_key (tv_keys v) (jh_kid h) (jh_alg h) = Some e \<and> same_pair ek (ke_key e))"

lemma signed_token_accepted:
  assumes "jwt_crate encode decode_header decode same_pair now" "encode h j ek = Some tok" "trusts same_pair v h ek"
    and "jwt_valid (validation_of v (jh_alg h)) now j" "claims_of j = Some c"
    and "str_trim (cl_actor_id c) \<noteq> []" "str_trim (cl_session_id c) \<noteq> []"
  shows "verify decode_header decode v tok
    = Inr \<lparr>vt_actor_id = cl_actor_id c, vt_session_id = cl_session_id c, vt_tenant_id = cl_tenant_id c\<rparr>"
proof -
  obtain e where e: "select_key (tv_keys v) (jh_kid h) (jh_alg h) = Some e" "same_pair ek (ke_key e)"
    using assms(3) by (auto simp: trusts_def)
  have "decode_header tok = Some h" "decode tok (ke_key e) (validation_of v (jh_alg h)) = Inr c"
    using assms(1,2,4,5) e(2) by (auto simp: jwt_crate_def validation_of_def)
  then show ?thesis using assms(3,6,7) e(1) by (simp add: verify_def trusts_def)
qed

lemma al_get_snoc:
  "al_get (xs @ [(a, b)]) k = (case al_get xs k of Some v \<Rightarrow> Some v | None \<Rightarrow> if k = a then Some b else None)"
  by (auto simp: al_get_def map_add_def split: option.split)

lemma al_get_obj: "al_get (fold (\<lambda>(k, v). map_insert k v) kvs m) k
    = (case al_get (rev kvs) k of Some v \<Rightarrow> Some v | None \<Rightarrow> al_get m k)"
proof (induction kvs arbitrary: m)
  case (Cons kv kvs)
  obtain a b where kv: "kv = (a, b)" by fastforce
  show ?case
    unfolding kv fold.simps rev.simps al_get_snoc o_apply prod.case Cons.IH al_get_map_insert
    by (simp split: option.split)
qed (simp add: al_get_def)

lemma json_obj_simps: "claim_at (json_obj kvs) k = al_get (rev kvs) k"
    "object_of names (json_obj kvs) = Some (fold (\<lambda>(k, v). map_insert k v) kvs [])"
  by (simp_all add: json_obj_def claim_at_def al_get_obj split: option.split)

lemma mint_claims_at:
  "claim_at (mint_claims_json c) k =
     (if k = ''iss'' then map_option JStr (mc_iss c) else if k = ''aud'' then map_option JStr (mc_aud c)
      else if k = ''sub'' then Some (JStr (mc_sub c)) else if k = ''actor_id'' then Some (JStr (mc_actor_id c))
      else if k = ''session_id'' then Some (JStr (mc_session_id c))
      else if k = ''tenant_id'' then map_option JStr (mc_tenant_id c)
      else if k = ''iat'' then Some (json_of_int (mc_iat c)) else if k = ''exp'' then Some (json_of_int (mc_exp c)) else None)"
  unfolding mint_claims_json_def json_obj_simps text_fields_def
  by (cases "mc_iss c"; cases "mc_aud c"; cases "mc_tenant_id c") (simp_all add: al_get_def)

lemma claims_at:
  assumes "j = json_obj kvs"
  shows "claims_of j =
     Option.bind (case claim_at j ''actor_id'' of None \<Rightarrow> None | Some v \<Rightarrow> text_of v) (\<lambda>a.
     Option.bind (case claim_at j ''session_id'' of None \<Rightarrow> None | Some v \<Rightarrow> text_of v) (\<lambda>s.
     Option.bind (case claim_at j ''tenant_id'' of None \<Rightarrow> Some None | Some v \<Rightarrow> opt_of text_of v) (\<lambda>t.
     Option.bind (case claim_at j ''iat'' of None \<Rightarrow> None | Some v \<Rightarrow> i64_of v) (\<lambda>i.
     Some \<lparr>cl_actor_id = a, cl_session_id = s, cl_tenant_id = t, cl_iat = i\<rparr>))))"
  by (simp add: assms claims_of_def json_obj_def claim_at_def field_of_def)

lemma mint_claims_read:
  assumes "mc_iat c < 2 ^ 63"
  shows "claims_of (mint_claims_json c)
    = Some \<lparr>cl_actor_id = mc_actor_id c, cl_session_id = mc_session_id c, cl_tenant_id = mc_tenant_id c, cl_iat = mc_iat c\<rparr>"
  unfolding claims_at [OF mint_claims_json_def] mint_claims_at
  using i64_json [OF assms] by (cases "mc_tenant_id c") (simp_all add: opt_of_def)

lemma i64_wrap_id: "- (2 ^ 63) \<le> x \<Longrightarrow> x < 2 ^ 63 \<Longrightarrow> i64_wrap x = x"
  by (simp add: i64_wrap_def)

text \<open>What a run of the tool that prints a token has signed.\<close>

lemma mint_token_signed:
  assumes "mint_token read_file private_key encode now argv = Inr tok"
  shows "\<exists>args path alg pem ek actor session ttl.
     parse_args argv [] = Inr args \<and> al_get args ''key'' = Some path \<and> mint_alg args = Inr alg \<and> read_file path = Some pem
     \<and> private_key alg pem = Some ek \<and> al_get args ''actor'' = Some actor \<and> al_get args ''session'' = Some session
     \<and> mint_ttl args = Inr ttl
     \<and> encode \<lparr>jh_alg = alg, jh_kid = al_get args ''kid''\<rparr> (mint_claims_json (mint_claims_of args actor session ttl now)) ek = Some tok"
  using assms by (auto simp: mint_token_def)

lemma mint_claims_valid:
  assumes "mc_exp c = int e" "now - int (tv_leeway v) \<le> int e"
    and "tv_issuer v \<in> {None, mc_iss c}" "tv_audience v \<in> {None, mc_aud c}"
  shows "jwt_valid (validation_of v alg) now (mint_claims_json c)"
  using assms by (auto simp: jwt_valid_def validation_of_def mint_claims_at json_of_int_def)

subsection \<open>Properties\<close>

text \<open>C20. A token minted by the development tool is accepted, until it expires, by a verifier that trusts
  its key and expects the issuer and the audience it was given (or none), and gives back the actor, the
  session and the tenant of the command line.\<close>
theorem minted_token_accepted:
  assumes "jwt_crate encode decode_header decode same_pair now"
    and "mint_token read_file private_key encode t0 argv = Inr tok"
    and "parse_args argv [] = Inr args" "mint_alg args = Inr alg" "mint_ttl args = Inr ttl"
    and "private_key alg (the (read_file (the (al_get args ''key'')))) = Some ek"
    and "trusts same_pair v \<lparr>jh_alg = alg, jh_kid = al_get args ''kid''\<rparr> ek"
    and "tv_issuer v \<in> {None, al_get args ''iss''}" "tv_audience v \<in> {None, al_get args ''aud''}"
    and "0 \<le> t0 + ttl" "t0 + ttl < 2 ^ 63" "t0 < 2 ^ 63" "now - int (tv_leeway v) \<le> t0 + ttl"
    and "al_get args ''actor'' = Some actor" "str_trim actor \<noteq> []"
    and "al_get args ''session'' = Some session" "str_trim session \<noteq> []"
  shows "verify decode_header decode v tok
    = Inr \<lparr>vt_actor_id = actor, vt_session_id = session, vt_tenant_id = al_get args ''tenant''\<rparr>"
proof -
  define c where "c = mint_claims_of args actor session ttl t0"
  have signed: "encode \<lparr>jh_alg = alg, jh_kid = al_get args ''kid''\<rparr> (mint_claims_json c) ek = Some tok"
    using mint_token_signed [OF assms(2)] assms(3-6,14,16) by (auto simp: c_def)
  have "mc_exp c = int (nat (t0 + ttl))"
    using assms(10,11) by (simp add: c_def mint_claims_of_def i64_wrap_id)
  then have "jwt_valid (validation_of v alg) now (mint_claims_json c)"
    by (rule mint_claims_valid) (use assms(8-10,13) in \<open>simp_all add: c_def mint_claims_of_def\<close>)
  moreover have "claims_of (mint_claims_json c)
      = Some \<lparr>cl_actor_id = actor, cl_session_id = session, cl_tenant_id = al_get args ''tenant'', cl_iat = t0\<rparr>"
    using mint_claims_read [of c] assms(12) by (simp add: c_def mint_claims_of_def)
  ultimately show ?thesis
    using signed_token_accepted [OF assms(1) signed assms(7)] assms(15,17) by simp
qed

text \<open>A JWT crate of one token, to see that the hypotheses can hold.\<close>

definition one_token :: "jwt_header \<Rightarrow> json \<Rightarrow> jwt_header \<Rightarrow> json \<Rightarrow> string \<Rightarrow> string option" where
  "one_token h0 j0 h j ek = (if h = h0 \<and> j = j0 \<and> ek = ''k'' then Some ''t'' else None)"

definition one_decode :: "json \<Rightarrow> int \<Rightarrow> string \<Rightarrow> string \<Rightarrow> validation \<Rightarrow> jwt_error_kind + claims" where
  "one_decode j0 now tok dk va =
     (if dk = ''k'' \<and> jwt_valid va now j0 then ok_or OtherJwtError (claims_of j0) else Inl InvalidSignature)"

lemma one_token_crate: "jwt_crate (one_token h0 j0) (\<lambda>_. Some h0) (one_decode j0 now) (=) now"
  by (auto simp: jwt_crate_def one_token_def one_decode_def)

definition demo_verifier :: "string token_verifier" where
  "demo_verifier = \<lparr>tv_enabled = True, tv_algorithms = [EdDSA], tv_issuer = None, tv_audience = Some ''datacat-ingest'',
     tv_leeway = 60, tv_keys = [\<lparr>ke_kid = Some ''2026-06-key-1'', ke_alg = EdDSA, ke_key = ''k''\<rparr>], tv_jwks = None\<rparr>"

definition mint_demo_argv :: "string list" where
  "mint_demo_argv = [''--key'', ''f'', ''--actor'', ''a'', ''--session'', ''s'', ''--kid'', ''2026-06-key-1'',
     ''--aud'', ''datacat-ingest'']"

definition mint_demo_args :: "(string \<times> string) list" where
  "mint_demo_args = [(''key'', ''f''), (''actor'', ''a''), (''session'', ''s''), (''kid'', ''2026-06-key-1''), (''aud'', ''datacat-ingest'')]"

lemma mint_demo_parsed: "parse_args mint_demo_argv [] = Inr mint_demo_args"
  unfolding mint_demo_argv_def mint_demo_args_def by code_simp

definition mint_demo_claims :: json where
  "mint_demo_claims = mint_claims_json (mint_claims_of mint_demo_args ''a'' ''s'' 600 1000)"

lemma minted_token_accepted_witness:
  "verify (\<lambda>_. Some demo_header) (one_decode mint_demo_claims 1050) demo_verifier ''t''
     = Inr \<lparr>vt_actor_id = ''a'', vt_session_id = ''s'', vt_tenant_id = None\<rparr>"
proof -
  have g: "al_get mint_demo_args ''key'' = Some ''f''" "al_get mint_demo_args ''actor'' = Some ''a''"
    "al_get mint_demo_args ''session'' = Some ''s''" "al_get mint_demo_args ''kid'' = Some ''2026-06-key-1''"
    "al_get mint_demo_args ''aud'' = Some ''datacat-ingest''" "al_get mint_demo_args ''tenant'' = None"
    "al_get mint_demo_args ''alg'' = None" "al_get mint_demo_args ''ttl'' = None" "al_get mint_demo_args ''iss'' = None"
    by (simp_all add: mint_demo_args_def al_get_def)
  have alg: "mint_alg mint_demo_args = Inr EdDSA" "mint_ttl mint_demo_args = Inr 600"
    by (simp_all add: mint_alg_def mint_ttl_def g)
  have h: "\<lparr>jh_alg = EdDSA, jh_kid = Some ''2026-06-key-1''\<rparr> = demo_header" by (simp add: demo_header_def)
  have minted: "mint_token Some (\<lambda>_ _. Some ''k'') (one_token demo_header mint_demo_claims) 1000 mint_demo_argv = Inr ''t''"
    by (simp add: mint_token_def mint_demo_parsed g alg h one_token_def mint_demo_claims_def)
  have trim: "str_trim ''a'' \<noteq> []" "str_trim ''s'' \<noteq> []"
  proof -
    have "str_trim ''a'' = ''a''" "str_trim ''s'' = ''s''" by (rule str_trim_visible; simp add: ascii_visible_def)+
    then show "str_trim ''a'' \<noteq> []" "str_trim ''s'' \<noteq> []" by simp_all
  qed
  have t: "trusts (=) demo_verifier \<lparr>jh_alg = EdDSA, jh_kid = al_get mint_demo_args ''kid''\<rparr> ''k''"
    by (simp add: g(4) h) (simp add: trusts_def demo_verifier_def demo_header_def select_key_def)
  have "verify (\<lambda>_. Some demo_header) (one_decode mint_demo_claims 1050) demo_verifier ''t''
      = Inr \<lparr>vt_actor_id = ''a'', vt_session_id = ''s'', vt_tenant_id = al_get mint_demo_args ''tenant''\<rparr>"
    by (rule minted_token_accepted [OF one_token_crate minted mint_demo_parsed alg _ t])
      (simp_all add: g trim demo_verifier_def)
  then show ?thesis unfolding g .
qed

subsection \<open>The log of an action\<close>

definition demo_attrs :: "string \<Rightarrow> string \<Rightarrow> key_value list" where
  "demo_attrs session_id actor_id =
     map (\<lambda>(k, v). (k, Some (AnyValue (Some v) None None None None None None)))
       [(''session_id'', session_id), (''actor_id'', actor_id), (''tenant_id'', ''demo-tenant'')]"

definition demo_record :: "nat \<Rightarrow> string \<Rightarrow> string \<Rightarrow> string \<Rightarrow> string \<Rightarrow> log_record" where
  "demo_record now_ns trace_id session_id actor_id body =
     \<lparr>lr_time = Some (Str (show_nat (now_ns mod 2 ^ 64))), lr_observed_time = Some (Str (show_nat (now_ns mod 2 ^ 64))),
      lr_severity_number = Some 9, lr_severity_text = Some ''INFO'',
      lr_body = Some (AnyValue (Some body) None None None None None None),
      lr_attributes = demo_attrs session_id actor_id, lr_trace_id = Some trace_id, lr_span_id = Some (take 16 trace_id)\<rparr>"

lemma decode_obj: "object_of names (json_obj kvs) = Some (fold (\<lambda>(k, v). map_insert k v) kvs [])"
  by (simp add: json_obj_def)

lemma obj_not_null [simp]: "json_obj kvs \<noteq> JNull"
  by (simp add: json_obj_def)

lemma demo_value: "value_of (json_obj [(''stringValue'', JStr v)]) = Some (AnyValue (Some v) None None None None None None)"
  by (simp add: value_of.simps decode_obj field_of_def al_get_def opt_of_def)

lemma demo_attr: "pair_of (otlp_attr k v) = Some (k, Some (AnyValue (Some v) None None None None None None))"
  by (simp add: otlp_attr_def pair_of.simps decode_obj field_of_def al_get_def opt_of_def demo_value)

lemma demo_log_decoded:
  "logs_request_of (build_otlp_log now_ns trace_id session_id actor_id ''demo-tenant'' body)
    = Some [\<lparr>rg_resource = Some ((''service.name'', Some (AnyValue (Some ''demo-backend'') None None None None None None))
               # demo_attrs session_id actor_id),
             rg_scopes = [(Some (Some ''demo-backend.actions''), [demo_record now_ns trace_id session_id actor_id body])]\<rparr>]"
proof -
  have attrs: "those (map pair_of [otlp_attr ''session_id'' session_id, otlp_attr ''actor_id'' actor_id,
      otlp_attr ''tenant_id'' ''demo-tenant'']) = Some (demo_attrs session_id actor_id)"
    by (simp add: demo_attr demo_attrs_def)
  show ?thesis
    by (simp add: build_otlp_log_def Let_def logs_request_of_def request_of_def group_of_def scope_group_of_def log_record_of_def
        resource_of_def attrs_field_def scope_of_def decode_obj field_of_def al_get_def opt_of_def list_of_def demo_attr demo_value
        text_of_def string_or_num_of_def i64_of_def demo_attrs_def demo_record_def)
qed

definition demo_item :: "nat \<Rightarrow> string \<Rightarrow> string \<Rightarrow> string \<Rightarrow> string \<Rightarrow> log_record item" where
  "demo_item now_ns trace_id session_id actor_id body =
     \<lparr>it_resource_attrs = attrs_to_map ((''service.name'', Some (AnyValue (Some ''demo-backend'') None None None None None None))
        # demo_attrs session_id actor_id),
      it_service_name = Some ''demo-backend'', it_scope_name = Some ''demo-backend.actions'',
      it_record = demo_record now_ns trace_id session_id actor_id body\<rparr>"

definition action_message :: "action_request \<Rightarrow> string" where
  "action_message req = ''Action '' @ apostrophes (ar_name req) @ '' executed by actor '' @ ar_actor_id req"

text \<open>The log that the backend makes of an action.\<close>

definition action_log :: "api_env \<Rightarrow> datetime \<Rightarrow> nat \<Rightarrow> string \<Rightarrow> action_request \<Rightarrow> stored_log" where
  "action_log env received_at now_ns trace_id req =
     assemble_log (ae_ser env) (pe_digest (ae_encoding env)) (json_log_fields (ae_ser env) received_at
       (demo_item now_ns trace_id (ar_session_id req) (ar_actor_id req) (action_message req)))"

lemma demo_resource:
  "attrs_to_map ((''service.name'', Some (AnyValue (Some ''demo-backend'') None None None None None None)) # demo_attrs session_id actor_id)
    = [(''actor_id'', JStr actor_id), (''service.name'', JStr ''demo-backend''), (''session_id'', JStr session_id),
       (''tenant_id'', JStr ''demo-tenant'')]"
  by (simp add: attrs_to_map_def demo_attrs_def)

lemma demo_log_attrs:
  "attrs_to_map (demo_attrs session_id actor_id)
    = [(''actor_id'', JStr actor_id), (''session_id'', JStr session_id), (''tenant_id'', JStr ''demo-tenant'')]"
  by (simp add: attrs_to_map_def demo_attrs_def)

lemma demo_items:
  "json_items [\<lparr>rg_resource = Some ((''service.name'', Some (AnyValue (Some ''demo-backend'') None None None None None None))
       # demo_attrs session_id actor_id),
     rg_scopes = [(Some (Some ''demo-backend.actions''), [demo_record now_ns trace_id session_id actor_id body])]\<rparr>]
   = [demo_item now_ns trace_id session_id actor_id body]"
  by (simp add: json_items_def request_items_def demo_item_def json_scope_name_def json_service_name_def demo_resource al_get_def)

lemma action_log_fields:
  assumes "0 < now_ns" "now_ns < 2 ^ 64" "ar_session_id req \<noteq> []" "ar_actor_id req \<noteq> []"
  shows "sl_session_id (action_log env received_at now_ns trace_id req) = Some (ar_session_id req)"
    "sl_actor_id (action_log env received_at now_ns trace_id req) = Some (ar_actor_id req)"
    "sl_tenant_id (action_log env received_at now_ns trace_id req) = Some ''demo-tenant''"
    "sl_service_name (action_log env received_at now_ns trace_id req) = Some ''demo-backend''"
    "sl_body (action_log env received_at now_ns trace_id req) = Some (action_message req)"
    "sl_log_time (action_log env received_at now_ns trace_id req) = int now_ns"
proof -
  have "now_ns \<le> u64_max" using assms(2) by (simp add: u64_max_def)
  then have t: "json_nanos (Some (Str (show_nat now_ns))) = Some (int now_ns)"
    using assms(1) by (simp add: json_nanos_show proto_nanos_def nanos_to_dt_u64)
  show "sl_log_time (action_log env received_at now_ns trace_id req) = int now_ns"
    using assms(2) by (simp add: action_log_def assemble_log_def Let_def json_log_fields_def demo_item_def demo_record_def t)
  show "sl_session_id (action_log env received_at now_ns trace_id req) = Some (ar_session_id req)"
    "sl_actor_id (action_log env received_at now_ns trace_id req) = Some (ar_actor_id req)"
    "sl_tenant_id (action_log env received_at now_ns trace_id req) = Some ''demo-tenant''"
    "sl_service_name (action_log env received_at now_ns trace_id req) = Some ''demo-backend''"
    "sl_body (action_log env received_at now_ns trace_id req) = Some (action_message req)"
    using assms(3,4)
    by (simp_all add: action_log_def assemble_log_def Let_def json_log_fields_def demo_item_def demo_record_def demo_log_attrs
        correlate_def session_keys_def actor_keys_def tenant_keys_def al_get_def anyvalue_to_string_def json_text_def)
qed

lemma bearer_read:
  assumes "headers ''authorization'' = Some (''Bearer '' @ tok)" "tok \<noteq> []"
    and "list_all (\<lambda>c. 33 \<le> (of_char c :: nat) \<and> (of_char c :: nat) < 127) tok"
  shows "extract_token headers None = Some tok"
proof -
  have h: "header_str (''Bearer '' @ tok) = Some (''Bearer '' @ tok)"
    using assms(3) by (auto simp: header_str_def list_all_iff Let_def)
  have v: "ascii_visible c" if "c \<in> set tok" for c
  proof -
    from that assms(3) have "33 \<le> (of_char c :: nat) \<and> (of_char c :: nat) < 127" by (auto simp: list_all_iff)
    then show ?thesis by (simp add: ascii_visible_def)
  qed
  have "str_trim tok = tok"
    by (rule str_trim_visible [OF assms(2) v v]) (use assms(2) in simp_all)
  moreover have "strip_bearer (''Bearer '' @ tok) = Some tok"
    by (simp add: strip_bearer_def strip_prefix_def)
  ultimately show ?thesis using assms(1,2) h by (simp add: extract_token_def)
qed

lemma demo_claims_at:
  "claim_at (ingest_claims_json a s t now) k =
     (if k = ''exp'' then Some (json_of_int (int (now + 600))) else if k = ''iat'' then Some (json_of_int (int now))
      else if k = ''tenant_id'' then Some (JStr t) else if k = ''session_id'' then Some (JStr s)
      else if k = ''actor_id'' then Some (JStr a) else if k = ''sub'' then Some (JStr a)
      else if k = ''aud'' then Some (JStr ''datacat-ingest'') else if k = ''iss'' then Some (JStr ''demo-backend'') else None)"
  unfolding ingest_claims_json_def json_obj_simps by (simp add: al_get_def)

lemma demo_claims_read:
  "now < 2 ^ 63 \<Longrightarrow> claims_of (ingest_claims_json a s t now)
    = Some \<lparr>cl_actor_id = a, cl_session_id = s, cl_tenant_id = Some t, cl_iat = int now\<rparr>"
  unfolding claims_at [OF ingest_claims_json_def] demo_claims_at
  using i64_json [of "int now"] by (simp add: opt_of_def)

lemma demo_token_accepted:
  assumes "jwt_crate encode decode_header decode same_pair now"
    and "sign_token encode t0 key actor session tenant = Some tok" "trusts same_pair v demo_header key"
    and "tv_issuer v \<in> {None, Some ''demo-backend''}" "tv_audience v \<in> {None, Some ''datacat-ingest''}"
    and "t0 < 2 ^ 63" "now - int (tv_leeway v) \<le> int (t0 + 600)" "str_trim actor \<noteq> []" "str_trim session \<noteq> []"
  shows "verify decode_header decode v tok
      = Inr \<lparr>vt_actor_id = actor, vt_session_id = session, vt_tenant_id = Some tenant\<rparr>"
proof -
  have "jwt_valid (validation_of v (jh_alg demo_header)) now (ingest_claims_json actor session tenant t0)"
    using assms(4,5,7) by (auto simp: jwt_valid_def validation_of_def demo_claims_at json_of_int_def)
  from signed_token_accepted [OF assms(1) assms(2) [unfolded sign_token_def] assms(3) this demo_claims_read] assms(6,8,9)
  show ?thesis by simp
qed

lemma str_trim_not_Nil: "str_trim s \<noteq> [] \<Longrightarrow> s \<noteq> []"
  by (cases s) (auto simp: str_trim_def)

text \<open>C37. An action of the example application reaches the log: the request it posts carries a token that a
  backend with its key accepts and a body that the backend reads, and, when the address is not banned, the
  limiter admits one record for the application and the queue has room, it is acknowledged and queues
  exactly the log of the action, with the session, the actor and the tenant of the user.\<close>
theorem action_log_is_queued:
  assumes "jwt_crate encode decode_header decode same_pair now"
    and "ae_verify env = verify decode_header decode v" "cfg_logs_auth (ae_cfg env) = Jwt"
    and "trusts same_pair v demo_header (ds_key s)"
    and "tv_issuer v \<in> {None, Some ''demo-backend''}" "tv_audience v \<in> {None, Some ''datacat-ingest''}"
    and "t0 < 2 ^ 63" "now - int (tv_leeway v) \<le> int (t0 + 600)"
    and "str_trim (ar_actor_id req) \<noteq> []" "str_trim (ar_session_id req) \<noteq> []"
    and "handle_action encode t0 now_ns trace_id s req = (answer, Some p)"
    and "rq_headers q ''authorization'' = al_get (po_headers p) ''Authorization''"
    and "is_banned (request_ip env q) (rq_now q) (as_anomaly st) = (False, guard)"
    and "check (rq_now q) (request_ip env q) ''demo-backend'' 1 (as_limiter st) = (Allow, rl)"
    and "chan_send [alog] (ba_chan (as_logs st)) = Some ch"
    and "alog = action_log env (rq_received_at q) now_ns trace_id req" "0 < now_ns" "now_ns < 2 ^ 64"
    and "\<not> out_of_skew (ae_limits env) (rq_received_at q) (int now_ns)"
    and "log_content_bytes (ae_ser env) alog \<le> max_otlp_record_bytes (ae_limits env)" "0 < max_logs_records (ae_cfg env)"
  shows "fst answer = 200 \<and> fst (ingest_logs env q (logs_request_of (po_body p)) st) = Inr 0
    \<and> ch_batches (ba_chan (as_logs (snd (ingest_logs env q (logs_request_of (po_body p)) st))))
        = ch_batches (ba_chan (as_logs st)) @ [[alog]]
    \<and> sl_session_id alog = Some (ar_session_id req) \<and> sl_actor_id alog = Some (ar_actor_id req)
    \<and> sl_tenant_id alog = Some ''demo-tenant'' \<and> sl_service_name alog = Some ''demo-backend''"
proof -
  obtain tok where tok: "sign_token encode t0 (ds_key s) (ar_actor_id req) (ar_session_id req) ''demo-tenant'' = Some tok"
    "po_headers p = [(''Content-Type'', ''application/json''), (''Authorization'', ''Bearer '' @ tok)]"
    "po_body p = build_otlp_log now_ns trace_id (ar_session_id req) (ar_actor_id req) ''demo-tenant'' (action_message req)"
    "fst answer = 200"
    using assms(11) by (auto simp: handle_action_def action_message_def split: option.splits)
  have visible: "tok \<noteq> []" "list_all (\<lambda>c. 33 \<le> (of_char c :: nat) \<and> (of_char c :: nat) < 127) tok"
    using assms(1) tok(1) by (auto simp: jwt_crate_def sign_token_def)
  have token: "extract_token (rq_headers q) None = Some tok"
    by (rule bearer_read [OF _ visible]) (simp add: assms(12) tok(2) al_get_def)
  have auth: "check_service_token (ae_verify env) (cfg_logs_auth (ae_cfg env)) (Some tok) = Inr ()"
    using demo_token_accepted [OF assms(1) tok(1) assms(4-10)] by (simp add: check_service_token_def assms(2,3))
  have fields: "sl_session_id alog = Some (ar_session_id req)" "sl_actor_id alog = Some (ar_actor_id req)"
    "sl_tenant_id alog = Some ''demo-tenant''" "sl_service_name alog = Some ''demo-backend''" "sl_log_time alog = int now_ns"
    using action_log_fields [OF assms(17,18) str_trim_not_Nil [OF assms(10)] str_trim_not_Nil [OF assms(9)]]
    by (simp_all add: assms(16))
  obtain r where body: "logs_request_of (po_body p) = Some r"
    and items: "json_items r = [demo_item now_ns trace_id (ar_session_id req) (ar_actor_id req) (action_message req)]"
    by (simp add: tok(3) demo_log_decoded demo_items)
  let ?p = "otlp_to_logs (ae_ser env) (pe_digest (ae_encoding env)) r (rq_received_at q) (ae_limits env) (max_logs_records (ae_cfg env))"
  have verdict: "log_verdict (ae_ser env) (pe_digest (ae_encoding env)) (ae_limits env) (rq_received_at q)
      (json_log_fields (ae_ser env) (rq_received_at q) (demo_item now_ns trace_id (ar_session_id req) (ar_actor_id req) (action_message req)))
      = Keep alog"
    using fields(5) assms(16,19) by (simp add: log_verdict_def action_log_def assemble_log_def Let_def)
  have parse: "?p = \<lparr>pa_stored = [alog], pa_dropped_skew = 0, pa_dropped_invalid = 0\<rparr>"
    unfolding otlp_to_logs_def items by (simp add: verdict parse_default_def)
  have accept: "accept_logs env (request_ip env q) (rq_now q) ?p (st\<lparr>as_anomaly := guard\<rparr>)
      = (Inr (1, 1), st\<lparr>as_anomaly := guard, as_limiter := rl,
           as_logs := snd (try_enqueue [alog] (add_skew 0 (as_logs st)))\<rparr>)"
    using assms(14,15,20,21)
    by (simp add: accept_logs_def accept_records_def parse Let_def drop_oversized_def fields(4) as_u32_def add_skew_def
        try_enqueue_def)
  have "ingest_logs env q (logs_request_of (po_body p)) st
      = (Inr 0, st\<lparr>as_anomaly := guard, as_limiter := rl, as_logs := snd (try_enqueue [alog] (add_skew 0 (as_logs st)))\<rparr>)"
    unfolding ingest_logs_def body
    by (simp only: otlp_flow_def Let_def assms(13) prod.case if_False token authorize_logs_def auth sum.case option.case
        option.map accept) simp
  then show ?thesis
    using fields tok(4) ch.send_contents [OF assms(15)] assms(15)
    by (simp add: try_enqueue_def add_skew_def Let_def)
qed

definition demo_action :: action_request where
  "demo_action = \<lparr>ar_session_id = ''s'', ar_actor_id = ''a'', ar_name = ''buy''\<rparr>"

definition demo_signed :: json where
  "demo_signed = ingest_claims_json ''a'' ''s'' ''demo-tenant'' 1000"

definition action_api :: api_env where
  "action_api = demo_api\<lparr>ae_cfg := demo_service\<lparr>cfg_logs_auth := Jwt\<rparr>,
     ae_verify := verify (\<lambda>_. Some demo_header) (one_decode demo_signed 1050) demo_verifier\<rparr>"

definition action_post :: request where
  "action_post = demo_request\<lparr>rq_headers := \<lambda>h. if h = ''authorization'' then Some ''Bearer t'' else None\<rparr>"

lemma action_log_is_queued_witness:
  "\<exists>alog. ch_batches (ba_chan (as_logs (snd (ingest_logs action_api action_post
       (logs_request_of (build_otlp_log 7 ''x'' ''s'' ''a'' ''demo-tenant'' (action_message demo_action)))
       (app_state_new action_api 0 ()))))) = [[alog]] \<and> sl_session_id alog = Some ''s''"
proof -
  define s where "s = \<lparr>ds_key = ''k'', ds_datacat_url = ''u''\<rparr>"
  define st where "st = app_state_new action_api 0 ()"
  define alog where "alog = action_log action_api (rq_received_at action_post) 7 ''x'' demo_action"
  obtain rl where rl: "check 0 (V4 0) ''demo-backend'' (Suc 0) (rate_limiter_new rl_default 0) = (Allow, rl)"
    using demo_check by blast
  have api: "ae_cfg action_api = demo_service\<lparr>cfg_logs_auth := Jwt\<rparr>" "ae_ser action_api = (\<lambda>_. ''{}'')"
    "ae_verify action_api = verify (\<lambda>_. Some demo_header) (one_decode demo_signed 1050) demo_verifier"
    by (simp_all add: action_api_def demo_api_def)
  have limits: "ae_limits action_api = cfg_limits demo_service" "max_logs_records (ae_cfg action_api) = 2048"
    "max_otlp_record_bytes (cfg_limits demo_service) = 65536" "cfg_logs_auth (ae_cfg action_api) = Jwt"
    by (simp_all add: api demo_service_def)
  have ip: "request_ip action_api action_post = V4 0"
    by (simp add: request_ip_def client_ip_def api demo_service_def action_post_def demo_request_def)
  have q: "rq_now action_post = 0" "rq_received_at action_post = 7" "rq_headers action_post ''authorization'' = Some ''Bearer t''"
    by (simp_all add: action_post_def demo_request_def)
  have signed: "sign_token (one_token demo_header demo_signed) 1000 (ds_key s) ''a'' ''s'' ''demo-tenant'' = Some ''t''"
    by (simp add: sign_token_def one_token_def demo_signed_def s_def)
  have trim: "str_trim ''a'' \<noteq> []" "str_trim ''s'' \<noteq> []"
  proof -
    have "str_trim ''a'' = ''a''" "str_trim ''s'' = ''s''" by (rule str_trim_visible; simp add: ascii_visible_def)+
    then show "str_trim ''a'' \<noteq> []" "str_trim ''s'' \<noteq> []" by simp_all
  qed
  obtain answer p where act: "handle_action (one_token demo_header demo_signed) 1000 7 ''x'' s demo_action = (answer, Some p)"
    and p: "po_body p = build_otlp_log 7 ''x'' ''s'' ''a'' ''demo-tenant'' (action_message demo_action)"
      "al_get (po_headers p) ''Authorization'' = Some ''Bearer t''"
    by (simp add: handle_action_def signed demo_action_def action_message_def al_get_def)
  have bytes: "log_content_bytes (ae_ser action_api) alog \<le> 65536"
    by (simp add: alog_def action_log_def assemble_log_def json_log_fields_def demo_item_def demo_record_def log_content_bytes_def
        opt_len_def json_byte_len_def anyvalue_to_string_def json_text_def action_message_def demo_action_def apostrophes_def api
        Let_def)
  have t: "trusts (=) demo_verifier demo_header (ds_key s)"
    by (simp add: trusts_def demo_verifier_def demo_header_def select_key_def s_def)
  have chan: "ba_chan (as_logs st) = \<lparr>ch_capacity = 10, ch_batches = [], ch_open = True\<rparr>"
    by (simp add: st_def app_state_new_def api demo_service_def spawn_batcher_def)
  have skew: "\<not> out_of_skew (ae_limits action_api) (rq_received_at action_post) (int 7)"
    by (simp add: out_of_skew_def past_limit_def future_limit_def limits q demo_service_def)
  have lim: "as_limiter st = rate_limiter_new rl_default 0"
    by (simp add: st_def app_state_new_def api demo_service_def)
  have "ch_batches (ba_chan (as_logs (snd (ingest_logs action_api action_post (logs_request_of (po_body p)) st))))
        = ch_batches (ba_chan (as_logs st)) @ [[alog]] \<and> sl_session_id alog = Some (ar_session_id demo_action)"
    using action_log_is_queued [OF one_token_crate api(3) limits(4) t _ _ _ _ _ _ act _ _ _ _ alog_def _ _ skew, where st = st and rl = rl
        and ch = "\<lparr>ch_capacity = 10, ch_batches = [[alog]], ch_open = True\<rparr>"]
    by (simp add: demo_verifier_def demo_action_def trim q p ip demo_not_banned lim rl chan chan_send_def bytes limits)
  then show ?thesis unfolding p chan by (auto simp: st_def demo_action_def)
qed

end
