(* ===== verification/AlertEval.thy ===== *)
theory AlertEval
  imports Companion
begin

text \<open>
  \<^verbatim>\<open>backend/src/alerting/eval.rs\<close>: the evaluator of the alerting rules. A query is the
  sequence of \<^verbatim>\<open>push\<close> and \<^verbatim>\<open>push_bind\<close> calls that build it; the database is a
  function from queries to rows and the notifiers a function from alerts to success, both taken
  anew at each evaluation. An evaluation returns the new state with the alerts it attempted to
  send. Logging is left out, and the dates are assumed to stay in the range of
  \<^verbatim>\<open>chrono\<close> (beyond it the subtraction panics).
\<close>

subsection \<open>Queries and rows\<close>

datatype sql_value = BText string | BInt int | BTime datetime

datatype fragment = Sql string | Param sql_value

type_synonym query = "fragment list"

datatype cell = CNull | CInt int | CFloat real | CText string

datatype eval_error = Database string | RowNotFound | Undecodable | NotScalarKind rule_kind | BadGroup rule_error

type_synonym database = "query \<Rightarrow> string + cell list list"

text \<open>
  The decoding of a column by its Rust type, as sqlx documents it: a column of another SQL type is
  an error, and so is NULL unless the type is an option.
\<close>

fun decode_i64 :: "cell \<Rightarrow> eval_error + int" where
  "decode_i64 (CInt n) = Inr n"
| "decode_i64 _ = Inl Undecodable"

fun decode_f64 :: "cell \<Rightarrow> eval_error + real" where
  "decode_f64 (CFloat x) = Inr x"
| "decode_f64 _ = Inl Undecodable"

fun decode_opt_text :: "cell \<Rightarrow> eval_error + string option" where
  "decode_opt_text CNull = Inr None"
| "decode_opt_text (CText s) = Inr (Some s)"
| "decode_opt_text _ = Inl Undecodable"

definition fetch_rows :: "database \<Rightarrow> query \<Rightarrow> eval_error + cell list list" where
  "fetch_rows db q = map_err Database (db q)"

definition first_column :: "cell list \<Rightarrow> cell" where
  "first_column row = (case row of [] \<Rightarrow> CNull | c # _ \<Rightarrow> c)"

definition fetch_one_i64 :: "database \<Rightarrow> query \<Rightarrow> eval_error + int" where
  "fetch_one_i64 db q = and_then (fetch_rows db q) (\<lambda>rows.
     case rows of [] \<Rightarrow> Inl RowNotFound | row # _ \<Rightarrow> decode_i64 (first_column row))"

definition fetch_optional_f64 :: "database \<Rightarrow> query \<Rightarrow> eval_error + real option" where
  "fetch_optional_f64 db q = and_then (fetch_rows db q) (\<lambda>rows.
     case rows of
       [] \<Rightarrow> Inr None
     | row # _ \<Rightarrow> and_then (decode_f64 (first_column row)) (\<lambda>x. Inr (Some x)))"

definition fetch_all_i64 :: "database \<Rightarrow> query \<Rightarrow> eval_error + int list" where
  "fetch_all_i64 db q = and_then (fetch_rows db q) (try_map (\<lambda>row. decode_i64 (first_column row)))"

fun decode_group :: "cell list \<Rightarrow> eval_error + string option \<times> int" where
  "decode_group [k, n] = and_then (decode_opt_text k) (\<lambda>gk. and_then (decode_i64 n) (\<lambda>c. Inr (gk, c)))"
| "decode_group _ = Inl Undecodable"

definition fetch_groups :: "database \<Rightarrow> query \<Rightarrow> eval_error + (string \<times> real) list" where
  "fetch_groups db q = and_then (fetch_rows db q) (\<lambda>rows.
     and_then (try_map decode_group rows) (\<lambda>ps.
       Inr (List.map_filter (\<lambda>(gk, c). map_option (\<lambda>g. (g, real_of_int c)) gk) ps)))"

subsection \<open>Building the queries\<close>

fun table_of :: "source \<Rightarrow> string" where
  "table_of Logs = ''logs''"
| "table_of Events = ''events''"
| "table_of Spans = ''spans''"
| "table_of Metrics = ''metric_points''"

fun time_col :: "source \<Rightarrow> string" where
  "time_col Logs = ''log_time''"
| "time_col Events = ''timestamp_client''"
| "time_col Spans = ''start_time''"
| "time_col Metrics = ''time''"

definition windowed_query :: "string \<Rightarrow> source \<Rightarrow> datetime \<Rightarrow> datetime \<Rightarrow> query" where
  "windowed_query sel src from to =
     [Sql (''SELECT '' @ sel @ '' FROM '' @ table_of src @ '' WHERE '' @ time_col src @ '' >= ''),
      Param (BTime from), Sql ('' AND '' @ time_col src @ '' <= ''), Param (BTime to)]"

text \<open>\<^verbatim>\<open>if let Some(x) = field { qb.push(lit).push_bind(x); }\<close>\<close>

definition filter_by :: "string \<Rightarrow> ('a \<Rightarrow> sql_value) \<Rightarrow> 'a option \<Rightarrow> query" where
  "filter_by lit bind x = (case x of None \<Rightarrow> [] | Some v \<Rightarrow> [Sql lit, Param (bind v)])"

definition service_filter :: "rule_fields \<Rightarrow> query" where
  "service_filter r = filter_by '' AND service_name = '' BText (ru_service r)"

definition push_tenant_filter :: "query \<Rightarrow> rule_fields \<Rightarrow> query" where
  "push_tenant_filter qb r = qb @ filter_by '' AND tenant_id = '' BText (ru_tenant r)"

definition push_base_filter :: "query \<Rightarrow> rule_fields \<Rightarrow> query" where
  "push_base_filter qb r =
     push_tenant_filter
       (qb @ (case ru_source r of
                Logs \<Rightarrow> service_filter r
              | Spans \<Rightarrow> service_filter r @ filter_by '' AND name = '' BText (ru_operation r)
              | Events \<Rightarrow> filter_by '' AND event_name = '' BText (ru_event_name r)
              | Metrics \<Rightarrow> service_filter r @ filter_by '' AND metric_name = '' BText (ru_metric_name r)))
       r"

definition push_error_predicate :: "query \<Rightarrow> rule_fields \<Rightarrow> query" where
  "push_error_predicate qb r =
     (case ru_source r of
        Logs \<Rightarrow> qb @ [Sql '' AND severity_number >= '', Param (BInt (unwrap_or 17 (ru_severity_min r)))]
      | Spans \<Rightarrow> qb @ [Sql '' AND status_code = 2'']
      | _ \<Rightarrow> qb)"

definition push_count_filter :: "query \<Rightarrow> rule_fields \<Rightarrow> query" where
  "push_count_filter qb r =
     (let qb = push_base_filter qb r;
          qb = (if ru_source r = Logs
                then qb @ filter_by '' AND severity_number >= '' BInt (ru_severity_min r) else qb)
      in if ru_error_only r then push_error_predicate qb r else qb)"

definition push_span_filter :: "query \<Rightarrow> rule_fields \<Rightarrow> query" where
  "push_span_filter qb r =
     qb @ service_filter r @ filter_by '' AND name = '' BText (ru_operation r)
        @ filter_by '' AND tenant_id = '' BText (ru_tenant r)
        @ (if ru_error_only r then [Sql '' AND status_code = 2''] else [])"

definition push_log_group_filters :: "query \<Rightarrow> rule_fields \<Rightarrow> query" where
  "push_log_group_filters qb r =
     qb @ service_filter r @ filter_by '' AND severity_number >= '' BInt (ru_severity_min r)
        @ filter_by '' AND tenant_id = '' BText (ru_tenant r)"

fun group_fragment :: "group_expr \<Rightarrow> query" where
  "group_fragment (Column col) = [Sql col]"
| "group_fragment (Attr key) = [Sql ''log_attributes ->> '', Param (BText key)]"

definition push_group_expr :: "query \<Rightarrow> group_expr \<Rightarrow> query" where
  "push_group_expr qb g = qb @ group_fragment g"

text \<open>The text of the percentiles is the one Rust prints for the constant. \<open>Last\<close> is
  handled apart by the callers (\<^verbatim>\<open>unreachable!\<close>).\<close>

fun agg_sql_expr :: "agg \<Rightarrow> string \<Rightarrow> string" where
  "agg_sql_expr P50 val = ''percentile_cont(0.5) WITHIN GROUP (ORDER BY '' @ val @ '')''"
| "agg_sql_expr P90 val = ''percentile_cont(0.9) WITHIN GROUP (ORDER BY '' @ val @ '')''"
| "agg_sql_expr P95 val = ''percentile_cont(0.95) WITHIN GROUP (ORDER BY '' @ val @ '')''"
| "agg_sql_expr P99 val = ''percentile_cont(0.99) WITHIN GROUP (ORDER BY '' @ val @ '')''"
| "agg_sql_expr Avg val = ''avg('' @ val @ '')''"
| "agg_sql_expr Max_agg val = ''max('' @ val @ '')''"
| "agg_sql_expr Min_agg val = ''min('' @ val @ '')''"
| "agg_sql_expr Sum_agg val = ''sum('' @ val @ '')''"
| "agg_sql_expr Count_agg val = ''count('' @ val @ '')''"
| "agg_sql_expr Last_agg val = []"

subsection \<open>Computing the value of a rule\<close>

text \<open>The casts \<^verbatim>\<open>as i64\<close>, \<^verbatim>\<open>as i32\<close> and \<^verbatim>\<open>as u64\<close>, and
  \<^verbatim>\<open>u64::saturating_mul\<close>.\<close>

definition as_i64 :: "nat \<Rightarrow> int" where
  "as_i64 n = (let m = int n mod 2 ^ 64 in if m < 2 ^ 63 then m else m - 2 ^ 64)"

definition as_i32 :: "nat \<Rightarrow> int" where
  "as_i32 n = (let m = int n mod 2 ^ 32 in if m < 2 ^ 31 then m else m - 2 ^ 32)"

definition as_u64 :: "int \<Rightarrow> nat" where
  "as_u64 i = nat (i mod 2 ^ 64)"

definition saturating_mul :: "nat \<Rightarrow> nat \<Rightarrow> nat" where
  "saturating_mul a b = min (a * b) u64_max"

definition seconds :: "int \<Rightarrow> int" where
  "seconds s = s * 1000000000"

definition compute_count :: "database \<Rightarrow> rule_fields \<Rightarrow> datetime \<Rightarrow> datetime \<Rightarrow> eval_error + real" where
  "compute_count db r from to =
     and_then (fetch_one_i64 db (push_count_filter (windowed_query ''count(*)'' (ru_source r) from to) r))
       (\<lambda>n. Inr (real_of_int n))"

definition metric_value_expr :: string where
  "metric_value_expr = ''coalesce(value_double, value_int::double precision)''"

definition metric_query :: "rule_fields \<Rightarrow> datetime \<Rightarrow> datetime \<Rightarrow> query" where
  "metric_query r from to =
     (let agg = unwrap_or Avg (ru_agg r);
          sel = (if agg = Last_agg then metric_value_expr else agg_sql_expr agg metric_value_expr);
          qb = windowed_query sel Metrics from to
                 @ [Sql '' AND metric_name = '', Param (BText (unwrap_or [] (ru_metric_name r)))]
                 @ service_filter r;
          qb = push_tenant_filter qb r
      in if agg = Last_agg then qb @ [Sql '' ORDER BY time DESC LIMIT 1''] else qb)"

definition compute_metric :: "database \<Rightarrow> rule_fields \<Rightarrow> datetime \<Rightarrow> datetime \<Rightarrow> eval_error + real" where
  "compute_metric db r from to =
     and_then (fetch_optional_f64 db (metric_query r from to)) (\<lambda>v. Inr (unwrap_or 0 v))"

definition compute_error_ratio :: "database \<Rightarrow> rule_fields \<Rightarrow> datetime \<Rightarrow> datetime \<Rightarrow> eval_error + real" where
  "compute_error_ratio db r from to =
     and_then (fetch_one_i64 db (push_base_filter (windowed_query ''count(*)'' (ru_source r) from to) r))
       (\<lambda>total.
          if as_u64 total < max (ru_min_count r) 1 then Inr 0
          else and_then (fetch_one_i64 db (push_error_predicate
                 (push_base_filter (windowed_query ''count(*)'' (ru_source r) from to) r) r))
               (\<lambda>errors. Inr (real_of_int errors / real_of_int total)))"

definition span_query :: "rule_fields \<Rightarrow> datetime \<Rightarrow> datetime \<Rightarrow> query" where
  "span_query r from to =
     (let agg = unwrap_or P95 (ru_agg r);
          sel = (if agg = Last_agg then ''duration_ms'' else agg_sql_expr agg ''duration_ms'');
          qb = push_span_filter
                 (windowed_query sel Spans from to @ [Sql '' AND duration_ms IS NOT NULL'']) r
      in if agg = Last_agg then qb @ [Sql '' ORDER BY start_time DESC LIMIT 1''] else qb)"

definition compute_span_duration :: "database \<Rightarrow> rule_fields \<Rightarrow> datetime \<Rightarrow> datetime \<Rightarrow> eval_error + real" where
  "compute_span_duration db r from to =
     and_then (fetch_optional_f64 db (span_query r from to)) (\<lambda>v. Inr (unwrap_or 0 v))"

definition compute_relative_change :: "database \<Rightarrow> rule_fields \<Rightarrow> datetime \<Rightarrow> datetime \<Rightarrow> eval_error + real" where
  "compute_relative_change db r from to =
     (let window = to - from;
          prev_from = from - window in
      and_then (fetch_one_i64 db (push_count_filter (windowed_query ''count(*)'' (ru_source r) from to) r))
       (\<lambda>current.
      and_then (fetch_one_i64 db (push_count_filter (windowed_query ''count(*)'' (ru_source r) prev_from from) r))
       (\<lambda>previous.
        Inr (real_of_int current / max (real_of_int previous) (real (max (ru_min_count r) 1))))))"

definition bucket_query :: "rule_fields \<Rightarrow> datetime \<Rightarrow> datetime \<Rightarrow> query" where
  "bucket_query r start until =
     (let win = Param (BInt (as_i32 (ru_window_secs r)));
          tc = time_col (ru_source r);
          qb = [Sql (''SELECT count(t.'' @ tc @ '') AS c FROM generate_series(''), Param (BTime start),
                Sql '', '', Param (BTime until), Sql '' - make_interval(secs => '', win,
                Sql ''), make_interval(secs => '', win, Sql '')) AS b LEFT JOIN '',
                Sql (table_of (ru_source r)), Sql '' t ON t.'', Sql tc, Sql '' >= b AND t.'', Sql tc,
                Sql '' < b + make_interval(secs => '', win, Sql '')'']
      in push_count_filter qb r @ [Sql '' GROUP BY b ORDER BY b''])"

definition bucket_counts :: "database \<Rightarrow> rule_fields \<Rightarrow> datetime \<Rightarrow> datetime \<Rightarrow> eval_error + int list" where
  "bucket_counts db r start until = fetch_all_i64 db (bucket_query r start until)"

definition mean_of :: "int list \<Rightarrow> real" where
  "mean_of bs = real_of_int (sum_list bs) / real (length bs)"

definition variance_of :: "int list \<Rightarrow> real" where
  "variance_of bs =
     sum_list (map (\<lambda>c. (real_of_int c - mean_of bs) * (real_of_int c - mean_of bs)) bs) / real (length bs)"

definition compute_anomaly :: "database \<Rightarrow> rule_fields \<Rightarrow> datetime \<Rightarrow> eval_error + real" where
  "compute_anomaly db r now =
     (let win = as_i64 (ru_window_secs r);
          baseline = as_i64 (case ru_baseline_secs r of
                       Some b \<Rightarrow> b | None \<Rightarrow> saturating_mul (ru_window_secs r) 30);
          start = now - seconds baseline;
          hist_end = now - seconds win in
      and_then (bucket_counts db r start hist_end) (\<lambda>buckets.
        if length buckets < 3 then Inr 0
        else if mean_of buckets < real (ru_min_count r) then Inr 0
        else if sqrt (variance_of buckets) < 1 / 1000000000 then Inr 0
        else and_then (compute_count db r hist_end now) (\<lambda>current.
          Inr ((current - mean_of buckets) / sqrt (variance_of buckets)))))"

definition compute_value :: "database \<Rightarrow> rule_fields \<Rightarrow> datetime \<Rightarrow> eval_error + real" where
  "compute_value db r now =
     (let from = now - seconds (as_i64 (ru_window_secs r)) in
      case ru_kind r of
        LogGroupCount \<Rightarrow> Inl (NotScalarKind (ru_kind r))
      | LogNewSignature \<Rightarrow> Inl (NotScalarKind (ru_kind r))
      | Composite \<Rightarrow> Inl (NotScalarKind (ru_kind r))
      | LogCount \<Rightarrow> compute_count db r from now
      | TelemetryCount \<Rightarrow> compute_count db r from now
      | MetricThreshold \<Rightarrow> compute_metric db r from now
      | ErrorRatio \<Rightarrow> compute_error_ratio db r from now
      | SpanDuration \<Rightarrow> compute_span_duration db r from now
      | RelativeChange \<Rightarrow> compute_relative_change db r from now
      | Anomaly_kind \<Rightarrow> compute_anomaly db r now)"

definition group_query :: "rule_fields \<Rightarrow> group_expr \<Rightarrow> datetime \<Rightarrow> datetime \<Rightarrow> query" where
  "group_query r grp from now =
     (let qb = push_group_expr [Sql ''SELECT ''] grp
                 @ [Sql '' AS gk, count(*) FROM logs WHERE log_time >= '', Param (BTime from),
                    Sql '' AND log_time <= '', Param (BTime now)];
          qb = push_log_group_filters qb r
      in push_group_expr (qb @ [Sql '' GROUP BY '']) grp)"

definition compute_groups :: "database \<Rightarrow> rule_fields \<Rightarrow> datetime \<Rightarrow> eval_error + (string \<times> real) list" where
  "compute_groups db r now =
     (let from = now - seconds (as_i64 (ru_window_secs r)) in
      and_then (map_err BadGroup (group_expr_of r)) (\<lambda>grp.
        fetch_groups db (group_query r grp from now)))"

definition novel_query ::
    "rule_fields \<Rightarrow> group_expr \<Rightarrow> datetime \<Rightarrow> datetime \<Rightarrow> datetime \<Rightarrow> query" where
  "novel_query r grp from baseline_from now =
     (let qb = group_query r grp from now @ [Sql '' HAVING ''];
          qb = push_group_expr qb grp @ [Sql '' NOT IN (SELECT ''];
          qb = push_group_expr qb grp
                 @ [Sql '' FROM logs WHERE log_time >= '', Param (BTime baseline_from),
                    Sql '' AND log_time < '', Param (BTime from)]
      in push_log_group_filters qb r @ [Sql '')''])"

definition compute_novel_groups :: "database \<Rightarrow> rule_fields \<Rightarrow> datetime \<Rightarrow> eval_error + (string \<times> real) list" where
  "compute_novel_groups db r now =
     (let from = now - seconds (as_i64 (ru_window_secs r));
          baseline_from = now - seconds (as_i64 (unwrap_or 86400 (ru_baseline_secs r))) in
      and_then (map_err BadGroup (group_expr_of r)) (\<lambda>grp.
        fetch_groups db (novel_query r grp from baseline_from now)))"

subsection \<open>Descriptions\<close>

text \<open>\<open>show_f\<close> is the format \<^verbatim>\<open>{}\<close> of a float.\<close>

definition shown_by :: "string \<Rightarrow> ('a \<Rightarrow> string) \<Rightarrow> 'a option \<Rightarrow> string list" where
  "shown_by lit f x = (case x of None \<Rightarrow> [] | Some v \<Rightarrow> [lit @ f v])"

fun source_label :: "source \<Rightarrow> string" where
  "source_label Logs = ''logs''"
| "source_label Events = ''events''"
| "source_label Spans = ''spans''"
| "source_label Metrics = ''metrics''"

fun join_with :: "string \<Rightarrow> string list \<Rightarrow> string" where
  "join_with sep [] = []"
| "join_with sep [x] = x"
| "join_with sep (x # y # ys) = x @ sep @ join_with sep (y # ys)"

definition source_desc :: "rule_fields \<Rightarrow> string" where
  "source_desc r = join_with '' ''
     ([source_label (ru_source r)]
      @ shown_by ''service='' (\<lambda>s. s) (ru_service r)
      @ shown_by ''severity>='' show_int (ru_severity_min r)
      @ shown_by ''event='' (\<lambda>s. s) (ru_event_name r)
      @ shown_by ''op='' (\<lambda>s. s) (ru_operation r)
      @ shown_by ''metric='' (\<lambda>s. s) (ru_metric_name r)
      @ (if ru_error_only r then [''errors''] else []))"

definition condition_text :: "(real \<Rightarrow> string) \<Rightarrow> string \<Rightarrow> rule_fields \<Rightarrow> string" where
  "condition_text show_f u r =
     '' '' @ comparator_symbol (ru_comparator r) @ '' '' @ show_f (ru_threshold r) @ u"

definition over_text :: "rule_fields \<Rightarrow> string" where
  "over_text r = '' over '' @ show_nat (ru_window_secs r) @ ''s''"

definition log_count_text :: "rule_fields \<Rightarrow> string" where
  "log_count_text r =
     ''count(logs service='' @ unwrap_or ''*'' (ru_service r)
       @ concat (shown_by '', severity>='' show_int (ru_severity_min r)) @ '')''"

fun describe :: "(real \<Rightarrow> string) \<Rightarrow> rule \<Rightarrow> string"
  and describe_all :: "(real \<Rightarrow> string) \<Rightarrow> rule list \<Rightarrow> string list" where
  "describe show_f (Rule r cs) =
     (case ru_kind r of
        LogCount \<Rightarrow> log_count_text r @ condition_text show_f [] r @ over_text r
      | LogGroupCount \<Rightarrow>
          log_count_text r @ '' by '' @ unwrap_or ''body'' (ru_group_by r)
            @ condition_text show_f [] r @ over_text r
      | MetricThreshold \<Rightarrow>
          agg_label (unwrap_or Avg (ru_agg r)) @ ''('' @ unwrap_or [] (ru_metric_name r) @ '')''
            @ condition_text show_f [] r @ over_text r
      | TelemetryCount \<Rightarrow>
          ''count('' @ source_desc r @ '')'' @ condition_text show_f [] r @ over_text r
      | ErrorRatio \<Rightarrow>
          ''error_ratio('' @ source_desc r @ '')'' @ condition_text show_f [] r @ over_text r
      | SpanDuration \<Rightarrow>
          agg_label (unwrap_or P95 (ru_agg r)) @ ''(span.duration_ms service=''
            @ unwrap_or ''*'' (ru_service r) @ concat (shown_by '' op='' (\<lambda>s. s) (ru_operation r))
            @ (if ru_error_only r then '' errors'' else []) @ '')''
            @ condition_text show_f ''ms'' r @ over_text r
      | RelativeChange \<Rightarrow>
          ''change('' @ source_desc r @ '')'' @ condition_text show_f ''x'' r
            @ '' vs previous '' @ show_nat (ru_window_secs r) @ ''s''
      | Composite \<Rightarrow>
          (case unwrap_or All_op (ru_op r) of All_op \<Rightarrow> ''ALL'' | Any_op \<Rightarrow> ''ANY'') @ '' of [''
            @ join_with (case unwrap_or All_op (ru_op r) of All_op \<Rightarrow> '' AND '' | Any_op \<Rightarrow> '' OR '')
                (describe_all show_f cs) @ '']''
      | LogNewSignature \<Rightarrow>
          ''new signature('' @ source_desc r @ '' by '' @ unwrap_or ''body'' (ru_group_by r)
            @ '', baseline '' @ show_nat (unwrap_or 86400 (ru_baseline_secs r)) @ ''s)''
            @ condition_text show_f [] r @ over_text r
      | Anomaly_kind \<Rightarrow>
          ''anomaly(count '' @ source_desc r @ '') z'' @ condition_text show_f [] r @ over_text r
            @ '' baseline '' @ show_nat (unwrap_or (saturating_mul (ru_window_secs r) 30) (ru_baseline_secs r))
            @ ''s'')"
| "describe_all show_f [] = []"
| "describe_all show_f (c # cs) = describe show_f c # describe_all show_f cs"

subsection \<open>The state machine\<close>

record rule_state =
  rs_firing :: bool
  rs_last_notified :: "datetime option"

definition rule_state_default :: rule_state where
  "rule_state_default = \<lparr>rs_firing = False, rs_last_notified = None\<rparr>"

type_synonym engine_state = "rule_state alist"

text \<open>
  What one evaluation sees of the world: the database, which alerts each notifier delivers, and
  the printing of a float.
\<close>

record 'n world =
  w_db :: database
  w_deliver :: "'n \<Rightarrow> alert \<Rightarrow> bool"
  w_show :: "real \<Rightarrow> string"

text \<open>An attempted notification: its state key, the alert, whether any notifier delivered it.\<close>

record attempt =
  at_key :: string
  at_alert :: alert
  at_sent :: bool

record 'n transition_input =
  ti_key :: string
  ti_breaching :: bool
  ti_rule :: rule
  ti_value :: real
  ti_group :: "string option"
  ti_notifiers :: "'n list"

definition transition_of :: "bool \<Rightarrow> bool \<Rightarrow> alert_state option" where
  "transition_of was breaching =
     (case (was, breaching) of
        (False, True) \<Rightarrow> Some Firing
      | (True, False) \<Rightarrow> Some Resolved
      | _ \<Rightarrow> None)"

definition state_entry :: "engine_state \<Rightarrow> string \<Rightarrow> rule_state" where
  "state_entry st k = unwrap_or rule_state_default (al_get st k)"

definition in_cooldown :: "rule_fields \<Rightarrow> datetime option \<Rightarrow> datetime \<Rightarrow> bool" where
  "in_cooldown r last_notified now =
     (case last_notified of
        None \<Rightarrow> False
      | Some t \<Rightarrow> since now t < secs (ru_cooldown_secs r))"

definition process_transition ::
    "'n world \<Rightarrow> datetime \<Rightarrow> 'n transition_input \<Rightarrow> engine_state \<Rightarrow> engine_state \<times> attempt list" where
  "process_transition w now i st =
     (let r = rule_data (ti_rule i);
          entry = state_entry st (ti_key i);
          transition = transition_of (rs_firing entry) (ti_breaching i);
          entry = entry\<lparr>rs_firing := ti_breaching i\<rparr>
      in case transition of
           None \<Rightarrow> (al_put (ti_key i) entry st, [])
         | Some alert_state \<Rightarrow>
             if in_cooldown r (rs_last_notified entry) now then (al_put (ti_key i) entry st, [])
             else
               let alert = \<lparr>a_rule_name = ru_name r, a_severity = ru_severity r,
                            a_state = alert_state, a_value = ti_value i,
                            a_threshold = ru_threshold r,
                            a_description = describe (w_show w) (ti_rule i),
                            a_group_key = ti_group i\<rparr>;
                   any_sent = list_ex (\<lambda>n. w_deliver w n alert) (ti_notifiers i);
                   entry = (if any_sent then entry\<lparr>rs_last_notified := Some now\<rparr> else entry)
               in (al_put (ti_key i) entry st,
                   [\<lparr>at_key = ti_key i, at_alert = alert, at_sent = any_sent\<rparr>]))"

fun process_all ::
    "'n world \<Rightarrow> datetime \<Rightarrow> 'n transition_input list \<Rightarrow> engine_state \<Rightarrow> engine_state \<times> attempt list" where
  "process_all w now [] st = (st, [])"
| "process_all w now (i # is) st =
     (let (st, as) = process_transition w now i st; (st, bs) = process_all w now is st
      in (st, as @ bs))"

subsection \<open>Evaluating the rules\<close>

definition breaches :: "rule_fields \<Rightarrow> real \<Rightarrow> bool" where
  "breaches r v = compare_values (ru_comparator r) v (ru_threshold r)"

fun count_met :: "database \<Rightarrow> datetime \<Rightarrow> rule list \<Rightarrow> nat \<Rightarrow> eval_error + nat" where
  "count_met db now [] met = Inr met"
| "count_met db now (c # cs) met =
     and_then (compute_value db (rule_data c) now) (\<lambda>v.
       count_met db now cs (if breaches (rule_data c) v then Suc met else met))"

definition evaluate_composite_rule ::
    "'n world \<Rightarrow> datetime \<Rightarrow> 'n list \<Rightarrow> rule \<Rightarrow> engine_state \<Rightarrow> engine_state \<times> attempt list" where
  "evaluate_composite_rule w now notifiers rule st =
     (case count_met (w_db w) now (conditions rule) 0 of
        Inl _ \<Rightarrow> (st, [])
      | Inr met \<Rightarrow>
          (let breaching = (case unwrap_or All_op (ru_op (rule_data rule)) of
                              All_op \<Rightarrow> met = length (conditions rule)
                            | Any_op \<Rightarrow> met \<ge> 1)
           in process_transition w now
                \<lparr>ti_key = rule_name rule, ti_breaching = breaching, ti_rule = rule,
                 ti_value = real met, ti_group = None, ti_notifiers = notifiers\<rparr> st))"

definition evaluate_scalar_rule ::
    "'n world \<Rightarrow> datetime \<Rightarrow> 'n list \<Rightarrow> rule \<Rightarrow> engine_state \<Rightarrow> engine_state \<times> attempt list" where
  "evaluate_scalar_rule w now notifiers rule st =
     (case compute_value (w_db w) (rule_data rule) now of
        Inl _ \<Rightarrow> (st, [])
      | Inr v \<Rightarrow>
          process_transition w now
            \<lparr>ti_key = rule_name rule, ti_breaching = breaches (rule_data rule) v, ti_rule = rule,
             ti_value = v, ti_group = None, ti_notifiers = notifiers\<rparr> st)"

definition group_prefix :: "rule \<Rightarrow> string" where
  "group_prefix rule = rule_name rule @ ''::''"

definition group_input :: "rule \<Rightarrow> 'n list \<Rightarrow> string \<times> real \<Rightarrow> 'n transition_input" where
  "group_input rule notifiers gc =
     \<lparr>ti_key = group_prefix rule @ fst gc, ti_breaching = breaches (rule_data rule) (snd gc),
      ti_rule = rule, ti_value = snd gc, ti_group = Some (fst gc), ti_notifiers = notifiers\<rparr>"

definition stale_keys :: "rule \<Rightarrow> (string \<times> real) list \<Rightarrow> engine_state \<Rightarrow> string list" where
  "stale_keys rule groups st =
     map fst (filter (\<lambda>(k, v). rs_firing v \<and> prefix (group_prefix rule) k
        \<and> drop (length (group_prefix rule)) k \<notin> fst ` set groups) st)"

definition stale_input :: "rule \<Rightarrow> 'n list \<Rightarrow> string \<Rightarrow> 'n transition_input" where
  "stale_input rule notifiers k =
     \<lparr>ti_key = k, ti_breaching = False, ti_rule = rule, ti_value = 0,
      ti_group = Some (drop (length (group_prefix rule)) k), ti_notifiers = notifiers\<rparr>"

definition evaluate_group_rule ::
    "'n world \<Rightarrow> datetime \<Rightarrow> 'n list \<Rightarrow> rule \<Rightarrow> engine_state \<Rightarrow> engine_state \<times> attempt list" where
  "evaluate_group_rule w now notifiers rule st =
     (case (case ru_kind (rule_data rule) of
              LogNewSignature \<Rightarrow> compute_novel_groups (w_db w) (rule_data rule) now
            | _ \<Rightarrow> compute_groups (w_db w) (rule_data rule) now) of
        Inl _ \<Rightarrow> (st, [])
      | Inr groups \<Rightarrow>
          (let (st, as) = process_all w now (map (group_input rule notifiers) groups) st;
               (st, bs) = process_all w now (map (stale_input rule notifiers) (stale_keys rule groups st)) st
           in (st, as @ bs)))"

definition evaluate_rule ::
    "'n world \<Rightarrow> datetime \<Rightarrow> 'n list \<Rightarrow> rule \<Rightarrow> engine_state \<Rightarrow> engine_state \<times> attempt list" where
  "evaluate_rule w now notifiers rule st =
     (case ru_kind (rule_data rule) of
        LogGroupCount \<Rightarrow> evaluate_group_rule w now notifiers rule st
      | LogNewSignature \<Rightarrow> evaluate_group_rule w now notifiers rule st
      | Composite \<Rightarrow> evaluate_composite_rule w now notifiers rule st
      | _ \<Rightarrow> evaluate_scalar_rule w now notifiers rule st)"

fun evaluate_once ::
    "'box dispatcher \<Rightarrow> rule list \<Rightarrow> 'box notifier world \<Rightarrow> datetime \<Rightarrow> engine_state \<Rightarrow> engine_state \<times> attempt list" where
  "evaluate_once d [] w now st = (st, [])"
| "evaluate_once d (r # rs) w now st =
     (let (st, as) = evaluate_rule w now (for_rule d r) r st;
          (st, bs) = evaluate_once d rs w now st
      in (st, as @ bs))"

text \<open>The number \<^verbatim>\<open>evaluate_once\<close> returns.\<close>

definition notified_count :: "attempt list \<Rightarrow> nat" where
  "notified_count as = length (filter at_sent as)"

text \<open>The background loop: one evaluation per tick, until the shutdown. Each attempt is kept with
  the date of its evaluation.\<close>

fun run_eval_loop ::
    "'box dispatcher \<Rightarrow> rule list \<Rightarrow> ('box notifier world \<times> datetime) list \<Rightarrow> engine_state
       \<Rightarrow> engine_state \<times> (datetime \<times> attempt) list" where
  "run_eval_loop d rules [] st = (st, [])"
| "run_eval_loop d rules ((w, now) # ticks) st =
     (let (st, as) = evaluate_once d rules w now st;
          (st, bs) = run_eval_loop d rules ticks st
      in (st, map (Pair now) as @ bs))"

subsection \<open>An evaluation as a sequence of transitions\<close>

text \<open>Every evaluation is a sequence of calls of \<open>process_transition\<close>; what holds of all
  sequences of calls holds of every run of the loop.\<close>

fun process_trace ::
    "('n world \<times> datetime \<times> 'n transition_input) list \<Rightarrow> engine_state
       \<Rightarrow> engine_state \<times> (datetime \<times> attempt) list" where
  "process_trace [] st = (st, [])"
| "process_trace ((w, now, i) # es) st =
     (let (st, as) = process_transition w now i st; (st, bs) = process_trace es st
      in (st, map (Pair now) as @ bs))"

text \<open>The state keys of a rule.\<close>

definition owns_key :: "rule \<Rightarrow> string \<Rightarrow> bool" where
  "owns_key r k \<longleftrightarrow> k = rule_name r \<or> prefix (group_prefix r) k"

lemma process_all_append:
  "process_all w now (is @ js) st =
     (let (st, as) = process_all w now is st; (st, bs) = process_all w now js st in (st, as @ bs))"
  by (induction "is" arbitrary: st) (auto split: prod.splits)

lemma process_trace_append:
  "process_trace (es @ fs) st =
     (let (st, as) = process_trace es st; (st, bs) = process_trace fs st in (st, as @ bs))"
  by (induction es arbitrary: st) (auto split: prod.splits)

lemma process_all_trace:
  "process_trace (map (\<lambda>i. (w, now, i)) is) st =
     (fst (process_all w now is st), map (Pair now) (snd (process_all w now is st)))"
  by (induction "is" arbitrary: st) (auto split: prod.splits)

lemma process_all_single: "process_all w now [i] st = process_transition w now i st"
  by (simp split: prod.splits)

lemma evaluate_rule_inputs:
  "\<exists>is. evaluate_rule w now ns r st = process_all w now is st
     \<and> (\<forall>i\<in>set is. ti_rule i = r \<and> owns_key r (ti_key i))"
proof -
  have none: "\<exists>is. (st, []) = process_all w now is st \<and> (\<forall>i\<in>set is. ti_rule i = r \<and> owns_key r (ti_key i))"
    by (rule exI [of _ "[]"]) simp
  have one: "\<exists>is. process_transition w now i st = process_all w now is st
      \<and> (\<forall>i\<in>set is. ti_rule i = r \<and> owns_key r (ti_key i))"
    if "ti_rule i = r" "ti_key i = rule_name r" for i
    using that by (intro exI [of _ "[i]"]) (simp add: owns_key_def split: prod.splits)
  have scalar: "\<exists>is. evaluate_scalar_rule w now ns r st = process_all w now is st
      \<and> (\<forall>i\<in>set is. ti_rule i = r \<and> owns_key r (ti_key i))"
    using none one by (auto simp: evaluate_scalar_rule_def split: sum.splits)
  have composite: "\<exists>is. evaluate_composite_rule w now ns r st = process_all w now is st
      \<and> (\<forall>i\<in>set is. ti_rule i = r \<and> owns_key r (ti_key i))"
    using none one by (auto simp: evaluate_composite_rule_def Let_def split: sum.splits)
  have grouped: "\<exists>is. evaluate_group_rule w now ns r st = process_all w now is st
      \<and> (\<forall>i\<in>set is. ti_rule i = r \<and> owns_key r (ti_key i))"
  proof (cases "case ru_kind (rule_data r) of
      LogNewSignature \<Rightarrow> compute_novel_groups (w_db w) (rule_data r) now
    | _ \<Rightarrow> compute_groups (w_db w) (rule_data r) now")
    case (Inl e)
    with none show ?thesis by (simp add: evaluate_group_rule_def)
  next
    case (Inr gs)
    define is1 where "is1 = map (group_input r ns) gs"
    define is2 where "is2 = map (stale_input r ns) (stale_keys r gs (fst (process_all w now is1 st)))"
    have "evaluate_group_rule w now ns r st = process_all w now (is1 @ is2) st"
      by (simp add: evaluate_group_rule_def Inr process_all_append is1_def is2_def split: prod.splits)
    moreover have "\<forall>i\<in>set (is1 @ is2). ti_rule i = r \<and> owns_key r (ti_key i)"
      by (auto simp: is1_def is2_def group_input_def stale_input_def stale_keys_def owns_key_def)
    ultimately show ?thesis by blast
  qed
  show ?thesis
    using scalar composite grouped by (simp add: evaluate_rule_def split: rule_kind.split)
qed

lemma evaluate_once_inputs:
  "\<exists>is. evaluate_once d rs w now st = process_all w now is st
     \<and> (\<forall>i\<in>set is. ti_rule i \<in> set rs \<and> owns_key (ti_rule i) (ti_key i))"
proof (induction rs arbitrary: st)
  case Nil
  then show ?case by (intro exI [of _ "[]"]) simp
next
  case (Cons r rs)
  obtain is1 where 1: "evaluate_rule w now (for_rule d r) r st = process_all w now is1 st"
    "\<forall>i\<in>set is1. ti_rule i = r \<and> owns_key r (ti_key i)"
    using evaluate_rule_inputs by blast
  obtain is2 where 2: "evaluate_once d rs w now (fst (process_all w now is1 st))
      = process_all w now is2 (fst (process_all w now is1 st))"
    "\<forall>i\<in>set is2. ti_rule i \<in> set rs \<and> owns_key (ti_rule i) (ti_key i)"
    using Cons.IH by blast
  have "evaluate_once d (r # rs) w now st = process_all w now (is1 @ is2) st"
    using 1(1) 2(1) by (simp add: process_all_append split_beta)
  moreover have "\<forall>i\<in>set (is1 @ is2). ti_rule i \<in> set (r # rs) \<and> owns_key (ti_rule i) (ti_key i)"
    using 1(2) 2(2) by auto
  ultimately show ?case by blast
qed

lemma run_eval_loop_trace:
  "\<exists>es :: ('box notifier world \<times> datetime \<times> 'box notifier transition_input) list.
     run_eval_loop (d :: 'box dispatcher) rs ticks st = process_trace es st
     \<and> (\<forall>(w, now, i)\<in>set es. ti_rule i \<in> set rs \<and> owns_key (ti_rule i) (ti_key i))"
proof (induction ticks arbitrary: st)
  case Nil
  then show ?case by (intro exI [of _ "[]"]) simp
next
  case (Cons tick ticks)
  obtain w now where tick: "tick = (w, now)" by fastforce
  obtain is1 where 1: "evaluate_once d rs w now st = process_all w now is1 st"
    "\<forall>i\<in>set is1. ti_rule i \<in> set rs \<and> owns_key (ti_rule i) (ti_key i)"
    using evaluate_once_inputs by blast
  obtain es :: "('box notifier world \<times> datetime \<times> 'box notifier transition_input) list"
    where 2: "run_eval_loop d rs ticks (fst (process_all w now is1 st))
      = process_trace es (fst (process_all w now is1 st))"
    "\<forall>(w, now, i)\<in>set es. ti_rule i \<in> set rs \<and> owns_key (ti_rule i) (ti_key i)"
    using Cons.IH [of "fst (process_all w now is1 st)"] by (elim exE conjE) (rule that)
  have "run_eval_loop d rs (tick # ticks) st = process_trace (map (\<lambda>i. (w, now, i)) is1 @ es) st"
    using 1(1) 2(1) by (simp add: tick process_trace_append process_all_trace split_beta)
  moreover have "\<forall>(w, now, i)\<in>set (map (\<lambda>i. (w, now, i)) is1 @ es).
      ti_rule i \<in> set rs \<and> owns_key (ti_rule i) (ti_key i)"
    using 1(2) 2(2) by auto
  ultimately show ?case by blast
qed

subsection \<open>One transition\<close>

lemma transition_of_edge: "transition_of was b = edge was b"
  by (simp add: transition_of_def edge_def split: bool.split)

lemma process_transition_other:
  "k \<noteq> ti_key i \<Longrightarrow> state_entry (fst (process_transition w now i st)) k = state_entry st k"
  by (simp add: process_transition_def Let_def state_entry_def al_get_put split: option.split)

lemma process_transition_firing:
  "rs_firing (state_entry (fst (process_transition w now i st)) k)
     = (if k = ti_key i then ti_breaching i else rs_firing (state_entry st k))"
  by (simp add: process_transition_def Let_def state_entry_def al_get_put split: option.split)

lemma process_transition_ok: "al_ok st \<Longrightarrow> al_ok (fst (process_transition w now i st))"
  by (simp add: process_transition_def Let_def split: option.split)

lemma process_transition_attempts:
  "snd (process_transition w now i st) = [] \<or>
   (\<exists>a. snd (process_transition w now i st) = [a] \<and> at_key a = ti_key i
      \<and> transition_of (rs_firing (state_entry st (ti_key i))) (ti_breaching i) = Some (a_state (at_alert a)))"
  by (simp add: process_transition_def Let_def split: option.split)

lemma process_all_firing_other:
  "k \<notin> ti_key ` set is \<Longrightarrow>
     rs_firing (state_entry (fst (process_all w now is st)) k) = rs_firing (state_entry st k)"
proof (induction "is" arbitrary: st)
  case (Cons i "is")
  then show ?case
    using process_transition_firing [of w now i st k] by (simp add: split_beta)
qed simp

lemma process_all_firing:
  "distinct (map ti_key is) \<Longrightarrow> i \<in> set is \<Longrightarrow>
     rs_firing (state_entry (fst (process_all w now is st)) (ti_key i)) = ti_breaching i"
proof (induction "is" arbitrary: st)
  case (Cons j "is")
  show ?case
  proof (cases "i = j")
    case True
    with Cons.prems process_all_firing_other [of "ti_key j" "is" w now "fst (process_transition w now j st)"]
      process_transition_firing [of w now j st "ti_key j"]
    show ?thesis by (simp add: split_beta)
  next
    case False
    with Cons show ?thesis by (simp add: split_beta)
  qed
qed simp

lemma process_all_ok: "al_ok st \<Longrightarrow> al_ok (fst (process_all w now is st))"
proof (induction "is" arbitrary: st)
  case (Cons i "is")
  then show ?case using process_transition_ok [of st w now i] by (simp add: split_beta)
qed simp

subsection \<open>The attempts of one key\<close>

definition attempts_of :: "string \<Rightarrow> (datetime \<times> attempt) list \<Rightarrow> (datetime \<times> attempt) list" where
  "attempts_of k as = filter (\<lambda>(t, a). at_key a = k) as"

definition delivered_at :: "string \<Rightarrow> (datetime \<times> attempt) list \<Rightarrow> datetime list" where
  "delivered_at k as = map fst (filter (\<lambda>(t, a). at_sent a) (attempts_of k as))"

definition states_of :: "string \<Rightarrow> (datetime \<times> attempt) list \<Rightarrow> alert_state list" where
  "states_of k as = map (\<lambda>(t, a). a_state (at_alert a)) (attempts_of k as)"

text \<open>Consecutive dates are at least \<open>gap\<close> seconds apart.\<close>

fun spaced :: "nat \<Rightarrow> datetime option \<Rightarrow> datetime list \<Rightarrow> bool" where
  "spaced gap p [] = True"
| "spaced gap p (t # ts) =
     ((case p of None \<Rightarrow> True | Some s \<Rightarrow> secs gap \<le> since t s) \<and> spaced gap (Some t) ts)"

fun last_date :: "datetime option \<Rightarrow> datetime list \<Rightarrow> datetime option" where
  "last_date p [] = p"
| "last_date p (t # ts) = last_date (Some t) ts"

lemma spaced_append: "spaced gap p (xs @ ys) \<longleftrightarrow> spaced gap p xs \<and> spaced gap (last_date p xs) ys"
  by (induction gap p xs rule: spaced.induct) auto

lemma last_date_append: "last_date p (xs @ ys) = last_date (last_date p xs) ys"
  by (induction p xs rule: last_date.induct) auto

lemma delivered_at_append [simp]: "delivered_at k (xs @ ys) = delivered_at k xs @ delivered_at k ys"
  by (simp add: delivered_at_def attempts_of_def)

lemma states_of_append [simp]: "states_of k (xs @ ys) = states_of k xs @ states_of k ys"
  by (simp add: states_of_def attempts_of_def)

lemma process_transition_spaced:
  assumes "ti_key i = k \<Longrightarrow> gap \<le> ru_cooldown_secs (rule_data (ti_rule i))"
    and "process_transition w now i st = (st', as)"
  shows "spaced gap (rs_last_notified (state_entry st k)) (delivered_at k (map (Pair now) as))
    \<and> rs_last_notified (state_entry st' k)
       = last_date (rs_last_notified (state_entry st k)) (delivered_at k (map (Pair now) as))"
proof (cases "ti_key i = k")
  case True
  then have c: "secs gap \<le> secs (ru_cooldown_secs (rule_data (ti_rule i)))"
    using assms(1) by (simp add: secs_def)
  show ?thesis
    using assms(2) True c
    by (auto simp: process_transition_def Let_def delivered_at_def attempts_of_def state_entry_def
        al_get_put in_cooldown_def split: option.splits if_splits)
next
  case False
  then have "delivered_at k (map (Pair now) as) = []"
    using process_transition_attempts [of w now i st] assms(2)
    by (auto simp: delivered_at_def attempts_of_def)
  moreover have "state_entry st' k = state_entry st k"
    using process_transition_other [of k i w now st] False assms(2) by simp
  ultimately show ?thesis by simp
qed

lemma process_trace_spaced:
  assumes "\<forall>(w, now, i)\<in>set es. ti_key i = k \<longrightarrow> gap \<le> ru_cooldown_secs (rule_data (ti_rule i))"
  shows "spaced gap (rs_last_notified (state_entry st k)) (delivered_at k (snd (process_trace es st)))"
  using assms
proof (induction es arbitrary: st)
  case Nil
  then show ?case by (simp add: delivered_at_def attempts_of_def)
next
  case (Cons e es)
  obtain w now i where e: "e = (w, now, i)" by (cases e)
  obtain st' as where t: "process_transition w now i st = (st', as)" by fastforce
  have "ti_key i = k \<Longrightarrow> gap \<le> ru_cooldown_secs (rule_data (ti_rule i))" using Cons.prems e by simp
  note step = process_transition_spaced [OF this t]
  have "spaced gap (rs_last_notified (state_entry st' k)) (delivered_at k (snd (process_trace es st')))"
    using Cons by simp
  with step show ?case by (simp add: e t split_beta spaced_append)
qed

text \<open>The flag of one key is an edge-triggered machine, whatever the cooldown.\<close>

definition key_firing :: "string \<Rightarrow> engine_state \<Rightarrow> bool" where
  "key_firing k st = rs_firing (state_entry st k)"

definition key_step ::
    "string \<Rightarrow> engine_state \<Rightarrow> 'n world \<times> datetime \<times> 'n transition_input
       \<Rightarrow> engine_state \<times> alert_state option" where
  "key_step k st e =
     (case e of (w, now, i) \<Rightarrow>
        (fst (process_transition w now i st),
         if ti_key i = k then transition_of (key_firing k st) (ti_breaching i) else None))"

interpretation ev: edge_machine "key_step k" "key_firing k" for k
  by unfold_locales
    (auto simp: key_step_def key_firing_def transition_of_edge process_transition_firing edge_def
      split: if_splits)

lemma process_transition_states:
  assumes "ti_key i = k \<Longrightarrow> ru_cooldown_secs (rule_data (ti_rule i)) = 0"
  shows "states_of k (map (Pair now) (snd (process_transition w now i st)))
    = (case snd (key_step k st (w, now, i)) of None \<Rightarrow> [] | Some x \<Rightarrow> [x])"
proof (cases "ti_key i = k")
  case True
  then have "\<not> in_cooldown (rule_data (ti_rule i)) p now" for p
    using assms by (simp add: in_cooldown_def secs_def split: option.split)
  with True show ?thesis
    by (auto simp: process_transition_def Let_def states_of_def attempts_of_def key_step_def
        key_firing_def split: option.splits)
next
  case False
  then show ?thesis
    using process_transition_attempts [of w now i st]
    by (auto simp: states_of_def attempts_of_def key_step_def)
qed

lemma process_trace_states:
  assumes "\<forall>(w, now, i)\<in>set es. ti_key i = k \<longrightarrow> ru_cooldown_secs (rule_data (ti_rule i)) = 0"
  shows "ev.run k st es = (fst (process_trace es st), states_of k (snd (process_trace es st)))"
  using assms
proof (induction es arbitrary: st)
  case Nil
  then show ?case by (simp add: states_of_def attempts_of_def)
next
  case (Cons e es)
  obtain w now i where e: "e = (w, now, i)" by (cases e)
  have "ti_key i = k \<Longrightarrow> ru_cooldown_secs (rule_data (ti_rule i)) = 0" using Cons.prems e by simp
  note step = process_transition_states [OF this, where now = now and w = w and st = st]
  have st': "fst (key_step k st e) = fst (process_transition w now i st)"
    by (simp add: key_step_def e)
  with Cons have "ev.run k (fst (key_step k st e)) es
    = (fst (process_trace es (fst (key_step k st e))), states_of k (snd (process_trace es (fst (key_step k st e)))))"
    by simp
  with step show ?case by (auto simp: e st' [unfolded e] split_beta Let_def split: option.split)
qed

subsection \<open>Properties of the notifications\<close>

text \<open>C26. Cooldown: over any run of the evaluation loop, whatever the databases and the notifiers
  answer, two delivered notifications of the same state key are at least the cooldown of its rule
  apart.\<close>

theorem notifications_spaced:
  assumes "\<forall>r\<in>set rules. owns_key r k \<longrightarrow> gap \<le> ru_cooldown_secs (rule_data r)"
  shows "spaced gap None (delivered_at k (snd (run_eval_loop (d :: 'box dispatcher) rules ticks [])))"
proof -
  obtain es :: "('box notifier world \<times> datetime \<times> 'box notifier transition_input) list"
    where es: "run_eval_loop d rules ticks [] = process_trace es []"
      "\<forall>(w, now, i)\<in>set es. ti_rule i \<in> set rules \<and> owns_key (ti_rule i) (ti_key i)"
    using run_eval_loop_trace [of d rules ticks "[]"] by (elim exE conjE) (rule that)
  have "\<forall>(w, now, i)\<in>set es. ti_key i = k \<longrightarrow> gap \<le> ru_cooldown_secs (rule_data (ti_rule i))"
    using es(2) assms by fastforce
  from process_trace_spaced [OF this, of "[]"] es(1) show ?thesis
    by (simp add: state_entry_def rule_state_default_def)
qed

text \<open>Alternation: for a state key whose rule has no cooldown, the attempted notifications
  alternate between firing and resolved, starting with firing, and the last one tells the final
  state of the key.\<close>

theorem notifications_alternate:
  assumes "\<forall>r\<in>set rules. owns_key r k \<longrightarrow> ru_cooldown_secs (rule_data r) = 0"
    and "run_eval_loop (d :: 'box dispatcher) rules ticks [] = (st, as)"
  shows "alternates False (states_of k as) \<and> final_flag False (states_of k as) = rs_firing (state_entry st k)"
proof -
  obtain es :: "('box notifier world \<times> datetime \<times> 'box notifier transition_input) list"
    where es: "run_eval_loop d rules ticks [] = process_trace es []"
      "\<forall>(w, now, i)\<in>set es. ti_rule i \<in> set rules \<and> owns_key (ti_rule i) (ti_key i)"
    using run_eval_loop_trace [of d rules ticks "[]"] by (elim exE conjE) (rule that)
  have "\<forall>(w, now, i)\<in>set es. ti_key i = k \<longrightarrow> ru_cooldown_secs (rule_data (ti_rule i)) = 0"
    using es(2) assms(1) by fastforce
  from process_trace_states [OF this, of "[]"] es(1) assms(2)
  have "ev.run k [] es = (st, states_of k as)" by (metis fst_conv snd_conv)
  from ev.run_alternates [OF this] show ?thesis
    by (simp add: key_firing_def state_entry_def rule_state_default_def)
qed

subsection \<open>A sample run\<close>

definition sample_rule :: "nat \<Rightarrow> rule" where
  "sample_rule cooldown =
     Rule ((rule_default ''r'' LogCount)\<lparr>ru_window_secs := 60, ru_threshold := 5,
            ru_cooldown_secs := cooldown\<rparr>) []"

definition sample_world :: "int \<Rightarrow> string notifier world" where
  "sample_world n = \<lparr>w_db = (\<lambda>q. Inr [[CInt n]]), w_deliver = (\<lambda>n a. True), w_show = (\<lambda>x. [])\<rparr>"

definition sample_dispatcher :: "string dispatcher" where
  "sample_dispatcher = with_defaults [WebhookNotifier ''u'' []]"

lemmas sample_defs = sample_rule_def sample_world_def sample_dispatcher_def rule_default_def

lemma notifications_spaced_witness:
  "spaced 60 None (delivered_at ''r''
     (snd (run_eval_loop sample_dispatcher [sample_rule 60]
       [(sample_world 9, 0), (sample_world 0, 5), (sample_world 9, 7)] [])))"
  by (rule notifications_spaced) (simp add: sample_defs)

lemma notifications_alternate_witness:
  "alternates False (states_of ''r''
     (snd (run_eval_loop sample_dispatcher [sample_rule 0]
       [(sample_world 9, 0), (sample_world 0, 5), (sample_world 9, 7)] [])))"
  by (rule notifications_alternate [OF _ prod.collapse [symmetric], THEN conjunct1])
    (simp add: sample_defs)

text \<open>
  A resolution within the cooldown is not sent and not retried, and so is an alert: here the rule
  fires, resolves within the cooldown, fires again, and stays in alert with no other notification
  at any later date.
\<close>

lemma sample_simps:
  "w_deliver (sample_world n) = (\<lambda>n a. True)"
  "ru_cooldown_secs (rule_data (sample_rule c)) = c"
  by (simp_all add: sample_defs)

lemma sample_value:
  "compute_value (w_db (sample_world n)) (rule_data (sample_rule c)) now = Inr (real_of_int n)"
  by (simp add: compute_value_def sample_defs compute_count_def fetch_one_i64_def fetch_rows_def
      first_column_def Let_def)

lemma sample_evaluation:
  "evaluate_once sample_dispatcher [sample_rule c] (sample_world n) now st =
     process_transition (sample_world n) now
       \<lparr>ti_key = ''r'', ti_breaching = n > 5, ti_rule = sample_rule c, ti_value = real_of_int n,
        ti_group = None, ti_notifiers = [WebhookNotifier ''u'' []]\<rparr> st"
proof -
  have "breaches (rule_data (sample_rule c)) (real_of_int n) = (n > 5)"
    by (simp add: sample_defs breaches_def)
  moreover have "rule_name (sample_rule c) = ''r''" "ru_kind (rule_data (sample_rule c)) = LogCount"
    "for_rule sample_dispatcher (sample_rule c) = [WebhookNotifier ''u'' []]"
    by (simp_all add: sample_defs for_rule_def with_defaults_def)
  ultimately show ?thesis
    by (simp add: evaluate_rule_def evaluate_scalar_rule_def sample_value split: prod.splits)
qed

lemma firing_swallowed_by_cooldown:
  assumes "\<forall>(w, t)\<in>set later. w = sample_world 9"
  shows "map (\<lambda>(t, a). (t, a_state (at_alert a)))
      (snd (run_eval_loop sample_dispatcher [sample_rule 600]
        ((sample_world 9, 0) # (sample_world 0, 5) # (sample_world 9, 7) # later) []))
    = [(0, Firing)]"
proof -
  define entry where "entry = \<lparr>rs_firing = True, rs_last_notified = Some 0\<rparr>"
  have steady: "snd (run_eval_loop sample_dispatcher [sample_rule 600] ticks st) = []"
    if "\<forall>(w, t)\<in>set ticks. w = sample_world 9" "state_entry st ''r'' = entry" for ticks st
    using that
  proof (induction ticks arbitrary: st)
    case (Cons tick ticks)
    obtain t where tick: "tick = (sample_world 9, t)" using Cons.prems by (cases tick) auto
    have "evaluate_once sample_dispatcher [sample_rule 600] (sample_world 9) t st
        = (al_put ''r'' entry st, [])"
      using Cons.prems
      by (simp add: sample_evaluation process_transition_def transition_of_def entry_def
          del: evaluate_once.simps)
    with Cons show ?case by (simp add: tick state_entry_def al_get_put)
  qed simp
  show ?thesis
    using steady [OF assms]
    by (simp add: sample_evaluation process_transition_def transition_of_def state_entry_def
        rule_state_default_def al_get_put in_cooldown_def since_def secs_def
        sample_simps entry_def split_beta Let_def del: evaluate_once.simps)
qed

subsection \<open>What an evaluation decides\<close>

lemma inj_group_prefix: "group_prefix r @ a = group_prefix r @ b \<longleftrightarrow> a = b"
  by simp

text \<open>A group that the evaluation did not see is not in alert afterwards.\<close>

lemma stale_pass_resolves:
  assumes "al_ok st" and "g \<notin> fst ` set groups"
  shows "\<not> rs_firing (state_entry (fst (process_all w now (map (stale_input r ns) (stale_keys r groups st)) st))
           (group_prefix r @ g))"
proof -
  let ?is = "map (stale_input r ns) (stale_keys r groups st)" and ?k = "group_prefix r @ g"
  have keys: "map ti_key ?is = stale_keys r groups st" by (simp add: stale_input_def o_def)
  have ks: "ti_key ` set ?is = set (stale_keys r groups st)"
    by (simp add: image_image stale_input_def)
  have d: "distinct (map ti_key ?is)"
    using assms(1) unfolding keys by (simp add: stale_keys_def al_ok_def distinct_map_filter)
  have quiet: "\<not> ti_breaching i" if "i \<in> set ?is" for i using that by (auto simp: stale_input_def)
  show ?thesis
  proof (cases "?k \<in> ti_key ` set ?is")
    case True
    then obtain i where i: "i \<in> set ?is" "?k = ti_key i" by blast
    from process_all_firing [OF d i(1), of w now st] quiet [OF i(1)] show ?thesis unfolding i(2) by simp
  next
    case False
    have "\<not> rs_firing (state_entry st ?k)"
    proof
      assume "rs_firing (state_entry st ?k)"
      then obtain s where s: "al_get st ?k = Some s" "rs_firing s"
        by (auto simp: state_entry_def rule_state_default_def unwrap_or_def split: option.splits)
      then have "?k \<in> set (stale_keys r groups st)"
        using assms(2) al_get_in_set [OF s(1)] by (force simp: stale_keys_def)
      then show False using False ks by simp
    qed
    then show ?thesis using process_all_firing_other [OF False, of w now st] by simp
  qed
qed

text \<open>C27. Group rules: after an evaluation whose query succeeded, a group of the rule is in alert
  exactly when the query returned it with a count that breaches the threshold; the groups that
  left the window are resolved.\<close>

theorem group_rule_flags:
  assumes "ru_kind (rule_data r) = LogGroupCount" and "compute_groups (w_db w) (rule_data r) now = Inr groups"
    and "distinct (map fst groups)" and "al_ok st"
  shows "rs_firing (state_entry (fst (evaluate_rule w now ns r st)) (group_prefix r @ g))
    \<longleftrightarrow> (\<exists>c. (g, c) \<in> set groups \<and> breaches (rule_data r) c)"
proof -
  define is1 where "is1 = map (group_input r ns) groups"
  define st1 where "st1 = fst (process_all w now is1 st)"
  define is2 where "is2 = map (stale_input r ns) (stale_keys r groups st1)"
  have ev: "fst (evaluate_rule w now ns r st) = fst (process_all w now is2 st1)"
    by (simp add: evaluate_rule_def evaluate_group_rule_def assms(1,2) is1_def is2_def st1_def split_beta)
  have ok: "al_ok st1" by (simp add: st1_def process_all_ok assms(4))
  have keys1: "map ti_key is1 = map (\<lambda>g. group_prefix r @ g) (map fst groups)"
    by (simp add: is1_def group_input_def)
  then have d1: "distinct (map ti_key is1)"
    using assms(3) by (simp add: distinct_map inj_on_def del: map_map)
  show ?thesis
  proof (cases "g \<in> fst ` set groups")
    case True
    then obtain c where c: "(g, c) \<in> set groups" by auto
    have u: "c' = c" if "(g, c') \<in> set groups" for c'
      using that c assms(3) by (metis eq_key_imp_eq_value)
    have "group_input r ns (g, c) \<in> set is1" using c by (simp add: is1_def)
    from process_all_firing [OF d1 this, of w now st]
    have "rs_firing (state_entry st1 (group_prefix r @ g)) = breaches (rule_data r) c"
      by (simp add: st1_def group_input_def)
    moreover have "group_prefix r @ g \<notin> ti_key ` set is2"
      using True by (force simp: is2_def stale_input_def stale_keys_def)
    ultimately show ?thesis
      using process_all_firing_other u c by (metis ev)
  next
    case False
    from stale_pass_resolves [OF ok this, of w now r ns]
    have "\<not> rs_firing (state_entry (fst (process_all w now is2 st1)) (group_prefix r @ g))"
      unfolding is2_def .
    moreover have "(g, c) \<notin> set groups" for c using False by force
    ultimately show ?thesis by (simp add: ev)
  qed
qed

lemma count_met_Inr:
  "(\<forall>c\<in>set cs. compute_value db (rule_data c) now = Inr (v c)) \<Longrightarrow>
     count_met db now cs m = Inr (m + length (filter (\<lambda>c. breaches (rule_data c) (v c)) cs))"
  by (induction cs arbitrary: m) auto

lemma count_met_Inl:
  "(\<exists>c\<in>set cs. \<forall>v. compute_value db (rule_data c) now \<noteq> Inr v) \<Longrightarrow> \<exists>e. count_met db now cs m = Inl e"
proof (induction cs arbitrary: m)
  case (Cons c cs)
  then show ?case by (cases "compute_value db (rule_data c) now") auto
qed simp

lemma count_met_any: "(Suc 0 \<le> length (filter P xs)) = (\<exists>x\<in>set xs. P x)"
  by (induction xs) auto

lemma count_met_all: "(length (filter P xs) = length xs) = (\<forall>x\<in>set xs. P x)"
  by (metis filter_True length_filter_less less_irrefl)

text \<open>C30. Composite rules: when every sub-condition can be computed, the rule is in alert after
  the evaluation exactly when all of them (operator ALL, the default) or one of them (operator ANY)
  breach their thresholds; when one cannot be computed, the evaluation changes nothing and sends
  nothing.\<close>

theorem composite_rule_semantics:
  assumes "ru_kind (rule_data r) = Composite"
  shows "if \<forall>c\<in>set (conditions r). is_ok (compute_value (w_db w) (rule_data c) now)
    then rs_firing (state_entry (fst (evaluate_rule w now ns r st)) (rule_name r))
      = (let met = (\<lambda>c. \<exists>v. compute_value (w_db w) (rule_data c) now = Inr v \<and> breaches (rule_data c) v)
         in if ru_op (rule_data r) = Some Any_op then \<exists>c\<in>set (conditions r). met c
            else \<forall>c\<in>set (conditions r). met c)
    else evaluate_rule w now ns r st = (st, [])"
proof (cases "\<forall>c\<in>set (conditions r). is_ok (compute_value (w_db w) (rule_data c) now)")
  case True
  then obtain v where v: "\<forall>c\<in>set (conditions r). compute_value (w_db w) (rule_data c) now = Inr (v c)"
    unfolding is_ok_iff by metis
  have "\<forall>b. (case ru_op (rule_data r) of None \<Rightarrow> All_op | Some a \<Rightarrow> a) = b \<longrightarrow>
     (b = Any_op \<longleftrightarrow> ru_op (rule_data r) = Some Any_op)"
    by (auto split: option.splits)
  with True v show ?thesis
    by (cases "unwrap_or All_op (ru_op (rule_data r))")
      (auto simp: evaluate_rule_def assms evaluate_composite_rule_def count_met_Inr [OF v]
        process_transition_firing count_met_any count_met_all unwrap_or_def)
next
  case False
  then have "\<exists>c\<in>set (conditions r). \<forall>v. compute_value (w_db w) (rule_data c) now \<noteq> Inr v"
    by (auto simp: is_ok_iff)
  from count_met_Inl [OF this, of 0] obtain e where "count_met (w_db w) now (conditions r) 0 = Inl e" ..
  with False show ?thesis
    by (auto simp: evaluate_rule_def assms evaluate_composite_rule_def)
qed

lemma group_rule_flags_witness:
  "rs_firing (state_entry (fst (evaluate_rule
      \<lparr>w_db = (\<lambda>q. Inr [[CText ''x'', CInt 9], [CNull, CInt 99]]), w_deliver = (\<lambda>n a. True), w_show = (\<lambda>x. [])\<rparr>
      0 [] (Rule ((rule_default ''r'' LogGroupCount)\<lparr>ru_window_secs := 60, ru_threshold := 5\<rparr>) [])
      [(''r::y'', \<lparr>rs_firing = True, rs_last_notified = None\<rparr>)]))
      (group_prefix (Rule ((rule_default ''r'' LogGroupCount)\<lparr>ru_window_secs := 60, ru_threshold := 5\<rparr>) [])
       @ ''x''))"
  by (subst group_rule_flags [where groups = "[(''x'', 9)]"])
    (simp_all add: rule_default_def compute_groups_def group_expr_of_def Let_def fetch_groups_def
      fetch_rows_def List.map_filter_def al_ok_def breaches_def)

lemma composite_rule_semantics_witness:
  "evaluate_rule \<lparr>w_db = (\<lambda>q. Inl ''down''), w_deliver = (\<lambda>n a. True), w_show = (\<lambda>x. [])\<rparr> 0 ([] :: unit list)
      (Rule (rule_default ''c'' Composite) [sample_rule 0]) [] = ([], [])"
proof -
  have "\<not> is_ok (compute_value (\<lambda>q. Inl ''down'') (rule_data (sample_rule 0)) 0)"
    by (simp add: compute_value_def sample_defs compute_count_def fetch_one_i64_def fetch_rows_def Let_def)
  with composite_rule_semantics [of "Rule (rule_default ''c'' Composite) [sample_rule 0]"
      "\<lparr>w_db = (\<lambda>q. Inl ''down''), w_deliver = (\<lambda>n a. True), w_show = (\<lambda>x. [])\<rparr>" 0 "[] :: unit list" "[]"]
  show ?thesis by (simp add: rule_default_def)
qed

subsection \<open>What the queries depend on\<close>

text \<open>The queries the evaluation of a rule, which is not a composite, can issue.\<close>

definition count_query :: "rule_fields \<Rightarrow> datetime \<Rightarrow> datetime \<Rightarrow> query" where
  "count_query r from to = push_count_filter (windowed_query ''count(*)'' (ru_source r) from to) r"

definition base_query :: "rule_fields \<Rightarrow> datetime \<Rightarrow> datetime \<Rightarrow> query" where
  "base_query r from to = push_base_filter (windowed_query ''count(*)'' (ru_source r) from to) r"

inductive issued :: "rule_fields \<Rightarrow> query \<Rightarrow> bool" for r where
  "issued r (count_query r from to)"
| "issued r (base_query r from to)"
| "issued r (push_error_predicate (base_query r from to) r)"
| "issued r (metric_query r from to)"
| "issued r (span_query r from to)"
| "issued r (bucket_query r from to)"
| "group_expr_of r = Inr g \<Longrightarrow> issued r (group_query r g from to)"
| "group_expr_of r = Inr g \<Longrightarrow> issued r (novel_query r g from start to)"

lemma compute_value_cong:
  assumes "\<And>q. issued r q \<Longrightarrow> db q = db' q"
  shows "compute_value db r now = compute_value db' r now"
proof -
  have one: "fetch_one_i64 db q = fetch_one_i64 db' q" if "issued r q" for q
    using assms [OF that] by (simp add: fetch_one_i64_def fetch_rows_def)
  have opt: "fetch_optional_f64 db q = fetch_optional_f64 db' q" if "issued r q" for q
    using assms [OF that] by (simp add: fetch_optional_f64_def fetch_rows_def)
  have all: "fetch_all_i64 db q = fetch_all_i64 db' q" if "issued r q" for q
    using assms [OF that] by (simp add: fetch_all_i64_def fetch_rows_def)
  note iss = issued.intros(1-3) [unfolded count_query_def base_query_def]
  show ?thesis
    unfolding compute_value_def compute_count_def compute_metric_def compute_error_ratio_def
      compute_span_duration_def compute_relative_change_def compute_anomaly_def bucket_counts_def
    by (simp only: one [OF iss(1)] one [OF iss(2)] one [OF iss(3)] opt [OF issued.intros(4)]
        opt [OF issued.intros(5)] all [OF issued.intros(6)])
qed

lemma compute_groups_cong:
  assumes "\<And>q. issued r q \<Longrightarrow> db q = db' q"
  shows "compute_groups db r now = compute_groups db' r now"
    and "compute_novel_groups db r now = compute_novel_groups db' r now"
  using assms
  by (auto simp: compute_groups_def compute_novel_groups_def Let_def and_then_def fetch_groups_def
      fetch_rows_def map_err_def issued.intros split: sum.splits)

lemma count_met_cong:
  "(\<And>c q. c \<in> set cs \<Longrightarrow> issued (rule_data c) q \<Longrightarrow> db q = db' q) \<Longrightarrow>
     count_met db now cs m = count_met db' now cs m"
proof (induction cs arbitrary: m)
  case (Cons c cs)
  have "compute_value db (rule_data c) now = compute_value db' (rule_data c) now"
    by (rule compute_value_cong) (rule Cons.prems [of c], simp)
  with Cons show ?case by (auto simp: and_then_def split: sum.split)
qed simp

lemma process_transition_db: "process_transition (w\<lparr>w_db := db\<rparr>) now i st = process_transition w now i st"
  by (simp add: process_transition_def Let_def split: option.split)

lemma process_all_db: "process_all (w\<lparr>w_db := db\<rparr>) now is st = process_all w now is st"
  by (induction "is" arbitrary: st) (simp_all add: process_transition_db)

lemma evaluate_rule_cong:
  assumes "\<And>c q. c \<in> set (r # conditions r) \<Longrightarrow> issued (rule_data c) q \<Longrightarrow> w_db w q = db' q"
  shows "evaluate_rule w now ns r st = evaluate_rule (w\<lparr>w_db := db'\<rparr>) now ns r st"
proof -
  have "compute_value (w_db w) (rule_data r) now = compute_value db' (rule_data r) now"
    "compute_groups (w_db w) (rule_data r) now = compute_groups db' (rule_data r) now"
    "compute_novel_groups (w_db w) (rule_data r) now = compute_novel_groups db' (rule_data r) now"
    using assms [of r] by (auto intro: compute_value_cong compute_groups_cong)
  moreover have "count_met (w_db w) now (conditions r) 0 = count_met db' now (conditions r) 0"
    by (rule count_met_cong) (rule assms; simp)
  ultimately show ?thesis
    by (simp add: evaluate_rule_def evaluate_group_rule_def evaluate_composite_rule_def
        evaluate_scalar_rule_def process_all_db process_transition_db split: rule_kind.split sum.split)
qed

lemma evaluate_once_cong:
  assumes "\<And>r c q. r \<in> set rs \<Longrightarrow> c \<in> set (r # conditions r) \<Longrightarrow> issued (rule_data c) q \<Longrightarrow> w_db w q = db' q"
  shows "evaluate_once d rs w now st = evaluate_once d rs (w\<lparr>w_db := db'\<rparr>) now st"
  using assms
proof (induction rs arbitrary: st)
  case (Cons r rs)
  have "evaluate_rule w now (for_rule d r) r st = evaluate_rule (w\<lparr>w_db := db'\<rparr>) now (for_rule d r) r st" for st
    by (rule evaluate_rule_cong) (use Cons.prems [of r] in simp)
  moreover have "evaluate_once d rs w now st = evaluate_once d rs (w\<lparr>w_db := db'\<rparr>) now st" for st
    by (rule Cons.IH) (use Cons.prems in \<open>auto\<close>)
  ultimately show ?case by simp
qed simp

subsection \<open>Isolation of the projects\<close>

definition tenant_filtered :: "string \<Rightarrow> query \<Rightarrow> bool" where
  "tenant_filtered t q \<longleftrightarrow> sublist [Sql '' AND tenant_id = '', Param (BText t)] q"

lemma tenant_filtered_append:
  "tenant_filtered t p \<Longrightarrow> tenant_filtered t (p @ q)"
  "tenant_filtered t q \<Longrightarrow> tenant_filtered t (p @ q)"
  by (auto simp: tenant_filtered_def sublist_append)

lemma tenant_filtered_by: "tenant_filtered t (filter_by '' AND tenant_id = '' BText (Some t))"
  by (simp add: tenant_filtered_def filter_by_def)

lemma issued_tenant_filtered:
  assumes "issued r q" and t: "ru_tenant r = Some t"
  shows "tenant_filtered t q"
proof -
  note push = tenant_filtered_append tenant_filtered_by
  have ten: "tenant_filtered t (push_tenant_filter qb r)" for qb
    by (simp add: push_tenant_filter_def t push)
  have base: "tenant_filtered t (push_base_filter qb r)" for qb
    by (simp add: push_base_filter_def ten)
  have err: "tenant_filtered t qb \<Longrightarrow> tenant_filtered t (push_error_predicate qb r)" for qb
    by (simp add: push_error_predicate_def push split: source.split)
  have cnt: "tenant_filtered t (push_count_filter qb r)" for qb
    by (simp add: push_count_filter_def Let_def base err push)
  have spn: "tenant_filtered t (push_span_filter qb r)" for qb
    by (simp add: push_span_filter_def t push)
  have grp: "tenant_filtered t (push_log_group_filters qb r)" for qb
    by (simp add: push_log_group_filters_def t push)
  have ge: "tenant_filtered t qb \<Longrightarrow> tenant_filtered t (push_group_expr qb g)" for qb g
    by (simp add: push_group_expr_def push)
  show ?thesis
    using assms(1)
    by (cases rule: issued.cases)
      (simp_all add: count_query_def base_query_def metric_query_def span_query_def bucket_query_def
        group_query_def novel_query_def Let_def ten base err cnt spn grp ge push)
qed



subsection \<open>The text of the queries\<close>

text \<open>The SQL text of a query with its parameters masked, and the part of a rule that is not
  free text: which optional filters it has, its source, its aggregate.\<close>

definition sql_text :: "query \<Rightarrow> string option list" where
  "sql_text q = map (\<lambda>f. case f of Sql l \<Rightarrow> Some l | Param _ \<Rightarrow> None) q"

definition same_shape :: "rule_fields \<Rightarrow> rule_fields \<Rightarrow> bool" where
  "same_shape r r' \<longleftrightarrow>
     ru_source r = ru_source r' \<and> ru_agg r = ru_agg r' \<and> ru_error_only r = ru_error_only r'
     \<and> (ru_service r = None \<longleftrightarrow> ru_service r' = None) \<and> (ru_tenant r = None \<longleftrightarrow> ru_tenant r' = None)
     \<and> (ru_severity_min r = None \<longleftrightarrow> ru_severity_min r' = None)
     \<and> (ru_metric_name r = None \<longleftrightarrow> ru_metric_name r' = None)
     \<and> (ru_event_name r = None \<longleftrightarrow> ru_event_name r' = None)
     \<and> (ru_operation r = None \<longleftrightarrow> ru_operation r' = None)"

fun same_group :: "group_expr \<Rightarrow> group_expr \<Rightarrow> bool" where
  "same_group (Column c) (Column c') = (c = c')"
| "same_group (Attr k) (Attr k') = True"
| "same_group _ _ = False"

lemma sql_text_simps:
  "sql_text [] = []"
  "sql_text (Sql l # q) = Some l # sql_text q"
  "sql_text (Param v # q) = None # sql_text q"
  "sql_text (p @ q) = sql_text p @ sql_text q"
  by (simp_all add: sql_text_def)

lemma sql_text_filter:
  "(x = None \<longleftrightarrow> x' = None) \<Longrightarrow> sql_text (filter_by lit b x) = sql_text (filter_by lit b' x')"
  by (auto simp: filter_by_def sql_text_simps split: option.splits)

lemma sql_text_group: "same_group g g' \<Longrightarrow> sql_text (group_fragment g) = sql_text (group_fragment g')"
  by (cases g; cases g') (auto simp: sql_text_simps)

lemma sql_text_pushes:
  assumes s: "same_shape r r'" and q: "sql_text qb = sql_text qb'"
  shows "sql_text (push_tenant_filter qb r) = sql_text (push_tenant_filter qb' r')"
    and "sql_text (push_base_filter qb r) = sql_text (push_base_filter qb' r')"
    and "sql_text (push_error_predicate qb r) = sql_text (push_error_predicate qb' r')"
    and "sql_text (push_count_filter qb r) = sql_text (push_count_filter qb' r')"
    and "sql_text (push_span_filter qb r) = sql_text (push_span_filter qb' r')"
    and "sql_text (push_log_group_filters qb r) = sql_text (push_log_group_filters qb' r')"
proof -
  note sh = s [unfolded same_shape_def]
  have f: "sql_text (service_filter r) = sql_text (service_filter r')"
    "sql_text (filter_by lit BText (ru_tenant r)) = sql_text (filter_by lit BText (ru_tenant r'))"
    "sql_text (filter_by lit BText (ru_operation r)) = sql_text (filter_by lit BText (ru_operation r'))"
    "sql_text (filter_by lit BText (ru_event_name r)) = sql_text (filter_by lit BText (ru_event_name r'))"
    "sql_text (filter_by lit BText (ru_metric_name r)) = sql_text (filter_by lit BText (ru_metric_name r'))"
    "sql_text (filter_by lit BInt (ru_severity_min r)) = sql_text (filter_by lit BInt (ru_severity_min r'))" for lit
    unfolding service_filter_def by (rule sql_text_filter, use sh in blast)+
  note fl = f [simplified service_filter_def] f
  have t: "sql_text p = sql_text p' \<Longrightarrow> sql_text (push_tenant_filter p r) = sql_text (push_tenant_filter p' r')" for p p'
    by (simp add: push_tenant_filter_def sql_text_simps fl)
  have b: "sql_text p = sql_text p' \<Longrightarrow> sql_text (push_base_filter p r) = sql_text (push_base_filter p' r')" for p p'
    unfolding push_base_filter_def
    by (rule t) (use sh in \<open>cases "ru_source r"; simp add: sql_text_simps fl\<close>)
  have e: "sql_text p = sql_text p' \<Longrightarrow> sql_text (push_error_predicate p r) = sql_text (push_error_predicate p' r')" for p p'
    using sh by (cases "ru_source r") (simp_all add: push_error_predicate_def sql_text_simps)
  show "sql_text (push_tenant_filter qb r) = sql_text (push_tenant_filter qb' r')" using q by (rule t)
  show "sql_text (push_base_filter qb r) = sql_text (push_base_filter qb' r')" using q by (rule b)
  show "sql_text (push_error_predicate qb r) = sql_text (push_error_predicate qb' r')" using q by (rule e)
  show "sql_text (push_count_filter qb r) = sql_text (push_count_filter qb' r')"
  proof -
    have "sql_text (if ru_source r = Logs
          then push_base_filter qb r @ filter_by '' AND severity_number >= '' BInt (ru_severity_min r)
          else push_base_filter qb r)
      = sql_text (if ru_source r' = Logs
          then push_base_filter qb' r' @ filter_by '' AND severity_number >= '' BInt (ru_severity_min r')
          else push_base_filter qb' r')"
      using sh b [OF q] by (simp add: sql_text_simps fl)
    from this e [OF this] sh show ?thesis by (simp add: push_count_filter_def Let_def)
  qed
  show "sql_text (push_span_filter qb r) = sql_text (push_span_filter qb' r')"
    using sh q by (simp add: push_span_filter_def sql_text_simps fl)
  show "sql_text (push_log_group_filters qb r) = sql_text (push_log_group_filters qb' r')"
    using q by (simp add: push_log_group_filters_def sql_text_simps fl)
qed

definition rule_queries ::
    "rule_fields \<Rightarrow> group_expr \<Rightarrow> datetime \<Rightarrow> datetime \<Rightarrow> datetime \<Rightarrow> query list" where
  "rule_queries r g start from to =
     [count_query r from to, base_query r from to, push_error_predicate (base_query r from to) r,
      metric_query r from to, span_query r from to, bucket_query r from to, group_query r g from to,
      novel_query r g from start to]"

lemma sql_text_queries:
  assumes "same_shape r r'" and "same_group g g'"
  shows "sql_text (count_query r from to) = sql_text (count_query r' from' to')"
    and "sql_text (base_query r from to) = sql_text (base_query r' from' to')"
    and "sql_text (push_error_predicate (base_query r from to) r)
       = sql_text (push_error_predicate (base_query r' from' to') r')"
    and "sql_text (metric_query r from to) = sql_text (metric_query r' from' to')"
    and "sql_text (span_query r from to) = sql_text (span_query r' from' to')"
    and "sql_text (bucket_query r from to) = sql_text (bucket_query r' from' to')"
    and "sql_text (group_query r g from to) = sql_text (group_query r' g' from' to')"
    and "sql_text (novel_query r g from start to) = sql_text (novel_query r' g' from' start' to')"
proof -
  note p = sql_text_pushes [OF assms(1)]
  have src: "ru_source r = ru_source r'" and agg: "ru_agg r = ru_agg r'"
    and srv: "sql_text (service_filter r) = sql_text (service_filter r')"
    using assms(1) by (auto simp: same_shape_def service_filter_def intro!: sql_text_filter)
  note g = sql_text_group [OF assms(2)]
  have w: "sql_text (windowed_query sel s from to) = sql_text (windowed_query sel s from' to')" for sel s
    by (simp add: windowed_query_def sql_text_simps)
  show base: "sql_text (base_query r from to) = sql_text (base_query r' from' to')"
    unfolding base_query_def src by (rule p) (rule w)
  show "sql_text (push_error_predicate (base_query r from to) r)
       = sql_text (push_error_predicate (base_query r' from' to') r')"
    by (rule p) (rule base)
  show "sql_text (count_query r from to) = sql_text (count_query r' from' to')"
    unfolding count_query_def src by (rule p) (rule w)
  show "sql_text (metric_query r from to) = sql_text (metric_query r' from' to')"
    by (auto simp: metric_query_def Let_def agg sql_text_simps srv w intro!: p)
  show "sql_text (span_query r from to) = sql_text (span_query r' from' to')"
    by (auto simp: span_query_def Let_def agg sql_text_simps w intro!: p)
  show "sql_text (bucket_query r from to) = sql_text (bucket_query r' from' to')"
    by (auto simp: bucket_query_def Let_def src sql_text_simps intro!: p)
  show group: "sql_text (group_query r g from to) = sql_text (group_query r' g' from' to')"
    by (auto simp: group_query_def push_group_expr_def Let_def g sql_text_simps intro!: p)
  show "sql_text (novel_query r g from start to) = sql_text (novel_query r' g' from' start' to')"
    by (auto simp: novel_query_def push_group_expr_def Let_def g group sql_text_simps intro!: p)
qed

lemma issued_rule_queries: "issued r q \<Longrightarrow> \<exists>g start from to. q \<in> set (rule_queries r g start from to)"
  by (cases rule: issued.cases) (auto simp: rule_queries_def)

text \<open>C29. No injection: the SQL text of every query a rule can issue depends only on the source,
  the aggregate and which filters the rule has. Names, tenants, operations and attribute keys never
  reach it, they are bound as parameters.\<close>

theorem query_text_fixed_by_shape:
  assumes "same_shape r r'" and "same_group g g'"
  shows "map sql_text (rule_queries r g start from to) = map sql_text (rule_queries r' g' start' from' to')"
  by (simp only: rule_queries_def list.map list.inject) (intro conjI sql_text_queries [OF assms] refl)

lemma query_text_fixed_by_shape_witness:
  "map sql_text (rule_queries ((rule_default ''r'' LogCount)\<lparr>ru_service := Some ''api''\<rparr>) (Attr ''k'') 0 1 2)
   = map sql_text (rule_queries ((rule_default ''x'' LogCount)\<lparr>ru_service := Some ''a OR 1=1 --''\<rparr>)
       (Attr '') OR (1=1'') 0 1 2)"
  by (rule query_text_fixed_by_shape) (simp_all add: same_shape_def rule_default_def)

text \<open>An aggregate over no row is NULL, which does not decode as a float: the rule fails to
  evaluate, keeps its state and, when it was in alert, stays in alert without a resolution.\<close>

lemma aggregate_of_no_data_is_an_error:
  assumes "ru_kind (rule_data r) = MetricThreshold" and "\<forall>q. w_db w q = Inr [[CNull]]"
  shows "evaluate_rule w now ns r st = (st, [])"
  using assms
  by (simp add: evaluate_rule_def evaluate_scalar_rule_def compute_value_def compute_metric_def
      fetch_optional_f64_def fetch_rows_def first_column_def Let_def)

end
