(* ===== verification/Delivery.thy ===== *)
theory Delivery
  imports AlertEval Otlp
begin

text \<open>
  The messages that \<^verbatim>\<open>backend/src/alerting/notify.rs\<close> sends for an alert: the call to the Slack
  Web API, the mail, the webhook with its JSON payload, and the recorder. The answers of the servers
  are parameters; with them the notifiers of a dispatcher become the deliveries of a world of
  \<^verbatim>\<open>AlertEval\<close>. Printing a float with four digits is the parameter \<open>fmt4\<close>.
\<close>

subsection \<open>The messages\<close>

definition opt_json :: "string option \<Rightarrow> json" where
  "opt_json v = (case v of Some s \<Rightarrow> JStr s | None \<Rightarrow> JNull)"

definition payload :: "(real \<Rightarrow> string) \<Rightarrow> alert \<Rightarrow> json" where
  "payload fmt4 a = json_obj
     [(''rule'', JStr (a_rule_name a)), (''severity'', JStr (a_severity a)), (''state'', JStr (state_label (a_state a))),
      (''value'', JNum (JFloat (a_value a))), (''threshold'', JNum (JFloat (a_threshold a))),
      (''description'', JStr (a_description a)), (''group_key'', opt_json (a_group_key a)),
      (''summary'', JStr (summary fmt4 a))]"

definition slack_post_message_url :: string where
  "slack_post_message_url = ''https://slack.com/api/chat.postMessage''"

record http_post =
  ht_url :: string
  ht_bearer :: "string option"
  ht_headers :: "(string \<times> string) list"
  ht_json :: json

definition slack_message :: "(real \<Rightarrow> string) \<Rightarrow> string \<Rightarrow> string \<Rightarrow> alert \<Rightarrow> http_post" where
  "slack_message fmt4 token channel a =
     \<lparr>ht_url = slack_post_message_url, ht_bearer = Some token, ht_headers = [],
      ht_json = json_obj [(''channel'', JStr channel), (''text'', JStr (summary fmt4 a))]\<rparr>"

definition webhook_message :: "(real \<Rightarrow> string) \<Rightarrow> string \<Rightarrow> (string \<times> string) list \<Rightarrow> alert \<Rightarrow> http_post" where
  "webhook_message fmt4 url headers a =
     \<lparr>ht_url = url, ht_bearer = None, ht_headers = headers, ht_json = payload fmt4 a\<rparr>"

record 'box mail =
  ml_from :: 'box
  ml_to :: "'box list"
  ml_subject :: string
  ml_body :: string

definition build_message :: "(real \<Rightarrow> string) \<Rightarrow> 'box email_notifier \<Rightarrow> alert \<Rightarrow> 'box mail" where
  "build_message fmt4 n a =
     \<lparr>ml_from = en_from n, ml_to = en_to n, ml_subject = ''[Datacat] '' @ summary fmt4 a, ml_body = summary fmt4 a\<rparr>"

subsection \<open>Sending\<close>

text \<open>What the servers answer: to a call of the Slack API, to a mail given to a relay (whether the message
  could be built and the relay took it), to a webhook.\<close>

record 'box servers =
  sv_slack :: "http_post \<Rightarrow> (nat \<times> (bool \<times> string option) option) option"
  sv_smtp :: "string \<Rightarrow> nat \<Rightarrow> (string \<times> string) option \<Rightarrow> 'box mail \<Rightarrow> bool"
  sv_hook :: "http_post \<Rightarrow> nat option"

fun send_alert :: "(real \<Rightarrow> string) \<Rightarrow> 'box servers \<Rightarrow> 'box notifier \<Rightarrow> alert \<Rightarrow> bool" where
  "send_alert fmt4 sv (SlackNotifier token channel) a = is_ok (slack_send (sv_slack sv (slack_message fmt4 token channel a)))"
| "send_alert fmt4 sv (EmailNotifier n) a = sv_smtp sv (en_host n) (en_port n) (en_credentials n) (build_message fmt4 n a)"
| "send_alert fmt4 sv (WebhookNotifier url headers) a = is_ok (webhook_send (sv_hook sv (webhook_message fmt4 url headers a)))"

text \<open>The recorder keeps what it is sent.\<close>

record recording_notifier =
  rn_alerts :: "alert list"

definition recording_notifier_new :: recording_notifier where
  "recording_notifier_new = \<lparr>rn_alerts = []\<rparr>"

definition recording_send :: "alert \<Rightarrow> recording_notifier \<Rightarrow> recording_notifier" where
  "recording_send a r = r\<lparr>rn_alerts := rn_alerts r @ [a]\<rparr>"

subsection \<open>Lemmas\<close>

lemma slack_delivered_iff:
  "send_alert fmt4 sv (SlackNotifier token channel) a \<longleftrightarrow>
     (\<exists>status err. sv_slack sv (slack_message fmt4 token channel a) = Some (status, Some (True, err))
        \<and> 200 \<le> status \<and> status < 300)"
proof (cases "sv_slack sv (slack_message fmt4 token channel a)")
  case (Some r)
  then show ?thesis by (cases r; cases "snd r") (auto simp: slack_send_def split: if_splits)
qed (simp add: slack_send_def)

lemma webhook_delivered_iff:
  "send_alert fmt4 sv (WebhookNotifier url headers) a \<longleftrightarrow>
     (\<exists>status. sv_hook sv (webhook_message fmt4 url headers a) = Some status \<and> 200 \<le> status \<and> status < 300)"
  by (auto simp: webhook_send_def split: option.split)

text \<open>The payload of a webhook tells everything of an alert.\<close>

lemma state_label_inj: "state_label s = state_label t \<Longrightarrow> s = t"
  by (cases s; cases t) simp_all

lemma opt_json_inj: "opt_json v = opt_json w \<Longrightarrow> v = w"
  by (auto simp: opt_json_def split: option.splits)

lemma payload_inj: "payload fmt4 a = payload fmt4 b \<Longrightarrow> a = (b :: alert)"
  by (auto simp: payload_def json_obj_def dest!: opt_json_inj state_label_inj intro: alert.equality)

lemma recorded_all: "rn_alerts (fold recording_send as r) = rn_alerts r @ as"
  by (induction as arbitrary: r) (simp_all add: recording_send_def)

end
