(* ===== verification/Agent.thy ===== *)
theory Agent
  imports Settings
begin

text \<open>
  The companion crate: \<^verbatim>\<open>companion/src/agent.rs\<close> (the machine that counts failed
  heartbeats, the loop), \<^verbatim>\<open>companion/src/alert.rs\<close> (its own alerts) and
  \<^verbatim>\<open>companion/src/config.rs\<close>. The crate keeps its own copies of
  \<^verbatim>\<open>expand_env\<close>, \<^verbatim>\<open>expand_str\<close> and
  \<^verbatim>\<open>parse_duration\<close>; they are shown to compute what those of the backend do. Parsing
  and decoding TOML are parameters, and so are the answers of the servers.
\<close>

subsection \<open>The machine\<close>

datatype beat = BeatOk | BeatFailed

record state_machine =
  am_failures :: nat
  am_firing :: bool

definition state_machine_new :: state_machine where
  "state_machine_new = \<lparr>am_failures = 0, am_firing = False\<rparr>"

text \<open>\<^verbatim>\<open>saturating_add(1)\<close> of a \<^verbatim>\<open>u32\<close>\<close>

definition sat_succ :: "nat \<Rightarrow> nat" where
  "sat_succ n = min u32_max (n + 1)"

fun apply_beat :: "nat \<Rightarrow> state_machine \<Rightarrow> beat \<Rightarrow> state_machine \<times> alert_state option" where
  "apply_beat threshold sm BeatOk =
     (if am_firing sm then (\<lparr>am_failures = 0, am_firing = False\<rparr>, Some Resolved)
      else (sm\<lparr>am_failures := 0\<rparr>, None))"
| "apply_beat threshold sm BeatFailed =
     (let n = sat_succ (am_failures sm) in
      if \<not> am_firing sm \<and> n \<ge> threshold then (\<lparr>am_failures = n, am_firing = True\<rparr>, Some Firing)
      else (sm\<lparr>am_failures := n\<rparr>, None))"

subsection \<open>The crate's copies of the backend's helpers\<close>

text \<open>The crate repeats the expansion of secrets and the parser of durations instead of sharing them.\<close>

function agent_expand_str :: "env \<Rightarrow> string \<Rightarrow> config_error + string" where
  "agent_expand_str env rest =
     (case str_find ''${'' rest of
        None \<Rightarrow> Inr rest
      | Some pos \<Rightarrow>
          (let after = drop (pos + 2) rest in
           and_then (ok_or UnterminatedPlaceholder (str_find ''}'' after)) (\<lambda>e.
           let inner = take e after;
               (name, default) = (case split_once '':-'' inner of
                                    Some (n, d) \<Rightarrow> (str_trim n, Some d)
                                  | None \<Rightarrow> (str_trim inner, None))
           in if name = [] then Inl EmptyPlaceholder
              else
                and_then (case env name of Some v \<Rightarrow> Inr v | None \<Rightarrow> ok_or (UnsetVariable name) default) (\<lambda>val.
                and_then (agent_expand_str env (drop (e + 1) after)) (\<lambda>out.
                Inr (take pos rest @ val @ out))))))"
  by pat_completeness auto
termination
  by (relation "measure (\<lambda>(env, rest). length rest)") (auto dest: str_find_Some_bound)

declare agent_expand_str.simps [simp del]

lemma try_map_cong [fundef_cong]: "xs = ys \<Longrightarrow> (\<And>x. x \<in> set ys \<Longrightarrow> f x = g x) \<Longrightarrow> try_map f xs = try_map g ys"
proof (induction xs arbitrary: ys)
  case (Cons x xs)
  then have "try_map f xs = try_map g xs" "f x = g x" by auto
  then show ?case using Cons.prems(1) [symmetric] by (simp split: sum.split)
qed simp

fun agent_expand_env :: "env \<Rightarrow> toml \<Rightarrow> config_error + toml" where
  "agent_expand_env env (TomlString s) = and_then (agent_expand_str env s) (\<lambda>t. Inr (TomlString t))"
| "agent_expand_env env (TomlArray a) = and_then (try_map (agent_expand_env env) a) (\<lambda>b. Inr (TomlArray b))"
| "agent_expand_env env (TomlTable t) =
     and_then (try_map (\<lambda>kv. and_then (agent_expand_env env (snd kv)) (\<lambda>w. Inr (fst kv, w))) t) (\<lambda>u. Inr (TomlTable u))"
| "agent_expand_env env v = Inr v"

definition agent_parse_duration :: "string \<Rightarrow> config_error + nanos" where
  "agent_parse_duration s0 =
     (let s = str_trim s0 in
      if s = [] then Inl DurationEmpty
      else
        and_then (ok_or DurationNoUnit (find_alpha s)) (\<lambda>i.
        let num = take i s; unit = drop i s in
        and_then (ok_or DurationBadValue (parse_uint u64_max (str_trim num))) (\<lambda>value.
        if unit = ''ms'' then Inr (millis value)
        else if unit = ''s'' then Inr (secs value)
        else if unit = ''m'' then Inr (secs (mul_u64 value 60))
        else if unit = ''h'' then Inr (secs (mul_u64 value 3600))
        else if unit = ''d'' then Inr (secs (mul_u64 value 86400))
        else Inl (DurationUnknownUnit unit))))"

definition agent_dur :: "string \<Rightarrow> string \<Rightarrow> config_error + nanos" where
  "agent_dur s field = map_err (InField field) (agent_parse_duration s)"

lemma agent_expand_str_eq [simp]: "agent_expand_str env s = expand_str env s"
proof (induction env s rule: agent_expand_str.induct)
  case (1 env rest)
  then show ?case
    by (subst agent_expand_str.simps, subst expand_str.simps)
      (auto simp: placeholder_value_def placeholder_def opt_or_def Let_def split: option.split prod.split)
qed

lemma agent_expand_env_eq [simp]: "agent_expand_env env v = expand_env env v"
proof -
  have l: "try_map (expand_env env) vs = expand_list env vs" for vs
    by (induction vs) (simp_all add: and_then_def split: sum.split)
  have t: "try_map (\<lambda>kv. and_then (expand_env env (snd kv)) (\<lambda>w. Inr (fst kv, w))) kvs = expand_table env kvs" for kvs
    by (induction kvs) (auto simp: and_then_def split: sum.split)
  show ?thesis
  proof (induction v)
    case (TomlArray a)
    then have "try_map (agent_expand_env env) a = try_map (expand_env env) a" by (intro try_map_cong) simp_all
    then show ?case by (simp add: l)
  next
    case (TomlTable kvs)
    then have "try_map (\<lambda>kv. and_then (agent_expand_env env (snd kv)) (\<lambda>w. Inr (fst kv, w))) kvs
        = try_map (\<lambda>kv. and_then (expand_env env (snd kv)) (\<lambda>w. Inr (fst kv, w))) kvs"
      by (intro try_map_cong) (auto simp: prod_set_simps)
    then show ?case by (simp add: t)
  qed simp_all
qed

lemma agent_dur_eq [simp]: "agent_dur s field = dur s field"
  by (simp add: agent_dur_def agent_parse_duration_def dur_def parse_duration_def Let_def split: option.split)

subsection \<open>Configuration\<close>

datatype alert_channel =
    SlackChannel string string
  | WebhookChannel string "(string \<times> string) list"

record agent_config =
  ag_main_url :: string
  ag_id :: string
  ag_token :: string
  ag_interval :: nanos
  ag_request_timeout :: nanos
  ag_failure_threshold :: nat
  ag_alert :: alert_channel

record agent_slack_section =
  ks_bot_token :: string
  ks_channel :: string

record agent_webhook_section =
  kw_url :: string
  kw_headers :: "(string \<times> string) list"

text \<open>The decoded file; \<open>None\<close> is a field that was left out and takes its serde default.\<close>

record agent_file =
  kf_main_url :: string
  kf_id :: string
  kf_token :: "string option"
  kf_interval :: "string option"
  kf_failure_threshold :: "nat option"
  kf_slack :: "agent_slack_section option"
  kf_webhook :: "agent_webhook_section option"

datatype agent_error = AgentConfig config_error | Required string | ZeroThreshold | BothChannels | NoChannel | NoHttpClient

definition default_token :: string where
  "default_token = ''${DATACAT_HEARTBEAT_TOKEN}''"

definition default_interval :: string where
  "default_interval = ''30s''"

definition default_failure_threshold :: nat where
  "default_failure_threshold = 3"

definition heartbeat_timeout :: nanos where
  "heartbeat_timeout = secs 10"

definition required :: "string \<Rightarrow> string \<Rightarrow> agent_error + unit" where
  "required field v = (if str_trim v = [] then Inl (Required field) else Inr ())"

definition trim_end_slashes :: "string \<Rightarrow> string" where
  "trim_end_slashes s = rev (dropWhile (\<lambda>c. c = CHR ''/'') (rev s))"

definition agent_channel ::
    "agent_slack_section option \<Rightarrow> agent_webhook_section option \<Rightarrow> agent_error + alert_channel" where
  "agent_channel sl wh =
     (case (sl, wh) of
        (Some _, Some _) \<Rightarrow> Inl BothChannels
      | (Some s, None) \<Rightarrow>
          and_then (required ''alert.slack.bot_token'' (ks_bot_token s)) (\<lambda>_.
          and_then (required ''alert.slack.channel'' (ks_channel s)) (\<lambda>_.
          Inr (SlackChannel (ks_bot_token s) (ks_channel s))))
      | (None, Some w) \<Rightarrow>
          and_then (required ''alert.webhook.url'' (kw_url w)) (\<lambda>_.
          Inr (WebhookChannel (kw_url w) (kw_headers w)))
      | (None, None) \<Rightarrow> Inl NoChannel)"

definition into_config :: "env \<Rightarrow> agent_file \<Rightarrow> agent_error + agent_config" where
  "into_config env f =
     and_then (required ''main_url'' (kf_main_url f)) (\<lambda>_.
     and_then (required ''id'' (kf_id f)) (\<lambda>_.
     and_then (map_err AgentConfig (agent_expand_str env (unwrap_or default_token (kf_token f)))) (\<lambda>token.
     and_then (required ''token'' token) (\<lambda>_.
     let threshold = unwrap_or default_failure_threshold (kf_failure_threshold f) in
     if threshold = 0 then Inl ZeroThreshold
     else
       and_then (agent_channel (kf_slack f) (kf_webhook f)) (\<lambda>alert.
       and_then (map_err AgentConfig (agent_dur (unwrap_or default_interval (kf_interval f)) ''interval'')) (\<lambda>i.
       Inr \<lparr>ag_main_url = trim_end_slashes (kf_main_url f), ag_id = kf_id f, ag_token = token,
            ag_interval = i, ag_request_timeout = heartbeat_timeout, ag_failure_threshold = threshold,
            ag_alert = alert\<rparr>))))))"

definition agent_from_toml ::
    "(string \<Rightarrow> toml option) \<Rightarrow> (toml \<Rightarrow> agent_file option) \<Rightarrow> env \<Rightarrow> string \<Rightarrow> agent_error + agent_config" where
  "agent_from_toml parse decode env raw =
     and_then (ok_or (AgentConfig InvalidToml) (parse raw)) (\<lambda>value.
     and_then (map_err AgentConfig (agent_expand_env env value)) (\<lambda>value.
     and_then (ok_or (AgentConfig InvalidStructure) (decode value)) (\<lambda>f.
     into_config env f)))"

definition agent_resolve_path :: "env \<Rightarrow> string" where
  "agent_resolve_path env =
     (case env ''DATACAT_COMPANION_CONFIG'' of
        Some p \<Rightarrow> if p \<noteq> [] then p else ''companion.toml''
      | None \<Rightarrow> ''companion.toml'')"

definition agent_load ::
    "(string \<Rightarrow> string option) \<Rightarrow> (string \<Rightarrow> toml option) \<Rightarrow> (toml \<Rightarrow> agent_file option) \<Rightarrow> env
       \<Rightarrow> agent_error + agent_config" where
  "agent_load read_file parse decode env =
     (let path = agent_resolve_path env in
      and_then (ok_or (AgentConfig (UnreadableFile path)) (read_file path)) (agent_from_toml parse decode env))"

subsection \<open>Alerts of the agent\<close>

record self_alert =
  al_id :: string
  al_state :: alert_state
  al_text :: string

fun wire_label :: "alert_state \<Rightarrow> string" where
  "wire_label Firing = ''firing''"
| "wire_label Resolved = ''resolved''"

definition build_alert :: "agent_config \<Rightarrow> alert_state \<Rightarrow> self_alert" where
  "build_alert cfg st =
     \<lparr>al_id = ag_id cfg, al_state = st,
      al_text =
        (case st of
           Firing \<Rightarrow> ''Datacat companion '' @ quoted (ag_id cfg) @ '' cannot reach Datacat main at ''
             @ ag_main_url cfg @ '' ('' @ show_nat (ag_failure_threshold cfg)
             @ '' consecutive failed heartbeats)''
         | Resolved \<Rightarrow> ''Datacat companion '' @ quoted (ag_id cfg) @ '' recovered: Datacat main at ''
             @ ag_main_url cfg @ '' is reachable again'')\<rparr>"

text \<open>A POST the agent makes: address, bearer token, extra headers, members of the JSON body.\<close>

record http_post =
  po_url :: string
  po_bearer :: "string option"
  po_headers :: "(string \<times> string) list"
  po_body :: "(string \<times> string) list"

definition sink_post :: "alert_channel \<Rightarrow> self_alert \<Rightarrow> http_post" where
  "sink_post channel a =
     (case channel of
        SlackChannel token ch \<Rightarrow>
          \<lparr>po_url = ''https://slack.com/api/chat.postMessage'', po_bearer = Some token, po_headers = [],
           po_body = [(''channel'', ch), (''text'', al_text a)]\<rparr>
      | WebhookChannel url headers \<Rightarrow>
          \<lparr>po_url = url, po_bearer = None, po_headers = headers,
           po_body = [(''id'', al_id a), (''state'', wire_label (al_state a)), (''text'', al_text a)]\<rparr>)"

text \<open>Whether an answer means delivered: Slack answers 200 to a refusal and says so in the body.\<close>

definition agent_slack_send :: "(nat \<times> (bool \<times> string option) option) option \<Rightarrow> slack_error + unit" where
  "agent_slack_send response =
     and_then (ok_or SlackUnreachable response) (\<lambda>(status, body).
     if \<not> (200 \<le> status \<and> status < 300) then Inl (SlackStatus status)
     else and_then (ok_or SlackUnreadable body) (\<lambda>(ok, err).
       if \<not> ok then Inl (SlackRefused (unwrap_or ''unknown error'' err)) else Inr ()))"

subsection \<open>The agent\<close>

definition heartbeat_url :: "agent_config \<Rightarrow> string" where
  "heartbeat_url cfg = ag_main_url cfg @ ''/v1/heartbeat''"

definition heartbeat_post :: "agent_config \<Rightarrow> http_post" where
  "heartbeat_post cfg =
     \<lparr>po_url = heartbeat_url cfg, po_bearer = Some (ag_token cfg), po_headers = [],
      po_body = [(''id'', ag_id cfg)]\<rparr>"

text \<open>The outcome of a heartbeat: the status of the answer, or none when there was no answer.\<close>

definition heartbeat_outcome :: "nat option \<Rightarrow> beat" where
  "heartbeat_outcome response =
     (case response of
        Some status \<Rightarrow> if 200 \<le> status \<and> status < 300 then BeatOk else BeatFailed
      | None \<Rightarrow> BeatFailed)"

text \<open>A failed delivery of the alert is only logged, so the answer of the sink plays no part.\<close>

definition agent_process :: "agent_config \<Rightarrow> state_machine \<Rightarrow> beat \<Rightarrow> state_machine \<times> self_alert option" where
  "agent_process cfg sm b =
     (let (sm', transition) = apply_beat (ag_failure_threshold cfg) sm b
      in (sm', map_option (build_alert cfg) transition))"

text \<open>What wakes the loop: a tick, with the answer to its heartbeat, or the shutdown, which ends it.
  The result lists the requests made, in order.\<close>

datatype agent_event = AgentTick "nat option" | AgentShutdown

fun agent_loop :: "agent_config \<Rightarrow> state_machine \<Rightarrow> agent_event list \<Rightarrow> http_post list \<times> state_machine" where
  "agent_loop cfg sm [] = ([], sm)"
| "agent_loop cfg sm (AgentShutdown # es) = ([], sm)"
| "agent_loop cfg sm (AgentTick response # es) =
     (let (sm', alert) = agent_process cfg sm (heartbeat_outcome response);
          (posts, sm'') = agent_loop cfg sm' es
      in (heartbeat_post cfg
            # (case alert of None \<Rightarrow> [] | Some a \<Rightarrow> [sink_post (ag_alert cfg) a]) @ posts, sm''))"

definition agent_run :: "agent_config \<Rightarrow> agent_event list \<Rightarrow> http_post list \<times> state_machine" where
  "agent_run cfg es = agent_loop cfg state_machine_new es"

text \<open>The program: it loads its configuration, builds its HTTP client, which may fail, and runs the loop.\<close>

definition agent_new :: "bool \<Rightarrow> agent_config \<Rightarrow> agent_error + agent_config" where
  "agent_new client_built cfg = (if client_built then Inr cfg else Inl NoHttpClient)"

definition companion_main ::
    "(string \<Rightarrow> string option) \<Rightarrow> (string \<Rightarrow> toml option) \<Rightarrow> (toml \<Rightarrow> agent_file option) \<Rightarrow> env
       \<Rightarrow> bool \<Rightarrow> agent_event list \<Rightarrow> agent_error + http_post list" where
  "companion_main read_file parse decode env client_built es =
     and_then (agent_load read_file parse decode env) (\<lambda>cfg.
     and_then (agent_new client_built cfg) (\<lambda>agent.
     Inr (fst (agent_run agent es))))"

subsection \<open>What the machine computes\<close>

text \<open>The specification: the length of the streak of failures at the end of the history.\<close>

definition streak :: "beat list \<Rightarrow> nat" where
  "streak bs = length (takeWhile (\<lambda>b. b = BeatFailed) (rev bs))"

lemma streak_simps [simp]:
  "streak [] = 0"
  "streak (bs @ [BeatOk]) = 0"
  "streak (bs @ [BeatFailed]) = Suc (streak bs)"
  by (simp_all add: streak_def)

lemma streak_replicate: "streak (bs @ replicate n BeatFailed) = streak bs + n"
  by (simp add: streak_def takeWhile_append)

text \<open>What an observer who remembers the whole history would announce.\<close>

fun announce :: "nat \<Rightarrow> beat list \<Rightarrow> beat \<Rightarrow> alert_state option" where
  "announce threshold history BeatOk = (if threshold \<le> streak history then Some Resolved else None)"
| "announce threshold history BeatFailed = (if Suc (streak history) = threshold then Some Firing else None)"

definition represents :: "nat \<Rightarrow> beat list \<Rightarrow> state_machine \<Rightarrow> bool" where
  "represents threshold history sm \<longleftrightarrow>
     am_failures sm = min u32_max (streak history) \<and> (am_firing sm \<longleftrightarrow> threshold \<le> streak history)"

lemma u32_max_pos: "0 < u32_max"
  by (simp add: u32_max_def)

lemma apply_beat_refines:
  assumes "0 < threshold" and "threshold \<le> u32_max" and "represents threshold history sm"
  shows "snd (apply_beat threshold sm b) = announce threshold history b
    \<and> represents threshold (history @ [b]) (fst (apply_beat threshold sm b))"
  using assms u32_max_pos
  by (cases b) (auto simp: represents_def sat_succ_def Let_def)

interpretation ag: edge_machine "apply_beat threshold" am_firing for threshold
proof
  fix s t :: state_machine and i out
  assume "apply_beat threshold s i = (t, out)"
  then show "out = edge (am_firing s) (am_firing t)"
    by (cases i) (auto simp: edge_def Let_def split: if_splits)
qed

subsection \<open>Runs of the loop\<close>

text \<open>The outcomes of the heartbeats made before the shutdown.\<close>

fun beats_of :: "agent_event list \<Rightarrow> beat list" where
  "beats_of [] = []"
| "beats_of (AgentShutdown # es) = []"
| "beats_of (AgentTick response # es) = heartbeat_outcome response # beats_of es"

fun history_posts :: "agent_config \<Rightarrow> beat list \<Rightarrow> beat list \<Rightarrow> http_post list" where
  "history_posts cfg h [] = []"
| "history_posts cfg h (b # bs) =
     heartbeat_post cfg
     # (case announce (ag_failure_threshold cfg) h b of
          None \<Rightarrow> [] | Some st \<Rightarrow> [sink_post (ag_alert cfg) (build_alert cfg st)])
     @ history_posts cfg (h @ [b]) bs"

lemma history_posts_append:
  "history_posts cfg h (bs @ cs) = history_posts cfg h bs @ history_posts cfg (h @ bs) cs"
  by (induction bs arbitrary: h) simp_all

lemma beats_of_append:
  "AgentShutdown \<notin> set es \<Longrightarrow> beats_of (es @ fs) = beats_of es @ beats_of fs"
proof (induction es)
  case (Cons e es)
  then show ?case by (cases e) simp_all
qed simp

lemma agent_loop_refines:
  assumes "0 < ag_failure_threshold cfg" and "ag_failure_threshold cfg \<le> u32_max"
    and "represents (ag_failure_threshold cfg) h sm"
  shows "fst (agent_loop cfg sm es) = history_posts cfg h (beats_of es)
    \<and> represents (ag_failure_threshold cfg) (h @ beats_of es) (snd (agent_loop cfg sm es))"
  using assms(3)
proof (induction es arbitrary: sm h)
  case Nil
  then show ?case by simp
next
  case (Cons e es)
  show ?case
  proof (cases e)
    case (AgentTick response)
    define b where "b = heartbeat_outcome response"
    obtain sm' out where a: "apply_beat (ag_failure_threshold cfg) sm b = (sm', out)" by fastforce
    from apply_beat_refines [OF assms(1,2) Cons.prems, of b] a
    have o: "out = announce (ag_failure_threshold cfg) h b"
      and r: "represents (ag_failure_threshold cfg) (h @ [b]) sm'" by simp_all
    from Cons.IH [OF r] show ?thesis
      by (auto simp: AgentTick agent_process_def b_def [symmetric] a o split: prod.split option.split)
  qed (use Cons.prems in simp)
qed

lemma represents_new: "0 < threshold \<Longrightarrow> represents threshold [] state_machine_new"
  by (simp add: represents_def state_machine_new_def)

text \<open>C17. The agent implements the observer of the whole history: with a threshold its type allows, the
  requests it makes are one heartbeat per tick before the shutdown, and after it the alert exactly
  when the streak of failures reaches the threshold, or is broken once beyond it. The saturating
  counter is invisible.\<close>

theorem agent_refines_history:
  assumes "0 < ag_failure_threshold cfg" and "ag_failure_threshold cfg \<le> u32_max"
  shows "fst (agent_run cfg es) = history_posts cfg [] (beats_of es)
    \<and> (am_firing (snd (agent_run cfg es)) \<longleftrightarrow> ag_failure_threshold cfg \<le> streak (beats_of es))"
  using agent_loop_refines [OF assms represents_new [OF assms(1)], of es]
  by (simp add: agent_run_def represents_def)

definition demo_agent :: agent_config where
  "demo_agent = \<lparr>ag_main_url = ''https://main'', ag_id = ''edge'', ag_token = ''t'', ag_interval = 1,
     ag_request_timeout = 1, ag_failure_threshold = 2, ag_alert = SlackChannel ''bot'' ''ops''\<rparr>"

lemma agent_refines_history_witness:
  "fst (agent_run demo_agent [AgentTick None, AgentTick (Some 500), AgentTick None, AgentTick (Some 200)])
     = [heartbeat_post demo_agent, heartbeat_post demo_agent,
        sink_post (ag_alert demo_agent) (build_alert demo_agent Firing), heartbeat_post demo_agent,
        heartbeat_post demo_agent, sink_post (ag_alert demo_agent) (build_alert demo_agent Resolved)]"
  using agent_refines_history [of demo_agent "[AgentTick None, AgentTick (Some 500), AgentTick None, AgentTick (Some 200)]"]
  by (simp add: demo_agent_def u32_max_def heartbeat_outcome_def streak_def)

subsection \<open>Outages\<close>

lemma history_posts_steady:
  assumes "threshold = ag_failure_threshold cfg" and "streak h + n < threshold \<or> threshold \<le> streak h"
  shows "history_posts cfg h (replicate n BeatFailed) = replicate n (heartbeat_post cfg)"
  using assms
proof (induction n arbitrary: h)
  case 0
  then show ?case by simp
next
  case (Suc n)
  then have "Suc (streak h) \<noteq> ag_failure_threshold cfg" by auto
  with Suc show ?case by auto
qed

lemma history_posts_outage:
  assumes t: "threshold = ag_failure_threshold cfg" and s: "streak h < threshold" and n: "threshold \<le> streak h + n"
  shows "history_posts cfg h (replicate n BeatFailed)
    = replicate (threshold - streak h) (heartbeat_post cfg)
      @ [sink_post (ag_alert cfg) (build_alert cfg Firing)]
      @ replicate (n - (threshold - streak h)) (heartbeat_post cfg)"
proof -
  define k where "k = threshold - streak h - 1"
  define m where "m = n - (threshold - streak h)"
  have "n = k + Suc m" using s n by (simp add: k_def m_def)
  then have r: "replicate n BeatFailed = replicate k BeatFailed @ BeatFailed # replicate m BeatFailed"
    by (simp only: replicate_add replicate_Suc)
  have str: "streak (h @ replicate k BeatFailed) = threshold - 1"
    using s by (simp add: streak_replicate k_def)
  have a: "history_posts cfg h (replicate k BeatFailed) = replicate k (heartbeat_post cfg)"
    using s by (intro history_posts_steady [OF t]) (simp add: k_def)
  have b: "history_posts cfg (h @ replicate k BeatFailed @ [BeatFailed]) (replicate m BeatFailed)
      = replicate m (heartbeat_post cfg)"
    using s str by (intro history_posts_steady [OF t] disjI2) (simp flip: append_assoc)
  have c: "announce (ag_failure_threshold cfg) (h @ replicate k BeatFailed) BeatFailed = Some Firing"
    using s str by (simp add: t [symmetric])
  have d: "replicate (threshold - streak h) (heartbeat_post cfg) = replicate k (heartbeat_post cfg) @ [heartbeat_post cfg]"
    using s by (simp add: k_def replicate_append_same flip: replicate_Suc)
  show ?thesis
    unfolding r history_posts_append a m_def [symmetric] d
    by (simp add: c b del: announce.simps replicate_app_Cons_same)
qed

definition failed_ticks :: "agent_event list \<Rightarrow> bool" where
  "failed_ticks es \<longleftrightarrow> (\<forall>e\<in>set es. \<exists>r. e = AgentTick r \<and> heartbeat_outcome r = BeatFailed)"

lemma beats_of_failed: "failed_ticks es \<Longrightarrow> beats_of es = replicate (length es) BeatFailed"
  by (induction es) (auto simp: failed_ticks_def)

text \<open>C18. An outage is announced, once, and so is its end: whatever happened before, as long as the agent
  is not already alerting, an outage that lasts at least what is missing to the threshold makes it send
  the alert with the heartbeat that reaches the threshold and no other request than heartbeats; the
  first heartbeat that main acknowledges afterwards sends the resolution. This holds of every
  configuration the loader accepts.\<close>

theorem outage_is_announced:
  assumes acc: "into_config env f = Inr cfg" and u32: "kf_failure_threshold f \<noteq> None \<longrightarrow> the (kf_failure_threshold f) \<le> u32_max"
    and run: "AgentShutdown \<notin> set es" and quiet: "\<not> am_firing (snd (agent_run cfg es))"
    and out: "failed_ticks outage"
    and long: "ag_failure_threshold cfg \<le> streak (beats_of es) + length outage"
    and up: "heartbeat_outcome r = BeatOk"
  shows "fst (agent_run cfg (es @ outage @ [AgentTick r])) = fst (agent_run cfg es)
    @ replicate (ag_failure_threshold cfg - streak (beats_of es)) (heartbeat_post cfg)
    @ [sink_post (ag_alert cfg) (build_alert cfg Firing)]
    @ replicate (length outage - (ag_failure_threshold cfg - streak (beats_of es))) (heartbeat_post cfg)
    @ [heartbeat_post cfg, sink_post (ag_alert cfg) (build_alert cfg Resolved)]"
proof -
  from acc have th: "ag_failure_threshold cfg = unwrap_or default_failure_threshold (kf_failure_threshold f)"
    and pos: "0 < ag_failure_threshold cfg"
    by (auto simp: into_config_def Let_def split: if_splits)
  from th u32 have le: "ag_failure_threshold cfg \<le> u32_max"
    by (cases "kf_failure_threshold f") (simp_all add: default_failure_threshold_def u32_max_def)
  note ref = agent_loop_refines [OF pos le represents_new [OF pos], folded agent_run_def]
  have s: "streak (beats_of es) < ag_failure_threshold cfg"
    using quiet ref [of es] by (simp add: represents_def)
  have "failed_ticks outage \<Longrightarrow> AgentShutdown \<notin> set outage" by (auto simp: failed_ticks_def)
  then have b: "beats_of (es @ outage @ [AgentTick r]) = beats_of es @ replicate (length outage) BeatFailed @ [BeatOk]"
    using run out by (simp add: beats_of_append beats_of_failed up)
  have st: "ag_failure_threshold cfg \<le> streak (beats_of es @ replicate (length outage) BeatFailed)"
    using long by (simp add: streak_replicate)
  have "fst (agent_run cfg (es @ outage @ [AgentTick r]))
      = history_posts cfg [] (beats_of es @ replicate (length outage) BeatFailed @ [BeatOk])"
    using ref [of "es @ outage @ [AgentTick r]"] b by simp
  also have "\<dots> = history_posts cfg [] (beats_of es)
      @ history_posts cfg (beats_of es) (replicate (length outage) BeatFailed)
      @ [heartbeat_post cfg, sink_post (ag_alert cfg) (build_alert cfg Resolved)]"
    using st by (simp add: history_posts_append)
  also have "history_posts cfg [] (beats_of es) = fst (agent_run cfg es)" using ref [of es] by simp
  finally show ?thesis by (simp add: history_posts_outage [OF refl s long])
qed

definition demo_file :: agent_file where
  "demo_file = \<lparr>kf_main_url = ''https://main/'', kf_id = ''edge'', kf_token = Some ''t'', kf_interval = Some ''5s'',
     kf_failure_threshold = Some 2, kf_slack = Some \<lparr>ks_bot_token = ''b'', ks_channel = ''c''\<rparr>, kf_webhook = None\<rparr>"

definition demo_config :: agent_config where
  "demo_config = \<lparr>ag_main_url = ''https://main'', ag_id = ''edge'', ag_token = ''t'', ag_interval = secs 5,
     ag_request_timeout = heartbeat_timeout, ag_failure_threshold = 2, ag_alert = SlackChannel ''b'' ''c''\<rparr>"

lemma demo_file_accepted: "into_config (\<lambda>_. None) demo_file = Inr demo_config"
proof -
  have e: "expand_str (\<lambda>_. None) ''t'' = Inr ''t''" by (subst expand_str.simps) (simp add: str_find.simps)
  have d: "dur ''5s'' ''interval'' = Inr (secs 5)"
  proof -
    have "show_nat 5 = ''5''" by (subst show_nat.simps) (simp add: digit_char_def char_of_def bit_0)
    moreover have "is_ascii_alphabetic (CHR ''s'')" by code_simp
    ultimately show ?thesis
      using parse_duration_shape [of "''s''" 5] by (simp add: dur_def u64_max_def ascii_visible_def)
  qed
  have t: "str_trim ''https://main/'' = ''https://main/''" "str_trim ''edge'' = ''edge''" "str_trim ''t'' = ''t''"
      "str_trim ''b'' = ''b''" "str_trim ''c'' = ''c''"
    by (rule str_trim_visible; simp add: ascii_visible_def)+
  show ?thesis
    by (simp add: into_config_def demo_file_def demo_config_def required_def agent_channel_def e d t
        trim_end_slashes_def)
qed

lemma outage_is_announced_witness:
  "fst (agent_run demo_config ([AgentTick None] @ [AgentTick None, AgentTick (Some 503)] @ [AgentTick (Some 204)]))
   = fst (agent_run demo_config [AgentTick None])
     @ [heartbeat_post demo_config, sink_post (ag_alert demo_config) (build_alert demo_config Firing),
        heartbeat_post demo_config, heartbeat_post demo_config,
        sink_post (ag_alert demo_config) (build_alert demo_config Resolved)]"
proof -
  have quiet: "\<not> am_firing (snd (agent_run demo_config [AgentTick None]))"
    by (simp add: agent_run_def agent_process_def state_machine_new_def heartbeat_outcome_def demo_config_def
        sat_succ_def u32_max_def)
  have s: "streak (beats_of [AgentTick None]) = 1" by (simp add: heartbeat_outcome_def streak_def)
  have t: "ag_failure_threshold demo_config = 2" by (simp add: demo_config_def)
  have r: "replicate (2 - 1) x = [x]" for x :: http_post by simp
  from outage_is_announced [OF demo_file_accepted _ _ quiet, of "[AgentTick None, AgentTick (Some 503)]" "Some 204"]
  show ?thesis unfolding s t
    by (simp add: demo_file_def u32_max_def heartbeat_outcome_def failed_ticks_def)
qed

lemma alerts_of_the_agent_alternate: "ag.run t sm bs = (sm', outs) \<Longrightarrow> alternates (am_firing sm) outs"
  using ag.run_alternates by blast

subsection \<open>The configuration\<close>

definition channel_ok :: "agent_slack_section option \<Rightarrow> agent_webhook_section option \<Rightarrow> bool" where
  "channel_ok sl wh =
     (case (sl, wh) of
        (Some s, None) \<Rightarrow> str_trim (ks_bot_token s) \<noteq> [] \<and> str_trim (ks_channel s) \<noteq> []
      | (None, Some w) \<Rightarrow> str_trim (kw_url w) \<noteq> []
      | _ \<Rightarrow> False)"

text \<open>The loader fails closed, and only then: a decoded file is accepted exactly when its address,
  identifier and expanded token are not blank, its threshold is not zero, its interval is a duration and
  exactly one alert channel is given, complete; what it then runs with has no trailing slash in the
  address, so that heartbeats go to \<^verbatim>\<open>/v1/heartbeat\<close> of main.\<close>

theorem agent_config_exact:
  "is_ok (into_config env f) =
     (str_trim (kf_main_url f) \<noteq> [] \<and> str_trim (kf_id f) \<noteq> []
      \<and> (case expand_str env (unwrap_or default_token (kf_token f)) of Inl _ \<Rightarrow> False | Inr t \<Rightarrow> str_trim t \<noteq> [])
      \<and> kf_failure_threshold f \<noteq> Some 0
      \<and> channel_ok (kf_slack f) (kf_webhook f)
      \<and> is_ok (parse_duration (unwrap_or default_interval (kf_interval f))))"
proof -
  have c: "is_ok (and_then (agent_channel sl wh) (\<lambda>al. and_then (map_err AgentConfig (dur i fl)) (\<lambda>n. Inr (h al n))))
      \<longleftrightarrow> channel_ok sl wh \<and> is_ok (parse_duration i)"
    for sl wh i fl and h :: "alert_channel \<Rightarrow> nanos \<Rightarrow> agent_config"
    by (cases "parse_duration i"; cases sl; cases wh)
      (simp_all add: agent_channel_def channel_ok_def required_def dur_def)
  have t: "unwrap_or default_failure_threshold x = 0 \<longleftrightarrow> x = Some 0" for x
    by (cases x) (simp_all add: default_failure_threshold_def)
  show ?thesis
    by (cases "expand_str env (unwrap_or default_token (kf_token f))")
      (simp_all add: into_config_def Let_def required_def t c)
qed

lemma trim_end_slashes_ends: "\<not> suffix ''/'' (trim_end_slashes s)"
proof
  assume "suffix ''/'' (trim_end_slashes s)"
  then obtain u where "trim_end_slashes s = u @ ''/''" by (auto simp: suffix_def)
  then have "dropWhile (\<lambda>c. c = CHR ''/'') (rev s) = CHR ''/'' # rev u"
    by (metis rev_rev_ident rev_append rev_singleton_conv append_Cons append_Nil trim_end_slashes_def)
  then show False by (metis (mono_tags) dropWhile_eq_Cons_conv)
qed

lemma accepted_main_url: "into_config env f = Inr cfg \<Longrightarrow> \<not> suffix ''/'' (ag_main_url cfg)"
  using trim_end_slashes_ends by (auto simp: into_config_def Let_def split: if_splits)

text \<open>The program runs only with a configuration that \<open>into_config\<close> accepted, so that its requests are
  those of the observer of the whole history.\<close>

lemma companion_main_runs_accepted:
  assumes "companion_main read_file parse decode env client es = Inr posts"
  obtains f cfg where "into_config env f = Inr cfg" "posts = fst (agent_run cfg es)"
  using assms that
  by (auto simp: companion_main_def agent_new_def agent_load_def agent_from_toml_def and_then_def ok_or_def map_err_def Let_def
      split: sum.splits option.splits if_splits)

text \<open>The token is expanded twice, by \<open>expand_env\<close> and again by \<open>into_config\<close>: a secret
  whose value contains a placeholder does not arrive as it is, and the agent may not start.\<close>

lemma token_expanded_twice:
  "expand_env [''T'' \<mapsto> ''s${x}''] (TomlString ''${T}'') = Inr (TomlString ''s${x}'')
   \<and> into_config [''T'' \<mapsto> ''s${x}''] (demo_file\<lparr>kf_token := Some ''s${x}''\<rparr>)
       = Inl (AgentConfig (UnsetVariable ''x''))"
proof -
  have n: "expand_str e [] = Inr []" for e by (subst expand_str.simps) (simp add: str_find.simps)
  have "str_trim ''T'' = ''T''" "str_trim ''x'' = ''x''"
    by (rule str_trim_visible; simp add: ascii_visible_def)+
  then have "expand_str [''T'' \<mapsto> ''s${x}''] ''${T}'' = Inr ''s${x}''"
    "expand_str [''T'' \<mapsto> ''s${x}''] ''s${x}'' = Inl (UnsetVariable ''x'')"
    by (subst expand_str.simps, simp add: str_find.simps placeholder_value_def placeholder_def split_once_def n Let_def)+
  moreover have "str_trim ''https://main/'' = ''https://main/''" "str_trim ''edge'' = ''edge''"
    by (rule str_trim_visible; simp add: ascii_visible_def)+
  ultimately show ?thesis by (simp add: into_config_def demo_file_def required_def)
qed

end
