(* ===== verification/Watch.thy ===== *)
theory Watch
  imports Api Agent
begin

text \<open>
  The two halves of the dead man's switch put together: the companion agent of
  \<^verbatim>\<open>companion/src/agent.rs\<close>, which watches main, and the monitor of
  \<^verbatim>\<open>backend/src/companion/mod.rs\<close>, which watches the agent, with the heartbeat endpoint and
  the rest of the service between them. The network decides which requests arrive and which answers
  come back.
\<close>

subsection \<open>A heartbeat over the network\<close>

text \<open>The header map that axum reads from a request of the agent, by lower-case name.\<close>

definition received_headers :: "http_post \<Rightarrow> header_map" where
  "received_headers p =
     (\<lambda>h. if h = ''authorization'' then map_option (\<lambda>t. ''Bearer '' @ t) (po_bearer p) else None)"

text \<open>The identifier in the JSON body of the request (\<^verbatim>\<open>struct Heartbeat\<close>), if it decodes.\<close>

definition heartbeat_body :: "http_post \<Rightarrow> string option" where
  "heartbeat_body p = al_get (po_body p) ''id''"

text \<open>What the route answers: 204, the status of the error, or 422 for a body that does not decode.\<close>

definition heartbeat_route ::
    "api_env \<Rightarrow> http_post \<Rightarrow> datetime \<Rightarrow> 'db app_state \<Rightarrow> nat \<times> 'db app_state" where
  "heartbeat_route env p now st =
     (case heartbeat_body p of
        None \<Rightarrow> (422, st)
      | Some hb_id \<Rightarrow>
          (case heartbeat env (received_headers p) hb_id now st of
             (Inl e, st) \<Rightarrow> (http_status e, st)
           | (Inr _, st) \<Rightarrow> (204, st)))"

subsection \<open>Both programs\<close>

datatype watch_event =
    AgentWakes datetime bool bool
  | Serving api_op
  | MonitorWakes datetime

text \<open>\<open>AgentWakes now arrives returns\<close>: the ticker of the agent fires; its request may not arrive, the answer
  may not come back. \<open>Serving\<close> is any other step of the service.\<close>

record 'db watch =
  wa_agent :: state_machine
  wa_main :: "'db app_state"
  wa_firing :: "bool alist"
  wa_alerts :: "alert list"
  wa_posts :: "http_post list"

fun watch_step ::
    "api_env \<Rightarrow> 'db stores \<Rightarrow> expected_companion list \<Rightarrow> agent_config \<Rightarrow> watch_event \<Rightarrow> 'db watch \<Rightarrow> 'db watch" where
  "watch_step env so cs cfg (AgentWakes now arrives returns) w =
     (let p = heartbeat_post cfg;
          (status, main) = (if arrives then map_prod Some id (heartbeat_route env p now (wa_main w)) else (None, wa_main w));
          (sm, alert) = agent_process cfg (wa_agent w) (heartbeat_outcome (if returns then status else None))
      in w\<lparr>wa_agent := sm, wa_main := main,
           wa_posts := wa_posts w @ p # (case alert of None \<Rightarrow> [] | Some a \<Rightarrow> [sink_post (ag_alert cfg) a])\<rparr>)"
| "watch_step env so cs cfg (Serving op) w = w\<lparr>wa_main := api_step env so op (wa_main w)\<rparr>"
| "watch_step env so cs cfg (MonitorWakes now) w =
     (let (as, firing) = monitor_tick (as_companions (wa_main w)) now cs (wa_firing w)
      in w\<lparr>wa_firing := firing, wa_alerts := wa_alerts w @ as\<rparr>)"

definition watch_run ::
    "api_env \<Rightarrow> 'db stores \<Rightarrow> expected_companion list \<Rightarrow> agent_config \<Rightarrow> watch_event list \<Rightarrow> 'db watch \<Rightarrow> 'db watch" where
  "watch_run env so cs cfg es w = fold (watch_step env so cs cfg) es w"

definition watch_start :: "'db app_state \<Rightarrow> 'db watch" where
  "watch_start st = \<lparr>wa_agent = state_machine_new, wa_main = st, wa_firing = [], wa_alerts = [], wa_posts = []\<rparr>"

subsection \<open>What each side sees\<close>

definition agent_trusted :: "api_env \<Rightarrow> agent_config \<Rightarrow> bool" where
  "agent_trusted env cfg \<longleftrightarrow>
     check_service_token (ae_verify env) (cfg_logs_auth (ae_cfg env)) (bearer (received_headers (heartbeat_post cfg))) = Inr ()"

definition heartbeat_accepted :: "api_env \<Rightarrow> agent_config \<Rightarrow> bool" where
  "heartbeat_accepted env cfg \<longleftrightarrow> agent_trusted env cfg \<and> str_trim (ag_id cfg) \<noteq> []"

text \<open>The instants at which a heartbeat of the agent reached main, and the outcomes the agent saw.\<close>

fun arrivals :: "watch_event list \<Rightarrow> datetime list" where
  "arrivals [] = []"
| "arrivals (AgentWakes now arrives returns # es) = (if arrives then [now] else []) @ arrivals es"
| "arrivals (_ # es) = arrivals es"

fun outcomes :: "bool \<Rightarrow> watch_event list \<Rightarrow> beat list" where
  "outcomes ok [] = []"
| "outcomes ok (AgentWakes now arrives returns # es) =
     (if ok \<and> arrives \<and> returns then BeatOk else BeatFailed) # outcomes ok es"
| "outcomes ok (_ # es) = outcomes ok es"

text \<open>Main is silent towards a companion when nothing of it arrived within its timeout.\<close>

definition silent :: "expected_companion \<Rightarrow> datetime list \<Rightarrow> datetime \<Rightarrow> bool" where
  "silent c ts now \<longleftrightarrow> ts = [] \<or> since now (last ts) > xc_timeout c"

fun beats_for :: "string \<Rightarrow> watch_event \<Rightarrow> bool" where
  "beats_for cid (Serving (PostHeartbeat t h i now)) = (str_trim i = cid)"
| "beats_for cid _ = False"

text \<open>The events of the monitor and of the agent behind those of the watch.\<close>

fun monitor_view :: "api_env \<Rightarrow> agent_config \<Rightarrow> watch_event \<Rightarrow> monitor_event list" where
  "monitor_view env cfg (AgentWakes now arrives returns) =
     (if arrives \<and> heartbeat_accepted env cfg then [Beat (str_trim (ag_id cfg)) now] else [])"
| "monitor_view env cfg (Serving (PostHeartbeat t h i now)) =
     (if check_service_token (ae_verify env) (cfg_logs_auth (ae_cfg env)) (bearer h) = Inr () \<and> str_trim i \<noteq> []
      then [Beat (str_trim i) now] else [])"
| "monitor_view env cfg (Serving _) = []"
| "monitor_view env cfg (MonitorWakes now) = [Tick now]"

subsection \<open>Only heartbeats touch the registry\<close>

lemma set_streams_companions [simp]:
  "as_companions (st\<lparr>as_logs := b\<rparr>) = as_companions st"
  "as_companions (st\<lparr>as_spans := b'\<rparr>) = as_companions st"
  "as_companions (st\<lparr>as_points := b''\<rparr>) = as_companions st"
  by simp_all

lemma accept_records_companions:
  assumes "\<And>b st. as_companions (set_b b st) = as_companions st"
  shows "as_companions (snd (accept_records env f g get_b set_b ip now p st)) = as_companions st"
  using assms by (simp add: accept_records_def Let_def split: prod.splits decision.splits)

lemma otlp_flow_companions:
  assumes "\<And>p st. as_companions (snd (accept ip now p st)) = as_companions st"
  shows "as_companions (snd (otlp_flow env ip now token body accept st)) = as_companions st"
proof -
  have "accept ip now p s = (r, s') \<Longrightarrow> as_companions s' = as_companions s" for p s r s'
    using assms [of p s] by simp
  then show ?thesis
    by (auto simp: otlp_flow_def authorize_logs_def Let_def split: prod.splits option.splits sum.splits)
qed

lemma ingest_events_companions: "as_companions (snd (ingest_events env q b st)) = as_companions st"
  by (auto simp: ingest_events_def Let_def split: prod.splits option.splits sum.splits decision.splits)

lemma api_step_companions:
  "\<forall>t h i now. op \<noteq> PostHeartbeat t h i now \<Longrightarrow> as_companions (api_step env so op st) = as_companions st"
  by (cases op)
    (simp_all add: ingest_events_companions ingest_logs_def ingest_traces_def Api.ingest_metrics_def
      Api.export_logs_def export_traces_def export_metrics_def grpc_answer_def
      otlp_flow_companions accept_records_companions accept_logs_def accept_spans_def accept_metric_points_def)

lemma heartbeat_registry:
  "as_companions (snd (heartbeat env h i now st))
     = (if check_service_token (ae_verify env) (cfg_logs_auth (ae_cfg env)) (bearer h) = Inr () \<and> str_trim i \<noteq> []
        then registry_record (str_trim i) now (as_companions st) else as_companions st)"
  by (auto simp: heartbeat_def Let_def split: sum.split)

lemma heartbeat_route_answer:
  "heartbeat_route env (heartbeat_post cfg) now st = (s, st') \<Longrightarrow>
     heartbeat_outcome (Some s) = (if heartbeat_accepted env cfg then BeatOk else BeatFailed)
     \<and> as_companions st' = (if heartbeat_accepted env cfg
                            then registry_record (str_trim (ag_id cfg)) now (as_companions st) else as_companions st)"
  by (auto simp: heartbeat_route_def heartbeat_body_def heartbeat_post_def heartbeat_def heartbeat_accepted_def
      agent_trusted_def al_get_def heartbeat_outcome_def Let_def split: sum.splits if_splits)

subsection \<open>Each side runs as it does alone\<close>

lemma monitor_run_append:
  "monitor_run cs s (es @ fs)
     = (fst (monitor_run cs s es) @ fst (monitor_run cs (snd (monitor_run cs s es)) fs),
        snd (monitor_run cs (snd (monitor_run cs s es)) fs))"
  by (induction es arbitrary: s) (simp_all add: split_beta)

lemma watch_step_monitor:
  "(as_companions (wa_main (watch_step env so cs cfg e w)), wa_firing (watch_step env so cs cfg e w))
     = snd (monitor_run cs (as_companions (wa_main w), wa_firing w) (monitor_view env cfg e))
   \<and> wa_alerts (watch_step env so cs cfg e w)
     = wa_alerts w @ fst (monitor_run cs (as_companions (wa_main w), wa_firing w) (monitor_view env cfg e))"
proof (cases e)
  case (AgentWakes now arrives returns)
  obtain s main where p: "heartbeat_route env (heartbeat_post cfg) now (wa_main w) = (s, main)" by fastforce
  show ?thesis
    using heartbeat_route_answer [OF p] by (cases arrives) (simp_all add: AgentWakes p split_beta Let_def)
next
  case (Serving op)
  then show ?thesis
    by (cases op) (simp_all add: api_step_companions heartbeat_registry del: api_step.simps(1-7,9-))
next
  case (MonitorWakes now)
  then show ?thesis by (auto split: prod.splits)
qed

lemma watch_run_monitor:
  "(as_companions (wa_main (watch_run env so cs cfg es w)), wa_firing (watch_run env so cs cfg es w))
     = snd (monitor_run cs (as_companions (wa_main w), wa_firing w) (concat (map (monitor_view env cfg) es)))
   \<and> wa_alerts (watch_run env so cs cfg es w)
     = wa_alerts w @ fst (monitor_run cs (as_companions (wa_main w), wa_firing w) (concat (map (monitor_view env cfg) es)))"
proof (induction es arbitrary: w)
  case (Cons e es)
  from watch_step_monitor [of env so cs cfg e w] Cons [of "watch_step env so cs cfg e w"] show ?case
    by (simp add: watch_run_def monitor_run_append)
qed (simp add: watch_run_def)

lemma watch_step_agent:
  "represents (ag_failure_threshold cfg) h (wa_agent w) \<Longrightarrow> 0 < ag_failure_threshold cfg \<Longrightarrow>
     ag_failure_threshold cfg \<le> u32_max \<Longrightarrow>
     represents (ag_failure_threshold cfg) (h @ outcomes (heartbeat_accepted env cfg) [e])
       (wa_agent (watch_step env so cs cfg e w))
     \<and> wa_posts (watch_step env so cs cfg e w)
       = wa_posts w @ history_posts cfg h (outcomes (heartbeat_accepted env cfg) [e])"
proof (cases e)
  case (AgentWakes now arrives returns)
  define b where "b = (if heartbeat_accepted env cfg \<and> arrives \<and> returns then BeatOk else BeatFailed)"
  assume "represents (ag_failure_threshold cfg) h (wa_agent w)" "0 < ag_failure_threshold cfg"
    "ag_failure_threshold cfg \<le> u32_max"
  from apply_beat_refines [OF this(2,3,1), of b]
  have r: "snd (apply_beat (ag_failure_threshold cfg) (wa_agent w) b) = announce (ag_failure_threshold cfg) h b"
    "represents (ag_failure_threshold cfg) (h @ [b]) (fst (apply_beat (ag_failure_threshold cfg) (wa_agent w) b))"
    by simp_all
  obtain s main where p: "heartbeat_route env (heartbeat_post cfg) now (wa_main w) = (s, main)" by fastforce
  have b: "heartbeat_outcome (if returns then if arrives then Some s else None else None) = b"
    using heartbeat_route_answer [OF p] by (simp add: b_def heartbeat_outcome_def)
  obtain st where st: "(if arrives then map_prod Some id (heartbeat_route env (heartbeat_post cfg) now (wa_main w))
      else (None, wa_main w)) = (if arrives then Some s else None, st)"
    by (cases arrives) (simp_all add: p)
  have o: "outcomes (heartbeat_accepted env cfg) [e] = [b]" by (simp add: AgentWakes b_def)
  show ?thesis
    unfolding o unfolding AgentWakes watch_step.simps Let_def st prod.case b agent_process_def
    using r by (simp add: split_beta split: option.split)
qed (auto simp: split_beta)

lemma watch_run_agent:
  assumes "0 < ag_failure_threshold cfg" and "ag_failure_threshold cfg \<le> u32_max"
    and "represents (ag_failure_threshold cfg) h (wa_agent w)"
  shows "represents (ag_failure_threshold cfg) (h @ outcomes (heartbeat_accepted env cfg) es)
      (wa_agent (watch_run env so cs cfg es w))
    \<and> wa_posts (watch_run env so cs cfg es w)
      = wa_posts w @ history_posts cfg h (outcomes (heartbeat_accepted env cfg) es)"
  using assms(3)
proof (induction es arbitrary: w h)
  case (Cons e es)
  let ?ok = "heartbeat_accepted env cfg"
  have o: "outcomes ?ok (e # es) = outcomes ?ok [e] @ outcomes ?ok es" by (cases e) simp_all
  from watch_step_agent [OF Cons.prems assms(1,2), of env e so cs]
  have r: "represents (ag_failure_threshold cfg) (h @ outcomes ?ok [e]) (wa_agent (watch_step env so cs cfg e w))"
    and p: "wa_posts (watch_step env so cs cfg e w) = wa_posts w @ history_posts cfg h (outcomes ?ok [e])" by simp_all
  have "watch_run env so cs cfg (e # es) w = watch_run env so cs cfg es (watch_step env so cs cfg e w)"
    by (simp add: watch_run_def)
  with Cons.IH [OF r] p show ?case by (simp add: o history_posts_append)
qed (simp add: watch_run_def)

lemma monitor_run_last_seen:
  "last_seen (fst (snd (monitor_run cs s (concat (map (monitor_view env cfg) es))))) (str_trim (ag_id cfg))
     = (if heartbeat_accepted env cfg \<and> arrivals es \<noteq> [] then Some (last (arrivals es))
        else last_seen (fst s) (str_trim (ag_id cfg)))"
  if "\<forall>e\<in>set es. \<not> beats_for (str_trim (ag_id cfg)) e"
  using that
proof (induction es arbitrary: s)
  case (Cons e es)
  have m: "fst (snd (monitor_run cs s (e # es)))
      = fst (snd (monitor_run cs (snd (monitor_step cs s e)) es))" for s es and e
    by (simp add: split_beta)
  obtain r f where s: "s = (r, f)" by fastforce
  have rest: "\<forall>e\<in>set es. \<not> beats_for (str_trim (ag_id cfg)) e" using Cons.prems by simp
  note IH = Cons.IH [OF rest]
  show ?case
  proof (cases e)
    case (AgentWakes now arrives returns)
    with IH [of s] IH [of "(registry_record (str_trim (ag_id cfg)) now r, f)"] show ?thesis
      by (simp add: s split_beta last_seen_def registry_record_def al_get_put)
  next
    case (Serving op)
    show ?thesis
    proof (cases op)
      case (PostHeartbeat t h i now)
      with Serving Cons.prems IH [of s] IH [of "(registry_record (str_trim i) now r, f)"] show ?thesis
        by (auto simp: s split_beta last_seen_def registry_record_def al_get_put)
    qed (use Serving IH [of s] in \<open>simp_all\<close>)
  next
    case (MonitorWakes now)
    with IH [of "snd (monitor_step cs s (Tick now))"] show ?thesis
      by (simp add: s split_beta)
  qed
qed simp

subsection \<open>Properties\<close>

text \<open>C19. The dead man's switch, end to end. Whatever the network does and whatever else the service
  handles, as long as nobody else uses the identifier of the agent: after a tick of the monitor main
  alerts about the companion exactly when the agent's token is not accepted or none of its heartbeats
  arrived within the timeout; the agent alerts about main exactly when its last heartbeats, as many as
  its threshold, all went unanswered; and what main announced of the companion alternates between
  firing and resolved, starting with firing and ending with what it holds. A refused token makes both
  sides alert.\<close>

theorem watch_sees_every_outage:
  assumes c: "c \<in> set cs" "distinct (map xc_id cs)" and id: "xc_id c = str_trim (ag_id cfg)" "xc_id c \<noteq> []"
    and th: "0 < ag_failure_threshold cfg" "ag_failure_threshold cfg \<le> u32_max"
    and fresh: "as_companions st = []" and own: "\<forall>e\<in>set es. \<not> beats_for (xc_id c) e"
    and w: "w = watch_run env so cs cfg (es @ [MonitorWakes now]) (watch_start st)"
  shows "(unwrap_or False (al_get (wa_firing w) (xc_id c)) \<longleftrightarrow> \<not> agent_trusted env cfg \<or> silent c (arrivals es) now)
    \<and> (am_firing (wa_agent w) \<longleftrightarrow> ag_failure_threshold cfg \<le> streak (outcomes (agent_trusted env cfg) es))
    \<and> alternates False (alerts_of c (wa_alerts w))
    \<and> final_flag False (alerts_of c (wa_alerts w)) = unwrap_or False (al_get (wa_firing w) (xc_id c))"
proof -
  let ?view = "concat (map (monitor_view env cfg) es)"
  have ok: "heartbeat_accepted env cfg = agent_trusted env cfg" using id by (simp add: heartbeat_accepted_def)
  from watch_run_monitor [of env so cs cfg "es @ [MonitorWakes now]" "watch_start st"] fresh w
  have m: "(as_companions (wa_main w), wa_firing w) = snd (monitor_run cs ([], []) (?view @ [Tick now]))"
    and a: "wa_alerts w = fst (monitor_run cs ([], []) (?view @ [Tick now]))"
    by (simp_all add: watch_start_def)
  then have flag: "companion_flag c (snd (monitor_run cs ([], []) (?view @ [Tick now])))
      = unwrap_or False (al_get (wa_firing w) (xc_id c))"
    by (simp add: companion_flag_def flip: m)
  have seen: "last_seen (fst (snd (monitor_run cs ([], []) ?view))) (xc_id c)
      = (if agent_trusted env cfg \<and> arrivals es \<noteq> [] then Some (last (arrivals es)) else None)"
    using monitor_run_last_seen [of es cfg cs "([], [])" env] own id ok by (simp add: last_seen_def al_get_def)
  have main: "companion_flag c (snd (monitor_run cs ([], []) (?view @ [Tick now])))
      \<longleftrightarrow> \<not> agent_trusted env cfg \<or> silent c (arrivals es) now"
    using companion_detection [OF c, of "([], [])" ?view now] seen by (simp add: silent_def)
  have "outcomes k (es @ [MonitorWakes now]) = outcomes k es" for k
    by (induction k es rule: outcomes.induct) simp_all
  with watch_run_agent [OF th, of "[]" "watch_start st" env "es @ [MonitorWakes now]" so cs] th w ok
  have agent: "am_firing (wa_agent w) \<longleftrightarrow> ag_failure_threshold cfg \<le> streak (outcomes (agent_trusted env cfg) es)"
    by (simp add: watch_start_def represents_new represents_def [of _ "outcomes _ _"])
  from companion_alerts_alternate [OF c, of "?view @ [Tick now]"] flag main agent a show ?thesis by simp
qed

definition edge_host :: expected_companion where
  "edge_host = \<lparr>xc_id = ''edge'', xc_timeout = 5, xc_severity = ''s''\<rparr>"

lemma watch_sees_every_outage_witness:
  "unwrap_or False (al_get (wa_firing (watch_run demo_api demo_stores [edge_host] demo_agent
       ([AgentWakes 1 True True, AgentWakes 2 False False, AgentWakes 3 True False] @ [MonitorWakes 9])
       (watch_start (app_state_new demo_api 0 ())))) ''edge'')
   \<and> am_firing (wa_agent (watch_run demo_api demo_stores [edge_host] demo_agent
       ([AgentWakes 1 True True, AgentWakes 2 False False, AgentWakes 3 True False] @ [MonitorWakes 9])
       (watch_start (app_state_new demo_api 0 ()))))"
proof -
  have "str_trim ''edge'' = ''edge''" by (rule str_trim_visible; simp add: ascii_visible_def)
  then have id: "xc_id edge_host = str_trim (ag_id demo_agent)" by (simp add: edge_host_def demo_agent_def)
  have trusted: "agent_trusted demo_api demo_agent"
    by (simp add: agent_trusted_def check_service_token_def demo_api_def demo_service_def)
  show ?thesis
    using watch_sees_every_outage [of edge_host "[edge_host]" demo_agent "app_state_new demo_api 0 ()"
        "[AgentWakes 1 True True, AgentWakes 2 False False, AgentWakes 3 True False]" _ demo_api demo_stores 9,
        OF _ _ id _ _ _ _ _ refl] trusted
    by (simp add: edge_host_def demo_agent_def app_state_new_def u32_max_def silent_def since_def streak_def)
qed

text \<open>The registry keeps trimmed identifiers while the settings keep those they were given: a companion
  declared with a blank before or after its identifier is in alert whatever it sends.\<close>

lemma padded_companion_never_seen:
  assumes c: "c \<in> set cs" "distinct (map xc_id cs)" and padded: "\<forall>i. str_trim i \<noteq> xc_id c" and fresh: "as_companions st = []"
  shows "unwrap_or False (al_get (wa_firing (watch_run env so cs cfg (es @ [MonitorWakes now]) (watch_start st))) (xc_id c))"
proof -
  let ?view = "concat (map (monitor_view env cfg) es)"
  have l: "last_seen (fst (snd (monitor_run cs s tr))) (xc_id c) = last_seen (fst s) (xc_id c)"
    if "\<forall>i t. Beat i t \<in> set tr \<longrightarrow> i \<noteq> xc_id c" for s tr
    using that
  proof (induction tr arbitrary: s)
    case (Cons e tr)
    obtain r f where s: "s = (r, f)" by fastforce
    have "\<forall>i t. Beat i t \<in> set tr \<longrightarrow> i \<noteq> xc_id c" using Cons.prems by simp
    note IH = Cons.IH [OF this, of "snd (monitor_step cs s e)"]
    show ?case
      using IH Cons.prems by (cases e) (auto simp: s split_beta last_seen_def registry_record_def al_get_put)
  qed simp
  have "Beat i t \<in> set (monitor_view env cfg e) \<Longrightarrow> i \<noteq> xc_id c" for i t e
    using padded by (induction env cfg e rule: monitor_view.induct) (auto split: if_splits)
  then have "last_seen (fst (snd (monitor_run cs ([], []) ?view))) (xc_id c) = None"
    using l [of ?view "([], [])"] by (auto simp: last_seen_def al_get_def)
  with companion_detection [OF c, of "([], [])" ?view now]
  have "companion_flag c (snd (monitor_run cs ([], []) (?view @ [Tick now])))" by simp
  moreover have "wa_firing (watch_run env so cs cfg (es @ [MonitorWakes now]) (watch_start st))
      = snd (snd (monitor_run cs ([], []) (?view @ [Tick now])))"
    using watch_run_monitor [of env so cs cfg "es @ [MonitorWakes now]" "watch_start st"] fresh
    by (simp add: watch_start_def prod_eq_iff)
  ultimately show ?thesis by (simp add: companion_flag_def)
qed

end
