(* ===== verification/Query.thy ===== *)
theory Query
  imports Api AlertEval
begin

text \<open>
  The read layer: \<^verbatim>\<open>backend/src/query/engine.rs\<close> (the queries),
  \<^verbatim>\<open>query/routes.rs\<close> and \<^verbatim>\<open>query/mcp.rs\<close> (their two
  transports) and the router of \<^verbatim>\<open>api/mod.rs\<close>. Queries are the fragments of
  \<open>AlertEval\<close>. Parsing RFC 3339 dates and the database are parameters; for the statements
  about answers, the database is the reading of the SQL subset the queries are written in, as
  PostgreSQL documents it (rows that tie in the order keep that of the table).
\<close>

subsection \<open>Rows\<close>

datatype column_value = VNull | VInt int | VText string | VTime datetime | VFloat real | VJson json

type_synonym table_row = "string \<Rightarrow> column_value"

type_synonym query_db = "query \<Rightarrow> string + table_row list"

fun get_text :: "column_value \<Rightarrow> string option" where
  "get_text (VText s) = Some s"
| "get_text _ = None"

fun get_time :: "column_value \<Rightarrow> datetime option" where
  "get_time (VTime t) = Some t"
| "get_time _ = None"

fun get_json :: "column_value \<Rightarrow> json option" where
  "get_json (VJson j) = Some j"
| "get_json _ = None"

fun get_int :: "column_value \<Rightarrow> int option" where
  "get_int (VInt n) = Some n"
| "get_int _ = None"

fun get_float :: "column_value \<Rightarrow> real option" where
  "get_float (VFloat x) = Some x"
| "get_float _ = None"

text \<open>An optional column: NULL is none, a value of another type is still an error.\<close>

definition nullable :: "(column_value \<Rightarrow> 'a option) \<Rightarrow> column_value \<Rightarrow> 'a option option" where
  "nullable get v = (if v = VNull then Some None else map_option Some (get v))"

definition opt_value :: "('a \<Rightarrow> column_value) \<Rightarrow> 'a option \<Rightarrow> column_value" where
  "opt_value f x = (case x of None \<Rightarrow> VNull | Some a \<Rightarrow> f a)"

definition columns :: "(string \<times> column_value) list \<Rightarrow> table_row" where
  "columns cs = (\<lambda>c. unwrap_or VNull (al_get cs c))"

subsection \<open>Parameters of the queries\<close>

definition clamp_limit :: "int option \<Rightarrow> int \<Rightarrow> int \<Rightarrow> int" where
  "clamp_limit limit d mx = clamp_int 1 mx (unwrap_or d limit)"

definition parse_ts :: "(string \<Rightarrow> datetime option) \<Rightarrow> string option \<Rightarrow> app_error + datetime option" where
  "parse_ts rfc v =
     (case v of
        None \<Rightarrow> Inr None
      | Some s \<Rightarrow>
          if str_trim s = [] then Inr None
          else map_err (\<lambda>_. BadRequest ''horodatage RFC3339 invalide'' [])
                 (map_sum id Some (ok_or () (rfc (str_trim s)))))"

record logs_params =
  lp_service :: "string option"
  lp_session :: "string option"
  lp_trace_id :: "string option"
  lp_severity_min :: "int option"
  lp_q :: "string option"
  lp_from :: "string option"
  lp_to :: "string option"
  lp_limit :: "int option"

record events_params =
  ep_actor :: "string option"
  ep_session :: "string option"
  ep_tenant :: "string option"
  ep_name :: "string option"
  ep_from :: "string option"
  ep_to :: "string option"
  ep_limit :: "int option"

record journeys_params =
  jp_actor :: "string option"
  jp_tenant :: "string option"
  jp_limit :: "int option"

record metrics_params =
  mp_name :: "string option"
  mp_service :: "string option"
  mp_from :: "string option"
  mp_to :: "string option"
  mp_limit :: "int option"

subsection \<open>The queries\<close>

definition contains_pattern :: "string \<Rightarrow> sql_value" where
  "contains_pattern s = BText (''%'' @ s @ ''%'')"

definition logs_query :: "logs_params \<Rightarrow> datetime option \<Rightarrow> datetime option \<Rightarrow> int \<Rightarrow> query" where
  "logs_query p from to limit =
     [Sql (''SELECT log_time, severity_number, severity_text, service_name, body, ''
        @ ''trace_id, span_id, session_id, actor_id, tenant_id FROM logs WHERE true'')]
     @ filter_by '' AND service_name = '' BText (lp_service p)
     @ filter_by '' AND session_id = '' BText (lp_session p)
     @ filter_by '' AND trace_id = '' BText (lp_trace_id p)
     @ filter_by '' AND severity_number >= '' BInt (lp_severity_min p)
     @ filter_by '' AND body ILIKE '' contains_pattern (lp_q p)
     @ filter_by '' AND log_time >= '' BTime from
     @ filter_by '' AND log_time <= '' BTime to
     @ [Sql '' ORDER BY log_time DESC LIMIT '', Param (BInt limit)]"

definition trace_query :: "string \<Rightarrow> query" where
  "trace_query trace_id =
     [Sql (''SELECT trace_id, span_id, parent_span_id, start_time, end_time, duration_ms, name, ''
        @ ''kind, service_name, status_code, status_message, session_id, span_attributes ''
        @ ''FROM spans WHERE trace_id = ''), Param (BText trace_id), Sql '' ORDER BY start_time'']"

definition events_query :: "events_params \<Rightarrow> datetime option \<Rightarrow> datetime option \<Rightarrow> int \<Rightarrow> query" where
  "events_query p from to limit =
     [Sql (''SELECT event_id, event_name, actor_id, session_id, tenant_id, timestamp_client, ''
        @ ''properties FROM events WHERE true'')]
     @ filter_by '' AND actor_id = '' BText (ep_actor p)
     @ filter_by '' AND session_id = '' BText (ep_session p)
     @ filter_by '' AND tenant_id = '' BText (ep_tenant p)
     @ filter_by '' AND event_name = '' BText (ep_name p)
     @ filter_by '' AND timestamp_client >= '' BTime from
     @ filter_by '' AND timestamp_client <= '' BTime to
     @ [Sql '' ORDER BY timestamp_client DESC LIMIT '', Param (BInt limit)]"

definition journeys_query :: "journeys_params \<Rightarrow> int \<Rightarrow> query" where
  "journeys_query p limit =
     [Sql (''WITH seq AS (''
        @ ''SELECT session_id, array_agg(event_name ORDER BY timestamp_client, event_id) AS path ''
        @ ''FROM events WHERE true'')]
     @ filter_by '' AND actor_id = '' BText (jp_actor p)
     @ filter_by '' AND tenant_id = '' BText (jp_tenant p)
     @ [Sql ('' GROUP BY session_id) ''
        @ ''SELECT path, count(*) AS occurrences FROM seq ''
        @ ''GROUP BY path ORDER BY occurrences DESC, path LIMIT ''), Param (BInt limit)]"

definition metrics_query :: "metrics_params \<Rightarrow> datetime option \<Rightarrow> datetime option \<Rightarrow> int \<Rightarrow> query" where
  "metrics_query p from to limit =
     [Sql (''SELECT time, metric_name, metric_type, unit, value_double, value_int, count, sum, ''
        @ ''buckets, service_name, scope_name, attributes FROM metric_points WHERE true'')]
     @ filter_by '' AND metric_name = '' BText (mp_name p)
     @ filter_by '' AND service_name = '' BText (mp_service p)
     @ filter_by '' AND time >= '' BTime from
     @ filter_by '' AND time <= '' BTime to
     @ [Sql '' ORDER BY time DESC LIMIT '', Param (BInt limit)]"

subsection \<open>Decoding and answering\<close>

record log_row =
  lg_log_time :: datetime
  lg_severity_number :: "int option"
  lg_severity_text :: "string option"
  lg_service_name :: "string option"
  lg_body :: "string option"
  lg_trace_id :: "string option"
  lg_span_id :: "string option"
  lg_session_id :: "string option"
  lg_actor_id :: "string option"
  lg_tenant_id :: "string option"

record event_row =
  eg_event_id :: uuid
  eg_event_name :: string
  eg_actor_id :: string
  eg_session_id :: string
  eg_tenant_id :: "string option"
  eg_timestamp_client :: datetime
  eg_properties :: json

record metric_row =
  mg_time :: datetime
  mg_metric_name :: string
  mg_metric_type :: string
  mg_unit :: "string option"
  mg_value_double :: "real option"
  mg_value_int :: "int option"
  mg_count :: "int option"
  mg_sum :: "real option"
  mg_buckets :: "json option"
  mg_service_name :: "string option"
  mg_scope_name :: "string option"
  mg_attributes :: json

record span_row =
  sg_trace_id :: string
  sg_span_id :: string
  sg_parent_span_id :: "string option"
  sg_start_time :: datetime
  sg_end_time :: "datetime option"
  sg_duration_ms :: "real option"
  sg_name :: string
  sg_kind :: "int option"
  sg_service_name :: "string option"
  sg_status_code :: "int option"
  sg_status_message :: "string option"
  sg_session_id :: "string option"
  sg_span_attributes :: json

definition decode_log :: "table_row \<Rightarrow> log_row option" where
  "decode_log r =
     Option.bind (get_time (r ''log_time'')) (\<lambda>t.
     Option.bind (nullable get_int (r ''severity_number'')) (\<lambda>sn.
     Option.bind (nullable get_text (r ''severity_text'')) (\<lambda>sx.
     Option.bind (nullable get_text (r ''service_name'')) (\<lambda>sv.
     Option.bind (nullable get_text (r ''body'')) (\<lambda>b.
     Option.bind (nullable get_text (r ''trace_id'')) (\<lambda>ti.
     Option.bind (nullable get_text (r ''span_id'')) (\<lambda>si.
     Option.bind (nullable get_text (r ''session_id'')) (\<lambda>se.
     Option.bind (nullable get_text (r ''actor_id'')) (\<lambda>ac.
     Option.bind (nullable get_text (r ''tenant_id'')) (\<lambda>te.
       Some \<lparr>lg_log_time = t, lg_severity_number = sn, lg_severity_text = sx, lg_service_name = sv,
             lg_body = b, lg_trace_id = ti, lg_span_id = si, lg_session_id = se, lg_actor_id = ac,
             lg_tenant_id = te\<rparr>))))))))))"

definition decode_event :: "table_row \<Rightarrow> event_row option" where
  "decode_event r =
     Option.bind (get_text (r ''event_id'')) (\<lambda>i.
     Option.bind (get_text (r ''event_name'')) (\<lambda>n.
     Option.bind (get_text (r ''actor_id'')) (\<lambda>ac.
     Option.bind (get_text (r ''session_id'')) (\<lambda>se.
     Option.bind (nullable get_text (r ''tenant_id'')) (\<lambda>te.
     Option.bind (get_time (r ''timestamp_client'')) (\<lambda>t.
     Option.bind (get_json (r ''properties'')) (\<lambda>j.
       Some \<lparr>eg_event_id = i, eg_event_name = n, eg_actor_id = ac, eg_session_id = se,
             eg_tenant_id = te, eg_timestamp_client = t, eg_properties = j\<rparr>)))))))"

definition decode_metric :: "table_row \<Rightarrow> metric_row option" where
  "decode_metric r =
     Option.bind (get_time (r ''time'')) (\<lambda>t.
     Option.bind (get_text (r ''metric_name'')) (\<lambda>n.
     Option.bind (get_text (r ''metric_type'')) (\<lambda>ty.
     Option.bind (nullable get_text (r ''unit'')) (\<lambda>u.
     Option.bind (nullable get_float (r ''value_double'')) (\<lambda>vd.
     Option.bind (nullable get_int (r ''value_int'')) (\<lambda>vi.
     Option.bind (nullable get_int (r ''count'')) (\<lambda>co.
     Option.bind (nullable get_float (r ''sum'')) (\<lambda>su.
     Option.bind (nullable get_json (r ''buckets'')) (\<lambda>b.
     Option.bind (nullable get_text (r ''service_name'')) (\<lambda>sv.
     Option.bind (nullable get_text (r ''scope_name'')) (\<lambda>sc.
     Option.bind (get_json (r ''attributes'')) (\<lambda>j.
       Some \<lparr>mg_time = t, mg_metric_name = n, mg_metric_type = ty, mg_unit = u, mg_value_double = vd,
             mg_value_int = vi, mg_count = co, mg_sum = su, mg_buckets = b, mg_service_name = sv,
             mg_scope_name = sc, mg_attributes = j\<rparr>))))))))))))"

definition decode_span :: "table_row \<Rightarrow> span_row option" where
  "decode_span r =
     Option.bind (get_text (r ''trace_id'')) (\<lambda>ti.
     Option.bind (get_text (r ''span_id'')) (\<lambda>si.
     Option.bind (nullable get_text (r ''parent_span_id'')) (\<lambda>pa.
     Option.bind (get_time (r ''start_time'')) (\<lambda>t.
     Option.bind (nullable get_time (r ''end_time'')) (\<lambda>e.
     Option.bind (nullable get_float (r ''duration_ms'')) (\<lambda>d.
     Option.bind (get_text (r ''name'')) (\<lambda>n.
     Option.bind (nullable get_int (r ''kind'')) (\<lambda>k.
     Option.bind (nullable get_text (r ''service_name'')) (\<lambda>sv.
     Option.bind (nullable get_int (r ''status_code'')) (\<lambda>c.
     Option.bind (nullable get_text (r ''status_message'')) (\<lambda>m.
     Option.bind (nullable get_text (r ''session_id'')) (\<lambda>se.
     Option.bind (get_json (r ''span_attributes'')) (\<lambda>j.
       Some \<lparr>sg_trace_id = ti, sg_span_id = si, sg_parent_span_id = pa, sg_start_time = t,
             sg_end_time = e, sg_duration_ms = d, sg_name = n, sg_kind = k, sg_service_name = sv,
             sg_status_code = c, sg_status_message = m, sg_session_id = se,
             sg_span_attributes = j\<rparr>)))))))))))))"

text \<open>\<^verbatim>\<open>build_query_as().fetch_all(pool).await.map_err(db_err)\<close>\<close>

definition fetch_as :: "(table_row \<Rightarrow> 'r option) \<Rightarrow> query_db \<Rightarrow> query \<Rightarrow> app_error + 'r list" where
  "fetch_as decode db q =
     and_then (map_err (\<lambda>_. Internal) (db q)) (\<lambda>rows. ok_or Internal (those (map decode rows)))"

definition search_logs :: "(string \<Rightarrow> datetime option) \<Rightarrow> query_db \<Rightarrow> logs_params \<Rightarrow> app_error + log_row list" where
  "search_logs rfc db p =
     and_then (parse_ts rfc (lp_from p)) (\<lambda>from.
     and_then (parse_ts rfc (lp_to p)) (\<lambda>to.
     fetch_as decode_log db (logs_query p from to (clamp_limit (lp_limit p) 100 1000))))"

definition get_trace :: "query_db \<Rightarrow> string \<Rightarrow> app_error + string \<times> nat \<times> span_row list" where
  "get_trace db trace_id =
     and_then (fetch_as decode_span db (trace_query trace_id)) (\<lambda>spans.
     Inr (trace_id, length spans, spans))"

definition search_events :: "(string \<Rightarrow> datetime option) \<Rightarrow> query_db \<Rightarrow> events_params \<Rightarrow> app_error + event_row list" where
  "search_events rfc db p =
     and_then (parse_ts rfc (ep_from p)) (\<lambda>from.
     and_then (parse_ts rfc (ep_to p)) (\<lambda>to.
     fetch_as decode_event db (events_query p from to (clamp_limit (ep_limit p) 100 1000))))"

definition search_metrics :: "(string \<Rightarrow> datetime option) \<Rightarrow> query_db \<Rightarrow> metrics_params \<Rightarrow> app_error + metric_row list" where
  "search_metrics rfc db p =
     and_then (parse_ts rfc (mp_from p)) (\<lambda>from.
     and_then (parse_ts rfc (mp_to p)) (\<lambda>to.
     fetch_as decode_metric db (metrics_query p from to (clamp_limit (mp_limit p) 100 1000))))"

text \<open>The rows of the journeys hold an array, so the decoder of the column is a parameter.\<close>

definition frequent_journeys ::
    "(table_row \<Rightarrow> (string list \<times> int) option) \<Rightarrow> query_db \<Rightarrow> journeys_params \<Rightarrow> app_error + (string list \<times> int) list" where
  "frequent_journeys decode db p =
     fetch_as decode db (journeys_query p (clamp_limit (jp_limit p) 20 200))"

subsection \<open>The SQL subset\<close>

text \<open>
  A query is read as tokens: the words of its text and its parameters. The subset is
  \<^verbatim>\<open>SELECT ... FROM table WHERE true AND column operator parameter ... [ORDER BY column [DESC]] [LIMIT parameter]\<close>.
\<close>

datatype token = Word string | Value sql_value

definition words_of :: "string \<Rightarrow> token list" where
  "words_of s = map Word (filter (\<lambda>w. w \<noteq> []) (split_on (CHR '' '') s))"

definition tokens :: "query \<Rightarrow> token list" where
  "tokens q = concat (map (\<lambda>f. case f of Sql s \<Rightarrow> words_of s | Param v \<Rightarrow> [Value v]) q)"

type_synonym cond = "string \<times> string \<times> sql_value"

fun parse_conds :: "token list \<Rightarrow> cond list \<times> token list" where
  "parse_conds (Word w # ts) =
     (if w = ''true'' \<or> w = ''AND'' then parse_conds ts
      else (case ts of
              Word op # Value v # rest \<Rightarrow> (let (cs, r) = parse_conds rest in ((w, op, v) # cs, r))
            | _ \<Rightarrow> ([], Word w # ts)))"
| "parse_conds ts = ([], ts)"

record select_query =
  se_table :: string
  se_conds :: "cond list"
  se_order :: "(string \<times> bool) option"
  se_limit :: "int option"

definition parse_tail :: "token list \<Rightarrow> ((string \<times> bool) option \<times> int option) option" where
  "parse_tail ts =
     (case ts of
        [] \<Rightarrow> Some (None, None)
      | [Word o1, Word b, Word c] \<Rightarrow> if o1 = ''ORDER'' \<and> b = ''BY'' then Some (Some (c, False), None) else None
      | [Word o1, Word b, Word c, Word d, Word l, Value (BInt n)] \<Rightarrow>
          if o1 = ''ORDER'' \<and> b = ''BY'' \<and> d = ''DESC'' \<and> l = ''LIMIT'' then Some (Some (c, True), Some n) else None
      | _ \<Rightarrow> None)"

definition parse_select :: "query \<Rightarrow> select_query option" where
  "parse_select q =
     (case dropWhile (\<lambda>t. t \<noteq> Word ''FROM'') (tokens q) of
        Word _ # Word table # Word wh # ts \<Rightarrow>
          if wh = ''WHERE''
          then (let (cs, rest) = parse_conds ts in
                case parse_tail rest of
                  Some (ob, n) \<Rightarrow> Some \<lparr>se_table = table, se_conds = cs, se_order = ob, se_limit = n\<rparr>
                | None \<Rightarrow> None)
          else None
      | _ \<Rightarrow> None)"

text \<open>\<^verbatim>\<open>LIKE\<close>: the percent sign stands for any text, the underscore for any
  character (of several bytes in UTF-8), the backslash escapes. \<open>lower\<close> is the case folding of
  \<^verbatim>\<open>ILIKE\<close>.\<close>

definition continuation_byte :: "char \<Rightarrow> bool" where
  "continuation_byte c \<longleftrightarrow> (of_char c :: nat) div 64 = 2"

function like :: "string \<Rightarrow> string \<Rightarrow> bool" where
  "like [] s \<longleftrightarrow> s = []"
| "like (c # p) [] \<longleftrightarrow> c = CHR ''%'' \<and> like p []"
| "like (c # p) (d # s) \<longleftrightarrow>
     (if c = CHR ''%'' then like p (d # s) \<or> like (c # p) s
      else if c = CHR ''_'' then like p (dropWhile continuation_byte s)
      else if c = CHR 0x5C \<and> p \<noteq> [] then d = hd p \<and> like (tl p) s
      else d = c \<and> like p s)"
  by pat_completeness auto
termination
  by (relation "measure (\<lambda>(p, s). length p + length s)")
    (auto intro: le_less_trans [OF length_dropWhile_le])

declare like.simps(3) [simp del]

fun cond_holds :: "(string \<Rightarrow> string) \<Rightarrow> table_row \<Rightarrow> cond \<Rightarrow> bool" where
  "cond_holds lower r (c, op, BText s) \<longleftrightarrow>
     (case r c of VText t \<Rightarrow> if op = ''='' then t = s else op = ''ILIKE'' \<and> like (lower s) (lower t) | _ \<Rightarrow> False)"
| "cond_holds lower r (c, op, BInt n) \<longleftrightarrow> (case r c of VInt m \<Rightarrow> op = ''>='' \<and> m \<ge> n | _ \<Rightarrow> False)"
| "cond_holds lower r (c, op, BTime t) \<longleftrightarrow>
     (case r c of VTime u \<Rightarrow> if op = ''>='' then u \<ge> t else op = ''<='' \<and> u \<le> t | _ \<Rightarrow> False)"

definition order_rows :: "string \<times> bool \<Rightarrow> table_row list \<Rightarrow> table_row list" where
  "order_rows ob rows =
     (let key = (\<lambda>r. unwrap_or 0 (get_time (r (fst ob))))
      in sort_key (\<lambda>r. if snd ob then - key r else key r) rows)"

definition run_select :: "(string \<Rightarrow> string) \<Rightarrow> (string \<Rightarrow> table_row list) \<Rightarrow> query_db" where
  "run_select lower tables q =
     (case parse_select q of
        None \<Rightarrow> Inl ''syntax error''
      | Some s \<Rightarrow>
          (let rows = filter (\<lambda>r. \<forall>c\<in>set (se_conds s). cond_holds lower r c) (tables (se_table s));
               rows = (case se_order s of None \<Rightarrow> rows | Some ob \<Rightarrow> order_rows ob rows)
           in Inr (case se_limit s of None \<Rightarrow> rows | Some n \<Rightarrow> take (nat n) rows)))"

subsection \<open>Reading the queries\<close>

lemma tokens_append [simp]: "tokens (q @ r) = tokens q @ tokens r"
  by (simp add: tokens_def)

lemma tokens_Cons [simp]:
  "tokens [] = []"
  "tokens (Sql s # q) = words_of s @ tokens q"
  "tokens (Param v # q) = Value v # tokens q"
  by (simp_all add: tokens_def)

text \<open>The tokens of an optional filter, and the condition they are read as.\<close>

definition cond_tokens :: "string \<Rightarrow> string \<Rightarrow> ('a \<Rightarrow> sql_value) \<Rightarrow> 'a option \<Rightarrow> token list" where
  "cond_tokens c op bind x =
     (case x of None \<Rightarrow> [] | Some v \<Rightarrow> [Word ''AND'', Word c, Word op, Value (bind v)])"

definition opt_cond :: "string \<Rightarrow> string \<Rightarrow> ('a \<Rightarrow> sql_value) \<Rightarrow> 'a option \<Rightarrow> cond list" where
  "opt_cond c op bind x = (case x of None \<Rightarrow> [] | Some v \<Rightarrow> [(c, op, bind v)])"

lemma tokens_filter_by: "words_of lit = [Word ''AND'', Word c, Word op] \<Longrightarrow>
    tokens (filter_by lit bind x) = cond_tokens c op bind x"
  by (simp add: filter_by_def cond_tokens_def split: option.split)

lemma parse_conds_filter [simp]:
  "c \<noteq> ''true'' \<Longrightarrow> c \<noteq> ''AND'' \<Longrightarrow>
     parse_conds (cond_tokens c op bind x @ ts)
       = (opt_cond c op bind x @ fst (parse_conds ts), snd (parse_conds ts))"
  by (simp add: cond_tokens_def opt_cond_def split_beta split: option.split)

lemma opt_cond_holds [simp]:
  "(\<forall>k\<in>set (opt_cond c op bind x). cond_holds lower r k) \<longleftrightarrow> (\<forall>v. x = Some v \<longrightarrow> cond_holds lower r (c, op, bind v))"
  by (cases x) (simp_all add: opt_cond_def)

lemma dropWhile_words: "Word w \<notin> set (words_of s) \<Longrightarrow>
    dropWhile (\<lambda>t. t \<noteq> Word w) (words_of s @ ts) = dropWhile (\<lambda>t. t \<noteq> Word w) ts"
  by (rule dropWhile_append2) auto

lemma words_of_heads:
  "words_of ('' AND service_name = '') = [Word ''AND'', Word ''service_name'', Word ''='']"
  "words_of ('' AND session_id = '') = [Word ''AND'', Word ''session_id'', Word ''='']"
  "words_of ('' AND trace_id = '') = [Word ''AND'', Word ''trace_id'', Word ''='']"
  "words_of ('' AND severity_number >= '') = [Word ''AND'', Word ''severity_number'', Word ''>='']"
  "words_of ('' AND body ILIKE '') = [Word ''AND'', Word ''body'', Word ''ILIKE'']"
  "words_of ('' AND log_time >= '') = [Word ''AND'', Word ''log_time'', Word ''>='']"
  "words_of ('' AND log_time <= '') = [Word ''AND'', Word ''log_time'', Word ''<='']"
  "words_of ('' AND actor_id = '') = [Word ''AND'', Word ''actor_id'', Word ''='']"
  "words_of ('' AND tenant_id = '') = [Word ''AND'', Word ''tenant_id'', Word ''='']"
  "words_of ('' AND event_name = '') = [Word ''AND'', Word ''event_name'', Word ''='']"
  "words_of ('' AND timestamp_client >= '') = [Word ''AND'', Word ''timestamp_client'', Word ''>='']"
  "words_of ('' AND timestamp_client <= '') = [Word ''AND'', Word ''timestamp_client'', Word ''<='']"
  "words_of ('' AND metric_name = '') = [Word ''AND'', Word ''metric_name'', Word ''='']"
  "words_of ('' AND time >= '') = [Word ''AND'', Word ''time'', Word ''>='']"
  "words_of ('' AND time <= '') = [Word ''AND'', Word ''time'', Word ''<='']"
  "words_of ('' ORDER BY log_time DESC LIMIT '')
     = [Word ''ORDER'', Word ''BY'', Word ''log_time'', Word ''DESC'', Word ''LIMIT'']"
  "words_of ('' ORDER BY timestamp_client DESC LIMIT '')
     = [Word ''ORDER'', Word ''BY'', Word ''timestamp_client'', Word ''DESC'', Word ''LIMIT'']"
  "words_of ('' ORDER BY time DESC LIMIT '')
     = [Word ''ORDER'', Word ''BY'', Word ''time'', Word ''DESC'', Word ''LIMIT'']"
  "words_of ('' ORDER BY start_time'') = [Word ''ORDER'', Word ''BY'', Word ''start_time'']"
  by code_simp+

lemmas filter_tokens = words_of_heads(1-15) [THEN tokens_filter_by]

definition head_words :: "string \<Rightarrow> token list" where
  "head_words s = dropWhile (\<lambda>t. t \<noteq> Word ''FROM'') (words_of s)"

lemma from_head:
  "head_words s = t # ts \<Longrightarrow> dropWhile (\<lambda>t. t \<noteq> Word ''FROM'') (words_of s @ us) = t # ts @ us"
proof -
  assume h: "head_words s = t # ts"
  then have "\<exists>x\<in>set (words_of s). \<not> x \<noteq> Word ''FROM''"
    using dropWhile_eq_Nil_conv [of "\<lambda>t. t \<noteq> Word ''FROM''" "words_of s"] by (simp add: head_words_def)
  then obtain x where "x \<in> set (words_of s)" "\<not> x \<noteq> Word ''FROM''" by blast
  from dropWhile_append1 [where P = "\<lambda>t. t \<noteq> Word ''FROM''", OF this] h
  show ?thesis by (simp add: head_words_def)
qed

lemma heads:
  "head_words (''SELECT log_time, severity_number, severity_text, service_name, body, ''
     @ ''trace_id, span_id, session_id, actor_id, tenant_id FROM logs WHERE true'')
   = [Word ''FROM'', Word ''logs'', Word ''WHERE'', Word ''true'']"
  "head_words (''SELECT trace_id, span_id, parent_span_id, start_time, end_time, duration_ms, name, ''
     @ ''kind, service_name, status_code, status_message, session_id, span_attributes ''
     @ ''FROM spans WHERE trace_id = '')
   = [Word ''FROM'', Word ''spans'', Word ''WHERE'', Word ''trace_id'', Word ''='']"
  "head_words (''SELECT event_id, event_name, actor_id, session_id, tenant_id, timestamp_client, ''
     @ ''properties FROM events WHERE true'')
   = [Word ''FROM'', Word ''events'', Word ''WHERE'', Word ''true'']"
  "head_words (''SELECT time, metric_name, metric_type, unit, value_double, value_int, count, sum, ''
     @ ''buckets, service_name, scope_name, attributes FROM metric_points WHERE true'')
   = [Word ''FROM'', Word ''metric_points'', Word ''WHERE'', Word ''true'']"
  by code_simp+

lemmas from_heads = heads [unfolded append.simps, THEN from_head]

lemma parse_logs_query:
  "parse_select (logs_query p from to n) = Some
     \<lparr>se_table = ''logs'',
      se_conds = opt_cond ''service_name'' ''='' BText (lp_service p)
        @ opt_cond ''session_id'' ''='' BText (lp_session p)
        @ opt_cond ''trace_id'' ''='' BText (lp_trace_id p)
        @ opt_cond ''severity_number'' ''>='' BInt (lp_severity_min p)
        @ opt_cond ''body'' ''ILIKE'' contains_pattern (lp_q p)
        @ opt_cond ''log_time'' ''>='' BTime from @ opt_cond ''log_time'' ''<='' BTime to,
      se_order = Some (''log_time'', True), se_limit = Some n\<rparr>"
  unfolding parse_select_def logs_query_def
  by (simp add: from_heads(1) filter_tokens words_of_heads parse_tail_def)

lemma parse_events_query:
  "parse_select (events_query p from to n) = Some
     \<lparr>se_table = ''events'',
      se_conds = opt_cond ''actor_id'' ''='' BText (ep_actor p)
        @ opt_cond ''session_id'' ''='' BText (ep_session p)
        @ opt_cond ''tenant_id'' ''='' BText (ep_tenant p)
        @ opt_cond ''event_name'' ''='' BText (ep_name p)
        @ opt_cond ''timestamp_client'' ''>='' BTime from @ opt_cond ''timestamp_client'' ''<='' BTime to,
      se_order = Some (''timestamp_client'', True), se_limit = Some n\<rparr>"
  unfolding parse_select_def events_query_def
  by (simp add: from_heads(3) filter_tokens words_of_heads parse_tail_def)

lemma parse_metrics_query:
  "parse_select (metrics_query p from to n) = Some
     \<lparr>se_table = ''metric_points'',
      se_conds = opt_cond ''metric_name'' ''='' BText (mp_name p)
        @ opt_cond ''service_name'' ''='' BText (mp_service p)
        @ opt_cond ''time'' ''>='' BTime from @ opt_cond ''time'' ''<='' BTime to,
      se_order = Some (''time'', True), se_limit = Some n\<rparr>"
  unfolding parse_select_def metrics_query_def
  by (simp add: from_heads(4) filter_tokens words_of_heads parse_tail_def)

lemma parse_trace_query:
  "parse_select (trace_query tid) = Some
     \<lparr>se_table = ''spans'', se_conds = [(''trace_id'', ''='', BText tid)],
      se_order = Some (''start_time'', False), se_limit = None\<rparr>"
  unfolding parse_select_def trace_query_def
  by (simp add: from_heads(2) words_of_heads parse_tail_def)

subsection \<open>The tables\<close>

definition log_columns :: "stored_log \<Rightarrow> table_row" where
  "log_columns l = columns
     [(''log_id'', VText (sl_log_id l)), (''log_time'', VTime (sl_log_time l)),
      (''observed_time'', opt_value VTime (sl_observed_time l)), (''received_at'', VTime (sl_received_at l)),
      (''severity_number'', opt_value VInt (sl_severity_number l)),
      (''severity_text'', opt_value VText (sl_severity_text l)), (''body'', opt_value VText (sl_body l)),
      (''service_name'', opt_value VText (sl_service_name l)), (''scope_name'', opt_value VText (sl_scope_name l)),
      (''trace_id'', opt_value VText (sl_trace_id l)), (''span_id'', opt_value VText (sl_span_id l)),
      (''tenant_id'', opt_value VText (sl_tenant_id l)), (''actor_id'', opt_value VText (sl_actor_id l)),
      (''session_id'', opt_value VText (sl_session_id l)),
      (''resource_attributes'', VJson (sl_resource_attributes l)), (''log_attributes'', VJson (sl_log_attributes l))]"

definition event_columns :: "stored_event \<Rightarrow> table_row" where
  "event_columns e = columns
     [(''event_id'', VText (se_event_id e)), (''event_name'', VText (se_event_name e)),
      (''tenant_id'', opt_value VText (se_tenant_id e)), (''actor_id'', VText (se_actor_id e)),
      (''session_id'', VText (se_session_id e)), (''timestamp_client'', VTime (se_timestamp_client e)),
      (''received_at'', VTime (se_received_at e)), (''properties'', VJson (se_properties e))]"

definition span_columns :: "stored_span \<Rightarrow> table_row" where
  "span_columns s = columns
     [(''trace_id'', VText (ss_trace_id s)), (''span_id'', VText (ss_span_id s)),
      (''parent_span_id'', opt_value VText (ss_parent_span_id s)), (''start_time'', VTime (ss_start_time s)),
      (''end_time'', opt_value VTime (ss_end_time s)), (''duration_ms'', opt_value VFloat (ss_duration_ms s)),
      (''name'', VText (ss_name s)), (''kind'', opt_value VInt (ss_kind s)),
      (''service_name'', opt_value VText (ss_service_name s)), (''scope_name'', opt_value VText (ss_scope_name s)),
      (''status_code'', opt_value VInt (ss_status_code s)),
      (''status_message'', opt_value VText (ss_status_message s)),
      (''tenant_id'', opt_value VText (ss_tenant_id s)), (''actor_id'', opt_value VText (ss_actor_id s)),
      (''session_id'', opt_value VText (ss_session_id s)), (''received_at'', VTime (ss_received_at s)),
      (''resource_attributes'', VJson (ss_resource_attributes s)),
      (''span_attributes'', VJson (ss_span_attributes s)), (''events'', VJson (ss_events s)),
      (''links'', VJson (ss_links s))]"

definition point_columns :: "stored_metric_point \<Rightarrow> table_row" where
  "point_columns p = columns
     [(''point_id'', VText (sm_point_id p)), (''time'', VTime (sm_time p)),
      (''metric_name'', VText (sm_metric_name p)), (''metric_type'', VText (sm_metric_type p)),
      (''unit'', opt_value VText (sm_unit p)), (''value_double'', opt_value VFloat (sm_value_double p)),
      (''value_int'', opt_value VInt (sm_value_int p)), (''count'', opt_value VInt (sm_count p)),
      (''sum'', opt_value VFloat (sm_sum p)), (''buckets'', opt_value VJson (sm_buckets p)),
      (''service_name'', opt_value VText (sm_service_name p)), (''scope_name'', opt_value VText (sm_scope_name p)),
      (''tenant_id'', opt_value VText (sm_tenant_id p)), (''actor_id'', opt_value VText (sm_actor_id p)),
      (''session_id'', opt_value VText (sm_session_id p)), (''received_at'', VTime (sm_received_at p)),
      (''resource_attributes'', VJson (sm_resource_attributes p)), (''attributes'', VJson (sm_attributes p))]"

record stored =
  in_logs :: "stored_log list"
  in_events :: "stored_event list"
  in_spans :: "stored_span list"
  in_points :: "stored_metric_point list"

definition tables_of :: "stored \<Rightarrow> string \<Rightarrow> table_row list" where
  "tables_of d t =
     (if t = ''logs'' then map log_columns (in_logs d)
      else if t = ''events'' then map event_columns (in_events d)
      else if t = ''spans'' then map span_columns (in_spans d)
      else if t = ''metric_points'' then map point_columns (in_points d) else [])"

definition postgres :: "(string \<Rightarrow> string) \<Rightarrow> stored \<Rightarrow> query_db" where
  "postgres lower d = run_select lower (tables_of d)"

lemma columns_simps [simp]:
  "columns [] c = VNull"
  "columns ((k, v) # cs) c = (if c = k then v else columns cs c)"
  by (simp_all add: columns_def al_get_def)

lemma nullable_value [simp]:
  "nullable get_text (opt_value VText x) = Some x"
  "nullable get_int (opt_value VInt y) = Some y"
  "nullable get_float (opt_value VFloat z) = Some z"
  "nullable get_time (opt_value VTime t) = Some t"
  "nullable get_json (opt_value VJson j) = Some j"
  by (cases x; cases y; cases z; cases t; cases j; simp add: nullable_def opt_value_def)+

lemma cond_holds_opt [simp]:
  "cond_holds lower r (c, ''='', BText s) \<longleftrightarrow> r c = VText s"
  "cond_holds lower r (c, ''>='', BInt n) \<longleftrightarrow> (\<exists>m. r c = VInt m \<and> m \<ge> n)"
  "cond_holds lower r (c, ''>='', BTime t) \<longleftrightarrow> (\<exists>u. r c = VTime u \<and> u \<ge> t)"
  "cond_holds lower r (c, ''<='', BTime t) \<longleftrightarrow> (\<exists>u. r c = VTime u \<and> u \<le> t)"
  "cond_holds lower r (c, ''ILIKE'', contains_pattern s)
     \<longleftrightarrow> (\<exists>b. r c = VText b \<and> like (lower (''%'' @ s @ ''%'')) (lower b))"
  by (auto simp: contains_pattern_def split: column_value.split)

declare cond_holds.simps [simp del]

lemma opt_value_eq [simp]:
  "opt_value VText x = VText s \<longleftrightarrow> x = Some s"
  "opt_value VInt y = VInt n \<longleftrightarrow> y = Some n"
  by (auto simp: opt_value_def split: option.split)

lemma those_map_Some: "(\<And>x. x \<in> set xs \<Longrightarrow> f x = Some (g x)) \<Longrightarrow> those (map f xs) = Some (map g xs)"
  by (induction xs) auto

subsection \<open>What a search answers\<close>

definition show_log :: "stored_log \<Rightarrow> log_row" where
  "show_log l =
     \<lparr>lg_log_time = sl_log_time l, lg_severity_number = sl_severity_number l,
      lg_severity_text = sl_severity_text l, lg_service_name = sl_service_name l, lg_body = sl_body l,
      lg_trace_id = sl_trace_id l, lg_span_id = sl_span_id l, lg_session_id = sl_session_id l,
      lg_actor_id = sl_actor_id l, lg_tenant_id = sl_tenant_id l\<rparr>"

definition wants :: "'a option \<Rightarrow> 'a option \<Rightarrow> bool" where
  "wants filt v \<longleftrightarrow> (\<forall>x. filt = Some x \<longrightarrow> v = Some x)"

definition dated :: "datetime option \<Rightarrow> datetime option \<Rightarrow> datetime \<Rightarrow> bool" where
  "dated from to t \<longleftrightarrow> (\<forall>a. from = Some a \<longrightarrow> a \<le> t) \<and> (\<forall>b. to = Some b \<longrightarrow> t \<le> b)"

definition log_wanted ::
    "(string \<Rightarrow> string) \<Rightarrow> logs_params \<Rightarrow> datetime option \<Rightarrow> datetime option \<Rightarrow> stored_log \<Rightarrow> bool" where
  "log_wanted lower p from to l \<longleftrightarrow>
     wants (lp_service p) (sl_service_name l) \<and> wants (lp_session p) (sl_session_id l)
     \<and> wants (lp_trace_id p) (sl_trace_id l)
     \<and> (\<forall>n. lp_severity_min p = Some n \<longrightarrow> (\<exists>m. sl_severity_number l = Some m \<and> n \<le> m))
     \<and> (\<forall>s. lp_q p = Some s \<longrightarrow> (\<exists>b. sl_body l = Some b \<and> like (lower (''%'' @ s @ ''%'')) (lower b)))
     \<and> dated from to (sl_log_time l)"

definition newest :: "('a \<Rightarrow> datetime) \<Rightarrow> 'a list \<Rightarrow> 'a list" where
  "newest time xs = sort_key (\<lambda>x. - time x) xs"

lemma sort_key_map: "sort_key f (map g xs) = map g (sort_key (\<lambda>x. f (g x)) xs)"
proof (induction xs)
  case (Cons x xs)
  have "insort_key f (g x) (map g ys) = map g (insort_key (\<lambda>x. f (g x)) x ys)" for ys
    by (induction ys) simp_all
  with Cons show ?case by simp
qed simp

lemma order_rows_newest:
  assumes "\<And>x. cols x c = VTime (time x)"
  shows "order_rows (c, True) (map cols xs) = map cols (newest time xs)"
  by (simp add: order_rows_def newest_def sort_key_map assms)

lemma run_select_newest:
  assumes "parse_select q = Some \<lparr>se_table = t, se_conds = cs, se_order = Some (c, True), se_limit = Some n\<rparr>"
    and "tables t = map cols xs" and "\<And>x. cols x c = VTime (time x)"
    and "\<And>x. (\<forall>k\<in>set cs. cond_holds lower (cols x) k) \<longleftrightarrow> P x"
    and "\<And>x. decode (cols x) = Some (view x)"
  shows "fetch_as decode (run_select lower tables) q = Inr (map view (take (nat n) (newest time (filter P xs))))"
proof -
  have "those (map decode (map cols ys)) = Some (map view ys)" for ys
    unfolding map_map by (rule those_map_Some) (simp add: assms(5))
  then show ?thesis
    using assms(1,2,4)
    by (simp add: fetch_as_def run_select_def filter_map o_def order_rows_newest [of cols c time, OF assms(3)]
        take_map)
qed

lemma decode_log_columns: "decode_log (log_columns l) = Some (show_log l)"
  by (simp add: decode_log_def log_columns_def show_log_def)

lemma log_columns_conds:
  "log_columns l ''service_name'' = opt_value VText (sl_service_name l)"
  "log_columns l ''session_id'' = opt_value VText (sl_session_id l)"
  "log_columns l ''trace_id'' = opt_value VText (sl_trace_id l)"
  "log_columns l ''severity_number'' = opt_value VInt (sl_severity_number l)"
  "log_columns l ''body'' = opt_value VText (sl_body l)"
  "log_columns l ''log_time'' = VTime (sl_log_time l)"
  by (simp_all add: log_columns_def)

lemma fetch_logs:
  "fetch_as decode_log (postgres lower d) (logs_query p from to n)
     = Inr (map show_log (take (nat n) (newest sl_log_time (filter (log_wanted lower p from to) (in_logs d)))))"
  unfolding postgres_def
  by (rule run_select_newest [OF parse_logs_query, where cols = log_columns])
    (auto simp: tables_of_def log_columns_conds decode_log_columns log_wanted_def wants_def dated_def ball_Un)


definition show_event :: "stored_event \<Rightarrow> event_row" where
  "show_event e =
     \<lparr>eg_event_id = se_event_id e, eg_event_name = se_event_name e, eg_actor_id = se_actor_id e,
      eg_session_id = se_session_id e, eg_tenant_id = se_tenant_id e,
      eg_timestamp_client = se_timestamp_client e, eg_properties = se_properties e\<rparr>"

definition event_wanted :: "events_params \<Rightarrow> datetime option \<Rightarrow> datetime option \<Rightarrow> stored_event \<Rightarrow> bool" where
  "event_wanted p from to e \<longleftrightarrow>
     wants (ep_actor p) (Some (se_actor_id e)) \<and> wants (ep_session p) (Some (se_session_id e))
     \<and> wants (ep_tenant p) (se_tenant_id e) \<and> wants (ep_name p) (Some (se_event_name e))
     \<and> dated from to (se_timestamp_client e)"

lemma event_columns_conds:
  "event_columns e ''actor_id'' = VText (se_actor_id e)"
  "event_columns e ''session_id'' = VText (se_session_id e)"
  "event_columns e ''tenant_id'' = opt_value VText (se_tenant_id e)"
  "event_columns e ''event_name'' = VText (se_event_name e)"
  "event_columns e ''timestamp_client'' = VTime (se_timestamp_client e)"
  by (simp_all add: event_columns_def)

lemma fetch_events:
  "fetch_as decode_event (postgres lower d) (events_query p from to n)
     = Inr (map show_event (take (nat n) (newest se_timestamp_client (filter (event_wanted p from to) (in_events d)))))"
  unfolding postgres_def
  by (rule run_select_newest [OF parse_events_query, where cols = event_columns])
    (auto simp: tables_of_def event_columns_conds event_wanted_def wants_def dated_def ball_Un
      decode_event_def event_columns_def show_event_def)

lemma search_events_exact:
  "search_events rfc (postgres lower d) p =
     and_then (parse_ts rfc (ep_from p)) (\<lambda>from. and_then (parse_ts rfc (ep_to p)) (\<lambda>to.
       Inr (map show_event (take (nat (clamp_int 1 1000 (unwrap_or 100 (ep_limit p))))
         (newest se_timestamp_client (filter (event_wanted p from to) (in_events d)))))))"
  by (simp add: search_events_def fetch_events clamp_limit_def)

definition show_point :: "stored_metric_point \<Rightarrow> metric_row" where
  "show_point m =
     \<lparr>mg_time = sm_time m, mg_metric_name = sm_metric_name m, mg_metric_type = sm_metric_type m,
      mg_unit = sm_unit m, mg_value_double = sm_value_double m, mg_value_int = sm_value_int m,
      mg_count = sm_count m, mg_sum = sm_sum m, mg_buckets = sm_buckets m,
      mg_service_name = sm_service_name m, mg_scope_name = sm_scope_name m, mg_attributes = sm_attributes m\<rparr>"

definition point_wanted :: "metrics_params \<Rightarrow> datetime option \<Rightarrow> datetime option \<Rightarrow> stored_metric_point \<Rightarrow> bool" where
  "point_wanted p from to m \<longleftrightarrow>
     wants (mp_name p) (Some (sm_metric_name m)) \<and> wants (mp_service p) (sm_service_name m)
     \<and> dated from to (sm_time m)"

lemma point_columns_conds:
  "point_columns m ''metric_name'' = VText (sm_metric_name m)"
  "point_columns m ''service_name'' = opt_value VText (sm_service_name m)"
  "point_columns m ''time'' = VTime (sm_time m)"
  by (simp_all add: point_columns_def)

lemma fetch_points:
  "fetch_as decode_metric (postgres lower d) (metrics_query p from to n)
     = Inr (map show_point (take (nat n) (newest sm_time (filter (point_wanted p from to) (in_points d)))))"
  unfolding postgres_def
  by (rule run_select_newest [OF parse_metrics_query, where cols = point_columns])
    (auto simp: tables_of_def point_columns_conds point_wanted_def wants_def dated_def ball_Un
      decode_metric_def point_columns_def show_point_def)

lemma search_metrics_exact:
  "search_metrics rfc (postgres lower d) p =
     and_then (parse_ts rfc (mp_from p)) (\<lambda>from. and_then (parse_ts rfc (mp_to p)) (\<lambda>to.
       Inr (map show_point (take (nat (clamp_int 1 1000 (unwrap_or 100 (mp_limit p))))
         (newest sm_time (filter (point_wanted p from to) (in_points d)))))))"
  by (simp add: search_metrics_def fetch_points clamp_limit_def)

definition show_span :: "stored_span \<Rightarrow> span_row" where
  "show_span s =
     \<lparr>sg_trace_id = ss_trace_id s, sg_span_id = ss_span_id s, sg_parent_span_id = ss_parent_span_id s,
      sg_start_time = ss_start_time s, sg_end_time = ss_end_time s, sg_duration_ms = ss_duration_ms s,
      sg_name = ss_name s, sg_kind = ss_kind s, sg_service_name = ss_service_name s,
      sg_status_code = ss_status_code s, sg_status_message = ss_status_message s,
      sg_session_id = ss_session_id s, sg_span_attributes = ss_span_attributes s\<rparr>"

lemma get_trace_exact:
  "get_trace (postgres lower d) tid =
     (let spans = map show_span (sort_key ss_start_time (filter (\<lambda>s. ss_trace_id s = tid) (in_spans d)))
      in Inr (tid, length spans, spans))"
proof -
  have c: "span_columns s ''trace_id'' = VText (ss_trace_id s)" "span_columns s ''start_time'' = VTime (ss_start_time s)"
    "decode_span (span_columns s) = Some (show_span s)" for s
    by (simp_all add: span_columns_def decode_span_def show_span_def)
  have "those (map decode_span (map span_columns ys)) = Some (map show_span ys)" for ys
    unfolding map_map by (rule those_map_Some) (simp add: c)
  then show ?thesis
    by (simp add: get_trace_def fetch_as_def postgres_def run_select_def parse_trace_query tables_of_def
        filter_map o_def c order_rows_def sort_key_map Let_def)
qed


subsection \<open>The text filter\<close>

definition literal_char :: "char \<Rightarrow> bool" where
  "literal_char c \<longleftrightarrow> c \<noteq> CHR ''%'' \<and> c \<noteq> CHR ''_'' \<and> c \<noteq> CHR 0x5C"

lemma like_percent: "like ''%'' s"
  by (induction s) (simp_all add: like.simps(3))

lemma like_literal: "list_all literal_char q \<Longrightarrow> like (q @ ''%'') s \<longleftrightarrow> prefix q s"
proof (induction q arbitrary: s)
  case Nil
  then show ?case by (simp add: like_percent)
next
  case (Cons c q)
  then show ?case by (cases s) (auto simp: literal_char_def like.simps(3))
qed

text \<open>A text without the special characters of patterns is found where it is contained.\<close>

lemma like_contains: "list_all literal_char q \<Longrightarrow> like (''%'' @ q @ ''%'') s \<longleftrightarrow> sublist q s"
proof (induction s)
  case Nil
  then show ?case using like_literal [of q "[]"] by (cases q) (simp_all add: like.simps)
next
  case (Cons d s)
  have "like (''%'' @ q @ ''%'') (d # s) \<longleftrightarrow> like (q @ ''%'') (d # s) \<or> like (''%'' @ q @ ''%'') s"
    by (simp add: like.simps(3))
  with Cons like_literal [of q "d # s"] show ?case by (simp add: sublist_Cons_right)
qed

text \<open>With them it is not the substring search it is documented to be.\<close>

lemma underscore_is_a_wildcard:
  "like (''%'' @ ''a_b'' @ ''%'') ''axb'' \<and> \<not> sublist ''a_b'' ''axb''"
  by (simp add: like.simps(3) sublist_Cons_right continuation_byte_def)

subsection \<open>Transports\<close>

definition authorize_query :: "api_env \<Rightarrow> header_map \<Rightarrow> app_error + unit" where
  "authorize_query env headers =
     map_err Unauthorized (check_service_token (ae_verify env) (cfg_query_auth (ae_cfg env)) (bearer headers))"

text \<open>What the read layer works with: the date parser, the decoder of journeys, the database.\<close>

record read_env =
  re_rfc :: "string \<Rightarrow> datetime option"
  re_journey :: "table_row \<Rightarrow> (string list \<times> int) option"
  re_db :: query_db

definition query_logs :: "api_env \<Rightarrow> read_env \<Rightarrow> header_map \<Rightarrow> logs_params \<Rightarrow> app_error + log_row list" where
  "query_logs env re headers p =
     and_then (authorize_query env headers) (\<lambda>_. search_logs (re_rfc re) (re_db re) p)"

definition query_events :: "api_env \<Rightarrow> read_env \<Rightarrow> header_map \<Rightarrow> events_params \<Rightarrow> app_error + event_row list" where
  "query_events env re headers p =
     and_then (authorize_query env headers) (\<lambda>_. search_events (re_rfc re) (re_db re) p)"

definition query_metrics :: "api_env \<Rightarrow> read_env \<Rightarrow> header_map \<Rightarrow> metrics_params \<Rightarrow> app_error + metric_row list" where
  "query_metrics env re headers p =
     and_then (authorize_query env headers) (\<lambda>_. search_metrics (re_rfc re) (re_db re) p)"

definition query_journeys ::
    "api_env \<Rightarrow> read_env \<Rightarrow> header_map \<Rightarrow> journeys_params \<Rightarrow> app_error + (string list \<times> int) list" where
  "query_journeys env re headers p =
     and_then (authorize_query env headers) (\<lambda>_. frequent_journeys (re_journey re) (re_db re) p)"

definition query_trace :: "api_env \<Rightarrow> read_env \<Rightarrow> header_map \<Rightarrow> string \<Rightarrow> app_error + string \<times> nat \<times> span_row list" where
  "query_trace env re headers tid =
     and_then (authorize_query env headers) (\<lambda>_. get_trace (re_db re) tid)"

subsection \<open>The MCP server\<close>

datatype mcp_error = InvalidParams | InvalidRequest | InternalError

fun to_err :: "app_error \<Rightarrow> mcp_error" where
  "to_err (BadRequest _ _) = InvalidParams"
| "to_err (PayloadTooLarge _ _) = InvalidParams"
| "to_err (Forbidden _) = InvalidRequest"
| "to_err (Unauthorized _) = InvalidRequest"
| "to_err TokenRequired = InvalidRequest"
| "to_err (Unavailable _) = InvalidRequest"
| "to_err (RateLimited _ _) = InvalidRequest"
| "to_err Internal = InternalError"

datatype mcp_tool =
    ToolSearchLogs logs_params
  | ToolGetTrace string
  | ToolSearchEvents events_params
  | ToolFrequentJourneys journeys_params
  | ToolSearchMetrics metrics_params
  | ToolIngestStats

datatype mcp_answer =
    LogRows "log_row list"
  | TraceSpans "string \<times> nat \<times> span_row list"
  | EventRows "event_row list"
  | JourneyRows "(string list \<times> int) list"
  | MetricRows "metric_row list"
  | StreamCounters "(string \<times> (string \<times> nat) list) list"

definition ingest_stats :: "'db app_state \<Rightarrow> (string \<times> (string \<times> nat) list) list" where
  "ingest_stats st =
     [(''events'', metrics_snapshot (ba_metrics (as_events st))),
      (''logs'', metrics_snapshot (ba_metrics (as_logs st))),
      (''traces'', metrics_snapshot (ba_metrics (as_spans st))),
      (''metrics'', metrics_snapshot (ba_metrics (as_points st)))]"

fun call_tool :: "read_env \<Rightarrow> 'db app_state \<Rightarrow> mcp_tool \<Rightarrow> mcp_error + mcp_answer" where
  "call_tool re st (ToolSearchLogs p) = map_sum to_err LogRows (search_logs (re_rfc re) (re_db re) p)"
| "call_tool re st (ToolGetTrace tid) = map_sum to_err TraceSpans (get_trace (re_db re) tid)"
| "call_tool re st (ToolSearchEvents p) = map_sum to_err EventRows (search_events (re_rfc re) (re_db re) p)"
| "call_tool re st (ToolFrequentJourneys p) =
     map_sum to_err JourneyRows (frequent_journeys (re_journey re) (re_db re) p)"
| "call_tool re st (ToolSearchMetrics p) = map_sum to_err MetricRows (search_metrics (re_rfc re) (re_db re) p)"
| "call_tool re st ToolIngestStats = Inr (StreamCounters (ingest_stats st))"

text \<open>The middleware in front of the MCP service.\<close>

definition mcp_auth :: "api_env \<Rightarrow> header_map \<Rightarrow> 'a \<Rightarrow> app_error + 'a" where
  "mcp_auth env headers response =
     and_then (map_err Unauthorized
         (check_service_token (ae_verify env) (cfg_query_auth (ae_cfg env)) (bearer headers))) (\<lambda>_.
     Inr response)"

subsection \<open>The router\<close>

datatype endpoint = EpEvents | EpHeartbeat | EpHealthz | EpReadyz | EpStats | EpQueryLogs | EpQueryMetrics
  | EpQueryEvents | EpQueryTrace | EpQueryJourneys | EpOtlpLogs | EpOtlpTraces | EpOtlpMetrics | EpMcp

datatype http_method = Get | Post | AnyMethod

text \<open>A route: its method and path, the endpoint, the bound on the body (none for the MCP service, which
  the layers of the other routes do not cover) and the timeout.\<close>

record route =
  rt_method :: http_method
  rt_path :: string
  rt_endpoint :: endpoint
  rt_body_limit :: "nat option"
  rt_timeout :: "nanos option"

definition route_to :: "config \<Rightarrow> nat \<Rightarrow> http_method \<times> string \<times> endpoint \<Rightarrow> route" where
  "route_to cfg limit r = (case r of (m, path, ep) \<Rightarrow>
     \<lparr>rt_method = m, rt_path = path, rt_endpoint = ep, rt_body_limit = Some limit,
      rt_timeout = Some (request_timeout cfg)\<rparr>)"

definition build_router :: "config \<Rightarrow> route list" where
  "build_router cfg =
     map (route_to cfg (max_payload_bytes (cfg_limits cfg)))
       [(Post, ''/v1/events'', EpEvents), (Post, ''/v1/heartbeat'', EpHeartbeat),
        (Get, ''/healthz'', EpHealthz), (Get, ''/readyz'', EpReadyz), (Get, ''/stats'', EpStats),
        (Get, ''/v1/query/logs'', EpQueryLogs), (Get, ''/v1/query/metrics'', EpQueryMetrics),
        (Get, ''/v1/query/events'', EpQueryEvents), (Get, ''/v1/query/traces/{trace_id}'', EpQueryTrace),
        (Get, ''/v1/query/journeys'', EpQueryJourneys)]
     @ map (route_to cfg (max_logs_payload_bytes cfg))
       [(Post, ''/v1/logs'', EpOtlpLogs), (Post, ''/v1/traces'', EpOtlpTraces),
        (Post, ''/v1/metrics'', EpOtlpMetrics)]
     @ (if mcp_enabled cfg
        then [\<lparr>rt_method = AnyMethod, rt_path = ''/mcp'', rt_endpoint = EpMcp, rt_body_limit = None,
               rt_timeout = None\<rparr>]
        else [])"

text \<open>The origins the CORS layer admits; \<open>header_ok\<close> tells which texts are header values.\<close>

definition cors_admits :: "(string \<Rightarrow> bool) \<Rightarrow> cors_origins \<Rightarrow> string \<Rightarrow> bool" where
  "cors_admits header_ok origins origin =
     (case origins of CorsAny \<Rightarrow> True | CorsList xs \<Rightarrow> origin \<in> set (filter header_ok xs))"

subsection \<open>Nothing is read without the secret\<close>

text \<open>What a caller can ask of the read layer, and what it gets: over REST, over MCP when it is mounted,
  and the statistics.\<close>

datatype read_request =
    RestLogs logs_params
  | RestEvents events_params
  | RestMetrics metrics_params
  | RestJourneys journeys_params
  | RestTrace string
  | RestStats
  | Mcp mcp_tool

datatype read_answer = Answer mcp_answer | Statistics stats_answer | McpFault mcp_error

fun read_data :: "api_env \<Rightarrow> read_env \<Rightarrow> header_map \<Rightarrow> 'db app_state \<Rightarrow> read_request \<Rightarrow> app_error + read_answer" where
  "read_data env re headers st (RestLogs p) = map_sum id (Answer \<circ> LogRows) (query_logs env re headers p)"
| "read_data env re headers st (RestEvents p) = map_sum id (Answer \<circ> EventRows) (query_events env re headers p)"
| "read_data env re headers st (RestMetrics p) = map_sum id (Answer \<circ> MetricRows) (query_metrics env re headers p)"
| "read_data env re headers st (RestJourneys p) = map_sum id (Answer \<circ> JourneyRows) (query_journeys env re headers p)"
| "read_data env re headers st (RestTrace tid) = map_sum id (Answer \<circ> TraceSpans) (query_trace env re headers tid)"
| "read_data env re headers st RestStats = map_sum id Statistics (stats env headers st)"
| "read_data env re headers st (Mcp tool) =
     mcp_auth env headers (case call_tool re st tool of Inl e \<Rightarrow> McpFault e | Inr a \<Rightarrow> Answer a)"

lemma read_data_needs_query_auth:
  assumes "check_service_token (ae_verify env) (cfg_query_auth (ae_cfg env)) (bearer headers) = Inl e"
  shows "read_data env re headers st rq = Inl (Unauthorized e)"
  using assms
  by (cases rq) (simp_all add: query_logs_def query_events_def query_metrics_def query_journeys_def
      query_trace_def authorize_query_def stats_def mcp_auth_def)

text \<open>C23. Nothing is read without the secret: with a static read token, a request that does not carry exactly
  that token as its bearer is answered 401, over REST, over MCP and for the statistics, whatever is
  stored, so that the answer tells nothing of the data; a request that carries it gets the data.\<close>

theorem reads_are_closed:
  assumes "cfg_query_auth (ae_cfg env) = Static secret"
  shows "(bearer headers \<noteq> Some secret \<longrightarrow>
      (\<exists>e. \<forall>re (st :: 'db app_state) rq. read_data env re headers st rq = Inl (Unauthorized e)))
    \<and> (bearer headers = Some secret \<longrightarrow>
      (\<forall>re (st :: 'db app_state) p tool.
         read_data env re headers st (RestLogs p)
           = map_sum id (Answer \<circ> LogRows) (search_logs (re_rfc re) (re_db re) p)
         \<and> read_data env re headers st (Mcp tool)
           = Inr (case call_tool re st tool of Inl e \<Rightarrow> McpFault e | Inr a \<Rightarrow> Answer a)))"
proof (intro conjI impI)
  assume "bearer headers \<noteq> Some secret"
  then obtain e where "check_service_token (ae_verify env) (cfg_query_auth (ae_cfg env)) (bearer headers) = Inl e"
    using assms by (cases "bearer headers") (auto simp: check_service_token_def constant_time_eq_iff)
  then show "\<exists>e. \<forall>re (st :: 'db app_state) rq. read_data env re headers st rq = Inl (Unauthorized e)"
    using read_data_needs_query_auth by blast
qed (use assms in \<open>simp_all add: mcp_auth_def query_logs_def authorize_query_def check_service_token_def
      constant_time_eq_iff\<close>)

lemma reads_are_closed_witness:
  "\<exists>e. \<forall>re (st :: unit app_state) rq. read_data demo_api re (\<lambda>_. None) st rq = Inl (Unauthorized e)"
  using reads_are_closed [of demo_api "''q''" "\<lambda>_. None"]
  by (simp add: demo_api_def demo_service_def bearer_def)

subsection \<open>The text of the queries\<close>

text \<open>No injection: the text of the five queries depends only on which filters are given.\<close>

definition same_given :: "'a option \<Rightarrow> 'a option \<Rightarrow> bool" where
  "same_given x y \<longleftrightarrow> (x = None \<longleftrightarrow> y = None)"

lemma sql_text_append: "sql_text (q @ r) = sql_text q @ sql_text r"
  by (simp add: sql_text_def)

lemma sql_text_filter_by: "same_given x y \<Longrightarrow> sql_text (filter_by lit bind x) = sql_text (filter_by lit bind y)"
  by (cases x; cases y) (simp_all add: same_given_def filter_by_def sql_text_def)

lemma logs_query_text:
  assumes "same_given (lp_service p) (lp_service p')" and "same_given (lp_session p) (lp_session p')"
    and "same_given (lp_trace_id p) (lp_trace_id p')" and "same_given (lp_severity_min p) (lp_severity_min p')"
    and "same_given (lp_q p) (lp_q p')" and "same_given from from'" and "same_given to to'"
  shows "sql_text (logs_query p from to n) = sql_text (logs_query p' from' to' n')"
  unfolding logs_query_def sql_text_append
  by (simp add: assms [THEN sql_text_filter_by] sql_text_def [of "[Sql l, Param v]" for l v])

end
