(* ===== verification/Reader.thy ===== *)
theory Reader
  imports Exporter
begin

text \<open>
  The cold reader, \<^verbatim>\<open>reader/src/\<close>: its configuration, the registry of object
  stores that confines the SQL engine to one bucket, the registration of tables and the queries. The URL
  parser, the SQL engine and the S3 client are parameters; the engine reaches files only through the
  registry it is given.
\<close>

subsection \<open>Configuration\<close>

record cold_config =
  cc_s3_endpoint :: "string option"
  cc_s3_region :: string
  cc_s3_bucket :: string
  cc_aws_access_key_id :: string
  cc_aws_secret_access_key :: string
  cc_s3_allow_http :: bool
  cc_s3_prefix :: "string option"

datatype cold_error =
    MissingSetting string | StoreBuildFailed | BadUrl | UnknownTable string | InferenceFailed
  | AccessDenied string | SqlFailed string

definition cold_config_from_env :: "env \<Rightarrow> cold_error + cold_config" where
  "cold_config_from_env env =
     (let required = (\<lambda>key. ok_or (MissingSetting key) (env key)) in
      and_then (required ''S3_BUCKET'') (\<lambda>bucket.
        and_then (required ''AWS_ACCESS_KEY_ID'') (\<lambda>key_id.
          and_then (required ''AWS_SECRET_ACCESS_KEY'') (\<lambda>secret.
            Inr \<lparr>cc_s3_endpoint = env ''S3_ENDPOINT'', cc_s3_region = env_str env ''S3_REGION'' ''eu-west-1'',
                 cc_s3_bucket = bucket, cc_aws_access_key_id = key_id, cc_aws_secret_access_key = secret,
                 cc_s3_allow_http = s3_flag env ''S3_ALLOW_HTTP'', cc_s3_prefix = env ''S3_PREFIX''\<rparr>))))"

definition cold_settings :: "cold_config \<Rightarrow> s3_settings" where
  "cold_settings cfg =
     \<lparr>s3_bucket_name = cc_s3_bucket cfg, s3_region_name = cc_s3_region cfg, s3_endpoint_url = cc_s3_endpoint cfg,
      s3_access_key = cc_aws_access_key_id cfg, s3_secret = cc_aws_secret_access_key cfg,
      s3_http_allowed = cc_s3_allow_http cfg\<rparr>"

definition build_cold_store :: "(s3_settings \<Rightarrow> 's option) \<Rightarrow> cold_config \<Rightarrow> cold_error + 's" where
  "build_cold_store build cfg = ok_or StoreBuildFailed (build (cold_settings cfg))"

subsection \<open>Schemas\<close>

definition cold_events_schema :: schema where
  "cold_events_schema =
     [column_field ''event_id'' Utf8 False, column_field ''event_name'' Utf8 False,
      column_field ''tenant_id'' Utf8 True, column_field ''actor_id'' Utf8 False,
      column_field ''session_id'' Utf8 False, column_field ''timestamp_client'' TimestampUtc False,
      column_field ''received_at'' TimestampUtc False, column_field ''properties'' Utf8 False]"

definition cold_logs_schema :: schema where
  "cold_logs_schema =
     [column_field ''log_id'' Utf8 False, column_field ''log_time'' TimestampUtc False,
      column_field ''observed_time'' TimestampUtc True, column_field ''received_at'' TimestampUtc False,
      column_field ''severity_number'' Int16 True, column_field ''severity_text'' Utf8 True,
      column_field ''body'' Utf8 True, column_field ''service_name'' Utf8 True,
      column_field ''scope_name'' Utf8 True, column_field ''trace_id'' Utf8 True,
      column_field ''span_id'' Utf8 True, column_field ''tenant_id'' Utf8 True,
      column_field ''actor_id'' Utf8 True, column_field ''session_id'' Utf8 True,
      column_field ''resource_attributes'' Utf8 False, column_field ''log_attributes'' Utf8 False]"

definition schema_for_table :: "string \<Rightarrow> cold_error + schema" where
  "schema_for_table table =
     (if table = ''events'' then Inr cold_events_schema
      else if table = ''logs'' then Inr cold_logs_schema
      else Inl (UnknownTable table))"

subsection \<open>The registry of object stores\<close>

text \<open>A parsed URL: the key needs only its scheme and the text from its host to its port.\<close>

record url =
  url_scheme :: string
  url_userinfo :: string
  url_host_port :: string
  url_path :: string

definition url_key :: "url \<Rightarrow> string" where
  "url_key u = url_scheme u @ ''://'' @ url_host_port u"

type_synonym 's store_registry = "(string \<times> 's) list"

definition registry_new :: "'s store_registry" where
  "registry_new = []"

definition register_store :: "url \<Rightarrow> 's \<Rightarrow> 's store_registry \<Rightarrow> 's option \<times> 's store_registry" where
  "register_store u store reg = (al_get reg (url_key u), al_put (url_key u) store reg)"

definition get_store :: "'s store_registry \<Rightarrow> url \<Rightarrow> cold_error + 's" where
  "get_store reg u = ok_or (AccessDenied (url_key u)) (al_get reg (url_key u))"

record sql_options =
  allow_ddl :: bool
  allow_dml :: bool
  allow_statements :: bool

definition read_only_sql_options :: sql_options where
  "read_only_sql_options = \<lparr>allow_ddl = False, allow_dml = False, allow_statements = False\<rparr>"

subsection \<open>The engine\<close>

text \<open>
  What the reader calls: the URL parsers, the S3 client, the inference of a schema from the files
  listed under a URL and the execution of SQL over the registered tables. The last two are given the
  registry as the function that resolves a URL.
\<close>

record ('s, 'b) cold_engine =
  ce_url_parse :: "string \<Rightarrow> url option"
  ce_listing_url_parse :: "string \<Rightarrow> url option"
  ce_build :: "s3_settings \<Rightarrow> 's option"
  ce_infer_schema :: "(url \<Rightarrow> cold_error + 's) \<Rightarrow> url \<Rightarrow> schema option"
  ce_sql :: "sql_options \<Rightarrow> (url \<Rightarrow> cold_error + 's) \<Rightarrow> (string \<times> url \<times> schema) list \<Rightarrow> string \<Rightarrow> 'b list option"

record 's cold_reader =
  cr_registry :: "'s store_registry"
  cr_tables :: "(string \<times> url \<times> schema) list"
  cr_cfg :: cold_config
  cr_store :: 's

definition cold_reader_new :: "('s, 'b) cold_engine \<Rightarrow> cold_config \<Rightarrow> cold_error + 's cold_reader" where
  "cold_reader_new ce cfg =
     and_then (build_cold_store (ce_build ce) cfg) (\<lambda>store.
       and_then (ok_or BadUrl (ce_url_parse ce (''s3://'' @ cc_s3_bucket cfg @ ''/''))) (\<lambda>u.
         Inr \<lparr>cr_registry = snd (register_store u store registry_new), cr_tables = [],
              cr_cfg = cfg, cr_store = store\<rparr>))"

definition listing_path :: "string option \<Rightarrow> string \<Rightarrow> string option \<Rightarrow> string" where
  "listing_path pre table date_prefix =
     (let base = (case pre of Some p \<Rightarrow> p @ ''/'' @ table @ ''/'' | None \<Rightarrow> table @ ''/'')
      in case date_prefix of Some d \<Rightarrow> base @ ''date='' @ d @ ''/'' | None \<Rightarrow> base)"

definition register_table ::
    "('s, 'b) cold_engine \<Rightarrow> 's cold_reader \<Rightarrow> string \<Rightarrow> string option \<Rightarrow> cold_error + 's cold_reader" where
  "register_table ce cr table date_prefix =
     and_then (schema_for_table table) (\<lambda>_.
       and_then (ok_or BadUrl (ce_listing_url_parse ce
           (''s3://'' @ cc_s3_bucket (cr_cfg cr) @ ''/'' @ listing_path (cc_s3_prefix (cr_cfg cr)) table date_prefix))) (\<lambda>u.
         and_then (ok_or InferenceFailed (ce_infer_schema ce (get_store (cr_registry cr)) u)) (\<lambda>sch.
           let cr' = (if al_get (cr_tables cr) table \<noteq> None
                      then cr\<lparr>cr_tables := al_del table (cr_tables cr)\<rparr> else cr)
           in Inr (cr'\<lparr>cr_tables := al_put table (u, sch) (cr_tables cr')\<rparr>))))"

definition execute_sql :: "('s, 'b) cold_engine \<Rightarrow> 's cold_reader \<Rightarrow> string \<Rightarrow> cold_error + 'b list" where
  "execute_sql ce cr sql =
     ok_or (SqlFailed sql) (ce_sql ce read_only_sql_options (get_store (cr_registry cr)) (cr_tables cr) sql)"

text \<open>The reader keeps a registration even when the query after it fails.\<close>

definition register_then_execute ::
    "('s, 'b) cold_engine \<Rightarrow> 's cold_reader \<Rightarrow> string \<Rightarrow> string option \<Rightarrow> string
       \<Rightarrow> (cold_error + 'b list) \<times> 's cold_reader" where
  "register_then_execute ce cr table date_prefix sql =
     (case register_table ce cr table date_prefix of
        Inl e \<Rightarrow> (Inl e, cr)
      | Inr cr' \<Rightarrow> (execute_sql ce cr' sql, cr'))"

definition query :: "('s, 'b) cold_engine \<Rightarrow> 's cold_reader \<Rightarrow> string \<Rightarrow> string \<Rightarrow> (cold_error + 'b list) \<times> 's cold_reader" where
  "query ce cr table sql = register_then_execute ce cr table None sql"

definition query_date ::
    "('s, 'b) cold_engine \<Rightarrow> 's cold_reader \<Rightarrow> string \<Rightarrow> string \<Rightarrow> string \<Rightarrow> (cold_error + 'b list) \<times> 's cold_reader" where
  "query_date ce cr table date sql = register_then_execute ce cr table (Some date) sql"

definition total_rows :: "('b \<Rightarrow> nat) \<Rightarrow> 'b list \<Rightarrow> nat" where
  "total_rows num_rows batches = sum_list (map num_rows batches)"

text \<open>The command line: one reader, one query.\<close>

record cold_cli =
  co_table :: string
  co_sql :: string
  co_date :: "string option"

definition cold_main :: "('s, 'b) cold_engine \<Rightarrow> env \<Rightarrow> cold_cli \<Rightarrow> cold_error + 'b list" where
  "cold_main ce env cli =
     and_then (cold_config_from_env env) (\<lambda>cfg.
       and_then (cold_reader_new ce cfg) (\<lambda>cr.
         case co_date cli of
           Some date \<Rightarrow> fst (query_date ce cr (co_table cli) date (co_sql cli))
         | None \<Rightarrow> fst (query ce cr (co_table cli) (co_sql cli))))"

text \<open>The calls a program makes on a reader.\<close>

datatype cold_call =
    CallRegister string "string option"
  | CallQuery string string
  | CallQueryDate string string string
  | CallSql string

fun cold_step :: "('s, 'b) cold_engine \<Rightarrow> 's cold_reader \<Rightarrow> cold_call \<Rightarrow> 's cold_reader" where
  "cold_step ce cr (CallRegister t d) = (case register_table ce cr t d of Inl _ \<Rightarrow> cr | Inr cr' \<Rightarrow> cr')"
| "cold_step ce cr (CallQuery t sql) = snd (query ce cr t sql)"
| "cold_step ce cr (CallQueryDate t d sql) = snd (query_date ce cr t d sql)"
| "cold_step ce cr (CallSql sql) = cr"


subsection \<open>The engine is confined to the bucket\<close>

definition bucket_only :: "url \<Rightarrow> 's \<Rightarrow> url \<Rightarrow> cold_error + 's" where
  "bucket_only b store v = (if url_key v = url_key b then Inr store else Inl (AccessDenied (url_key v)))"

definition reader_inv :: "('s, 'b) cold_engine \<Rightarrow> cold_config \<Rightarrow> url \<Rightarrow> 's \<Rightarrow> 's cold_reader \<Rightarrow> bool" where
  "reader_inv ce cfg b store cr \<longleftrightarrow>
     cr_registry cr = [(url_key b, store)] \<and> cr_cfg cr = cfg \<and>
     (\<forall>(t, u, sch)\<in>set (cr_tables cr). t \<in> {''events'', ''logs''} \<and>
        (\<exists>d. ce_listing_url_parse ce
               (''s3://'' @ cc_s3_bucket cfg @ ''/'' @ listing_path (cc_s3_prefix cfg) t d) = Some u))"

lemma get_store_single: "get_store [(url_key b, store)] = bucket_only b store"
  by (auto simp: get_store_def bucket_only_def al_get_def)

lemma reader_inv_new:
  "cold_reader_new ce cfg = Inr cr \<Longrightarrow>
     \<exists>b. ce_url_parse ce (''s3://'' @ cc_s3_bucket cfg @ ''/'') = Some b \<and> reader_inv ce cfg b (cr_store cr) cr"
  by (auto simp: cold_reader_new_def reader_inv_def register_store_def registry_new_def al_put_def ok_or_def
      split: option.splits)

lemma schema_for_known: "schema_for_table t = Inr sch \<Longrightarrow> t \<in> {''events'', ''logs''}"
  by (auto simp: schema_for_table_def split: if_splits)

lemma al_put_subset: "set (al_put k v m) \<subseteq> insert (k, v) (set m)"
  unfolding al_put_def by (induction m) auto

lemma al_del_subset: "set (al_del k m) \<subseteq> set m"
  unfolding al_del_def by (induction m) auto

lemma reader_inv_register:
  assumes "reader_inv ce cfg b store cr" "register_table ce cr t d = Inr cr'"
  shows "reader_inv ce cfg b store cr'"
proof -
  obtain s where t: "schema_for_table t = Inr s"
    using assms(2) by (auto simp: register_table_def)
  obtain u where u: "ce_listing_url_parse ce (''s3://'' @ cc_s3_bucket (cr_cfg cr) @ ''/'' @
                 listing_path (cc_s3_prefix (cr_cfg cr)) t d) = Some u"
    using assms(2) t by (auto simp: register_table_def ok_or_def split: option.splits)
  obtain sch where sch: "ce_infer_schema ce (get_store (cr_registry cr)) u = Some sch"
    using assms(2) t u by (auto simp: register_table_def ok_or_def split: option.splits)
  define tabs where "tabs = (if al_get (cr_tables cr) t \<noteq> None then al_del t (cr_tables cr) else cr_tables cr)"
  have cr': "cr_registry cr' = cr_registry cr" "cr_cfg cr' = cr_cfg cr" "cr_tables cr' = al_put t (u, sch) tabs"
    using assms(2) t u sch by (auto simp: register_table_def ok_or_def Let_def tabs_def split: if_splits)
  have "set tabs \<subseteq> set (cr_tables cr)" by (simp add: tabs_def al_del_subset)
  moreover have "set (cr_tables cr') \<subseteq> insert (t, u, sch) (set tabs)" unfolding cr'(3) by (rule al_put_subset)
  ultimately have sub: "set (cr_tables cr') \<subseteq> insert (t, u, sch) (set (cr_tables cr))" by blast
  have "cr_cfg cr = cfg" using assms(1) by (simp add: reader_inv_def)
  then have "\<exists>d. ce_listing_url_parse ce
      (''s3://'' @ cc_s3_bucket cfg @ ''/'' @ listing_path (cc_s3_prefix cfg) t d) = Some u"
    using u by blast
  then show ?thesis
    using assms(1) schema_for_known [OF t] sub unfolding reader_inv_def cr'(1,2) by blast
qed

lemma reader_inv_step: "reader_inv ce cfg b store cr \<Longrightarrow> reader_inv ce cfg b store (cold_step ce cr c)"
  by (cases c)
     (auto simp: query_def query_date_def register_then_execute_def reader_inv_register split: sum.splits)

lemma reader_inv_run: "reader_inv ce cfg b store cr \<Longrightarrow> reader_inv ce cfg b store (foldl (cold_step ce) cr cs)"
  by (induction cs arbitrary: cr) (auto intro: reader_inv_step)

text \<open>C31. After any calls, successful or not, a query runs with the options that refuse everything but reading,
  and resolves a URL to the store of the configured bucket or not at all; the tables it sees are events
  and logs, listed under that bucket and prefix.\<close>
theorem reader_confined:
  assumes "cold_reader_new ce cfg = Inr cr"
    and "cr' = foldl (cold_step ce) cr cs"
  shows "\<exists>b. ce_url_parse ce (''s3://'' @ cc_s3_bucket cfg @ ''/'') = Some b
     \<and> execute_sql ce cr' sql = ok_or (SqlFailed sql)
         (ce_sql ce \<lparr>allow_ddl = False, allow_dml = False, allow_statements = False\<rparr>
            (bucket_only b (cr_store cr)) (cr_tables cr') sql)
     \<and> (\<forall>(t, u, sch)\<in>set (cr_tables cr'). t \<in> {''events'', ''logs''} \<and>
          (\<exists>d. ce_listing_url_parse ce
                 (''s3://'' @ cc_s3_bucket cfg @ ''/'' @ listing_path (cc_s3_prefix cfg) t d) = Some u))"
proof -
  obtain b where b: "ce_url_parse ce (''s3://'' @ cc_s3_bucket cfg @ ''/'') = Some b"
      "reader_inv ce cfg b (cr_store cr) cr"
    using reader_inv_new [OF assms(1)] by auto
  have inv: "reader_inv ce cfg b (cr_store cr) cr'" unfolding assms(2) by (rule reader_inv_run [OF b(2)])
  then have "get_store (cr_registry cr') = bucket_only b (cr_store cr)"
    by (simp add: reader_inv_def get_store_single)
  then show ?thesis using b(1) inv by (auto simp: execute_sql_def read_only_sql_options_def reader_inv_def)
qed

text \<open>Registering a table again replaces its listing: the last registration is the one that counts.\<close>

lemma last_registration_counts:
  "register_table ce cr t d = Inr cr' \<Longrightarrow>
     \<exists>u sch. al_get (cr_tables cr') t = Some (u, sch) \<and>
       ce_listing_url_parse ce (''s3://'' @ cc_s3_bucket (cr_cfg cr) @ ''/'' @
         listing_path (cc_s3_prefix (cr_cfg cr)) t d) = Some u"
  by (auto simp: register_table_def ok_or_def Let_def store_simps split: option.splits if_splits)

subsection \<open>The reader and the exporter\<close>

lemma cold_schemas: "cold_events_schema = events_schema" "cold_logs_schema = logs_schema"
  by (simp_all add: cold_events_schema_def events_schema_def cold_logs_schema_def logs_schema_def)

text \<open>From one environment the exporter and the reader build their stores with the same settings, and the
  reader declares for each table the columns that the exporter writes.\<close>
theorem exporter_and_reader_agree:
  assumes "cold_config_from_env env = Inr cc" "export_config_from_env env = Inr xc"
  shows "build_export_store build xc (cc_s3_bucket cc) = ok_or BuildFailed (build (cold_settings cc))
     \<and> schema_for_table ''events'' = Inr events_schema \<and> schema_for_table ''logs'' = Inr logs_schema"
proof -
  have "xc_aws_access_key_id xc = Some (cc_aws_access_key_id cc)"
       "xc_aws_secret_access_key xc = Some (cc_aws_secret_access_key cc)"
       "xc_s3_region xc = cc_s3_region cc" "xc_s3_endpoint xc = cc_s3_endpoint cc"
       "xc_s3_allow_http xc = cc_s3_allow_http cc"
    using assms by (auto simp: cold_config_from_env_def export_config_from_env_def Let_def ok_or_def
        split: option.splits)
  then show ?thesis
    by (simp add: build_export_store_def cold_settings_def schema_for_table_def cold_schemas)
qed

lemma prefix_to_separator:
  "c \<notin> set x \<Longrightarrow> c \<notin> set y \<Longrightarrow> prefix (x @ c # s) (y @ c # t) \<longleftrightarrow> x = y \<and> prefix s t"
proof (induction x arbitrary: y)
  case Nil
  then show ?case by (cases y) auto
next
  case (Cons a x)
  then show ?case by (cases y) auto
qed

lemma listing_matches:
  assumes "table \<in> {''events'', ''logs''}" "table' \<in> {''events'', ''logs''}"
    and "CHR ''/'' \<notin> set d" "CHR ''/'' \<notin> set d'" "pre \<noteq> Some []"
  shows "prefix (listing_path pre table (Some d)) (hive_path pre table' d' n) \<longleftrightarrow> table = table' \<and> d = d'"
    and "prefix (listing_path pre table None) (hive_path pre table' d' n) \<longleftrightarrow> table = table'"
proof -
  have t: "CHR ''/'' \<notin> set table" "CHR ''/'' \<notin> set table'" using assms by auto
  define r where "r = ''part-'' @ pad4 n @ ''.parquet''"
  have key: "hive_path pre table' d' n =
      (case pre of Some p \<Rightarrow> p @ ''/'' | None \<Rightarrow> []) @ table' @ CHR ''/'' # (''date='' @ d' @ CHR ''/'' # r)"
    using assms(5) by (auto simp: hive_path_def r_def Let_def split: option.splits)
  have l: "listing_path pre table (Some d) =
      (case pre of Some p \<Rightarrow> p @ ''/'' | None \<Rightarrow> []) @ table @ CHR ''/'' # (''date='' @ d @ CHR ''/'' # [])"
    "listing_path pre table None =
      (case pre of Some p \<Rightarrow> p @ ''/'' | None \<Rightarrow> []) @ table @ CHR ''/'' # []"
    by (auto simp: listing_path_def Let_def split: option.splits)
  have dd: "prefix (''date='' @ d @ CHR ''/'' # []) (''date='' @ d' @ CHR ''/'' # r) \<longleftrightarrow> d = d'"
    using prefix_to_separator [OF assms(3,4), of "[]" r] by simp
  show "prefix (listing_path pre table (Some d)) (hive_path pre table' d' n) \<longleftrightarrow> table = table' \<and> d = d'"
    unfolding key l same_prefix_prefix prefix_to_separator [OF t] using dd by simp
  show "prefix (listing_path pre table None) (hive_path pre table' d' n) \<longleftrightarrow> table = table'"
    unfolding key l same_prefix_prefix prefix_to_separator [OF t] by simp
qed

text \<open>With the prefix of one environment, the listing of the reader for a table and a day selects exactly the
  object the exporter wrote for them, and its listing of a table those of all its days.\<close>
theorem reader_finds_exports:
  assumes "env ''S3_PREFIX'' \<noteq> Some []" "cli_prefix cli = env_str env ''S3_PREFIX'' []"
    and "table \<in> {''events'', ''logs''}" "table' \<in> {''events'', ''logs''}"
    and "CHR ''/'' \<notin> set d" "CHR ''/'' \<notin> set d'"
  shows "(prefix (listing_path (env ''S3_PREFIX'') table (Some d)) (hive_path (cli_prefix_option cli) table' d' 0)
            \<longleftrightarrow> table = table' \<and> d = d')
       \<and> (prefix (listing_path (env ''S3_PREFIX'') table None) (hive_path (cli_prefix_option cli) table' d' 0)
            \<longleftrightarrow> table = table')"
proof -
  have "cli_prefix_option cli = env ''S3_PREFIX''"
    using assms(1,2) by (cases "env ''S3_PREFIX''") (auto simp: cli_prefix_option_def env_str_def)
  then show ?thesis using listing_matches [OF assms(3-6) assms(1), of 0] by simp
qed

text \<open>A month, which the documentation of the reader allows, selects nothing; and with an empty prefix in the
  environment the reader looks where the exporter does not write.\<close>

lemma month_selects_nothing:
  "\<not> prefix (listing_path None ''events'' (Some ''2024-06'')) (hive_path None ''events'' ''2024-06-15'' 0)"
  using listing_matches(1) [of "''events''" "''events''" "''2024-06''" "''2024-06-15''" None 0] by simp

lemma empty_prefix_selects_nothing:
  "table \<in> {''events'', ''logs''} \<Longrightarrow> table' \<in> {''events'', ''logs''} \<Longrightarrow>
     \<not> prefix (listing_path (Some []) table dp) (hive_path (Some []) table' d 0)"
  by (auto simp: listing_path_def hive_path_def Let_def split: option.splits)


definition sample_engine :: "(nat, string) cold_engine" where
  "sample_engine =
     \<lparr>ce_url_parse = (\<lambda>s. Some \<lparr>url_scheme = ''s3'', url_userinfo = [], url_host_port = ''cold'', url_path = s\<rparr>),
      ce_listing_url_parse = (\<lambda>s. Some \<lparr>url_scheme = ''s3'', url_userinfo = [], url_host_port = ''cold'', url_path = s\<rparr>),
      ce_build = (\<lambda>_. Some 7),
      ce_infer_schema = (\<lambda>resolve u. case resolve u of Inr _ \<Rightarrow> Some [] | Inl _ \<Rightarrow> None),
      ce_sql = (\<lambda>opts resolve tables sql.
        if allow_ddl opts then None
        else case tables of (t, u, _) # _ \<Rightarrow> (case resolve u of Inr _ \<Rightarrow> Some [t] | Inl _ \<Rightarrow> None) | [] \<Rightarrow> Some [])\<rparr>"

definition sample_env :: env where
  "sample_env = map_of [(''S3_BUCKET'', ''cold''), (''AWS_ACCESS_KEY_ID'', ''k''), (''AWS_SECRET_ACCESS_KEY'', ''z''),
     (''DATABASE_URL'', ''postgres://db''), (''S3_PREFIX'', ''prod''), (''S3_ALLOW_HTTP'', ''TRUE'')]"

definition sample_cold_config :: cold_config where
  "sample_cold_config =
     \<lparr>cc_s3_endpoint = None, cc_s3_region = ''eu-west-1'', cc_s3_bucket = ''cold'', cc_aws_access_key_id = ''k'',
      cc_aws_secret_access_key = ''z'', cc_s3_allow_http = True, cc_s3_prefix = Some ''prod''\<rparr>"

definition sample_export_config :: export_config where
  "sample_export_config =
     \<lparr>xc_database_url = ''postgres://db'', xc_s3_endpoint = None, xc_s3_region = ''eu-west-1'',
      xc_aws_access_key_id = Some ''k'', xc_aws_secret_access_key = Some ''z'', xc_s3_allow_http = True\<rparr>"

lemma sample_configs:
  "cold_config_from_env sample_env = Inr sample_cold_config"
  "export_config_from_env sample_env = Inr sample_export_config"
  by code_simp+

definition sample_reader :: "nat cold_reader" where
  "sample_reader = \<lparr>cr_registry = [(''s3://cold'', 7)], cr_tables = [], cr_cfg = sample_cold_config, cr_store = 7\<rparr>"

definition sample_calls :: "cold_call list" where
  "sample_calls = [CallQueryDate ''events'' ''2024-06-15'' ''SELECT 1'', CallRegister ''passwd'' None, CallQuery ''logs'' ''DROP'']"

lemma reader_confined_witness:
  "\<exists>b. ce_url_parse sample_engine ''s3://cold/'' = Some b
     \<and> execute_sql sample_engine (foldl (cold_step sample_engine) sample_reader sample_calls) ''SELECT 2'' =
         ok_or (SqlFailed ''SELECT 2'')
           (ce_sql sample_engine \<lparr>allow_ddl = False, allow_dml = False, allow_statements = False\<rparr> (bucket_only b 7)
              (cr_tables (foldl (cold_step sample_engine) sample_reader sample_calls)) ''SELECT 2'')"
proof -
  have "cold_reader_new sample_engine sample_cold_config = Inr sample_reader" by code_simp
  from reader_confined [OF this refl, of sample_calls "''SELECT 2''"] show ?thesis
    by (auto simp: sample_cold_config_def sample_reader_def)
qed

lemma exporter_and_reader_agree_witness:
  "build_export_store Some sample_export_config ''cold'' = Inr (cold_settings sample_cold_config)"
  using exporter_and_reader_agree [OF sample_configs, of Some] by (simp add: sample_cold_config_def)

lemma reader_finds_exports_witness:
  "prefix (listing_path (Some ''prod'') ''events'' (Some ''2024-06-15''))
     (hive_path (Some ''prod'') ''events'' ''2024-06-15'' 0)"
  using reader_finds_exports [of sample_env "\<lparr>cli_table = Table_Events, cli_date = ''2024-06-15'', cli_bucket = ''cold'',
      cli_prefix = ''prod''\<rparr>" "''events''" "''events''" "''2024-06-15''" "''2024-06-15''"]
  by (simp add: sample_env_def env_str_def cli_prefix_option_def)

end
