(* ===== verification/Spec2Isabelle.thy ===== *)
theory Spec2Isabelle
  imports Service Outage Recovery Concurrent Wire Minting Delivery Watch Query Startup Reader Agent RateLimit Anomaly Token Settings Otlp Ingest AlertEval Events Logs Traces Metrics Api
begin

text \<open>
  Datacat is a telemetry collector. Applications send product events and OpenTelemetry logs, spans
  and metrics to the backend (\<^verbatim>\<open>backend/\<close>) over HTTP or gRPC; the backend
  authenticates and limits the senders, normalises the records, writes them in batches to
  PostgreSQL, answers read queries and raises alerts. Around it, the exporter
  (\<^verbatim>\<open>exporter/\<close>) copies whole days of the tables to Parquet files, the reader
  (\<^verbatim>\<open>reader/\<close>) answers SQL over those files, and the companion
  (\<^verbatim>\<open>companion/\<close>) watches the backend from another host, and is watched by it.

  Theories, from the bottom up:

  \<^item> \<^verbatim>\<open>Prelude\<close>: the operations of the Rust standard library the sources use,
    association lists for maps, and two interfaces as locales: a keyed store and an edge-triggered
    alert machine.
  \<^item> \<^verbatim>\<open>Config\<close> (\<^verbatim>\<open>backend/src/config.rs\<close>): settings from the environment and the production
    guards. A configuration that passes them is closed.
  \<^item> \<^verbatim>\<open>RateLimit\<close> (\<^verbatim>\<open>backend/src/security/ratelimit.rs\<close>): token buckets and the sliding window of
    sessions; flood bounds over any history, over a locale of metered resources.
  \<^item> \<^verbatim>\<open>Anomaly\<close> (\<^verbatim>\<open>backend/src/security/anomaly.rs\<close>, \<^verbatim>\<open>mod.rs\<close>): bans, and the client address behind
    a proxy.
  \<^item> \<^verbatim>\<open>Token\<close> (\<^verbatim>\<open>backend/src/security/token.rs\<close>): key sets, rotation and verification; the
    signature check is a parameter.
  \<^item> \<^verbatim>\<open>Rules\<close>, \<^verbatim>\<open>Notify\<close>, \<^verbatim>\<open>AlertEval\<close> (\<^verbatim>\<open>backend/src/alerting/\<close>): the rules and their validation, the
    channels and the dispatcher, the evaluation with its queries and its state machine. The database is
    a function from queries to rows.
  \<^item> \<^verbatim>\<open>Companion\<close> (\<^verbatim>\<open>backend/src/companion/mod.rs\<close>): the heartbeat registry and the monitor.
  \<^item> \<^verbatim>\<open>Settings\<close> (\<^verbatim>\<open>backend/src/settings.rs\<close>): the settings file after TOML parsing, with its
    placeholders, projects and overrides.
  \<^item> \<^verbatim>\<open>Otlp\<close> (\<^verbatim>\<open>backend/src/otlp/\<close>): attribute values from the JSON and the protobuf encodings.
  \<^item> \<^verbatim>\<open>Ingest\<close> (\<^verbatim>\<open>backend/src/ingest/mod.rs\<close> and the merge functions of the migrations): the CSV text
    for COPY, the batcher as a step function over its channel, buffer and phase, the idempotent merge.
  \<^item> \<^verbatim>\<open>Records\<close>, \<^verbatim>\<open>Events\<close>, \<^verbatim>\<open>Logs\<close>, \<^verbatim>\<open>Traces\<close>, \<^verbatim>\<open>Metrics\<close> (\<^verbatim>\<open>model.rs\<close> and \<^verbatim>\<open>grpc.rs\<close> of the four kinds of
    records): how a request becomes rows, on both transports; what is dropped; the CSV rows and the SQL
    constants. The two transports agree.
  \<^item> \<^verbatim>\<open>Api\<close> (\<^verbatim>\<open>api/routes.rs\<close>, the \<^verbatim>\<open>intake.rs\<close> files, \<^verbatim>\<open>error.rs\<close>, \<^verbatim>\<open>grpc.rs\<close>): the handlers over the
    shared state and the runs of the whole service, with a locale of the streams they feed.
  \<^item> \<^verbatim>\<open>Interleave\<close>, \<^verbatim>\<open>Concurrent\<close>: programs as trees of actions on a shared state and the pool of those in
    flight; the handlers of \<^verbatim>\<open>Api\<close> as such programs, one action for each access to a lock, a map or a
    channel. Uninterrupted they are the handlers; interleaved, the limits on the flow and on the
    memory hold up to the number of requests in flight and the late readings of the clock. Four races
    of the source are lemmas.
  \<^item> \<^verbatim>\<open>Wire\<close>: the decoding of the JSON bodies that the serde attributes of the request structures
    prescribe, and the encoding of OTLP, which it reads back; over both the transports agree.
  \<^item> \<^verbatim>\<open>Service\<close>: the four batchers inside the service, each by an interpretation of the locale of
    components, with the tables of \<^verbatim>\<open>Partitions\<close> as their databases and the stop at the end of
    \<^verbatim>\<open>main.rs\<close>. The service refines its batchers, stores what it acknowledged and has bounded memory.
  \<^item> \<^verbatim>\<open>Outage\<close>: the flush of \<^verbatim>\<open>ingest/mod.rs\<close> with every failure of its statements and the maintenance of
    \<^verbatim>\<open>main.rs\<close> around it; the service over such a database accounts for what it acknowledged.
  \<^item> \<^verbatim>\<open>Recovery\<close>: any number of lives of the service, each with its requests and its failures, ended at any
    moment, and the preparation of the database of \<^verbatim>\<open>main.rs\<close> between them; what they acknowledged and
    how much of it a crash can lose.
  \<^item> \<^verbatim>\<open>Query\<close> (\<^verbatim>\<open>backend/src/query/\<close>, \<^verbatim>\<open>api/mod.rs\<close>): the read queries as SQL texts over a store, with the
    meaning of the SQL they use, their handlers over HTTP and MCP, the router.
  \<^item> \<^verbatim>\<open>Partitions\<close> (\<^verbatim>\<open>backend/src/db/partitions.rs\<close> and the SQL functions it calls): the daily partitions
    of the four tables, their purge and the drain of the staging tables.
  \<^item> \<^verbatim>\<open>Exporter\<close> (\<^verbatim>\<open>exporter/src/\<close>): the pages of a day, the record batches, the keys, the command line.
  \<^item> \<^verbatim>\<open>Reader\<close> (\<^verbatim>\<open>reader/src/\<close>): the sandbox of the cold reader, the registration of tables, the queries.
  \<^item> \<^verbatim>\<open>Startup\<close> (\<^verbatim>\<open>backend/src/main.rs\<close>): the start of the service, the maintenance, the channels, the
    scheduled export.
  \<^item> \<^verbatim>\<open>Agent\<close> (\<^verbatim>\<open>companion/src/\<close>): the program that watches a host and sends heartbeats; it refines the
    observer that remembers the whole history.
  \<^item> \<^verbatim>\<open>Watch\<close>: the agent, the heartbeat route and the monitor together, over a network that loses requests
    and answers; which outages each side announces.
  \<^item> \<^verbatim>\<open>Delivery\<close> (\<^verbatim>\<open>backend/src/alerting/notify.rs\<close>): the messages sent for an alert and what counts as
    delivered.
  \<^item> \<^verbatim>\<open>Minting\<close> (\<^verbatim>\<open>backend/src/bin/mint_dev_token.rs\<close>, \<^verbatim>\<open>examples/demo-backend/\<close>): the two programs that sign
    tokens; what they sign is accepted by \<^verbatim>\<open>Token\<close>, the log of the example is queued by \<^verbatim>\<open>Api\<close>.
  \<^item> This theory: what needs several components, a retried request and the way of a row from its
    table to the cold reader.

  Conventions. Rust strings are byte lists; durations are natural numbers of nanoseconds, dates
  integers of nanoseconds; \<^verbatim>\<open>f64\<close> is a real number, so rounding and NaN are not
  modelled; machine integers are natural numbers or integers with the wrap-around or the saturation
  written out where it can happen. Dates have no limits, so the panics of chrono on windows of
  millions of years are not modelled. A handler is one step of the state, and the properties quantify over
  all sequences of steps; \<^verbatim>\<open>Concurrent\<close> takes the handlers apart and interleaves their accesses to the
  locks, the maps and the channels. A purge of a map is one action there, and so is the choice of an entry to
  evict. Loops
  that serve events or ticks are folds over their lists. There is no fuel: every recursion is structural or
  has a measure, but for the pages of an export, whose end depends on the answers of the database; it is
  a partial function, proved to return over a table that does not change.

  Not modelled: logging and the printing of results, the HTTP, gRPC and SQL servers themselves, the
  Parquet writer, the object store and the SQL engine of the reader, third-party parsers (JSON, TOML,
  JWT, addresses, URLs), which are parameters of the definitions that use them; the connection to the
  database, the table declarations of the migrations, the clients in other languages and the sites.
\<close>

section \<open>Properties across components\<close>

subsection \<open>A retried request\<close>

text \<open>A batch of logs written as the batcher does: copied to the staging table, then drained.\<close>

definition write_logs :: "stored_log list \<Rightarrow> stored_log part_table \<Rightarrow> nat option \<times> stored_log part_table" where
  "write_logs batch t = write_batch logs_table batch t"

lemma same_keys_same_rows:
  assumes "prefix xs ys" "distinct (map f ys)" "f ` set ys \<subseteq> f ` set xs"
  shows "ys = xs"
proof -
  from assms(1) obtain zs where zs: "ys = xs @ zs" by (auto simp: prefix_def)
  with assms(2,3) have "zs = []" by (cases zs) auto
  with zs show ?thesis by simp
qed

lemma write_again:
  assumes "table_ok logs_table t" "pt_staging t = []"
    and "tk_key logs_table ` set again \<subseteq> tk_key logs_table ` set first"
  shows "fst (write_logs again (snd (write_logs first t))) = Some 0
     \<and> pt_rows (snd (write_logs again (snd (write_logs first t)))) = pt_rows (snd (write_logs first t))"
proof -
  have ok: "table_ok logs_table (table_step logs_table u (CopyIn b))" if "table_ok logs_table u" for u b
    using that by (rule table_step_ok)
  obtain n1 t1 where t1: "write_logs first t = (Some n1, t1)" "table_ok logs_table t1" "pt_staging t1 = []"
      "tk_key logs_table ` set (pt_rows t1) = tk_key logs_table ` set (pt_rows t) \<union> tk_key logs_table ` set first"
    using drain_result [OF ok [OF assms(1), of first]] assms(2) by (auto simp: write_logs_def write_batch_def)
  obtain n2 t2 where t2: "write_logs again t1 = (Some n2, t2)" "table_ok logs_table t2"
      "n2 = length (pt_rows t2) - length (pt_rows t1)" "prefix (pt_rows t1) (pt_rows t2)"
      "tk_key logs_table ` set (pt_rows t2) = tk_key logs_table ` set (pt_rows t1) \<union> tk_key logs_table ` set again"
    using drain_result [OF ok [OF t1(2), of again]] t1(3) by (auto simp: write_logs_def write_batch_def)
  have "pt_rows t2 = pt_rows t1"
  proof (rule same_keys_same_rows [OF t2(4), of "tk_key logs_table"])
    show "distinct (map (tk_key logs_table) (pt_rows t2))" using t2(2) by (simp add: table_ok_def)
    show "tk_key logs_table ` set (pt_rows t2) \<subseteq> tk_key logs_table ` set (pt_rows t1)"
    proof -
      have "tk_key logs_table ` set again \<subseteq> tk_key logs_table ` set (pt_rows t1)"
        unfolding t1(4) using assms(3) by (rule le_supI2)
      then show ?thesis unfolding t2(5) by simp
    qed
  qed
  then show ?thesis unfolding t1(1) snd_conv t2(1) fst_conv t2(3) by simp
qed

lemma log_keys_table_keys:
  "map log_key xs = map log_key ys \<Longrightarrow> tk_key logs_table ` set xs = tk_key logs_table ` set ys"
proof -
  assume e: "map log_key xs = map log_key ys"
  have k: "tk_key logs_table l = (fst (log_key l) div 1000, snd (log_key l))" for l
    by (simp add: logs_table_def log_key_def)
  have "map (tk_key logs_table) zs = map (\<lambda>p. (fst p div 1000, snd p)) (map log_key zs)" for zs
    by (simp add: k comp_def)
  with e have "map (tk_key logs_table) xs = map (tk_key logs_table) ys" by metis
  then show ?thesis by (metis list.set_map)
qed


definition retry_request :: proto_logs_request where
  "retry_request =
     [\<lparr>rg_resource = Some [(''service.name'', Some (PString ''api''))], rg_scopes = [(Some [],
        [\<lparr>pl_time = 5000, pl_observed_time = 0, pl_severity_number = 9, pl_severity_text = [],
          pl_body = Some (PString ''x''), pl_attributes = [(''n'', Some (PInt 7))], pl_trace_id = [1], pl_span_id = []\<rparr>])]\<rparr>]"

definition retry_limits :: validation_limits where
  "retry_limits = \<lparr>max_batch_events = 1, max_payload_bytes = 1, max_properties_bytes = 1, max_string_len = 1,
     max_json_depth = 1, max_past_skew = 4000, max_future_skew = 1, max_otlp_record_bytes = 65536\<rparr>"


subsection \<open>From the table to the cold reader\<close>


definition cold_log :: stored_log where
  "cold_log = \<lparr>sl_log_id = ''l'', sl_log_time = day_ns * 19000 + 7, sl_observed_time = None, sl_received_at = day_ns * 19000 + 9,
     sl_severity_number = Some 9, sl_severity_text = None, sl_body = Some ''hello'', sl_service_name = None,
     sl_scope_name = None, sl_trace_id = None, sl_span_id = None, sl_tenant_id = None, sl_actor_id = None,
     sl_session_id = None, sl_resource_attributes = JObj [], sl_log_attributes = JObj []\<rparr>"


end
